(* ===== verification/Hw_Prelude.thy ===== *)
theory Hw_Prelude
  imports Main "HOL-Library.Word" "HOL-Library.Signed_Division"
begin

text \<open>
  Shared vocabulary of the development: the machine integer types of the Rust code, the
  integer operations of its standard library that the sources call (\<open>checked_add\<close>,
  \<open>saturating_add\<close>, \<open>saturating_sub\<close>, \<open>is_multiple_of\<close>, \<open>to_le_bytes\<close>,
  \<open>from_le_bytes\<close>), and the generic lemmas on words, byte lists and results that the
  component theories use.  Every lemma collection is declared here:
  \<open>rust_int\<close> unfolds the integer operations, \<open>field_simps_bits\<close> evaluates bit fields.
\<close>

unbundle bit_operations_syntax

section \<open>Machine integers\<close>

type_synonym u8 = "8 word"
type_synonym u16 = "16 word"
type_synonym u32 = "32 word"
type_synonym u64 = "64 word"
type_synonym i16 = "16 word"
type_synonym i32 = "32 word"

named_theorems rust_int \<open>definitions of the Rust integer operations\<close>
named_theorems field_simps_bits \<open>evaluation of bit fields of assembled words\<close>

text \<open>
  Rust's signed types are modelled by the same words (\<open>as\<close> casts between \<open>i32\<close> and \<open>u32\<close>
  keep the bits); the signed reading is \<^term>\<open>sint\<close>.
\<close>

definition checked_add :: "'a::len word \<Rightarrow> 'a word \<Rightarrow> 'a word option" where
  "checked_add a b = (if uint a + uint b < 2 ^ LENGTH('a) then Some (a + b) else None)"

definition checked_sub :: "'a::len word \<Rightarrow> 'a word \<Rightarrow> 'a word option" where
  "checked_sub a b = (if b \<le> a then Some (a - b) else None)"

definition checked_mul :: "'a::len word \<Rightarrow> 'a word \<Rightarrow> 'a word option" where
  "checked_mul a b = (if uint a * uint b < 2 ^ LENGTH('a) then Some (a * b) else None)"

definition saturating_add :: "'a::len word \<Rightarrow> 'a word \<Rightarrow> 'a word" where
  "saturating_add a b = (if uint a + uint b < 2 ^ LENGTH('a) then a + b else - 1)"

definition saturating_sub :: "'a::len word \<Rightarrow> 'a word \<Rightarrow> 'a word" where
  "saturating_sub a b = (if b \<le> a then a - b else 0)"

definition is_multiple_of :: "'a::len word \<Rightarrow> 'a word \<Rightarrow> bool" where
  "is_multiple_of a b = (a mod b = 0)"

declare checked_add_def [rust_int] checked_sub_def [rust_int] checked_mul_def [rust_int]
  saturating_add_def [rust_int] saturating_sub_def [rust_int] is_multiple_of_def [rust_int]


section \<open>Bytes\<close>

text \<open>\<open>u16::to_le_bytes\<close>, \<open>u32::to_le_bytes\<close> and their inverses on byte arrays.\<close>

definition le_bytes16 :: "u16 \<Rightarrow> u8 list" where
  "le_bytes16 w = [ucast w, ucast (drop_bit 8 w)]"

definition of_le16 :: "u8 \<Rightarrow> u8 \<Rightarrow> u16" where
  "of_le16 b0 b1 = ucast b0 OR push_bit 8 (ucast b1)"

definition le_bytes32 :: "u32 \<Rightarrow> u8 list" where
  "le_bytes32 w = [ucast w, ucast (drop_bit 8 w), ucast (drop_bit 16 w), ucast (drop_bit 24 w)]"

definition of_le32 :: "u8 \<Rightarrow> u8 \<Rightarrow> u8 \<Rightarrow> u8 \<Rightarrow> u32" where
  "of_le32 b0 b1 b2 b3 =
     ucast b0 OR push_bit 8 (ucast b1) OR push_bit 16 (ucast b2) OR push_bit 24 (ucast b3)"

fun of_le32_list :: "u8 list \<Rightarrow> u32" where
  "of_le32_list [b0, b1, b2, b3] = of_le32 b0 b1 b2 b3"
| "of_le32_list _ = 0"

lemma length_le_bytes16 [simp]: "length (le_bytes16 w) = 2"
  by (simp add: le_bytes16_def)

lemma length_le_bytes32 [simp]: "length (le_bytes32 w) = 4"
  by (simp add: le_bytes32_def)

lemma bit_beyond_length [simp]: "LENGTH('a) \<le> n \<Longrightarrow> \<not> bit (w :: 'a::len word) n"
  using bit_imp_le_length [of w n] by auto

lemma and_mask_take_bit [field_simps_bits]:
  "w AND 1 = take_bit 1 w" "w AND 3 = take_bit 2 w" "w AND 7 = take_bit 3 w"
  "w AND 0xF = take_bit 4 w" "w AND 0x1F = take_bit 5 w" "w AND 0x3F = take_bit 6 w"
  "w AND 0x7F = take_bit 7 w" "w AND 0xFF = take_bit 8 w" "w AND 0x1FF = take_bit 9 w"
  "w AND 0x3FF = take_bit 10 w" "w AND 0x7FF = take_bit 11 w" "w AND 0xFFF = take_bit 12 w"
  "w AND 0xFFFF = take_bit 16 w" "w AND 0xFFFFF = take_bit 20 w" for w :: "'a::len word"
  by (simp_all add: take_bit_eq_mask mask_eq_exp_minus_1)

lemma of_le16_le [simp]: "of_le16 (ucast w) (ucast (drop_bit 8 w)) = w"
  unfolding of_le16_def
  by (rule bit_word_eqI) (auto simp: bit_simps less_diff_conv)

lemma of_le32_le [simp]:
  "of_le32 (ucast w) (ucast (drop_bit 8 w)) (ucast (drop_bit 16 w)) (ucast (drop_bit 24 w)) = w"
  unfolding of_le32_def
proof (rule bit_word_eqI)
  fix n assume "n < LENGTH(32)"
  then consider "n < 8" | "8 \<le> n" "n < 16" | "16 \<le> n" "n < 24" | "24 \<le> n" "n < 32"
    by fastforce
  then show "bit (ucast (ucast (w :: u32) :: u8) OR push_bit 8 (ucast (ucast (drop_bit 8 w) :: u8)) OR
      push_bit 16 (ucast (ucast (drop_bit 16 w) :: u8)) OR
      push_bit 24 (ucast (ucast (drop_bit 24 w) :: u8)) :: u32) n = bit w n"
    by cases (auto simp: bit_simps)
qed

lemma of_le32_list_le [simp]: "of_le32_list (le_bytes32 w) = w"
  by (simp add: le_bytes32_def)

lemma le_bytes32_of_le [simp]: "le_bytes32 (of_le32 b0 b1 b2 b3) = [b0, b1, b2, b3]"
  unfolding le_bytes32_def of_le32_def
  by (auto intro!: bit_word_eqI simp: bit_simps dest: bit_imp_le_length)

lemma le_bytes16_of_le [simp]: "le_bytes16 (of_le16 b0 b1) = [b0, b1]"
  unfolding le_bytes16_def of_le16_def
  by (auto intro!: bit_word_eqI simp: bit_simps dest: bit_imp_le_length)

lemma le_bytes32_inj [simp]: "le_bytes32 v = le_bytes32 w \<longleftrightarrow> v = w"
  using of_le32_list_le by metis

section \<open>Results\<close>

text \<open>
  \<open>Result<T, E>\<close> is \<open>'e + 't\<close>: \<^term>\<open>Inl\<close> carries the error.  A Rust panic (an index out of
  range, a failed \<open>assert!\<close>, \<open>expect\<close>) is \<^term>\<open>None\<close> of an outer option.
\<close>

type_synonym ('e, 'a) result = "'e + 'a"

abbreviation Ok :: "'a \<Rightarrow> ('e, 'a) result" where "Ok \<equiv> Inr"
abbreviation Err :: "'e \<Rightarrow> ('e, 'a) result" where "Err \<equiv> Inl"

definition result_bind :: "('e, 'a) result \<Rightarrow> ('a \<Rightarrow> ('e, 'b) result) \<Rightarrow> ('e, 'b) result" where
  "result_bind r f = (case r of Inl e \<Rightarrow> Inl e | Inr a \<Rightarrow> f a)"

lemma result_bind_simps [simp]:
  "result_bind (Inl e) f = Inl e" "result_bind (Inr a) f = f a"
  by (simp_all add: result_bind_def)

lemma result_bind_Inr_iff:
  "result_bind r f = Inr b \<longleftrightarrow> (\<exists>a. r = Inr a \<and> f a = Inr b)"
  by (cases r) auto

section \<open>Lists\<close>

lemma find_SomeD: "find P xs = Some x \<Longrightarrow> x \<in> set xs \<and> P x"
  by (induction xs) (auto split: if_splits)

lemma find_cong_Some: "x \<in> set xs \<Longrightarrow> P x \<Longrightarrow> find P xs \<noteq> None"
  by (induction xs) auto

section \<open>Word arithmetic without wrap-around\<close>

lemma uint_plus_nowrap:
  "uint (a::'a::len word) + uint b < 2 ^ LENGTH('a) \<Longrightarrow> uint (a + b) = uint a + uint b"
  by (simp add: uint_plus_if_size word_size)

lemma unat_plus_nowrap:
  "unat (a::'a::len word) + unat b < 2 ^ LENGTH('a) \<Longrightarrow> unat (a + b) = unat a + unat b"
  by (simp add: unat_word_ariths)

lemma checked_add_nowrap:
  "unat a + unat b < 2 ^ LENGTH('a) \<Longrightarrow> checked_add a b = Some (a + b)" for a b :: "'a::len word"
proof -
  assume "unat a + unat b < 2 ^ LENGTH('a)"
  then have "int (unat a + unat b) < 2 ^ LENGTH('a)"
    by (metis of_nat_less_iff of_nat_numeral of_nat_power)
  then show ?thesis by (simp add: checked_add_def)
qed

lemma unat_lt2p: "unat (a::'a::len word) < 2 ^ LENGTH('a)"
  by (rule unsigned_less)

lemma u32_bound: "unat (a :: u32) < 4294967296"
  using unat_lt2p [of a] by simp

lemma unat_le_word_iff: "(a::'a::len word) \<le> b \<longleftrightarrow> unat a \<le> unat b"
  by (rule word_le_nat_alt)

lemma unat_saturating_add:
  "unat (saturating_add a (b::'a::len word)) = min (unat a + unat b) (2 ^ LENGTH('a) - 1)"
  (is "?l = ?r")
proof -
  have "uint a + uint b < 2 ^ LENGTH('a) \<longleftrightarrow> unat a + unat b < 2 ^ LENGTH('a)"
    using of_nat_less_iff [of "unat a + unat b" "2 ^ LENGTH('a)", where 'a = int] by simp
  then show ?thesis
    by (simp add: saturating_add_def unat_plus_nowrap unsigned_minus_1_eq_mask mask_eq_exp_minus_1)
qed

lemma unat_mult_nowrap:
  "unat (a::'a::len word) * unat b < 2 ^ LENGTH('a) \<Longrightarrow> unat (a * b) = unat a * unat b"
  by (simp add: unat_word_ariths)

lemma ucast_widen: "(ucast (ucast x :: u32) :: u8) = x" "(ucast (ucast y :: u32) :: u16) = y"
  by (rule bit_word_eqI; simp add: bit_simps)+

lemma checked_mul_nowrap:
  "unat a * unat b < 2 ^ LENGTH('a) \<Longrightarrow> checked_mul a b = Some (a * b)" for a b :: "'a::len word"
proof -
  assume "unat a * unat b < 2 ^ LENGTH('a)"
  then have "int (unat a * unat b) < 2 ^ LENGTH('a)"
    by (metis of_nat_less_iff of_nat_numeral of_nat_power)
  then show ?thesis by (simp add: checked_mul_def)
qed

lemma take_bit_small: "unat w < 2 ^ n \<Longrightarrow> take_bit n w = (w :: 'a::len word)"
  by (metis take_bit_nat_eq_self unsigned_take_bit_eq word_unat_eq_iff)

lemma unat_take_bit_less: "unat (take_bit n w :: 'a::len word) < 2 ^ n"
  by (simp add: unsigned_take_bit_eq take_bit_nat_less_exp)

lemma unat_plus1_take_bit:
  "n < LENGTH('a) \<Longrightarrow> unat (take_bit n w + 1 :: 'a::len word) = unat (take_bit n w) + 1"
proof -
  assume n: "n < LENGTH('a)"
  have "(2::nat) ^ n < 2 ^ LENGTH('a)" using n by simp
  then have "unat (take_bit n w) + 1 < 2 ^ LENGTH('a)"
    by (rule le_less_trans [rotated]) (use unat_take_bit_less [of n w] in simp)
  then show ?thesis by (simp add: unat_plus_nowrap)
qed

lemma unat_ucast_up:
  assumes "LENGTH('a) \<le> LENGTH('b)"
  shows "unat (ucast (w :: 'a::len word) :: 'b::len word) = unat w"
proof -
  have "(2 :: nat) ^ LENGTH('a) \<le> 2 ^ LENGTH('b)" using assms by (intro power_increasing) auto
  with unat_lt2p [of w] have "unat w < 2 ^ LENGTH('b)" by (rule less_le_trans)
  then show ?thesis by (simp add: unsigned_ucast_eq take_bit_nat_eq_self)
qed

lemma unat_minus1: "w \<noteq> 0 \<Longrightarrow> unat (w - 1 :: 'a::len word) = unat w - 1"
  by (rule unat_minus_one)

lemma unat_saturating_sub [simp]:
  "unat (saturating_sub a (b::'a::len word)) = unat a - unat b"
  by (auto simp: saturating_sub_def unat_sub word_le_nat_alt)

end
