(* ===== verification/Address_Map.thy ===== *)
theory Address_Map
  imports Hw_Prelude
begin

text \<open>
  The memory map of the system, after \<open>riscv_shared/src/bus.rs\<close>: base addresses, sizes and
  register offsets of the RTL peripherals and of the host-side devices, the helper functions
  that name register addresses, and the predicates that route an address
  (\<open>is_rtl_peripheral_addr\<close>, \<open>is_valid_dram_range\<close>, \<open>is_valid_sdram_range\<close>).
  The lemmas state that the windows of the RTL peripherals are pairwise disjoint and lie in
  the RTL half of the address space, that every register lies in its window, and that the
  range predicates decide inclusion of the whole access without wrap-around.
\<close>

named_theorems address_map \<open>values of the address map constants\<close>

section \<open>Address space split and device bases\<close>

definition RUST_PERIPH_BASE :: u32 where "RUST_PERIPH_BASE = 0x80000000"
definition RUST_PERIPH_LIMIT :: u32 where "RUST_PERIPH_LIMIT = 0xffffffff"
definition SIM_CONTROL_BASE :: u32 where "SIM_CONTROL_BASE = 0xf0000000"
definition VIDEO_BASE :: u32 where "VIDEO_BASE = 0x90000000"
definition AUDIO_BASE :: u32 where "AUDIO_BASE = 0xa0000000"
definition FIFO_BASE :: u32 where "FIFO_BASE = 0xb0000000"

section \<open>RTL peripheral windows\<close>

definition RTL_PERIPH_BASE :: u32 where "RTL_PERIPH_BASE = 0x0"
definition RTL_PERIPH_LIMIT :: u32 where "RTL_PERIPH_LIMIT = 0x80000000"
definition SRAM_BASE :: u32 where "SRAM_BASE = 0x70000000"
definition SRAM_SIZE :: u32 where "SRAM_SIZE = 0x3000"
definition SDRAM_BASE :: u32 where "SDRAM_BASE = 0x10000000"
definition SDRAM_SIZE :: u32 where "SDRAM_SIZE = 0x4000000"
definition SDRAM_END :: u32 where "SDRAM_END = SDRAM_BASE + SDRAM_SIZE - 1"
definition GFX2D_BASE :: u32 where "GFX2D_BASE = 0x30000000"
definition GFX2D_SIZE :: u32 where "GFX2D_SIZE = 0x6400"
definition GFX2D_SCROLL_X_OFFSET :: u32 where "GFX2D_SCROLL_X_OFFSET = 0x0"
definition GFX2D_SCROLL_Y_OFFSET :: u32 where "GFX2D_SCROLL_Y_OFFSET = 0x4"
definition GFX2D_CONTROL_OFFSET :: u32 where "GFX2D_CONTROL_OFFSET = 0x8"
definition GFX2D_FRAME_INDEX_OFFSET :: u32 where "GFX2D_FRAME_INDEX_OFFSET = 0xc"
definition GFX2D_CHAR_MAP_OFFSET :: u32 where "GFX2D_CHAR_MAP_OFFSET = 0x1000"
definition GFX2D_CHAR_MAP_SIZE :: u32 where "GFX2D_CHAR_MAP_SIZE = 0x400"
definition GFX2D_FONT_OFFSET :: u32 where "GFX2D_FONT_OFFSET = 0x2000"
definition GFX2D_FONT_SIZE :: u32 where "GFX2D_FONT_SIZE = 0x4000"
definition GFX2D_PALETTE_OFFSET :: u32 where "GFX2D_PALETTE_OFFSET = 0x6000"
definition GFX2D_PALETTE_SIZE :: u32 where "GFX2D_PALETTE_SIZE = 0x400"
definition GFX2D_CONTROL_ENABLE :: u32 where "GFX2D_CONTROL_ENABLE = push_bit 0 1"
definition gfx2d_control_addr :: u32 where "gfx2d_control_addr = GFX2D_BASE + GFX2D_CONTROL_OFFSET"
definition SYSCTRL_BASE :: u32 where "SYSCTRL_BASE = 0x20000000"
definition SYSCTRL_SIZE :: u32 where "SYSCTRL_SIZE = 0x28"
definition INTERRUPT_CTRL_BASE :: u32 where "INTERRUPT_CTRL_BASE = 0x40000000"
definition INTERRUPT_CTRL_SIZE :: u32 where "INTERRUPT_CTRL_SIZE = 0x20"
definition INTERRUPT_CTRL_RAW_STATUS_OFFSET :: u32 where "INTERRUPT_CTRL_RAW_STATUS_OFFSET = 0x0"
definition INTERRUPT_CTRL_PENDING_OFFSET :: u32 where "INTERRUPT_CTRL_PENDING_OFFSET = 0x4"
definition INTERRUPT_CTRL_ENABLE_OFFSET :: u32 where "INTERRUPT_CTRL_ENABLE_OFFSET = 0x8"
definition INTERRUPT_CTRL_CLAIM_OFFSET :: u32 where "INTERRUPT_CTRL_CLAIM_OFFSET = 0xc"
definition INTERRUPT_CTRL_COMPLETE_OFFSET :: u32 where "INTERRUPT_CTRL_COMPLETE_OFFSET = 0x10"
definition INTERRUPT_CTRL_PENDING_SET_OFFSET :: u32 where "INTERRUPT_CTRL_PENDING_SET_OFFSET = 0x14"
definition INTERRUPT_CTRL_PENDING_CLEAR_OFFSET :: u32 where "INTERRUPT_CTRL_PENDING_CLEAR_OFFSET = 0x18"
definition INTERRUPT_CTRL_SOURCE_COUNT_OFFSET :: u32 where "INTERRUPT_CTRL_SOURCE_COUNT_OFFSET = 0x1c"
definition INTERRUPT_CTRL_SOURCE_TEST0 :: u32 where "INTERRUPT_CTRL_SOURCE_TEST0 = 1"
definition INTERRUPT_CTRL_SOURCE_TEST1 :: u32 where "INTERRUPT_CTRL_SOURCE_TEST1 = 2"
definition INTERRUPT_CTRL_SOURCE_TEST2 :: u32 where "INTERRUPT_CTRL_SOURCE_TEST2 = 3"
definition INTERRUPT_CTRL_SOURCE_TEST3 :: u32 where "INTERRUPT_CTRL_SOURCE_TEST3 = 4"
definition INTERRUPT_CTRL_SOURCE_AUDIOSYS_FIFO_LOW_WATER :: u32 where "INTERRUPT_CTRL_SOURCE_AUDIOSYS_FIFO_LOW_WATER = 5"

section \<open>Gamepad\<close>

definition GAMEPAD_BASE :: u32 where "GAMEPAD_BASE = 0x50000000"
definition GAMEPAD_SIZE :: u32 where "GAMEPAD_SIZE = 0x10"
definition GAMEPAD_STATE_OFFSET :: u32 where "GAMEPAD_STATE_OFFSET = 0x0"
definition GAMEPAD_DPAD_UP :: u32 where "GAMEPAD_DPAD_UP = push_bit 0 1"
definition GAMEPAD_DPAD_DOWN :: u32 where "GAMEPAD_DPAD_DOWN = push_bit 1 1"
definition GAMEPAD_DPAD_LEFT :: u32 where "GAMEPAD_DPAD_LEFT = push_bit 2 1"
definition GAMEPAD_DPAD_RIGHT :: u32 where "GAMEPAD_DPAD_RIGHT = push_bit 3 1"
definition GAMEPAD_BTN_A :: u32 where "GAMEPAD_BTN_A = push_bit 4 1"
definition GAMEPAD_BTN_B :: u32 where "GAMEPAD_BTN_B = push_bit 5 1"
definition GAMEPAD_BTN_X :: u32 where "GAMEPAD_BTN_X = push_bit 6 1"
definition GAMEPAD_BTN_Y :: u32 where "GAMEPAD_BTN_Y = push_bit 7 1"
definition GAMEPAD_TRIG_L :: u32 where "GAMEPAD_TRIG_L = push_bit 8 1"
definition GAMEPAD_TRIG_R :: u32 where "GAMEPAD_TRIG_R = push_bit 9 1"
definition gamepad_state_addr :: u32 where "gamepad_state_addr = GAMEPAD_BASE + GAMEPAD_STATE_OFFSET"
definition interrupt_ctrl_raw_status_addr :: u32 where "interrupt_ctrl_raw_status_addr = INTERRUPT_CTRL_BASE + INTERRUPT_CTRL_RAW_STATUS_OFFSET"
definition interrupt_ctrl_pending_addr :: u32 where "interrupt_ctrl_pending_addr = INTERRUPT_CTRL_BASE + INTERRUPT_CTRL_PENDING_OFFSET"
definition interrupt_ctrl_enable_addr :: u32 where "interrupt_ctrl_enable_addr = INTERRUPT_CTRL_BASE + INTERRUPT_CTRL_ENABLE_OFFSET"
definition interrupt_ctrl_claim_addr :: u32 where "interrupt_ctrl_claim_addr = INTERRUPT_CTRL_BASE + INTERRUPT_CTRL_CLAIM_OFFSET"
definition interrupt_ctrl_complete_addr :: u32 where "interrupt_ctrl_complete_addr = INTERRUPT_CTRL_BASE + INTERRUPT_CTRL_COMPLETE_OFFSET"
definition interrupt_ctrl_pending_set_addr :: u32 where "interrupt_ctrl_pending_set_addr = INTERRUPT_CTRL_BASE + INTERRUPT_CTRL_PENDING_SET_OFFSET"
definition interrupt_ctrl_pending_clear_addr :: u32 where "interrupt_ctrl_pending_clear_addr = INTERRUPT_CTRL_BASE + INTERRUPT_CTRL_PENDING_CLEAR_OFFSET"
definition interrupt_ctrl_source_count_addr :: u32 where "interrupt_ctrl_source_count_addr = INTERRUPT_CTRL_BASE + INTERRUPT_CTRL_SOURCE_COUNT_OFFSET"

section \<open>Audiosys\<close>

definition AUDIOSYS_BASE :: u32 where "AUDIOSYS_BASE = 0x60000000"
definition AUDIOSYS_SIZE :: u32 where "AUDIOSYS_SIZE = 0x20"
definition AUDIOSYS_MODE_OFFSET :: u32 where "AUDIOSYS_MODE_OFFSET = 0x0"
definition AUDIOSYS_TUNING_WORD_OFFSET :: u32 where "AUDIOSYS_TUNING_WORD_OFFSET = 0x4"
definition AUDIOSYS_FIFO_SAMPLE_OFFSET :: u32 where "AUDIOSYS_FIFO_SAMPLE_OFFSET = 0x8"
definition AUDIOSYS_FIFO_SPACE_OFFSET :: u32 where "AUDIOSYS_FIFO_SPACE_OFFSET = 0xc"
definition AUDIOSYS_CONTROL_OFFSET :: u32 where "AUDIOSYS_CONTROL_OFFSET = AUDIOSYS_MODE_OFFSET"
definition AUDIOSYS_MODE_OFF :: u32 where "AUDIOSYS_MODE_OFF = 0"
definition AUDIOSYS_MODE_TONE :: u32 where "AUDIOSYS_MODE_TONE = 1"
definition AUDIOSYS_MODE_FIFO :: u32 where "AUDIOSYS_MODE_FIFO = 2"
definition AUDIOSYS_FIFO_SAMPLE_LEFT_SHIFT :: u32 where "AUDIOSYS_FIFO_SAMPLE_LEFT_SHIFT = 16"
definition AUDIOSYS_FIFO_SAMPLE_RIGHT_SHIFT :: u32 where "AUDIOSYS_FIFO_SAMPLE_RIGHT_SHIFT = 0"
definition AUDIOSYS_FIFO_SAMPLE_CHANNEL_MASK :: u32 where "AUDIOSYS_FIFO_SAMPLE_CHANNEL_MASK = 0xffff"
definition AUDIOSYS_CONTROL_ENABLE :: u32 where "AUDIOSYS_CONTROL_ENABLE = AUDIOSYS_MODE_TONE"
definition audiosys_mode_addr :: u32 where "audiosys_mode_addr = AUDIOSYS_BASE + AUDIOSYS_MODE_OFFSET"
definition audiosys_control_addr :: u32 where "audiosys_control_addr = audiosys_mode_addr"
definition audiosys_tuning_word_addr :: u32 where "audiosys_tuning_word_addr = AUDIOSYS_BASE + AUDIOSYS_TUNING_WORD_OFFSET"
definition audiosys_fifo_sample_addr :: u32 where "audiosys_fifo_sample_addr = AUDIOSYS_BASE + AUDIOSYS_FIFO_SAMPLE_OFFSET"
definition audiosys_fifo_space_addr :: u32 where "audiosys_fifo_space_addr = AUDIOSYS_BASE + AUDIOSYS_FIFO_SPACE_OFFSET"

section \<open>System controller\<close>

definition SYSCTRL_STATUS_OFFSET :: u32 where "SYSCTRL_STATUS_OFFSET = 0x0"
definition SYSCTRL_RESET_OFFSET :: u32 where "SYSCTRL_RESET_OFFSET = 0x4"
definition SYSCTRL_BOOT_OFFSET :: u32 where "SYSCTRL_BOOT_OFFSET = 0x8"
definition SYSCTRL_HALT_OFFSET :: u32 where "SYSCTRL_HALT_OFFSET = 0xc"
definition SYSCTRL_LED_OUT_OFFSET :: u32 where "SYSCTRL_LED_OUT_OFFSET = 0x10"
definition SYSCTRL_ELAPSED_US_OFFSET :: u32 where "SYSCTRL_ELAPSED_US_OFFSET = 0x14"
definition SYSCTRL_ELAPSED_MS_OFFSET :: u32 where "SYSCTRL_ELAPSED_MS_OFFSET = 0x18"
definition SYSCTRL_ELAPSED_S_OFFSET :: u32 where "SYSCTRL_ELAPSED_S_OFFSET = 0x1c"
definition SYSCTRL_CPU_PC_OFFSET :: u32 where "SYSCTRL_CPU_PC_OFFSET = 0x20"
definition SYSCTRL_CPU_INSTR_OFFSET :: u32 where "SYSCTRL_CPU_INSTR_OFFSET = 0x24"
definition SYSCTRL_RESET_SYSTEM :: u32 where "SYSCTRL_RESET_SYSTEM = 0x0"
definition SYSCTRL_RESET_CPU :: u32 where "SYSCTRL_RESET_CPU = 0x1"
definition SYSCTRL_STATUS_CPU_BOOTING :: u32 where "SYSCTRL_STATUS_CPU_BOOTING = push_bit 0 1"
definition SYSCTRL_STATUS_CPU_HALTED :: u32 where "SYSCTRL_STATUS_CPU_HALTED = push_bit 1 1"
definition sysctrl_status_addr :: u32 where "sysctrl_status_addr = SYSCTRL_BASE + SYSCTRL_STATUS_OFFSET"
definition sysctrl_reset_addr :: u32 where "sysctrl_reset_addr = SYSCTRL_BASE + SYSCTRL_RESET_OFFSET"
definition sysctrl_boot_addr :: u32 where "sysctrl_boot_addr = SYSCTRL_BASE + SYSCTRL_BOOT_OFFSET"
definition sysctrl_halt_addr :: u32 where "sysctrl_halt_addr = SYSCTRL_BASE + SYSCTRL_HALT_OFFSET"
definition sysctrl_led_out_addr :: u32 where "sysctrl_led_out_addr = SYSCTRL_BASE + SYSCTRL_LED_OUT_OFFSET"
definition sysctrl_elapsed_us_addr :: u32 where "sysctrl_elapsed_us_addr = SYSCTRL_BASE + SYSCTRL_ELAPSED_US_OFFSET"
definition sysctrl_elapsed_ms_addr :: u32 where "sysctrl_elapsed_ms_addr = SYSCTRL_BASE + SYSCTRL_ELAPSED_MS_OFFSET"
definition sysctrl_elapsed_s_addr :: u32 where "sysctrl_elapsed_s_addr = SYSCTRL_BASE + SYSCTRL_ELAPSED_S_OFFSET"
definition sysctrl_cpu_pc_addr :: u32 where "sysctrl_cpu_pc_addr = SYSCTRL_BASE + SYSCTRL_CPU_PC_OFFSET"
definition sysctrl_cpu_instr_addr :: u32 where "sysctrl_cpu_instr_addr = SYSCTRL_BASE + SYSCTRL_CPU_INSTR_OFFSET"
definition DRAM_BASE :: u32 where "DRAM_BASE = 0x80000000"
definition DRAM_END :: u32 where "DRAM_END = 0x8fffffff"

declare
  RUST_PERIPH_BASE_def [address_map]
  RUST_PERIPH_LIMIT_def [address_map]
  SIM_CONTROL_BASE_def [address_map]
  VIDEO_BASE_def [address_map]
  AUDIO_BASE_def [address_map]
  FIFO_BASE_def [address_map]
  RTL_PERIPH_BASE_def [address_map]
  RTL_PERIPH_LIMIT_def [address_map]
  SRAM_BASE_def [address_map]
  SRAM_SIZE_def [address_map]
  SDRAM_BASE_def [address_map]
  SDRAM_SIZE_def [address_map]
  SDRAM_END_def [address_map]
  GFX2D_BASE_def [address_map]
  GFX2D_SIZE_def [address_map]
  GFX2D_SCROLL_X_OFFSET_def [address_map]
  GFX2D_SCROLL_Y_OFFSET_def [address_map]
  GFX2D_CONTROL_OFFSET_def [address_map]
  GFX2D_FRAME_INDEX_OFFSET_def [address_map]
  GFX2D_CHAR_MAP_OFFSET_def [address_map]
  GFX2D_CHAR_MAP_SIZE_def [address_map]
  GFX2D_FONT_OFFSET_def [address_map]
  GFX2D_FONT_SIZE_def [address_map]
  GFX2D_PALETTE_OFFSET_def [address_map]
  GFX2D_PALETTE_SIZE_def [address_map]
  GFX2D_CONTROL_ENABLE_def [address_map]
  gfx2d_control_addr_def [address_map]
  SYSCTRL_BASE_def [address_map]
  SYSCTRL_SIZE_def [address_map]
  INTERRUPT_CTRL_BASE_def [address_map]
  INTERRUPT_CTRL_SIZE_def [address_map]
  INTERRUPT_CTRL_RAW_STATUS_OFFSET_def [address_map]
  INTERRUPT_CTRL_PENDING_OFFSET_def [address_map]
  INTERRUPT_CTRL_ENABLE_OFFSET_def [address_map]
  INTERRUPT_CTRL_CLAIM_OFFSET_def [address_map]
  INTERRUPT_CTRL_COMPLETE_OFFSET_def [address_map]
  INTERRUPT_CTRL_PENDING_SET_OFFSET_def [address_map]
  INTERRUPT_CTRL_PENDING_CLEAR_OFFSET_def [address_map]
  INTERRUPT_CTRL_SOURCE_COUNT_OFFSET_def [address_map]
  INTERRUPT_CTRL_SOURCE_TEST0_def [address_map]
  INTERRUPT_CTRL_SOURCE_TEST1_def [address_map]
  INTERRUPT_CTRL_SOURCE_TEST2_def [address_map]
  INTERRUPT_CTRL_SOURCE_TEST3_def [address_map]
  INTERRUPT_CTRL_SOURCE_AUDIOSYS_FIFO_LOW_WATER_def [address_map]
  GAMEPAD_BASE_def [address_map]
  GAMEPAD_SIZE_def [address_map]
  GAMEPAD_STATE_OFFSET_def [address_map]
  GAMEPAD_DPAD_UP_def [address_map]
  GAMEPAD_DPAD_DOWN_def [address_map]
  GAMEPAD_DPAD_LEFT_def [address_map]
  GAMEPAD_DPAD_RIGHT_def [address_map]
  GAMEPAD_BTN_A_def [address_map]
  GAMEPAD_BTN_B_def [address_map]
  GAMEPAD_BTN_X_def [address_map]
  GAMEPAD_BTN_Y_def [address_map]
  GAMEPAD_TRIG_L_def [address_map]
  GAMEPAD_TRIG_R_def [address_map]
  gamepad_state_addr_def [address_map]
  interrupt_ctrl_raw_status_addr_def [address_map]
  interrupt_ctrl_pending_addr_def [address_map]
  interrupt_ctrl_enable_addr_def [address_map]
  interrupt_ctrl_claim_addr_def [address_map]
  interrupt_ctrl_complete_addr_def [address_map]
  interrupt_ctrl_pending_set_addr_def [address_map]
  interrupt_ctrl_pending_clear_addr_def [address_map]
  interrupt_ctrl_source_count_addr_def [address_map]
  AUDIOSYS_BASE_def [address_map]
  AUDIOSYS_SIZE_def [address_map]
  AUDIOSYS_MODE_OFFSET_def [address_map]
  AUDIOSYS_TUNING_WORD_OFFSET_def [address_map]
  AUDIOSYS_FIFO_SAMPLE_OFFSET_def [address_map]
  AUDIOSYS_FIFO_SPACE_OFFSET_def [address_map]
  AUDIOSYS_CONTROL_OFFSET_def [address_map]
  AUDIOSYS_MODE_OFF_def [address_map]
  AUDIOSYS_MODE_TONE_def [address_map]
  AUDIOSYS_MODE_FIFO_def [address_map]
  AUDIOSYS_FIFO_SAMPLE_LEFT_SHIFT_def [address_map]
  AUDIOSYS_FIFO_SAMPLE_RIGHT_SHIFT_def [address_map]
  AUDIOSYS_FIFO_SAMPLE_CHANNEL_MASK_def [address_map]
  AUDIOSYS_CONTROL_ENABLE_def [address_map]
  audiosys_mode_addr_def [address_map]
  audiosys_control_addr_def [address_map]
  audiosys_tuning_word_addr_def [address_map]
  audiosys_fifo_sample_addr_def [address_map]
  audiosys_fifo_space_addr_def [address_map]
  SYSCTRL_STATUS_OFFSET_def [address_map]
  SYSCTRL_RESET_OFFSET_def [address_map]
  SYSCTRL_BOOT_OFFSET_def [address_map]
  SYSCTRL_HALT_OFFSET_def [address_map]
  SYSCTRL_LED_OUT_OFFSET_def [address_map]
  SYSCTRL_ELAPSED_US_OFFSET_def [address_map]
  SYSCTRL_ELAPSED_MS_OFFSET_def [address_map]
  SYSCTRL_ELAPSED_S_OFFSET_def [address_map]
  SYSCTRL_CPU_PC_OFFSET_def [address_map]
  SYSCTRL_CPU_INSTR_OFFSET_def [address_map]
  SYSCTRL_RESET_SYSTEM_def [address_map]
  SYSCTRL_RESET_CPU_def [address_map]
  SYSCTRL_STATUS_CPU_BOOTING_def [address_map]
  SYSCTRL_STATUS_CPU_HALTED_def [address_map]
  sysctrl_status_addr_def [address_map]
  sysctrl_reset_addr_def [address_map]
  sysctrl_boot_addr_def [address_map]
  sysctrl_halt_addr_def [address_map]
  sysctrl_led_out_addr_def [address_map]
  sysctrl_elapsed_us_addr_def [address_map]
  sysctrl_elapsed_ms_addr_def [address_map]
  sysctrl_elapsed_s_addr_def [address_map]
  sysctrl_cpu_pc_addr_def [address_map]
  sysctrl_cpu_instr_addr_def [address_map]
  DRAM_BASE_def [address_map]
  DRAM_END_def [address_map]

section \<open>Packing of stereo samples\<close>

definition audiosys_fifo_pack_stereo_sample :: "u16 \<Rightarrow> u16 \<Rightarrow> u32" where
  "audiosys_fifo_pack_stereo_sample left right =
     push_bit (unat AUDIOSYS_FIFO_SAMPLE_LEFT_SHIFT) (ucast left) OR ucast right"

section \<open>Address predicates\<close>

definition is_rtl_peripheral_addr :: "u32 \<Rightarrow> bool" where
  "is_rtl_peripheral_addr addr = (addr AND 0x80000000 = 0)"

text \<open>\<open>(lo..=hi).contains(&a)\<close>\<close>

definition range_incl :: "u32 \<Rightarrow> u32 \<Rightarrow> u32 \<Rightarrow> bool" where
  "range_incl lo hi a = (lo \<le> a \<and> a \<le> hi)"

definition is_valid_dram_range :: "u32 \<Rightarrow> u32 \<Rightarrow> bool" where
  "is_valid_dram_range addr sz =
     (if sz = 0 then False
      else case checked_add addr (saturating_sub sz 1) of
        None \<Rightarrow> False
      | Some end_addr \<Rightarrow> range_incl DRAM_BASE DRAM_END addr \<and> range_incl DRAM_BASE DRAM_END end_addr)"

definition is_valid_sdram_range :: "u32 \<Rightarrow> u32 \<Rightarrow> bool" where
  "is_valid_sdram_range addr sz =
     (if sz = 0 then False
      else case checked_add addr (sz - 1) of
        None \<Rightarrow> False
      | Some end_addr \<Rightarrow>
          range_incl SDRAM_BASE SDRAM_END addr \<and> range_incl SDRAM_BASE SDRAM_END end_addr)"

section \<open>Lemmas\<close>

lemma top_bit_iff: "bit (a :: u32) 31 \<longleftrightarrow> 0x80000000 \<le> unat a"
proof -
  have "bit a 31 \<longleftrightarrow> odd (unat a div 2 ^ 31)"
    using bit_unsigned_iff [of a 31, where 'a = nat] by (simp add: bit_iff_odd [of "unat a"])
  moreover have "unat a div 2 ^ 31 = (if 0x80000000 \<le> unat a then 1 else 0)"
    using u32_bound [of a] by (auto intro: div_nat_eqI)
  ultimately show ?thesis by simp
qed

lemma is_rtl_peripheral_addr_iff [simp]: "is_rtl_peripheral_addr a \<longleftrightarrow> unat a < 0x80000000"
  using and_exp_eq_0_iff_not_bit [of a 31] top_bit_iff [of a]
  by (simp add: is_rtl_peripheral_addr_def not_le)

lemma checked_add_Some_iff:
  "checked_add a b = Some c \<longleftrightarrow>
     unat a + unat b < 2 ^ LENGTH('a) \<and> unat c = unat a + unat b" for a b c :: "'a::len word"
  using of_nat_less_iff [of "unat a + unat b" "2 ^ LENGTH('a)", where 'a = int]
  by (auto simp: checked_add_def unat_plus_nowrap word_unat_eq_iff)

lemma checked_add_None_iff:
  "checked_add a b = None \<longleftrightarrow> 2 ^ LENGTH('a) \<le> unat a + unat b" for a b :: "'a::len word"
  using of_nat_less_iff [of "unat a + unat b" "2 ^ LENGTH('a)", where 'a = int]
  by (auto simp: checked_add_def)

text \<open>The two range predicates have one proof: inclusion of the access in an inclusive window.\<close>

lemma window_access_iff:
  assumes "sz \<noteq> (0 :: u32)"
  shows "(case checked_add addr (sz - 1) of
      None \<Rightarrow> False | Some e \<Rightarrow> range_incl lo hi addr \<and> range_incl lo hi e) \<longleftrightarrow>
    unat lo \<le> unat addr \<and> unat addr + unat sz \<le> unat hi + 1"
proof -
  have s: "unat sz = Suc (unat (sz - 1))"
    using assms unat_gt_0 [of sz] unat_minus_one [of sz] by simp
  have h: "unat hi < 2 ^ 32" using unat_lt2p [of hi] by simp
  show ?thesis
  proof (cases "checked_add addr (sz - 1)")
    case None
    with s h show ?thesis using checked_add_None_iff [of addr "sz - 1"] by simp
  next
    case (Some e)
    then have "unat e = unat addr + unat (sz - 1)" by (simp add: checked_add_Some_iff)
    with Some s show ?thesis by (auto simp: range_incl_def word_le_nat_alt)
  qed
qed

text \<open>
  The RTL windows of the memory map as (base, size) pairs, and the registers of each
  peripheral as (address, window base, window size).
\<close>

definition rtl_windows :: "(u32 \<times> u32) list" where
  "rtl_windows =
     [(SDRAM_BASE, SDRAM_SIZE), (SYSCTRL_BASE, SYSCTRL_SIZE), (GFX2D_BASE, GFX2D_SIZE),
      (INTERRUPT_CTRL_BASE, INTERRUPT_CTRL_SIZE), (GAMEPAD_BASE, GAMEPAD_SIZE),
      (AUDIOSYS_BASE, AUDIOSYS_SIZE), (SRAM_BASE, SRAM_SIZE)]"

definition in_window :: "u32 \<Rightarrow> u32 \<times> u32 \<Rightarrow> bool" where
  "in_window a w = (unat (fst w) \<le> unat a \<and> unat a < unat (fst w) + unat (snd w))"

definition rtl_registers :: "(u32 \<times> u32 \<times> u32) list" where
  "rtl_registers =
     map (\<lambda>a. (a, GFX2D_BASE, GFX2D_SIZE)) [gfx2d_control_addr]
     @ map (\<lambda>a. (a, GAMEPAD_BASE, GAMEPAD_SIZE)) [gamepad_state_addr]
     @ map (\<lambda>a. (a, INTERRUPT_CTRL_BASE, INTERRUPT_CTRL_SIZE))
         [interrupt_ctrl_raw_status_addr, interrupt_ctrl_pending_addr, interrupt_ctrl_enable_addr,
          interrupt_ctrl_claim_addr, interrupt_ctrl_complete_addr, interrupt_ctrl_pending_set_addr,
          interrupt_ctrl_pending_clear_addr, interrupt_ctrl_source_count_addr]
     @ map (\<lambda>a. (a, AUDIOSYS_BASE, AUDIOSYS_SIZE))
         [audiosys_mode_addr, audiosys_tuning_word_addr, audiosys_fifo_sample_addr,
          audiosys_fifo_space_addr]
     @ map (\<lambda>a. (a, SYSCTRL_BASE, SYSCTRL_SIZE))
         [sysctrl_status_addr, sysctrl_reset_addr, sysctrl_boot_addr, sysctrl_halt_addr,
          sysctrl_led_out_addr, sysctrl_elapsed_us_addr, sysctrl_elapsed_ms_addr,
          sysctrl_elapsed_s_addr, sysctrl_cpu_pc_addr, sysctrl_cpu_instr_addr]"

text \<open>The windows in increasing order of their bases: each ends before the next begins.\<close>

fun windows_ordered :: "(u32 \<times> u32) list \<Rightarrow> bool" where
  "windows_ordered (w # v # ws) =
     (unat (fst w) + unat (snd w) \<le> unat (fst v) \<and> windows_ordered (v # ws))"
| "windows_ordered _ = True"

lemma windows_ordered_above:
  "windows_ordered (w # ws) \<Longrightarrow> v \<in> set ws \<Longrightarrow> unat (fst w) + unat (snd w) \<le> unat (fst v)"
proof (induction ws arbitrary: w)
  case (Cons u us)
  then show ?case using Cons.IH [of u] by (fastforce dest: add_leD1)
qed simp

lemma windows_ordered_disjoint:
  "windows_ordered ws \<Longrightarrow> i < j \<Longrightarrow> j < length ws \<Longrightarrow> in_window a (ws ! i) \<Longrightarrow>
    \<not> in_window a (ws ! j)"
proof (induction ws arbitrary: i j)
  case (Cons w ws)
  show ?case
  proof (cases i)
    case 0
    with Cons.prems have "ws ! (j - 1) \<in> set ws" "0 < j" by auto
    with Cons.prems 0 windows_ordered_above [of w ws "ws ! (j - 1)"] show ?thesis
      by (auto simp: in_window_def nth_Cons')
  next
    case (Suc i')
    from Cons.prems(1) have "windows_ordered ws" by (cases ws) auto
    with Suc Cons.prems Cons.IH [of i' "j - 1"] show ?thesis by (auto simp: nth_Cons')
  qed
qed simp

lemma rtl_windows_ordered: "windows_ordered rtl_windows"
  by (simp add: rtl_windows_def address_map)

text \<open>
  The RTL peripherals of the memory map never overlap.  An address that lies in the window
  of one peripheral lies in the window of no other one, and every window lies in the half of
  the address space that \<open>is_rtl_peripheral_addr\<close> routes to RTL.
\<close>

theorem rtl_windows_disjoint:
  assumes "i < length rtl_windows" "j < length rtl_windows" "i \<noteq> j"
    and "in_window a (rtl_windows ! i)"
  shows "\<not> in_window a (rtl_windows ! j) \<and> is_rtl_peripheral_addr a"
proof -
  have "\<not> in_window a (rtl_windows ! j)"
    using assms windows_ordered_disjoint [OF rtl_windows_ordered, of i j a]
      windows_ordered_disjoint [OF rtl_windows_ordered, of j i a] by (metis nat_neq_iff)
  moreover have "\<forall>w \<in> set rtl_windows. unat (fst w) + unat (snd w) \<le> 0x80000000"
    by (simp add: rtl_windows_def address_map)
  then have "unat (fst (rtl_windows ! i)) + unat (snd (rtl_windows ! i)) \<le> 0x80000000"
    using assms(1) nth_mem by blast
  ultimately show ?thesis using assms(4) by (simp add: in_window_def)
qed

lemma rtl_windows_disjoint_witness:
  "\<not> in_window sysctrl_halt_addr (rtl_windows ! 0) \<and> is_rtl_peripheral_addr sysctrl_halt_addr"
  by (rule rtl_windows_disjoint [of 1])
    (simp_all add: rtl_windows_def in_window_def address_map)

text \<open>
  Every register address that a helper function of \<open>bus.rs\<close> returns lies in the window of
  its peripheral, no two helpers return the same address, and all are word aligned.
\<close>

theorem rtl_registers_in_window:
  "list_all (\<lambda>(a, w). w \<in> set rtl_windows \<and> in_window a w \<and> a AND 3 = 0) rtl_registers \<and>
   distinct (map fst rtl_registers)"
  by (simp add: rtl_registers_def rtl_windows_def in_window_def address_map)

text \<open>The whole access lies in the window, computed without wrap-around.\<close>

lemma valid_dram_range:
  "is_valid_dram_range addr sz \<longleftrightarrow>
     sz \<noteq> 0 \<and> 0x80000000 \<le> unat addr \<and> unat addr + unat sz \<le> 0x90000000"
proof (cases "sz = 0")
  case False
  then have "saturating_sub sz 1 = sz - 1"
    using unat_gt_0 [of sz] by (simp add: saturating_sub_def word_le_nat_alt)
  with False show ?thesis
    by (simp add: is_valid_dram_range_def window_access_iff address_map)
qed (simp add: is_valid_dram_range_def)

lemma valid_sdram_range:
  "is_valid_sdram_range addr sz \<longleftrightarrow>
     sz \<noteq> 0 \<and> 0x10000000 \<le> unat addr \<and> unat addr + unat sz \<le> 0x14000000"
  by (cases "sz = 0") (simp_all add: is_valid_sdram_range_def window_access_iff address_map)

text \<open>
  \<open>is_valid_dram_range\<close> accepts exactly the non-empty accesses whose bytes all lie in
  \<open>[DRAM_BASE, DRAM_END]\<close>, computed without wrap-around, and \<open>is_valid_sdram_range\<close> the same
  for the SDRAM window.
\<close>

theorem valid_range_iff:
  "(is_valid_dram_range addr sz \<longleftrightarrow>
      sz \<noteq> 0 \<and> 0x80000000 \<le> unat addr \<and> unat addr + unat sz \<le> 0x90000000) \<and>
   (is_valid_sdram_range addr sz \<longleftrightarrow>
      sz \<noteq> 0 \<and> 0x10000000 \<le> unat addr \<and> unat addr + unat sz \<le> 0x14000000)"
  using valid_dram_range valid_sdram_range by blast

text \<open>
  Packing a stereo sample loses nothing.  The left channel is the upper half-word and the
  right channel is the lower one.
\<close>

theorem pack_stereo_roundtrip:
  "(ucast (drop_bit 16 (audiosys_fifo_pack_stereo_sample l r)) :: u16) = l \<and>
   (ucast (audiosys_fifo_pack_stereo_sample l r AND AUDIOSYS_FIFO_SAMPLE_CHANNEL_MASK) :: u16) = r"
  by (auto simp: audiosys_fifo_pack_stereo_sample_def address_map and_mask_take_bit bit_simps
      intro!: bit_word_eqI)

end
