(* ===== verification/Memory_Model.thy ===== *)
theory Memory_Model
  imports Address_Map
begin

text \<open>
  The sparse memory of the simulator (\<open>bus-shared/src/memory.rs\<close>) and the locale
  \<open>byte_memory\<close>, the contract of a byte-addressed store: a read after a byte write sees the
  written byte at the written address, if the store accepts that address, and the old byte
  elsewhere.  The store-independent facts about blocks of bytes (read back, frame) are proved
  once in the locale; it is interpreted here on \<open>Memory\<close> and in \<open>Bus_Device\<close> on
  \<open>SystemContext\<close>, which accepts the DRAM range only.
\<close>

section \<open>Blocks of bytes over a byte store\<close>

primrec write_block :: "('m \<Rightarrow> u32 \<Rightarrow> u8 \<Rightarrow> 'm) \<Rightarrow> 'm \<Rightarrow> u32 \<Rightarrow> u8 list \<Rightarrow> 'm" where
  "write_block wr m a [] = m"
| "write_block wr m a (b # bs) = write_block wr (wr m a b) (a + 1) bs"

primrec read_block :: "('m \<Rightarrow> u32 \<Rightarrow> u8) \<Rightarrow> 'm \<Rightarrow> u32 \<Rightarrow> nat \<Rightarrow> u8 list" where
  "read_block rd m a 0 = []"
| "read_block rd m a (Suc n) = rd m a # read_block rd m (a + 1) n"

lemma length_read_block [simp]: "length (read_block rd m a n) = n"
  by (induction n arbitrary: a) auto

lemma read_block_eq: "read_block rd m a n = map (\<lambda>i. rd m (a + of_nat i)) [0..<n]"
proof (induction n arbitrary: a)
  case (Suc n)
  have "[0..<Suc n] = 0 # map Suc [0..<n]" by (simp add: map_Suc_upt upt_conv_Cons del: upt_Suc)
  with Suc show ?case by (simp add: algebra_simps del: upt_Suc)
qed simp

lemma read_block_add:
  "read_block rd m a (i + j) = read_block rd m a i @ read_block rd m (a + of_nat i) j"
  by (induction i arbitrary: a) (simp_all add: algebra_simps)

lemma write_block_append:
  "write_block wr m a (xs @ ys) = write_block wr (write_block wr m a xs) (a + of_nat (length xs)) ys"
  by (induction xs arbitrary: m a) (simp_all add: algebra_simps)

lemma unat_pred_offset: "b \<noteq> a \<Longrightarrow> unat (b - (a + 1)) = unat (b - a) - 1" for a b :: u32
  using unat_minus_one [of "b - a"] by (simp add: algebra_simps)

lemma unat_minus1_u32: "unat (- 1 :: u32) = 4294967295"
  by (simp add: unsigned_minus_1_eq_mask mask_eq_exp_minus_1)

locale byte_memory =
  fixes rd :: "'m \<Rightarrow> u32 \<Rightarrow> u8"
    and wr :: "'m \<Rightarrow> u32 \<Rightarrow> u8 \<Rightarrow> 'm"
    and ok :: "u32 \<Rightarrow> bool"
  assumes rd_wr: "rd (wr m a v) b = (if b = a \<and> ok a then v else rd m b)"
begin

lemma rd_write_block:
  "length bs \<le> 4294967296 \<Longrightarrow>
    rd (write_block wr m a bs) b =
      (if unat (b - a) < length bs \<and> ok b then bs ! unat (b - a) else rd m b)"
proof (induction bs arbitrary: m a)
  case (Cons c cs)
  then have IH: "rd (write_block wr (wr m a c) (a + 1) cs) b =
      (if unat (b - (a + 1)) < length cs \<and> ok b then cs ! unat (b - (a + 1))
       else rd (wr m a c) b)" by simp
  show ?case
  proof (cases "b = a")
    case True
    with Cons.prems IH show ?thesis by (simp add: unat_minus1_u32 rd_wr)
  next
    case False
    then have "0 < unat (b - a)" using unat_gt_0 [of "b - a"] by simp
    with False IH show ?thesis
      by (auto simp: unat_pred_offset [OF False] rd_wr nth_Cons' less_diff_conv
          simp flip: One_nat_def)
  qed
qed simp

lemma read_write_block:
  assumes "length bs \<le> 4294967296" "\<And>i. i < length bs \<Longrightarrow> ok (a + of_nat i)"
  shows "read_block rd (write_block wr m a bs) a (length bs) = bs"
proof (rule nth_equalityI)
  fix i assume i: "i < length (read_block rd (write_block wr m a bs) a (length bs))"
  then have "unat (of_nat i :: u32) = i" using assms by (simp add: unat_of_nat)
  with i assms show "read_block rd (write_block wr m a bs) a (length bs) ! i = bs ! i"
    by (simp add: read_block_eq rd_write_block)
qed simp

lemma rd_write_block_outside:
  assumes "length bs \<le> 4294967296" "length bs \<le> unat (b - a)"
  shows "rd (write_block wr m a bs) b = rd m b"
  using assms by (simp add: rd_write_block)

lemma read_block_frame:
  assumes "length bs \<le> 4294967296" "\<And>i. i < n \<Longrightarrow> length bs \<le> unat (c + of_nat i - a)"
  shows "read_block rd (write_block wr m a bs) c n = read_block rd m c n"
  using assms by (simp add: read_block_eq rd_write_block_outside)

end

section \<open>The \<open>Memory\<close> structure\<close>

text \<open>\<open>HashMap<u32, u8>\<close> as a map; \<open>*self.data.get(&a).unwrap_or(&0)\<close> is \<open>mem_get\<close>.\<close>

record memory =
  mem_data :: "u32 \<rightharpoonup> u8"

definition mem_new :: memory where
  "mem_new = \<lparr>mem_data = Map.empty\<rparr>"

definition mem_get :: "memory \<Rightarrow> u32 \<Rightarrow> u8" where
  "mem_get m a = (case mem_data m a of None \<Rightarrow> 0 | Some b \<Rightarrow> b)"

definition mem_insert :: "memory \<Rightarrow> u32 \<Rightarrow> u8 \<Rightarrow> memory" where
  "mem_insert m a b = m\<lparr>mem_data := (mem_data m)(a \<mapsto> b)\<rparr>"

definition mem_read_word :: "memory \<Rightarrow> u32 \<Rightarrow> u32" where
  "mem_read_word m addr =
    (let b0 = ucast (mem_get m addr);
         b1 = ucast (mem_get m (addr + 1));
         b2 = ucast (mem_get m (addr + 2));
         b3 = ucast (mem_get m (addr + 3))
     in b0 OR push_bit 8 b1 OR push_bit 16 b2 OR push_bit 24 b3)"

definition mem_read_byte :: "memory \<Rightarrow> u32 \<Rightarrow> u8" where
  "mem_read_byte m addr = mem_get m addr"

definition mem_read_halfword :: "memory \<Rightarrow> u32 \<Rightarrow> u16" where
  "mem_read_halfword m addr =
    (let b0 = ucast (mem_get m addr); b1 = ucast (mem_get m (addr + 1))
     in b0 OR push_bit 8 b1)"

definition mem_write_word :: "memory \<Rightarrow> u32 \<Rightarrow> u32 \<Rightarrow> memory" where
  "mem_write_word m addr v =
    (let m = mem_insert m addr (ucast (v AND 0xFF));
         m = mem_insert m (addr + 1) (ucast (drop_bit 8 v AND 0xFF));
         m = mem_insert m (addr + 2) (ucast (drop_bit 16 v AND 0xFF))
     in mem_insert m (addr + 3) (ucast (drop_bit 24 v AND 0xFF)))"

definition mem_write_byte :: "memory \<Rightarrow> u32 \<Rightarrow> u8 \<Rightarrow> memory" where
  "mem_write_byte m addr v = mem_insert m addr v"

definition mem_write_halfword :: "memory \<Rightarrow> u32 \<Rightarrow> u16 \<Rightarrow> memory" where
  "mem_write_halfword m addr v =
    (let m = mem_insert m addr (ucast (v AND 0xFF))
     in mem_insert m (addr + 1) (ucast (drop_bit 8 v AND 0xFF)))"

definition mem_reset :: "memory \<Rightarrow> memory" where
  "mem_reset m = m\<lparr>mem_data := Map.empty\<rparr>"

lemma mem_get_insert [simp]: "mem_get (mem_insert m a v) b = (if b = a then v else mem_get m b)"
  by (simp add: mem_get_def mem_insert_def)

lemma mem_get_new [simp]: "mem_get mem_new a = 0" "mem_get (mem_reset m) a = 0"
  by (simp_all add: mem_get_def mem_new_def mem_reset_def)

interpretation mem: byte_memory mem_read_byte mem_write_byte "\<lambda>_. True"
  by unfold_locales (simp add: mem_read_byte_def mem_write_byte_def)

text \<open>Word and half-word accesses are block accesses of four and two bytes, low byte first.\<close>

lemma ucast_low_byte [simp]: "(ucast (w AND 0xFF) :: u8) = ucast (w :: 'a::len word)"
  by (rule bit_word_eqI) (simp add: and_mask_take_bit bit_simps)

lemma block4_read: "read_block rd m a 4 = [rd m a, rd m (a + 1), rd m (a + 2), rd m (a + 3)]"
  by (simp add: numeral_eq_Suc algebra_simps)

lemma block2_read: "read_block rd m a 2 = [rd m a, rd m (a + 1)]"
  by (simp add: numeral_eq_Suc)

lemma mem_read_word_block: "le_bytes32 (mem_read_word m a) = read_block mem_read_byte m a 4"
  by (simp add: mem_read_word_def mem_read_byte_def block4_read Let_def flip: of_le32_def)

lemma mem_read_halfword_block:
  "le_bytes16 (mem_read_halfword m a) = read_block mem_read_byte m a 2"
  by (simp add: mem_read_halfword_def mem_read_byte_def block2_read Let_def flip: of_le16_def)

lemma mem_write_word_block: "mem_write_word m a v = write_block mem_write_byte m a (le_bytes32 v)"
  by (simp add: mem_write_word_def mem_write_byte_def le_bytes32_def Let_def add.assoc)

lemma mem_write_halfword_block:
  "mem_write_halfword m a v = write_block mem_write_byte m a (le_bytes16 v)"
  by (simp add: mem_write_halfword_def mem_write_byte_def le_bytes16_def Let_def)

lemma mem_word_block_roundtrip:
  "read_block mem_read_byte (mem_write_word m a v) a 4 = le_bytes32 v"
  using mem.read_write_block [of "le_bytes32 v"] by (simp add: mem_write_word_block)

lemma mem_read_write_word [simp]: "mem_read_word (mem_write_word m a v) a = v"
  using mem_word_block_roundtrip mem_read_word_block le_bytes32_inj by metis

lemma mem_read_byte_write_word:
  "mem_read_byte (mem_write_word m a v) b =
     (if unat (b - a) < 4 then le_bytes32 v ! unat (b - a) else mem_read_byte m b)"
  by (simp add: mem_write_word_block mem.rd_write_block)

text \<open>
  A word written to memory is read back, at every address (the accesses wrap around the
  end of the address space), byte by byte in little-endian order, and no byte outside the
  four addressed ones changes.
\<close>

theorem mem_word_roundtrip:
  "mem_read_word (mem_write_word m a v) a = v \<and>
   read_block mem_read_byte (mem_write_word m a v) a 4 = le_bytes32 v \<and>
   (4 \<le> unat (b - a) \<longrightarrow> mem_read_byte (mem_write_word m a v) b = mem_read_byte m b)"
  by (simp add: mem_word_block_roundtrip mem_read_byte_write_word)

lemma mem_word_roundtrip_witness:
  "mem_read_byte (mem_write_word mem_new 0xFFFFFFFE 0x11223344) 2 = mem_read_byte mem_new 2"
  using mem_word_roundtrip [where m = mem_new and a = "0xFFFFFFFE" and v = "0x11223344" and b = 2] by simp

end
