(* ===== verification/Text_Format.thy ===== *)
theory Text_Format
  imports Hw_Prelude
begin

text \<open>
  The number formatting of Rust's \<open>format!\<close> that the sources use in messages and in the
  disassembler: decimal \<open>{}\<close>, lower-case hexadecimal \<open>{:x}\<close>, and hexadecimal padded with
  zeros to a minimum width, \<open>{:08x}\<close>.  The lemmas read the numbers back, so that two
  different numbers never print the same.
\<close>

definition digit_chars :: string where
  "digit_chars = ''0123456789abcdef''"

definition digit_char :: "nat \<Rightarrow> char" where
  "digit_char n = digit_chars ! n"

fun fmt_dec :: "nat \<Rightarrow> string" where
  "fmt_dec n = (if n < 10 then [digit_char n] else fmt_dec (n div 10) @ [digit_char (n mod 10)])"

fun fmt_x :: "nat \<Rightarrow> string" where
  "fmt_x n = (if n < 16 then [digit_char n] else fmt_x (n div 16) @ [digit_char (n mod 16)])"

declare fmt_dec.simps [simp del] fmt_x.simps [simp del]

definition fmt_int :: "int \<Rightarrow> string" where
  "fmt_int i = (if i < 0 then ''-'' @ fmt_dec (nat (- i)) else fmt_dec (nat i))"

definition fmt_0x :: "nat \<Rightarrow> nat \<Rightarrow> string" where
  "fmt_0x w n = replicate (w - length (fmt_x n)) (CHR ''0'') @ fmt_x n"

definition fmt_dec_word :: "'a::len word \<Rightarrow> string" where
  "fmt_dec_word w = fmt_dec (unat w)"

definition fmt_x_word :: "'a::len word \<Rightarrow> string" where
  "fmt_x_word w = fmt_x (unat w)"

definition fmt_08x :: "u32 \<Rightarrow> string" where
  "fmt_08x w = fmt_0x 8 (unat w)"

section \<open>Reading digits\<close>

text \<open>\<open>char::to_digit(radix)\<close>, and the digit loop of \<open>from_str_radix\<close> on an unbounded value.\<close>

definition to_digit :: "nat \<Rightarrow> char \<Rightarrow> nat option" where
  "to_digit radix c =
    (let n = of_char c :: nat;
         d = (if 48 \<le> n \<and> n \<le> 57 then Some (n - 48)
              else if 97 \<le> n \<and> n \<le> 122 then Some (n - 87)
              else if 65 \<le> n \<and> n \<le> 90 then Some (n - 55)
              else None)
     in case d of None \<Rightarrow> None | Some k \<Rightarrow> if k < radix then Some k else None)"

fun read_digits :: "nat \<Rightarrow> nat \<Rightarrow> string \<Rightarrow> nat option" where
  "read_digits radix acc [] = Some acc"
| "read_digits radix acc (c # cs) =
     (case to_digit radix c of None \<Rightarrow> None | Some d \<Rightarrow> read_digits radix (acc * radix + d) cs)"

lemma read_digits_append:
  "read_digits r a (xs @ ys) =
     (case read_digits r a xs of None \<Rightarrow> None | Some b \<Rightarrow> read_digits r b ys)"
  by (induction r a xs rule: read_digits.induct) (auto split: option.splits)

lemma to_digit_char:
  assumes "n < r" "r \<le> 16" shows "to_digit r (digit_char n) = Some n"
proof -
  have "list_all (\<lambda>k. to_digit 16 (digit_char k) = Some k) [0..<16]" by code_simp
  with assms have "to_digit 16 (digit_char n) = Some n" by (simp add: list_all_iff)
  with assms show ?thesis
    by (auto simp: to_digit_def Let_def split: option.splits if_splits)
qed

lemma read_digits_fmt_dec [simp]: "read_digits 10 0 (fmt_dec n) = Some n"
proof (induction n rule: fmt_dec.induct)
  case (1 n)
  then show ?case
    by (subst fmt_dec.simps) (simp add: read_digits_append to_digit_char)
qed

lemma read_digits_fmt_x [simp]: "read_digits 16 0 (fmt_x n) = Some n"
proof (induction n rule: fmt_x.induct)
  case (1 n)
  then show ?case
    by (subst fmt_x.simps) (simp add: read_digits_append to_digit_char)
qed

lemma read_digits_zeros: "read_digits 16 0 (replicate k (CHR ''0'') @ s) = read_digits 16 0 s"
  by (induction k) (simp_all add: to_digit_def)

lemma read_digits_fmt_0x [simp]: "read_digits 16 0 (fmt_0x w n) = Some n"
  by (simp add: fmt_0x_def read_digits_zeros)

lemma fmt_dec_inj [simp]: "fmt_dec m = fmt_dec n \<longleftrightarrow> m = n"
  by (metis option.inject read_digits_fmt_dec)

lemma fmt_x_inj [simp]: "fmt_x m = fmt_x n \<longleftrightarrow> m = n"
  by (metis option.inject read_digits_fmt_x)

lemma fmt_08x_inj [simp]: "fmt_08x v = fmt_08x w \<longleftrightarrow> v = w"
  unfolding fmt_08x_def by (metis option.inject read_digits_fmt_0x word_unat_eq_iff)

lemma fmt_x_nonempty [simp]: "fmt_x n \<noteq> []"
  by (subst fmt_x.simps) simp

lemma fmt_dec_nonempty [simp]: "fmt_dec n \<noteq> []"
  by (subst fmt_dec.simps) simp

end
