(* ===== verification/Bus_Device.thy ===== *)
theory Bus_Device
  imports Memory_Model Text_Format
begin

text \<open>
  The device interface of the simulated bus (\<open>bus-shared/src/bus_device.rs\<close>): the
  \<open>SystemContext\<close> through which a device reaches DRAM, the bulk read helpers, the error types
  with their messages, and the trait \<open>BusDevice\<close> as a record of operations with its default
  methods.  The locale \<open>bus_device\<close> is the contract that the bus relies on; every device
  theory interprets it.
\<close>

section \<open>System context\<close>

record system_context =
  ctx_memory :: memory
  ctx_elapsed_time_us :: u64

definition context_new :: "memory \<Rightarrow> system_context" where
  "context_new m = \<lparr>ctx_memory = m, ctx_elapsed_time_us = 0\<rparr>"

definition with_elapsed_time :: "memory \<Rightarrow> u64 \<Rightarrow> system_context" where
  "with_elapsed_time m t = \<lparr>ctx_memory = m, ctx_elapsed_time_us = t\<rparr>"

definition ctx_read_word :: "system_context \<Rightarrow> u32 \<Rightarrow> u32" where
  "ctx_read_word ctx addr =
     (if \<not> is_valid_dram_range addr 4 then 0 else mem_read_word (ctx_memory ctx) addr)"

definition ctx_read_halfword :: "system_context \<Rightarrow> u32 \<Rightarrow> u16" where
  "ctx_read_halfword ctx addr =
     (if \<not> is_valid_dram_range addr 2 then 0 else mem_read_halfword (ctx_memory ctx) addr)"

definition ctx_read_byte :: "system_context \<Rightarrow> u32 \<Rightarrow> u8" where
  "ctx_read_byte ctx addr =
     (if \<not> is_valid_dram_range addr 1 then 0 else mem_read_byte (ctx_memory ctx) addr)"

definition ctx_write_word :: "system_context \<Rightarrow> u32 \<Rightarrow> u32 \<Rightarrow> system_context" where
  "ctx_write_word ctx addr v =
     (if \<not> is_valid_dram_range addr 4 then ctx
      else ctx\<lparr>ctx_memory := mem_write_word (ctx_memory ctx) addr v\<rparr>)"

definition ctx_write_halfword :: "system_context \<Rightarrow> u32 \<Rightarrow> u16 \<Rightarrow> system_context" where
  "ctx_write_halfword ctx addr v =
     (if \<not> is_valid_dram_range addr 2 then ctx
      else ctx\<lparr>ctx_memory := mem_write_halfword (ctx_memory ctx) addr v\<rparr>)"

definition ctx_write_byte :: "system_context \<Rightarrow> u32 \<Rightarrow> u8 \<Rightarrow> system_context" where
  "ctx_write_byte ctx addr v =
     (if \<not> is_valid_dram_range addr 1 then ctx
      else ctx\<lparr>ctx_memory := mem_write_byte (ctx_memory ctx) addr v\<rparr>)"

definition in_dram :: "u32 \<Rightarrow> bool" where
  "in_dram a = is_valid_dram_range a 1"

lemma in_dram_iff: "in_dram a \<longleftrightarrow> 0x80000000 \<le> unat a \<and> unat a < 0x90000000"
  using valid_dram_range [of a 1] by (auto simp: in_dram_def)

interpretation ctx: byte_memory ctx_read_byte ctx_write_byte in_dram
  by unfold_locales
    (auto simp: ctx_read_byte_def ctx_write_byte_def in_dram_def mem.rd_wr)

lemma ctx_write_elapsed [simp]:
  "ctx_elapsed_time_us (ctx_write_word c a v) = ctx_elapsed_time_us c"
  "ctx_elapsed_time_us (ctx_write_halfword c a h) = ctx_elapsed_time_us c"
  "ctx_elapsed_time_us (ctx_write_byte c a b) = ctx_elapsed_time_us c"
  by (simp_all add: ctx_write_word_def ctx_write_halfword_def ctx_write_byte_def)

text \<open>A valid access of several bytes touches valid bytes only, so block reads agree.\<close>

lemma valid_dram_offset:
  assumes "is_valid_dram_range a n" "i < unat n"
  shows "in_dram (a + of_nat i)" "unat (a + of_nat i) = unat a + i"
proof -
  from assms have b: "0x80000000 \<le> unat a" "unat a + i < 0x90000000"
    by (auto simp: valid_dram_range)
  then have "unat (of_nat i :: u32) = i" by (simp add: unat_of_nat)
  with b show "unat (a + of_nat i) = unat a + i" by (simp add: unat_plus_nowrap)
  with b show "in_dram (a + of_nat i)" by (simp add: in_dram_iff)
qed

lemma ctx_read_byte_valid:
  "in_dram a \<Longrightarrow> ctx_read_byte c a = mem_read_byte (ctx_memory c) a"
  by (simp add: ctx_read_byte_def in_dram_def)

lemma ctx_read_block_valid:
  assumes "is_valid_dram_range a n" "k = unat n"
  shows "read_block ctx_read_byte c a k = read_block mem_read_byte (ctx_memory c) a k"
  using assms by (simp add: read_block_eq ctx_read_byte_valid valid_dram_offset)

lemma ctx_read_word_block:
  "is_valid_dram_range a 4 \<Longrightarrow> le_bytes32 (ctx_read_word c a) = read_block ctx_read_byte c a 4"
  using ctx_read_block_valid [of a 4 4] by (simp add: ctx_read_word_def mem_read_word_block)

lemma ctx_read_halfword_block:
  "is_valid_dram_range a 2 \<Longrightarrow> le_bytes16 (ctx_read_halfword c a) = read_block ctx_read_byte c a 2"
  using ctx_read_block_valid [of a 2 2] by (simp add: ctx_read_halfword_def mem_read_halfword_block)

section \<open>Bulk reads\<close>

definition optimal_read_size :: "u32 \<Rightarrow> u32 \<Rightarrow> u32" where
  "optimal_read_size addr bytes_remaining =
    (let max_size = min bytes_remaining 4
     in if max_size \<ge> 4 \<and> is_multiple_of addr 4 then 4
        else if max_size \<ge> 2 \<and> is_multiple_of addr 2 then 2
        else 1)"

text \<open>The 4-byte array and the number of valid bytes in it.\<close>

definition read_memory_chunk :: "system_context \<Rightarrow> u32 \<Rightarrow> u32 \<Rightarrow> u8 list \<times> u32" where
  "read_memory_chunk ctx addr bytes_remaining =
    (let read_size = optimal_read_size addr bytes_remaining;
         bytes = (if read_size = 4 then le_bytes32 (ctx_read_word ctx addr)
                  else if read_size = 2 then le_bytes16 (ctx_read_halfword ctx addr) @ [0, 0]
                  else [ctx_read_byte ctx addr, 0, 0, 0])
     in (bytes, read_size))"

lemma optimal_read_size_eq:
  "optimal_read_size a n =
     (if 4 \<le> n \<and> a mod 4 = 0 then 4 else if 2 \<le> n \<and> a mod 2 = 0 then 2 else 1)"
proof -
  have "2 \<le> min n 4 \<longleftrightarrow> 2 \<le> n" "4 \<le> min n 4 \<longleftrightarrow> 4 \<le> n" for n :: u32
    by (simp_all add: min_def word_le_nat_alt)
  then show ?thesis by (simp add: optimal_read_size_def Let_def is_multiple_of_def)
qed

lemma optimal_read_size_cases:
  obtains "optimal_read_size a n = 4" "4 \<le> n" "a mod 4 = 0"
  | "optimal_read_size a n = 2" "2 \<le> n" "a mod 2 = 0"
  | "optimal_read_size a n = 1"
  unfolding optimal_read_size_eq by metis

lemma optimal_read_size_le: "n \<noteq> 0 \<Longrightarrow> optimal_read_size a n \<le> n"
  by (rule optimal_read_size_cases [of a n]) (use unat_gt_0 [of n] in \<open>simp_all add: word_le_nat_alt\<close>)

lemma optimal_read_size_pos: "0 < unat (optimal_read_size a n)"
  by (rule optimal_read_size_cases [of a n]) simp_all

lemma aligned_dram_all_or_nothing:
  assumes "a mod k = 0" "k = 2 \<or> k = 4" "i < unat k"
  shows "in_dram (a + of_nat i) \<longleftrightarrow> is_valid_dram_range a k"
proof (cases "is_valid_dram_range a k")
  case True
  with assms show ?thesis by (simp add: valid_dram_offset)
next
  case False
  from assms(1) have "unat a mod unat k = 0" by (metis unat_0 unat_mod_distrib)
  with assms(2,3) False have u: "unat a + i < 0x80000000 \<or> 0x90000000 \<le> unat a"
    "unat a + i < 4294967296"
    using u32_bound [of a] by (auto simp: valid_dram_range)
  from assms(2,3) have "unat (of_nat i :: u32) = i" by (auto simp: unat_of_nat)
  with u have "unat (a + of_nat i) = unat a + i" by (simp add: unat_plus_nowrap)
  with u False show ?thesis by (auto simp: in_dram_iff)
qed

lemma ctx_read_byte_invalid: "\<not> in_dram a \<Longrightarrow> ctx_read_byte c a = 0"
  by (simp add: ctx_read_byte_def in_dram_def)

lemma read_block_zero:
  "(\<And>i. i < k \<Longrightarrow> \<not> in_dram (a + of_nat i)) \<Longrightarrow> read_block ctx_read_byte c a k = replicate k 0"
  by (simp add: read_block_eq ctx_read_byte_invalid list_eq_iff_nth_eq)

text \<open>
  An aligned access is inside DRAM or outside it as a whole, so the chunked read returns
  exactly the bytes that single byte reads return, at every address.
\<close>

lemma read_memory_chunk_bytes:
  assumes "read_memory_chunk c a n = (bytes, k)"
  shows "take (unat k) bytes = read_block ctx_read_byte c a (unat k)" "length bytes = 4"
    "k = optimal_read_size a n"
proof -
  show k: "k = optimal_read_size a n" "length bytes = 4"
    using assms by (auto simp: read_memory_chunk_def Let_def)
  show "take (unat k) bytes = read_block ctx_read_byte c a (unat k)"
  proof (rule optimal_read_size_cases [of a n])
    assume o: "optimal_read_size a n = 4" "a mod 4 = 0"
    have "le_bytes32 (ctx_read_word c a) = read_block ctx_read_byte c a 4"
      using aligned_dram_all_or_nothing [OF o(2)] read_block_zero [of 4 a c]
      by (cases "is_valid_dram_range a 4")
        (simp_all add: ctx_read_word_block, simp add: ctx_read_word_def le_bytes32_def
          numeral_eq_Suc)
    with assms o k show ?thesis by (auto simp: read_memory_chunk_def Let_def)
  next
    assume o: "optimal_read_size a n = 2" "a mod 2 = 0"
    have "le_bytes16 (ctx_read_halfword c a) = read_block ctx_read_byte c a 2"
      using aligned_dram_all_or_nothing [OF o(2)] read_block_zero [of 2 a c]
      by (cases "is_valid_dram_range a 2")
        (simp_all add: ctx_read_halfword_block, simp add: ctx_read_halfword_def le_bytes16_def
          numeral_eq_Suc)
    with assms o k show ?thesis by (auto simp: read_memory_chunk_def Let_def)
  next
    assume "optimal_read_size a n = 1"
    with assms k show ?thesis by (auto simp: read_memory_chunk_def Let_def)
  qed
qed

section \<open>Errors\<close>

datatype bus_device_error =
    WriteToReadOnly u32
  | ReadFromWriteOnly u32
  | InvalidAddress u32
  | UnsupportedSize u32 u8
  | Other string

fun bus_device_error_fmt :: "bus_device_error \<Rightarrow> string" where
  "bus_device_error_fmt (WriteToReadOnly offset) =
     ''Write to read-only register at offset 0x'' @ fmt_08x offset"
| "bus_device_error_fmt (ReadFromWriteOnly offset) =
     ''Read from write-only register at offset 0x'' @ fmt_08x offset"
| "bus_device_error_fmt (InvalidAddress offset) = ''Invalid address offset 0x'' @ fmt_08x offset"
| "bus_device_error_fmt (UnsupportedSize offset sz) =
     ''Unsupported size '' @ fmt_dec_word sz @ '' at offset 0x'' @ fmt_08x offset"
| "bus_device_error_fmt (Other msg) = ''Device error: '' @ msg"

datatype registration_error =
    AddressOverlap (new_base: u32) (new_end: u32) (existing_base: u32) (existing_end: u32)
      (existing_name: string)
  | InvalidAlignment u32
  | InvalidBaseAlignment u32
  | ZeroSize

fun registration_error_fmt :: "registration_error \<Rightarrow> string" where
  "registration_error_fmt (AddressOverlap nb ne eb ee nm) =
     ''Address range overlap: new device [0x'' @ fmt_08x nb @ '', 0x'' @ fmt_08x ne
     @ '') overlaps with '' @ [CHR 0x27] @ nm @ [CHR 0x27] @ '' [0x'' @ fmt_08x eb @ '', 0x''
     @ fmt_08x ee @ '')''"
| "registration_error_fmt (InvalidAlignment sz) =
     ''Device size '' @ fmt_dec_word sz @ '' is not word-aligned (must be multiple of 4)''"
| "registration_error_fmt (InvalidBaseAlignment base) =
     ''Device base address 0x'' @ fmt_08x base @ '' is not word-aligned''"
| "registration_error_fmt ZeroSize = ''Device size is zero''"

definition ranges_overlap :: "u32 \<Rightarrow> u32 \<Rightarrow> u32 \<Rightarrow> u32 \<Rightarrow> bool" where
  "ranges_overlap a_start a_end b_start b_end = (a_start < b_end \<and> b_start < a_end)"

text \<open>For non-empty ranges the test decides whether they share an address.\<close>

lemma ranges_overlap_iff:
  assumes "a0 < a1" "b0 < b1"
  shows "ranges_overlap a0 a1 b0 b1 \<longleftrightarrow> (\<exists>x. a0 \<le> x \<and> x < a1 \<and> b0 \<le> x \<and> x < b1)"
proof
  assume "ranges_overlap a0 a1 b0 b1"
  with assms have "a0 \<le> max a0 b0 \<and> max a0 b0 < a1 \<and> b0 \<le> max a0 b0 \<and> max a0 b0 < b1"
    by (auto simp: ranges_overlap_def max_def not_le intro: less_imp_le)
  then show "\<exists>x. a0 \<le> x \<and> x < a1 \<and> b0 \<le> x \<and> x < b1" by blast
qed (auto simp: ranges_overlap_def)

section \<open>The trait \<open>BusDevice\<close>\<close>

text \<open>
  A trait object is a record of its methods over the device's state; a method takes the
  context by reference, so it returns the device and the context.
\<close>

type_synonym ('d, 'a) handler =
  "(bus_device_error, 'a) result \<times> 'd \<times> system_context"

record 'd bus_device_ops =
  bd_read_word :: "'d \<Rightarrow> system_context \<Rightarrow> u32 \<Rightarrow> ('d, u32) handler"
  bd_write_word :: "'d \<Rightarrow> system_context \<Rightarrow> u32 \<Rightarrow> u32 \<Rightarrow> ('d, unit) handler"
  bd_read_halfword :: "'d \<Rightarrow> system_context \<Rightarrow> u32 \<Rightarrow> ('d, u16) handler"
  bd_write_halfword :: "'d \<Rightarrow> system_context \<Rightarrow> u32 \<Rightarrow> u16 \<Rightarrow> ('d, unit) handler"
  bd_read_byte :: "'d \<Rightarrow> system_context \<Rightarrow> u32 \<Rightarrow> ('d, u8) handler"
  bd_write_byte :: "'d \<Rightarrow> system_context \<Rightarrow> u32 \<Rightarrow> u8 \<Rightarrow> ('d, unit) handler"
  bd_size :: "'d \<Rightarrow> u32"
  bd_name :: "'d \<Rightarrow> string"
  bd_reset :: "'d \<Rightarrow> system_context \<Rightarrow> 'd \<times> system_context"
  bd_clock_cycle :: "'d \<Rightarrow> system_context \<Rightarrow> 'd \<times> system_context"

text \<open>The default methods of the trait.\<close>

definition default_read_halfword :: "'d \<Rightarrow> system_context \<Rightarrow> u32 \<Rightarrow> ('d, u16) handler" where
  "default_read_halfword d ctx offset = (Err (UnsupportedSize offset 2), d, ctx)"

definition default_write_halfword ::
  "'d \<Rightarrow> system_context \<Rightarrow> u32 \<Rightarrow> u16 \<Rightarrow> ('d, unit) handler" where
  "default_write_halfword d ctx offset v = (Err (UnsupportedSize offset 2), d, ctx)"

definition default_read_byte :: "'d \<Rightarrow> system_context \<Rightarrow> u32 \<Rightarrow> ('d, u8) handler" where
  "default_read_byte d ctx offset = (Err (UnsupportedSize offset 1), d, ctx)"

definition default_write_byte ::
  "'d \<Rightarrow> system_context \<Rightarrow> u32 \<Rightarrow> u8 \<Rightarrow> ('d, unit) handler" where
  "default_write_byte d ctx offset v = (Err (UnsupportedSize offset 1), d, ctx)"

definition default_clock_cycle :: "'d \<Rightarrow> system_context \<Rightarrow> 'd \<times> system_context" where
  "default_clock_cycle d ctx = (d, ctx)"

lemmas default_ops = default_read_halfword_def default_write_halfword_def
  default_read_byte_def default_write_byte_def default_clock_cycle_def

section \<open>The device contract\<close>

text \<open>One request of the bus to a device, with the outcome as the value read (0 for writes).\<close>

datatype device_request =
    ReqReadWord u32 | ReqWriteWord u32 u32
  | ReqReadHalfword u32 | ReqWriteHalfword u32 u16
  | ReqReadByte u32 | ReqWriteByte u32 u8
  | ReqReset | ReqClock

definition outcome ::
  "('a \<Rightarrow> u32) \<Rightarrow> ('d, 'a) handler \<Rightarrow> ('d, u32) handler" where
  "outcome f h = (map_sum id f (fst h), snd h)"

fun device_step ::
  "'d bus_device_ops \<Rightarrow> device_request \<Rightarrow> 'd \<times> system_context \<Rightarrow> ('d, u32) handler" where
  "device_step ops (ReqReadWord a) (d, c) = bd_read_word ops d c a"
| "device_step ops (ReqWriteWord a v) (d, c) = outcome (\<lambda>_. 0) (bd_write_word ops d c a v)"
| "device_step ops (ReqReadHalfword a) (d, c) = outcome ucast (bd_read_halfword ops d c a)"
| "device_step ops (ReqWriteHalfword a v) (d, c) =
     outcome (\<lambda>_. 0) (bd_write_halfword ops d c a v)"
| "device_step ops (ReqReadByte a) (d, c) = outcome ucast (bd_read_byte ops d c a)"
| "device_step ops (ReqWriteByte a v) (d, c) = outcome (\<lambda>_. 0) (bd_write_byte ops d c a v)"
| "device_step ops ReqReset (d, c) = (Ok 0, bd_reset ops d c)"
| "device_step ops ReqClock (d, c) = (Ok 0, bd_clock_cycle ops d c)"

definition device_run ::
  "'d bus_device_ops \<Rightarrow> device_request list \<Rightarrow> 'd \<times> system_context \<Rightarrow> 'd \<times> system_context" where
  "device_run ops rs s = fold (\<lambda>r s. snd (device_step ops r s)) rs s"

text \<open>What a device may do to the context: change DRAM bytes only, never the time.\<close>

definition ctx_effect :: "system_context \<Rightarrow> system_context \<Rightarrow> bool" where
  "ctx_effect c c' \<longleftrightarrow> ctx_elapsed_time_us c' = ctx_elapsed_time_us c \<and>
     (\<forall>a. \<not> in_dram a \<longrightarrow> mem_get (ctx_memory c') a = mem_get (ctx_memory c) a)"

lemma ctx_effect_refl [simp, intro]: "ctx_effect c c"
  by (simp add: ctx_effect_def)

lemma ctx_effect_trans: "ctx_effect a b \<Longrightarrow> ctx_effect b c \<Longrightarrow> ctx_effect a c"
  by (simp add: ctx_effect_def)

lemma ctx_effect_write_byte [simp, intro]: "ctx_effect c (ctx_write_byte c a v)"
  by (auto simp: ctx_effect_def ctx_write_byte_def mem_write_byte_def in_dram_def)

lemma mem_get_write_word_outside:
  assumes "is_valid_dram_range a 4" "\<not> in_dram b"
  shows "mem_get (mem_write_word m a v) b = mem_get m b"
  using assms mem.rd_write_block [of "le_bytes32 v" m a b] valid_dram_offset [of a 4 "unat (b - a)"]
  by (auto simp: mem_write_word_block mem_read_byte_def)

lemma mem_get_write_halfword_outside:
  assumes "is_valid_dram_range a 2" "\<not> in_dram b"
  shows "mem_get (mem_write_halfword m a v) b = mem_get m b"
  using assms mem.rd_write_block [of "le_bytes16 v" m a b] valid_dram_offset [of a 2 "unat (b - a)"]
  by (auto simp: mem_write_halfword_block mem_read_byte_def)

lemma ctx_effect_write_word [simp, intro]: "ctx_effect c (ctx_write_word c a v)"
  by (auto simp: ctx_effect_def ctx_write_word_def mem_get_write_word_outside)

lemma ctx_effect_write_halfword [simp, intro]: "ctx_effect c (ctx_write_halfword c a v)"
  by (auto simp: ctx_effect_def ctx_write_halfword_def mem_get_write_halfword_outside)

locale bus_device =
  fixes ops :: "'d bus_device_ops" and inv :: "'d \<Rightarrow> bool"
  assumes step_inv: "inv d \<Longrightarrow> device_step ops r (d, c) = (x, d', c') \<Longrightarrow> inv d'"
    and step_size: "device_step ops r (d, c) = (x, d', c') \<Longrightarrow> bd_size ops d' = bd_size ops d"
    and step_name: "device_step ops r (d, c) = (x, d', c') \<Longrightarrow> bd_name ops d' = bd_name ops d"
    and step_ctx: "device_step ops r (d, c) = (x, d', c') \<Longrightarrow> ctx_effect c c'"
    and step_err: "device_step ops r (d, c) = (Inl e, d', c') \<Longrightarrow> d' = d \<and> c' = c"
    and size_pos: "bd_size ops d \<noteq> 0"
    and size_aligned: "bd_size ops d mod 4 = 0"
begin

lemma run_inv:
  "inv d \<Longrightarrow> device_run ops rs (d, c) = (d', c') \<Longrightarrow>
    inv d' \<and> bd_size ops d' = bd_size ops d \<and> bd_name ops d' = bd_name ops d \<and> ctx_effect c c'"
proof (induction rs arbitrary: d c)
  case (Cons r rs)
  obtain x d1 c1 where s: "device_step ops r (d, c) = (x, d1, c1)" by (metis surj_pair)
  with Cons.prems have "device_run ops rs (d1, c1) = (d', c')" by (simp add: device_run_def)
  with Cons.IH [of d1 c1] s Cons.prems(1) step_inv step_size step_name step_ctx ctx_effect_trans
  show ?case by metis
qed (simp add: device_run_def)

end

end
