(* ===== verification/Simple_Devices.thy ===== *)
theory Simple_Devices
  imports Bus_Device
begin

text \<open>
  The devices without multi-cycle behaviour: \<open>Dram\<close> (\<open>bus-shared/src/dram.rs\<close>), which forwards
  to the context, \<open>SimControl\<close> (\<open>sim_control.rs\<close>), whose one register latches the termination
  code, and \<open>Fifo\<close> (\<open>fifo.rs\<close>), the byte pipe between host and CPU.  A callback of the FIFO
  is modelled by the log of the bytes it received.
\<close>

section \<open>Dram\<close>

record dram =
  dram_base_addr :: u32

definition dram_new :: dram where
  "dram_new = \<lparr>dram_base_addr = DRAM_BASE\<rparr>"

definition dram_read_word :: "dram \<Rightarrow> system_context \<Rightarrow> u32 \<Rightarrow> (dram, u32) handler" where
  "dram_read_word d ctx offset =
    (let addr = dram_base_addr d + offset in (Ok (ctx_read_word ctx addr), d, ctx))"

definition dram_write_word :: "dram \<Rightarrow> system_context \<Rightarrow> u32 \<Rightarrow> u32 \<Rightarrow> (dram, unit) handler" where
  "dram_write_word d ctx offset v =
    (let addr = dram_base_addr d + offset in (Ok (), d, ctx_write_word ctx addr v))"

definition dram_read_halfword :: "dram \<Rightarrow> system_context \<Rightarrow> u32 \<Rightarrow> (dram, u16) handler" where
  "dram_read_halfword d ctx offset =
    (let addr = dram_base_addr d + offset in (Ok (ctx_read_halfword ctx addr), d, ctx))"

definition dram_write_halfword ::
  "dram \<Rightarrow> system_context \<Rightarrow> u32 \<Rightarrow> u16 \<Rightarrow> (dram, unit) handler" where
  "dram_write_halfword d ctx offset v =
    (let addr = dram_base_addr d + offset in (Ok (), d, ctx_write_halfword ctx addr v))"

definition dram_read_byte :: "dram \<Rightarrow> system_context \<Rightarrow> u32 \<Rightarrow> (dram, u8) handler" where
  "dram_read_byte d ctx offset =
    (let addr = dram_base_addr d + offset in (Ok (ctx_read_byte ctx addr), d, ctx))"

definition dram_write_byte :: "dram \<Rightarrow> system_context \<Rightarrow> u32 \<Rightarrow> u8 \<Rightarrow> (dram, unit) handler" where
  "dram_write_byte d ctx offset v =
    (let addr = dram_base_addr d + offset in (Ok (), d, ctx_write_byte ctx addr v))"

definition dram_size :: "dram \<Rightarrow> u32" where
  "dram_size d = 0x10000000"

definition dram_name :: "dram \<Rightarrow> string" where
  "dram_name d = ''DRAM''"

definition dram_reset :: "dram \<Rightarrow> system_context \<Rightarrow> dram \<times> system_context" where
  "dram_reset d ctx = (d, ctx)"

definition dram_ops :: "dram bus_device_ops" where
  "dram_ops = \<lparr>
     bd_read_word = dram_read_word, bd_write_word = dram_write_word,
     bd_read_halfword = dram_read_halfword, bd_write_halfword = dram_write_halfword,
     bd_read_byte = dram_read_byte, bd_write_byte = dram_write_byte,
     bd_size = dram_size, bd_name = dram_name, bd_reset = dram_reset,
     bd_clock_cycle = default_clock_cycle\<rparr>"

lemmas dram_defs = dram_read_word_def dram_write_word_def dram_read_halfword_def
  dram_write_halfword_def dram_read_byte_def dram_write_byte_def dram_size_def dram_name_def
  dram_reset_def dram_ops_def

section \<open>SimControl\<close>

record sim_control =
  tohost_value :: "u32 option"

definition sim_control_new :: sim_control where
  "sim_control_new = \<lparr>tohost_value = None\<rparr>"

definition is_termination_pending :: "sim_control \<Rightarrow> bool" where
  "is_termination_pending s = (tohost_value s \<noteq> None)"

definition acknowledge_termination :: "sim_control \<Rightarrow> u32 option \<times> sim_control" where
  "acknowledge_termination s = (tohost_value s, s\<lparr>tohost_value := None\<rparr>)"

definition sim_control_read_word ::
  "sim_control \<Rightarrow> system_context \<Rightarrow> u32 \<Rightarrow> (sim_control, u32) handler" where
  "sim_control_read_word s ctx offset =
     (if offset = 0x00 then (Err (ReadFromWriteOnly offset), s, ctx)
      else (Err (InvalidAddress offset), s, ctx))"

definition sim_control_write_word ::
  "sim_control \<Rightarrow> system_context \<Rightarrow> u32 \<Rightarrow> u32 \<Rightarrow> (sim_control, unit) handler" where
  "sim_control_write_word s ctx offset v =
     (if offset = 0x00 then (Ok (), s\<lparr>tohost_value := Some v\<rparr>, ctx)
      else (Err (InvalidAddress offset), s, ctx))"

definition sim_control_size :: "sim_control \<Rightarrow> u32" where
  "sim_control_size s = 4"

definition sim_control_name :: "sim_control \<Rightarrow> string" where
  "sim_control_name s = ''SimControl''"

definition sim_control_reset :: "sim_control \<Rightarrow> system_context \<Rightarrow> sim_control \<times> system_context" where
  "sim_control_reset s ctx = (s\<lparr>tohost_value := None\<rparr>, ctx)"

definition sim_control_ops :: "sim_control bus_device_ops" where
  "sim_control_ops = \<lparr>
     bd_read_word = sim_control_read_word, bd_write_word = sim_control_write_word,
     bd_read_halfword = default_read_halfword, bd_write_halfword = default_write_halfword,
     bd_read_byte = default_read_byte, bd_write_byte = default_write_byte,
     bd_size = sim_control_size, bd_name = sim_control_name, bd_reset = sim_control_reset,
     bd_clock_cycle = default_clock_cycle\<rparr>"

lemmas sim_control_defs = sim_control_read_word_def sim_control_write_word_def
  sim_control_size_def sim_control_name_def sim_control_reset_def sim_control_ops_def

section \<open>Fifo\<close>

text \<open>The shared \<open>FifoDataSource\<close>: a \<open>VecDeque\<close>, front first.\<close>

record fifo_data_source =
  host_to_cpu :: "u8 list"

definition fifo_source_new :: fifo_data_source where
  "fifo_source_new = \<lparr>host_to_cpu = []\<rparr>"

definition fifo_source_write_byte :: "fifo_data_source \<Rightarrow> u8 \<Rightarrow> fifo_data_source" where
  "fifo_source_write_byte s b = s\<lparr>host_to_cpu := host_to_cpu s @ [b]\<rparr>"

text \<open>The string argument is its UTF-8 bytes.\<close>

definition push_string_to_fifo_rx :: "fifo_data_source \<Rightarrow> u8 list \<Rightarrow> fifo_data_source" where
  "push_string_to_fifo_rx s bytes =
    (let s' = foldl fifo_source_write_byte s bytes
     in if length bytes mod 4 = 0 then fifo_source_write_byte s' 0 else s')"

definition fifo_source_read_byte :: "fifo_data_source \<Rightarrow> u8 option \<times> fifo_data_source" where
  "fifo_source_read_byte s =
    (case host_to_cpu s of [] \<Rightarrow> (None, s) | b # bs \<Rightarrow> (Some b, s\<lparr>host_to_cpu := bs\<rparr>))"

definition fifo_source_clear :: "fifo_data_source \<Rightarrow> fifo_data_source" where
  "fifo_source_clear s = s\<lparr>host_to_cpu := []\<rparr>"

text \<open>The device: the source and the log of the bytes given to \<open>on_data_received\<close>.\<close>

record fifo =
  fifo_source :: fifo_data_source
  fifo_received :: "u8 list"

definition fifo_new :: "fifo_data_source \<Rightarrow> fifo" where
  "fifo_new src = \<lparr>fifo_source = src, fifo_received = []\<rparr>"

definition fifo_read_status :: "fifo \<Rightarrow> u32" where
  "fifo_read_status f =
    (let queue_len = length (host_to_cpu (fifo_source f));
         rx_valid = (if queue_len > 0 then 1 else 0);
         tx_ready = 1
     in push_bit 1 tx_ready OR rx_valid)"

definition fifo_read_data_byte :: "fifo \<Rightarrow> u8 \<times> fifo" where
  "fifo_read_data_byte f =
    (case fifo_source_read_byte (fifo_source f) of
       (Some v, src) \<Rightarrow> (v, f\<lparr>fifo_source := src\<rparr>)
     | (None, src) \<Rightarrow> (0, f\<lparr>fifo_source := src\<rparr>))"

definition fifo_write_data_byte :: "fifo \<Rightarrow> u8 \<Rightarrow> fifo" where
  "fifo_write_data_byte f v = f\<lparr>fifo_received := fifo_received f @ [v]\<rparr>"

definition fifo_read_word :: "fifo \<Rightarrow> system_context \<Rightarrow> u32 \<Rightarrow> (fifo, u32) handler" where
  "fifo_read_word f ctx offset =
     (if offset = 0x00 then (Err (UnsupportedSize offset 4), f, ctx)
      else if offset = 0x04 then (Ok (fifo_read_status f), f, ctx)
      else (Err (InvalidAddress offset), f, ctx))"

definition fifo_write_word :: "fifo \<Rightarrow> system_context \<Rightarrow> u32 \<Rightarrow> u32 \<Rightarrow> (fifo, unit) handler" where
  "fifo_write_word f ctx offset v =
     (if offset = 0x00 then (Err (UnsupportedSize offset 4), f, ctx)
      else if offset = 0x04 then (Err (WriteToReadOnly offset), f, ctx)
      else (Err (InvalidAddress offset), f, ctx))"

definition fifo_read_halfword :: "fifo \<Rightarrow> system_context \<Rightarrow> u32 \<Rightarrow> (fifo, u16) handler" where
  "fifo_read_halfword f ctx offset = (Err (UnsupportedSize offset 2), f, ctx)"

definition fifo_write_halfword ::
  "fifo \<Rightarrow> system_context \<Rightarrow> u32 \<Rightarrow> u16 \<Rightarrow> (fifo, unit) handler" where
  "fifo_write_halfword f ctx offset v = (Err (UnsupportedSize offset 2), f, ctx)"

definition fifo_read_byte :: "fifo \<Rightarrow> system_context \<Rightarrow> u32 \<Rightarrow> (fifo, u8) handler" where
  "fifo_read_byte f ctx offset =
     (if offset = 0x00 then (let (v, f') = fifo_read_data_byte f in (Ok v, f', ctx))
      else if offset = 0x04 then (Err (UnsupportedSize offset 1), f, ctx)
      else (Err (InvalidAddress offset), f, ctx))"

definition fifo_write_byte :: "fifo \<Rightarrow> system_context \<Rightarrow> u32 \<Rightarrow> u8 \<Rightarrow> (fifo, unit) handler" where
  "fifo_write_byte f ctx offset v =
     (if offset = 0x00 then (Ok (), fifo_write_data_byte f v, ctx)
      else if offset = 0x04 then (Err (UnsupportedSize offset 1), f, ctx)
      else (Err (InvalidAddress offset), f, ctx))"

definition fifo_size :: "fifo \<Rightarrow> u32" where
  "fifo_size f = 8"

definition fifo_name :: "fifo \<Rightarrow> string" where
  "fifo_name f = ''FIFO''"

definition fifo_reset :: "fifo \<Rightarrow> system_context \<Rightarrow> fifo \<times> system_context" where
  "fifo_reset f ctx = (f\<lparr>fifo_source := fifo_source_clear (fifo_source f)\<rparr>, ctx)"

definition fifo_ops :: "fifo bus_device_ops" where
  "fifo_ops = \<lparr>
     bd_read_word = fifo_read_word, bd_write_word = fifo_write_word,
     bd_read_halfword = fifo_read_halfword, bd_write_halfword = fifo_write_halfword,
     bd_read_byte = fifo_read_byte, bd_write_byte = fifo_write_byte,
     bd_size = fifo_size, bd_name = fifo_name, bd_reset = fifo_reset,
     bd_clock_cycle = default_clock_cycle\<rparr>"

lemmas fifo_defs = fifo_read_word_def fifo_write_word_def fifo_read_halfword_def
  fifo_write_halfword_def fifo_read_byte_def fifo_write_byte_def fifo_size_def fifo_name_def
  fifo_reset_def fifo_ops_def

text \<open>The FIFO register constants of \<open>riscv_shared/src/fifo.rs\<close>.\<close>

definition FIFO_DATA :: u32 where "FIFO_DATA = FIFO_BASE"
definition FIFO_STATUS :: u32 where "FIFO_STATUS = FIFO_BASE + 0x4"
definition RX_VALID :: u32 where "RX_VALID = push_bit 0 1"
definition TX_READY :: u32 where "TX_READY = push_bit 1 1"

section \<open>The device contract\<close>

text \<open>\<open>Dram\<close> keeps its base address; the other two have no invariant of their own.\<close>

definition dram_inv :: "dram \<Rightarrow> bool" where
  "dram_inv d = (dram_base_addr d = DRAM_BASE)"

interpretation dram: bus_device dram_ops dram_inv
proof unfold_locales
  fix d c r x d' c' assume "device_step dram_ops r (d, c) = (x, d', c')"
  then have "d' = d \<and> ctx_effect c c'" by (cases r) (auto simp: dram_defs default_ops outcome_def)
  then show "bd_size dram_ops d' = bd_size dram_ops d" "bd_name dram_ops d' = bd_name dram_ops d"
    "ctx_effect c c'" "dram_inv d \<Longrightarrow> dram_inv d'" by auto
next
  fix d c r e d' c' assume "device_step dram_ops r (d, c) = (Inl e, d', c')"
  then show "d' = d \<and> c' = c" by (cases r) (auto simp: dram_defs default_ops outcome_def)
qed (simp_all add: dram_defs)

interpretation sim_control: bus_device sim_control_ops "\<lambda>_. True"
proof unfold_locales
  fix d c r x d' c' assume "device_step sim_control_ops r (d, c) = (x, d', c')"
  then have "c' = c"
    by (cases r) (auto simp: sim_control_defs default_ops outcome_def split: if_splits)
  then show "bd_size sim_control_ops d' = bd_size sim_control_ops d"
    "bd_name sim_control_ops d' = bd_name sim_control_ops d" "ctx_effect c c'"
    by (auto simp: sim_control_defs)
next
  fix d c r e d' c' assume "device_step sim_control_ops r (d, c) = (Inl e, d', c')"
  then show "d' = d \<and> c' = c"
    by (cases r) (auto simp: sim_control_defs default_ops outcome_def split: if_splits)
qed (simp_all add: sim_control_defs)

interpretation fifo: bus_device fifo_ops "\<lambda>_. True"
proof unfold_locales
  fix d c r x d' c' assume "device_step fifo_ops r (d, c) = (x, d', c')"
  then have "c' = c"
    by (cases r) (auto simp: fifo_defs default_ops outcome_def split: if_splits prod.splits)
  then show "bd_size fifo_ops d' = bd_size fifo_ops d"
    "bd_name fifo_ops d' = bd_name fifo_ops d" "ctx_effect c c'"
    by (auto simp: fifo_defs)
next
  fix d c r e d' c' assume "device_step fifo_ops r (d, c) = (Inl e, d', c')"
  then show "d' = d \<and> c' = c"
    by (cases r) (auto simp: fifo_defs default_ops outcome_def split: if_splits prod.splits)
qed (simp_all add: fifo_defs)

section \<open>Behaviour\<close>

text \<open>The CPU's polling read of the FIFO: \<open>n\<close> byte reads of the DATA register.\<close>

primrec fifo_drain :: "nat \<Rightarrow> fifo \<Rightarrow> u8 list \<times> fifo" where
  "fifo_drain 0 f = ([], f)"
| "fifo_drain (Suc n) f =
     (let (b, f1) = fifo_read_data_byte f; (bs, f2) = fifo_drain n f1 in (b # bs, f2))"

lemma fifo_source_write_bytes:
  "host_to_cpu (foldl fifo_source_write_byte s bs) = host_to_cpu s @ bs"
  by (induction bs arbitrary: s) (simp_all add: fifo_source_write_byte_def)

lemma fifo_drain_queue:
  "host_to_cpu (fifo_source f) = bs @ rest \<Longrightarrow>
    fifo_drain (length bs) f =
      (bs, f\<lparr>fifo_source := (fifo_source f)\<lparr>host_to_cpu := rest\<rparr>\<rparr>)"
  by (induction bs arbitrary: f) (simp_all add: fifo_read_data_byte_def fifo_source_read_byte_def)

lemma fifo_status_valid:
  "fifo_read_status f = (if host_to_cpu (fifo_source f) = [] then 2 else 3)"
  by (simp add: fifo_read_status_def)

text \<open>
  bytes pass the FIFO from host to CPU in order and complete.  After the host pushes a
  string into an empty source, the STATUS register shows valid data, reading as many bytes as
  were queued returns the string followed by the terminator that \<open>push_string_to_fifo_rx\<close>
  appends to strings whose length is a multiple of four, and STATUS is then empty again.
\<close>

theorem fifo_string_delivery:
  fixes s :: "u8 list"
  defines "sent \<equiv> (if length s mod 4 = 0 then s @ [0] else s)"
    and "f \<equiv> fifo_new (push_string_to_fifo_rx fifo_source_new s)"
  shows "fifo_read_status f AND RX_VALID \<noteq> 0 \<and> fst (fifo_drain (length sent) f) = sent \<and>
    fifo_read_status (snd (fifo_drain (length sent) f)) = TX_READY"
proof -
  have h: "host_to_cpu (fifo_source f) = sent @ []"
    by (simp add: f_def sent_def fifo_new_def push_string_to_fifo_rx_def Let_def
        fifo_source_write_bytes fifo_source_new_def fifo_source_write_byte_def)
  moreover have "sent \<noteq> []" by (auto simp: sent_def)
  ultimately show ?thesis
    using fifo_drain_queue [OF h] by (simp add: fifo_status_valid RX_VALID_def TX_READY_def)
qed

text \<open>
  Termination is signalled exactly once.  A write to TOHOST makes termination pending with
  the written value; acknowledging returns the last value written and clears it, so a second
  acknowledgement returns nothing; a write at any other offset is an error and changes nothing.
\<close>

theorem tohost_one_shot:
  "(let (r, s', c') = sim_control_write_word s c off v in
     if off = 0
     then r = Ok () \<and> c' = c \<and> is_termination_pending s' \<and>
       fst (acknowledge_termination s') = Some v \<and>
       \<not> is_termination_pending (snd (acknowledge_termination s')) \<and>
       fst (acknowledge_termination (snd (acknowledge_termination s'))) = None
     else r = Err (InvalidAddress off) \<and> s' = s \<and> c' = c)"
  by (simp add: sim_control_write_word_def is_termination_pending_def acknowledge_termination_def)

end
