(* ===== verification/Dma_Engine.thy ===== *)
theory Dma_Engine
  imports Bus_Device
begin

text \<open>
  The memory-to-memory DMA controller (\<open>bus-shared/src/dma.rs\<close>): its configuration registers,
  the transfer latched at dispatch, and the copy of one byte per clock cycle.  The abstract
  specification is \<open>copy_bytes\<close>, the byte-by-byte forward copy; the lemmas show that a
  dispatched transfer computes it in exactly as many cycles as there are bytes, whatever is
  written to the registers meanwhile, and what the copy does to memory.
\<close>

section \<open>State and operations\<close>

record active_transfer =
  at_bytes_remaining :: u32
  at_current_src :: u32
  at_current_dst :: u32

record dma =
  dma_src_addr :: u32
  dma_dst_addr :: u32
  dma_size_reg :: u32
  dma_active_transfer :: "active_transfer option"

definition dma_new :: dma where
  "dma_new = \<lparr>dma_src_addr = 0, dma_dst_addr = 0, dma_size_reg = 0, dma_active_transfer = None\<rparr>"

definition dma_is_busy :: "dma \<Rightarrow> bool" where
  "dma_is_busy d = (dma_active_transfer d \<noteq> None)"

definition dma_start_transfer :: "dma \<Rightarrow> dma" where
  "dma_start_transfer d =
    (if dma_is_busy d then d
     else if dma_size_reg d = 0 then d
     else d\<lparr>dma_active_transfer := Some \<lparr>at_bytes_remaining = dma_size_reg d,
       at_current_src = dma_src_addr d, at_current_dst = dma_dst_addr d\<rparr>\<rparr>)"

definition dma_transfer_one_byte :: "dma \<Rightarrow> system_context \<Rightarrow> dma \<times> system_context" where
  "dma_transfer_one_byte d ctx =
    (case dma_active_transfer d of
       None \<Rightarrow> (d, ctx)
     | Some t \<Rightarrow>
       (let byte = ctx_read_byte ctx (at_current_src t);
            ctx = ctx_write_byte ctx (at_current_dst t) byte;
            t = t\<lparr>at_current_src := at_current_src t + 1,
                  at_current_dst := at_current_dst t + 1,
                  at_bytes_remaining := at_bytes_remaining t - 1\<rparr>
        in if at_bytes_remaining t = 0 then (d\<lparr>dma_active_transfer := None\<rparr>, ctx)
           else (d\<lparr>dma_active_transfer := Some t\<rparr>, ctx)))"

definition dma_read_word :: "dma \<Rightarrow> system_context \<Rightarrow> u32 \<Rightarrow> (dma, u32) handler" where
  "dma_read_word d ctx offset =
     (if offset = 0x00 then (Ok (dma_src_addr d), d, ctx)
      else if offset = 0x04 then (Ok (dma_dst_addr d), d, ctx)
      else if offset = 0x08 then (Ok (dma_size_reg d), d, ctx)
      else if offset = 0x0C then (Ok (if dma_is_busy d then 1 else 0), d, ctx)
      else if offset = 0x10 then (Err (ReadFromWriteOnly offset), d, ctx)
      else (Err (InvalidAddress offset), d, ctx))"

definition dma_write_word :: "dma \<Rightarrow> system_context \<Rightarrow> u32 \<Rightarrow> u32 \<Rightarrow> (dma, unit) handler" where
  "dma_write_word d ctx offset v =
     (if offset = 0x00 then (Ok (), d\<lparr>dma_src_addr := v\<rparr>, ctx)
      else if offset = 0x04 then (Ok (), d\<lparr>dma_dst_addr := v\<rparr>, ctx)
      else if offset = 0x08 then (Ok (), d\<lparr>dma_size_reg := v\<rparr>, ctx)
      else if offset = 0x0C then (Err (WriteToReadOnly offset), d, ctx)
      else if offset = 0x10 then (Ok (), dma_start_transfer d, ctx)
      else (Err (InvalidAddress offset), d, ctx))"

definition dma_size :: "dma \<Rightarrow> u32" where
  "dma_size d = 20"

definition dma_name :: "dma \<Rightarrow> string" where
  "dma_name d = ''DMA''"

definition dma_reset :: "dma \<Rightarrow> system_context \<Rightarrow> dma \<times> system_context" where
  "dma_reset d ctx =
     (d\<lparr>dma_src_addr := 0, dma_dst_addr := 0, dma_size_reg := 0, dma_active_transfer := None\<rparr>, ctx)"

definition dma_clock_cycle :: "dma \<Rightarrow> system_context \<Rightarrow> dma \<times> system_context" where
  "dma_clock_cycle d ctx = dma_transfer_one_byte d ctx"

definition dma_ops :: "dma bus_device_ops" where
  "dma_ops = \<lparr>
     bd_read_word = dma_read_word, bd_write_word = dma_write_word,
     bd_read_halfword = default_read_halfword, bd_write_halfword = default_write_halfword,
     bd_read_byte = default_read_byte, bd_write_byte = default_write_byte,
     bd_size = dma_size, bd_name = dma_name, bd_reset = dma_reset,
     bd_clock_cycle = dma_clock_cycle\<rparr>"

lemmas dma_defs = dma_read_word_def dma_write_word_def dma_size_def dma_name_def
  dma_reset_def dma_clock_cycle_def dma_ops_def

text \<open>The register constants of the driver, \<open>riscv_shared/src/dma.rs\<close>.\<close>

definition DMA_BASE :: u32 where "DMA_BASE = 0xC0000000"
definition DMA_SRC_ADDR :: u32 where "DMA_SRC_ADDR = DMA_BASE"
definition DMA_DST_ADDR :: u32 where "DMA_DST_ADDR = DMA_BASE + 0x04"
definition DMA_SIZE :: u32 where "DMA_SIZE = DMA_BASE + 0x08"
definition DMA_STATUS :: u32 where "DMA_STATUS = DMA_BASE + 0x0C"
definition DMA_DISPATCH :: u32 where "DMA_DISPATCH = DMA_BASE + 0x10"
definition DMA_STATUS_BUSY :: u32 where "DMA_STATUS_BUSY = push_bit 0 1"

section \<open>Contract\<close>

text \<open>An active transfer always has bytes left, so the decrement never underflows.\<close>

definition dma_inv :: "dma \<Rightarrow> bool" where
  "dma_inv d = (\<forall>t. dma_active_transfer d = Some t \<longrightarrow> at_bytes_remaining t \<noteq> 0)"

lemma dma_start_transfer_inv: "dma_inv d \<Longrightarrow> dma_inv (dma_start_transfer d)"
  by (auto simp: dma_inv_def dma_start_transfer_def)

lemma dma_transfer_one_byte_step:
  assumes "dma_transfer_one_byte d c = (d', c')"
  shows "dma_inv d \<Longrightarrow> dma_inv d'" "ctx_effect c c'"
  using assms
  by (auto simp: dma_transfer_one_byte_def dma_inv_def Let_def split: option.splits if_splits)

interpretation dma: bus_device dma_ops dma_inv
proof unfold_locales
  fix d c r x d' c' assume s: "device_step dma_ops r (d, c) = (x, d', c')"
  show "ctx_effect c c'"
    using s by (cases r) (auto simp: dma_defs default_ops outcome_def
        dest: dma_transfer_one_byte_step split: if_splits)
  show "bd_size dma_ops d' = bd_size dma_ops d" "bd_name dma_ops d' = bd_name dma_ops d"
    by (simp_all add: dma_defs)
  assume "dma_inv d"
  with s show "dma_inv d'"
    by (cases r) (auto simp: dma_defs default_ops outcome_def dma_start_transfer_inv
        dest: dma_transfer_one_byte_step split: if_splits, auto simp: dma_inv_def)
next
  fix d c r e d' c' assume "device_step dma_ops r (d, c) = (Inl e, d', c')"
  then show "d' = d \<and> c' = c"
    by (cases r) (auto simp: dma_defs default_ops outcome_def split: if_splits)
qed (simp_all add: dma_defs)

section \<open>The copy\<close>

primrec copy_bytes :: "nat \<Rightarrow> u32 \<Rightarrow> u32 \<Rightarrow> system_context \<Rightarrow> system_context" where
  "copy_bytes 0 s d c = c"
| "copy_bytes (Suc n) s d c =
     copy_bytes n (s + 1) (d + 1) (ctx_write_byte c d (ctx_read_byte c s))"

lemma copy_bytes_read:
  "n \<le> 4294967296 \<Longrightarrow> d = s \<or> n \<le> unat (d - s) \<Longrightarrow>
    ctx_read_byte (copy_bytes n s d c) b =
      (if unat (b - d) < n \<and> in_dram b then ctx_read_byte c (s + (b - d)) else ctx_read_byte c b)"
proof (induction n arbitrary: s d c)
  case (Suc n)
  let ?c = "ctx_write_byte c d (ctx_read_byte c s)"
  have IH: "ctx_read_byte (copy_bytes n (s + 1) (d + 1) ?c) b =
      (if unat (b - (d + 1)) < n \<and> in_dram b
       then ctx_read_byte ?c (s + 1 + (b - (d + 1))) else ctx_read_byte ?c b)"
    using Suc.IH [of "d + 1" "s + 1" ?c] Suc.prems by auto
  show ?case
  proof (cases "b = d")
    case True
    with IH Suc.prems show ?thesis by (simp add: unat_minus1_u32 ctx.rd_wr)
  next
    case False
    then have p: "0 < unat (b - d)" using unat_gt_0 [of "b - d"] by simp
    have "ctx_read_byte ?c (s + (b - d)) = ctx_read_byte c (s + (b - d))" if "unat (b - d) < Suc n"
    proof -
      have "s + (b - d) \<noteq> d"
      proof
        assume "s + (b - d) = d"
        then have "b - d = d - s" by (simp add: algebra_simps)
        with that Suc.prems(2) p show False by auto
      qed
      then show ?thesis by (simp add: ctx.rd_wr)
    qed
    moreover have "s + 1 + (b - (d + 1)) = s + (b - d)" by simp
    ultimately show ?thesis
      using IH p False by (auto simp: unat_pred_offset [OF False] ctx.rd_wr)
  qed
qed simp

lemma copy_bytes_elapsed [simp]:
  "ctx_elapsed_time_us (copy_bytes n s d c) = ctx_elapsed_time_us c"
  by (induction n arbitrary: s d c) simp_all

section \<open>Running a transfer\<close>

definition dma_cycles :: "nat \<Rightarrow> dma \<times> system_context \<Rightarrow> dma \<times> system_context" where
  "dma_cycles n = (\<lambda>(d, c). dma_clock_cycle d c) ^^ n"

lemma dma_cycles_Suc: "dma_cycles (Suc n) (d, c) = dma_cycles n (dma_clock_cycle d c)"
  by (simp add: dma_cycles_def funpow_Suc_right del: funpow.simps(2))

lemma dma_run_active:
  "dma_active_transfer d = Some t \<Longrightarrow> unat (at_bytes_remaining t) = Suc n \<Longrightarrow>
    dma_cycles (Suc n) (d, c) =
      (d\<lparr>dma_active_transfer := None\<rparr>,
       copy_bytes (Suc n) (at_current_src t) (at_current_dst t) c)"
proof (induction n arbitrary: d t c)
  case 0
  then have "at_bytes_remaining t = 1" by (simp add: word_unat_eq_iff)
  with 0 show ?case
    by (simp add: dma_cycles_def dma_clock_cycle_def dma_transfer_one_byte_def)
next
  case (Suc n)
  then have nz: "at_bytes_remaining t \<noteq> 0" by auto
  with Suc.prems have m: "unat (at_bytes_remaining t - 1) = Suc n" by (simp add: unat_minus1)
  then have nz': "at_bytes_remaining t - 1 \<noteq> 0" by auto
  let ?t = "t\<lparr>at_current_src := at_current_src t + 1, at_current_dst := at_current_dst t + 1,
      at_bytes_remaining := at_bytes_remaining t - 1\<rparr>"
  have "dma_clock_cycle d c = (d\<lparr>dma_active_transfer := Some ?t\<rparr>,
      ctx_write_byte c (at_current_dst t) (ctx_read_byte c (at_current_src t)))"
    using Suc.prems nz' by (simp add: dma_clock_cycle_def dma_transfer_one_byte_def Let_def)
  then show ?case
    using Suc.IH [of "d\<lparr>dma_active_transfer := Some ?t\<rparr>" ?t] m
    by (subst dma_cycles_Suc) simp
qed

lemma dma_run_busy:
  "dma_active_transfer d = Some t \<Longrightarrow> k < unat (at_bytes_remaining t) \<Longrightarrow>
    dma_is_busy (fst (dma_cycles k (d, c)))"
proof (induction k arbitrary: d t c)
  case 0
  then show ?case by (simp add: dma_cycles_def dma_is_busy_def)
next
  case (Suc k)
  then have nz: "at_bytes_remaining t \<noteq> 0" by auto
  with Suc.prems have m: "k < unat (at_bytes_remaining t - 1)" by (simp add: unat_minus1)
  then have nz': "at_bytes_remaining t - 1 \<noteq> 0" by auto
  obtain t' d' c' where "dma_clock_cycle d c = (d', c')" "dma_active_transfer d' = Some t'"
    "at_bytes_remaining t' = at_bytes_remaining t - 1"
    using Suc.prems nz' by (simp add: dma_clock_cycle_def dma_transfer_one_byte_def Let_def)
  then show ?case using Suc.IH [of d' t' c'] m by (simp add: dma_cycles_Suc)
qed

text \<open>
  Requests interleaved with the cycles of a transfer: register reads and writes, at any
  offset, do not change what the transfer copies.
\<close>

definition clocks :: "device_request list \<Rightarrow> nat" where
  "clocks rs = length (filter (\<lambda>r. r = ReqClock) rs)"

lemma dma_step_no_clock:
  assumes "r \<noteq> ReqClock" "r \<noteq> ReqReset" "device_step dma_ops r (d, c) = (x, d', c')"
  shows "c' = c" "dma_is_busy d \<Longrightarrow> dma_active_transfer d' = dma_active_transfer d"
  using assms
  by (cases r; auto simp: dma_defs default_ops outcome_def dma_start_transfer_def split: if_splits)+

lemma dma_run_no_clock:
  "clocks rs = 0 \<Longrightarrow> ReqReset \<notin> set rs \<Longrightarrow> snd (device_run dma_ops rs (d, c)) = c"
proof (induction rs arbitrary: d c)
  case (Cons r rs)
  obtain x d' c' where s: "device_step dma_ops r (d, c) = (x, d', c')" by (metis surj_pair)
  with Cons show ?case
    using dma_step_no_clock(1) [OF _ _ s] by (auto simp: device_run_def clocks_def split: if_splits)
qed (simp add: device_run_def)

lemma dma_run_latched:
  "dma_active_transfer d = Some t \<Longrightarrow> clocks rs \<le> unat (at_bytes_remaining t) \<Longrightarrow>
    ReqReset \<notin> set rs \<Longrightarrow>
    snd (device_run dma_ops rs (d, c)) =
      copy_bytes (clocks rs) (at_current_src t) (at_current_dst t) c"
proof (induction rs arbitrary: d t c)
  case (Cons r rs)
  obtain x d' c' where s: "device_step dma_ops r (d, c) = (x, d', c')" by (metis surj_pair)
  then have run: "device_run dma_ops (r # rs) (d, c) = device_run dma_ops rs (d', c')"
    by (simp add: device_run_def)
  show ?case
  proof (cases "r = ReqClock")
    case False
    with s Cons.prems have "c' = c" "dma_active_transfer d' = Some t" "clocks (r # rs) = clocks rs"
      using dma_step_no_clock [OF False _ s] by (auto simp: dma_is_busy_def clocks_def)
    with run Cons show ?thesis by simp
  next
    case True
    let ?n = "at_bytes_remaining t"
    let ?c = "ctx_write_byte c (at_current_dst t) (ctx_read_byte c (at_current_src t))"
    from True Cons.prems(2) have k: "Suc (clocks rs) \<le> unat ?n" by (simp add: clocks_def)
    then have "?n \<noteq> 0" by auto
    with k have m: "clocks rs \<le> unat (?n - 1)" by (simp add: unat_minus1)
    from True s Cons.prems(1) have c: "c' = ?c"
      by (auto simp: dma_defs dma_transfer_one_byte_def Let_def split: if_splits)
    show ?thesis
    proof (cases "?n - 1 = 0")
      case True
      with m have "clocks rs = 0" by simp
      with c run \<open>r = ReqClock\<close> Cons.prems(3) show ?thesis
        using dma_run_no_clock [of rs d' c'] by (simp add: clocks_def)
    next
      case False
      with s \<open>r = ReqClock\<close> Cons.prems(1) have
        "dma_active_transfer d' = Some (t\<lparr>at_current_src := at_current_src t + 1,
          at_current_dst := at_current_dst t + 1, at_bytes_remaining := ?n - 1\<rparr>)"
        by (auto simp: dma_defs dma_transfer_one_byte_def Let_def)
      from Cons.IH [OF this, of c'] m c run \<open>r = ReqClock\<close> Cons.prems(3)
      show ?thesis by (simp add: clocks_def)
    qed
  qed
qed (simp add: device_run_def clocks_def)

lemma dma_copies_block_lemma:
  assumes "\<not> dma_is_busy d" "dma_size_reg d = n"
    and "is_valid_dram_range (dma_src_addr d) n" "is_valid_dram_range (dma_dst_addr d) n"
    and "dma_dst_addr d = dma_src_addr d \<or> unat n \<le> unat (dma_dst_addr d - dma_src_addr d)"
    and "dma_cycles (unat n) (dma_start_transfer d, c) = (d', c')"
  shows "(\<forall>k < unat n. dma_is_busy (fst (dma_cycles k (dma_start_transfer d, c)))) \<and>
    \<not> dma_is_busy d' \<and>
    read_block ctx_read_byte c' (dma_dst_addr d) (unat n) =
      read_block ctx_read_byte c (dma_src_addr d) (unat n) \<and>
    (\<forall>b. unat n \<le> unat (b - dma_dst_addr d) \<longrightarrow> ctx_read_byte c' b = ctx_read_byte c b)"
proof -
  let ?s = "dma_src_addr d" and ?t = "dma_dst_addr d"
  from assms(3) have nz: "n \<noteq> 0" by (simp add: valid_dram_range)
  with assms(1,2) have a: "dma_active_transfer (dma_start_transfer d) =
      Some \<lparr>at_bytes_remaining = n, at_current_src = ?s, at_current_dst = ?t\<rparr>"
    by (simp add: dma_start_transfer_def)
  have n: "unat n = Suc (unat n - 1)" using nz unat_gt_0 [of n] by simp
  with dma_run_active [OF a, of "unat n - 1" c] assms(6)
  have r: "\<not> dma_is_busy d'" "c' = copy_bytes (unat n) ?s ?t c"
    by (auto simp: dma_is_busy_def)
  have rd: "ctx_read_byte c' b = (if unat (b - ?t) < unat n \<and> in_dram b
      then ctx_read_byte c (?s + (b - ?t)) else ctx_read_byte c b)" for b
    using copy_bytes_read [of "unat n" ?t ?s c b] assms(5) u32_bound [of n] r(2) by simp
  have "ctx_read_byte c' (?t + of_nat i) = ctx_read_byte c (?s + of_nat i)" if "i < unat n" for i
  proof -
    have "unat (of_nat i :: u32) = i" using that u32_bound [of n] by (simp add: unat_of_nat)
    with that valid_dram_offset(1) [OF assms(4) that] show ?thesis by (simp add: rd)
  qed
  with r rd a show ?thesis by (auto simp: read_block_eq intro!: dma_run_busy)
qed

section \<open>Properties\<close>

text \<open>
  A dispatched DMA transfer copies its block.  From an idle controller with a non-zero
  size, and with source and destination inside DRAM and the destination not inside the source
  (it may precede it and overlap), the controller is busy for exactly \<open>SIZE\<close> cycles, after
  which the destination holds the bytes the source held at dispatch and every other byte of
  memory is unchanged.
\<close>

theorem dma_copies_block:
  assumes "\<not> dma_is_busy d" "dma_size_reg d = n"
    and "is_valid_dram_range (dma_src_addr d) n" "is_valid_dram_range (dma_dst_addr d) n"
    and "dma_dst_addr d = dma_src_addr d \<or> unat n \<le> unat (dma_dst_addr d - dma_src_addr d)"
    and "dma_cycles (unat n) (dma_start_transfer d, c) = (d', c')"
  shows "(\<forall>k < unat n. dma_is_busy (fst (dma_cycles k (dma_start_transfer d, c)))) \<and>
    \<not> dma_is_busy d' \<and>
    read_block ctx_read_byte c' (dma_dst_addr d) (unat n) =
      read_block ctx_read_byte c (dma_src_addr d) (unat n) \<and>
    (\<forall>b. unat n \<le> unat (b - dma_dst_addr d) \<longrightarrow> ctx_read_byte c' b = ctx_read_byte c b)"
  using assms by (rule dma_copies_block_lemma)

definition dma_example :: dma where
  "dma_example = \<lparr>dma_src_addr = 0x80000010, dma_dst_addr = 0x80000008, dma_size_reg = 16,
     dma_active_transfer = None\<rparr>"

lemma dma_copies_block_witness:
  "read_block ctx_read_byte
     (snd (dma_cycles 16 (dma_start_transfer dma_example, context_new mem_new))) 0x80000008 16 =
   read_block ctx_read_byte (context_new mem_new) 0x80000010 16"
  using dma_copies_block [of dma_example 16 "context_new mem_new"
      "fst (dma_cycles 16 (dma_start_transfer dma_example, context_new mem_new))"
      "snd (dma_cycles 16 (dma_start_transfer dma_example, context_new mem_new))"]
  by (simp add: dma_example_def dma_is_busy_def valid_dram_range)

text \<open>
  C36: a transfer works on the configuration latched at dispatch.  Any sequence of register
  reads and writes, at any offset and including further dispatches, interleaved with the
  cycles of a running transfer leaves memory as the undisturbed copy of as many bytes as
  cycles have passed.
\<close>

theorem dma_transfer_latched:
  assumes "dma_active_transfer d = Some t" "clocks rs \<le> unat (at_bytes_remaining t)"
    and "ReqReset \<notin> set rs"
  shows "snd (device_run dma_ops rs (d, c)) =
    copy_bytes (clocks rs) (at_current_src t) (at_current_dst t) c"
  using assms by (rule dma_run_latched)

lemma dma_transfer_latched_witness:
  "snd (device_run dma_ops
     [ReqClock, ReqWriteWord 0x00 0x90000000, ReqWriteWord 0x08 1, ReqClock, ReqWriteWord 0x10 0]
     (dma_start_transfer dma_example, context_new mem_new)) =
   copy_bytes (Suc (Suc 0)) 0x80000010 0x80000008 (context_new mem_new)"
  using dma_transfer_latched [of "dma_start_transfer dma_example"
      "\<lparr>at_bytes_remaining = 16, at_current_src = 0x80000010, at_current_dst = 0x80000008\<rparr>"
      "[ReqClock, ReqWriteWord 0x00 0x90000000, ReqWriteWord 0x08 1, ReqClock, ReqWriteWord 0x10 0]"]
  by (simp add: dma_example_def dma_start_transfer_def dma_is_busy_def clocks_def)

end
