(* ===== verification/Chunk_Engine.thy ===== *)
theory Chunk_Engine
  imports Bus_Device
begin

text \<open>
  The streaming read that the video and the audio device share
  (\<open>Video::present_chunk\<close>, \<open>Audio::dma_chunk\<close>): each clock cycle appends one chunk of
  \<open>read_memory_chunk\<close> to a buffer until the latched byte count is used up.  The locale
  \<open>chunk_engine\<close> states what such a device does in one cycle; its lemmas show that the device
  finishes within as many cycles as there are bytes, with exactly the bytes of the region in
  order.  \<open>Video_Device\<close> and \<open>Audio_Device\<close> interpret it.
\<close>

text \<open>Address, remaining bytes and collected bytes of an active operation.\<close>

type_synonym chunk_state = "u32 \<times> u32 \<times> u8 list"

fun chunk_step :: "system_context \<Rightarrow> chunk_state \<Rightarrow> chunk_state" where
  "chunk_step c (a, n, xs) =
     (let (bytes, k) = read_memory_chunk c a n in (a + k, n - k, xs @ take (unat k) bytes))"

lemma chunk_stepE:
  assumes "n \<noteq> 0"
  obtains k where "0 < unat k" "k \<le> n"
    "chunk_step c (a, n, xs) = (a + k, n - k, xs @ read_block ctx_read_byte c a (unat k))"
    "unat (n - k) = unat n - unat k"
proof -
  obtain bytes k where r: "read_memory_chunk c a n = (bytes, k)" by fastforce
  then have k: "k = optimal_read_size a n" by (rule read_memory_chunk_bytes)
  with assms have "k \<le> n" "0 < unat k"
    using optimal_read_size_le optimal_read_size_pos by auto
  moreover from this have "unat (n - k) = unat n - unat k"
    by (simp add: unat_sub)
  ultimately show thesis
    using that [of k] r read_memory_chunk_bytes(1) [OF r] by simp
qed

lemma optimal_read_size_le4: "unat (optimal_read_size a n) \<le> 4"
  by (rule optimal_read_size_cases [of a n]) simp_all

lemma read_memory_chunk_progress:
  assumes "read_memory_chunk c a n = (bytes, k)" "n \<noteq> 0"
  shows "min (length bytes) (unat k) = unat k" "unat (n - k) = unat n - unat k"
    "unat k \<le> unat n"
proof -
  have k: "k = optimal_read_size a n" "length bytes = 4"
    using read_memory_chunk_bytes [OF assms(1)] by auto
  then show "min (length bytes) (unat k) = unat k"
    using optimal_read_size_le4 by simp
  have "k \<le> n" using optimal_read_size_le [OF assms(2)] k by simp
  then show "unat (n - k) = unat n - unat k" "unat k \<le> unat n"
    by (simp_all add: unat_sub word_le_nat_alt)
qed

locale chunk_engine =
  fixes clk :: "'d \<Rightarrow> system_context \<Rightarrow> 'd \<times> system_context"
    and active :: "'d \<Rightarrow> chunk_state option"
    and with_active :: "'d \<Rightarrow> chunk_state \<Rightarrow> 'd"
    and finish :: "'d \<Rightarrow> u8 list \<Rightarrow> system_context \<Rightarrow> 'd"
  assumes clk_idle: "active d = None \<Longrightarrow> clk d c = (d, c)"
    and clk_more: "active d = Some (a, n, xs) \<Longrightarrow> n \<noteq> 0 \<Longrightarrow>
      chunk_step c (a, n, xs) = (a', n', xs') \<Longrightarrow> n' \<noteq> 0 \<Longrightarrow>
      clk d c = (with_active d (a', n', xs'), c)"
    and clk_last: "active d = Some (a, n, xs) \<Longrightarrow> n \<noteq> 0 \<Longrightarrow>
      chunk_step c (a, n, xs) = (a', n', xs') \<Longrightarrow> n' = 0 \<Longrightarrow>
      clk d c = (finish d xs' c, c)"
    and active_with: "active d = Some s \<Longrightarrow> active (with_active d t) = Some t"
    and finish_with: "active d = Some s \<Longrightarrow> finish (with_active d t) xs c = finish d xs c"
    and active_finish: "active (finish d xs c) = None"
begin

definition cycle :: "'d \<times> system_context \<Rightarrow> 'd \<times> system_context" where
  "cycle s = clk (fst s) (snd s)"

lemma completes:
  assumes "active d = Some (a, n, xs)" "n \<noteq> 0"
  shows "\<exists>k. 0 < k \<and> k \<le> unat n \<and>
    (cycle ^^ k) (d, c) = (finish d (xs @ read_block ctx_read_byte c a (unat n)) c, c)"
  using assms
proof (induction "unat n" arbitrary: d a n xs rule: less_induct)
  case less
  obtain k where k: "0 < unat k" "k \<le> n"
    and s: "chunk_step c (a, n, xs) = (a + k, n - k, xs @ read_block ctx_read_byte c a (unat k))"
    and u: "unat (n - k) = unat n - unat k"
    using chunk_stepE [OF less.prems(2)] by metis
  from k(2) have le: "unat k \<le> unat n" by (simp add: word_le_nat_alt)
  show ?case
  proof (cases "n - k = 0")
    case True
    with u le have "unat n = unat k" by simp
    moreover have "cycle (d, c) = (finish d (xs @ read_block ctx_read_byte c a (unat k)) c, c)"
      using clk_last [OF less.prems s True] by (simp add: cycle_def)
    ultimately show ?thesis using k(1) by (intro exI [of _ 1]) simp
  next
    case False
    let ?t = "(a + k, n - k, xs @ read_block ctx_read_byte c a (unat k))"
    let ?d = "with_active d ?t"
    from le k(1) u have "unat (n - k) < unat n" by simp
    moreover have "active ?d = Some ?t" using active_with less.prems by blast
    ultimately obtain j where j: "0 < j" "j \<le> unat (n - k)" and
      r: "(cycle ^^ j) (?d, c) =
        (finish ?d (snd (snd ?t) @ read_block ctx_read_byte c (a + k) (unat (n - k))) c, c)"
      using less.hyps [of "n - k" ?d] False by fastforce
    have "read_block ctx_read_byte c a (unat n) =
        read_block ctx_read_byte c a (unat k) @
        read_block ctx_read_byte c (a + k) (unat (n - k))"
      using read_block_add [of ctx_read_byte c a "unat k" "unat (n - k)"] u le by simp
    moreover have "cycle (d, c) = (?d, c)"
      using clk_more [OF less.prems s False] by (simp add: cycle_def)
    ultimately have "(cycle ^^ Suc j) (d, c) =
        (finish d (xs @ read_block ctx_read_byte c a (unat n)) c, c)"
      using r finish_with less.prems by (simp add: funpow_swap1 del: funpow.simps(2))
        (simp add: funpow_Suc_right del: funpow.simps(2))
    then show ?thesis using j u k(1) le by (intro exI [of _ "Suc j"]) auto
  qed
qed

end

end
