(* ===== verification/Media_Config.thy ===== *)
theory Media_Config
  imports Address_Map
begin

text \<open>
  The configuration registers of the video and audio devices
  (\<open>riscv_shared/src/video.rs\<close>, \<open>riscv_shared/src/audio.rs\<close>): register addresses, the
  \<open>VideoConfig\<close> and \<open>AudioConfig\<close> structures with their register encodings, and the sine table
  that the test programs and the tests share.  A function with an \<open>expect\<close> or an \<open>assert!\<close>
  returns \<^term>\<open>None\<close> where it panics; a \<open>debug_assert!\<close> is not checked (release build).
\<close>

section \<open>Video\<close>

definition VIDEO_ADDR :: u32 where "VIDEO_ADDR = VIDEO_BASE"
definition VIDEO_CONFIG :: u32 where "VIDEO_CONFIG = VIDEO_BASE + 0x04"
definition VIDEO_STATUS :: u32 where "VIDEO_STATUS = VIDEO_BASE + 0x08"
definition VIDEO_PRESENT :: u32 where "VIDEO_PRESENT = VIDEO_BASE + 0x0C"

datatype video_format = Rgba8 | Rgb8 | Rgb565 | R8

fun bytes_per_pixel :: "video_format \<Rightarrow> u32" where
  "bytes_per_pixel Rgba8 = 4"
| "bytes_per_pixel Rgb8 = 3"
| "bytes_per_pixel Rgb565 = 2"
| "bytes_per_pixel R8 = 1"

definition video_format_from_u8 :: "u8 \<Rightarrow> video_format option" where
  "video_format_from_u8 v =
     (if v = 0 then Some Rgba8 else if v = 1 then Some Rgb8 else if v = 2 then Some Rgb565
      else if v = 3 then Some R8 else None)"

fun video_format_to_u8 :: "video_format \<Rightarrow> u8" where
  "video_format_to_u8 Rgba8 = 0"
| "video_format_to_u8 Rgb8 = 1"
| "video_format_to_u8 Rgb565 = 2"
| "video_format_to_u8 R8 = 3"

record video_config =
  vc_width :: u32
  vc_height :: u32
  vc_format :: video_format

definition video_config_from_register :: "u32 \<Rightarrow> video_config option" where
  "video_config_from_register v =
    (let width_minus_1 = v AND 0xFFF;
         height_minus_1 = drop_bit 12 v AND 0xFFF;
         format_field = ucast (drop_bit 24 v AND 0xFF)
     in case video_format_from_u8 format_field of
          None \<Rightarrow> None
        | Some f \<Rightarrow> Some \<lparr>vc_width = width_minus_1 + 1, vc_height = height_minus_1 + 1,
                         vc_format = f\<rparr>)"

definition video_config_to_register :: "video_config \<Rightarrow> u32 option" where
  "video_config_to_register c =
    (case checked_sub (vc_width c) 1 of
       None \<Rightarrow> None
     | Some w \<Rightarrow>
       (case checked_sub (vc_height c) 1 of
          None \<Rightarrow> None
        | Some h \<Rightarrow>
          (let width_minus_1 = w AND 0x0FFF; height_minus_1 = h AND 0x0FFF;
               format_field = ucast (video_format_to_u8 (vc_format c))
           in Some (width_minus_1 OR push_bit 12 height_minus_1 OR push_bit 24 format_field))))"

definition video_total_bytes :: "video_config \<Rightarrow> u32" where
  "video_total_bytes c = vc_width c * vc_height c * bytes_per_pixel (vc_format c)"

section \<open>Audio\<close>

definition AUDIO_ADDR :: u32 where "AUDIO_ADDR = AUDIO_BASE"
definition AUDIO_CONFIG :: u32 where "AUDIO_CONFIG = AUDIO_BASE + 0x04"
definition AUDIO_STATUS :: u32 where "AUDIO_STATUS = AUDIO_BASE + 0x08"
definition AUDIO_DMA :: u32 where "AUDIO_DMA = AUDIO_BASE + 0x0C"

datatype audio_sample_rate = Hz48000 | Hz44100 | Hz22050

fun to_hz :: "audio_sample_rate \<Rightarrow> u32" where
  "to_hz Hz48000 = 48000"
| "to_hz Hz44100 = 44100"
| "to_hz Hz22050 = 22050"

definition sample_rate_from_u8 :: "u8 \<Rightarrow> audio_sample_rate option" where
  "sample_rate_from_u8 v =
     (if v = 0 then Some Hz48000 else if v = 1 then Some Hz44100 else if v = 2 then Some Hz22050
      else None)"

fun sample_rate_to_u8 :: "audio_sample_rate \<Rightarrow> u8" where
  "sample_rate_to_u8 Hz48000 = 0"
| "sample_rate_to_u8 Hz44100 = 1"
| "sample_rate_to_u8 Hz22050 = 2"

datatype audio_channels = Mono | Stereo

fun channels_count :: "audio_channels \<Rightarrow> nat" where
  "channels_count Mono = 1"
| "channels_count Stereo = 2"

definition channels_from_u8 :: "u8 \<Rightarrow> audio_channels" where
  "channels_from_u8 v = (if v = 0 then Mono else Stereo)"

fun channels_to_u8 :: "audio_channels \<Rightarrow> u8" where
  "channels_to_u8 Mono = 0"
| "channels_to_u8 Stereo = 1"

record audio_config =
  ac_sample_rate :: audio_sample_rate
  ac_channels :: audio_channels
  ac_sample_count :: u32

definition audio_config_from_register :: "u32 \<Rightarrow> audio_config option" where
  "audio_config_from_register v =
    (let sample_rate_field = ucast (v AND 0x3);
         channels_field = ucast (drop_bit 2 v AND 0x1);
         sample_count_minus_1 = drop_bit 3 v AND 0xFFFF
     in case sample_rate_from_u8 sample_rate_field of
          None \<Rightarrow> None
        | Some r \<Rightarrow> Some \<lparr>ac_sample_rate = r, ac_channels = channels_from_u8 channels_field,
                         ac_sample_count = sample_count_minus_1 + 1\<rparr>)"

definition audio_config_to_register :: "audio_config \<Rightarrow> u32" where
  "audio_config_to_register c =
    (let sample_rate_field = ucast (sample_rate_to_u8 (ac_sample_rate c));
         channels_field = ucast (channels_to_u8 (ac_channels c));
         sample_count = ac_sample_count c;
         sample_count_minus_1 =
           (if sample_count > 0 \<and> sample_count \<le> 65536 then (sample_count - 1) AND 0xFFFF else 0)
     in sample_rate_field OR push_bit 2 channels_field OR push_bit 3 sample_count_minus_1)"

definition bytes_per_sample :: "audio_config \<Rightarrow> u32" where
  "bytes_per_sample c = 2 * of_nat (channels_count (ac_channels c))"

definition buffer_bytes :: "audio_config \<Rightarrow> u32 option" where
  "buffer_bytes c =
    (case checked_mul 2 (of_nat (channels_count (ac_channels c))) of
       None \<Rightarrow> None
     | Some bps \<Rightarrow> checked_mul (ac_sample_count c) bps)"

section \<open>The sine table\<close>

definition SINE_TABLE :: "i16 list" where
  "SINE_TABLE =
     [0, 1608, 3212, 4808, 6393, 7962, 9512, 11039, 12539, 14010, 15446, 16846, 18204, 19519,
      20787, 22005, 23170, 24279, 25329, 26319, 27245, 28105, 28898, 29621, 30273, 30852, 31356,
      31785, 32137, 32412, 32609, 32728]"

definition generate_sine_sample :: "u32 \<Rightarrow> u32 \<Rightarrow> i16" where
  "generate_sine_sample index frequency_div =
    (let d = (if frequency_div = 0 then 1 else frequency_div);
         phase = unat ((index div d) mod 128)
     in if phase < 32 then SINE_TABLE ! phase
        else if phase < 64 then SINE_TABLE ! (63 - phase)
        else if phase < 96 then - (SINE_TABLE ! (phase - 64))
        else - (SINE_TABLE ! (127 - phase)))"

section \<open>Register encodings\<close>

lemma video_format_roundtrip [simp]: "video_format_from_u8 (video_format_to_u8 f) = Some f"
  by (cases f) (simp_all add: video_format_from_u8_def)

lemma video_format_from_u8_Some: "video_format_from_u8 v = Some f \<longleftrightarrow> v = video_format_to_u8 f"
  by (cases f) (auto simp: video_format_from_u8_def)

lemma sample_rate_roundtrip [simp]: "sample_rate_from_u8 (sample_rate_to_u8 r) = Some r"
  by (cases r) (simp_all add: sample_rate_from_u8_def)

lemma sample_rate_from_u8_Some: "sample_rate_from_u8 v = Some r \<longleftrightarrow> v = sample_rate_to_u8 r"
  by (cases r) (auto simp: sample_rate_from_u8_def)

lemma channels_roundtrip [simp]: "channels_from_u8 (channels_to_u8 c) = c"
  by (cases c) (simp_all add: channels_from_u8_def)

lemma video_fields:
  fixes a b :: u32 and f :: u8
  defines "r \<equiv> take_bit 12 a OR push_bit 12 (take_bit 12 b) OR push_bit 24 (ucast f)"
  shows "take_bit 12 r = take_bit 12 a" "take_bit 12 (drop_bit 12 r) = take_bit 12 b"
    "ucast (take_bit 8 (drop_bit 24 r)) = f"
  unfolding r_def by (auto intro!: bit_word_eqI simp: bit_simps)

lemma audio_fields:
  fixes s c :: u8 and n :: u32
  defines "r \<equiv> ucast (take_bit 2 s) OR push_bit 2 (ucast (take_bit 1 c)) OR push_bit 3 (take_bit 16 n)"
  shows "ucast (take_bit 2 r) = take_bit 2 s" "ucast (take_bit 1 (drop_bit 2 r)) = take_bit 1 c"
    "take_bit 16 (drop_bit 3 r) = take_bit 16 n"
  unfolding r_def
  by (auto intro!: bit_word_eqI simp: bit_simps simp del: bit_0 take_bit_Suc_0 One_nat_def)

lemma sample_rate_to_u8_bits: "take_bit 2 (sample_rate_to_u8 r) = sample_rate_to_u8 r"
  by (cases r) simp_all

lemma channels_to_u8_bits: "take_bit 1 (channels_to_u8 c) = channels_to_u8 c"
  by (cases c) simp_all

lemma unat_bound_pred:
  assumes "1 \<le> unat w" "unat w \<le> 2 ^ k" "k < 32"
  shows "take_bit k (w - 1 :: u32) = w - 1" "w \<noteq> 0"
proof -
  show "w \<noteq> 0" using assms(1) by auto
  with assms unat_minus1 [of w] show "take_bit k (w - 1) = w - 1"
    by (intro take_bit_small) simp
qed

text \<open>A \<open>VideoConfig\<close> that the device can be given: both sides between 1 and 4096.\<close>

definition video_config_ok :: "video_config \<Rightarrow> bool" where
  "video_config_ok c \<longleftrightarrow>
     1 \<le> unat (vc_width c) \<and> unat (vc_width c) \<le> 4096 \<and>
     1 \<le> unat (vc_height c) \<and> unat (vc_height c) \<le> 4096"

definition audio_config_ok :: "audio_config \<Rightarrow> bool" where
  "audio_config_ok c \<longleftrightarrow> 1 \<le> unat (ac_sample_count c) \<and> unat (ac_sample_count c) \<le> 65536"

lemma video_from_register_ok:
  assumes "video_config_from_register v = Some c"
  shows "video_config_ok c"
proof -
  have "unat (take_bit 12 w + 1) \<le> 4096" "unat (take_bit 12 w + 1) \<ge> 1" for w :: u32
    using unat_take_bit_less [of 12 w] by (simp_all add: unat_plus1_take_bit)
  then show ?thesis
    using assms by (auto simp: video_config_from_register_def video_config_ok_def Let_def
        and_mask_take_bit split: option.splits)
qed

lemma audio_from_register_ok:
  assumes "audio_config_from_register v = Some c"
  shows "audio_config_ok c"
  using assms unat_take_bit_less [of 16 "drop_bit 3 v"]
  by (auto simp: audio_config_from_register_def audio_config_ok_def Let_def
      and_mask_take_bit unat_plus1_take_bit split: option.splits)

lemma video_to_register_ok:
  assumes "video_config_ok c"
  shows "video_config_to_register c =
    Some (take_bit 12 (vc_width c - 1) OR push_bit 12 (take_bit 12 (vc_height c - 1)) OR
      push_bit 24 (ucast (video_format_to_u8 (vc_format c))))"
  using assms
  by (simp add: video_config_to_register_def video_config_ok_def checked_sub_def
      word_le_nat_alt Let_def and_mask_take_bit)

lemma video_encode_decode:
  assumes "video_config_ok c"
  shows "\<exists>v. video_config_to_register c = Some v \<and> video_config_from_register v = Some c"
proof -
  have "take_bit 12 (vc_width c - 1) + 1 = vc_width c" "take_bit 12 (vc_height c - 1) + 1 = vc_height c"
    using assms unat_bound_pred [of "vc_width c" 12] unat_bound_pred [of "vc_height c" 12]
    by (simp_all add: video_config_ok_def)
  moreover obtain r where "video_config_to_register c = Some r"
    "take_bit 12 r = take_bit 12 (vc_width c - 1)"
    "take_bit 12 (drop_bit 12 r) = take_bit 12 (vc_height c - 1)"
    "ucast (take_bit 8 (drop_bit 24 r)) = video_format_to_u8 (vc_format c)"
    using video_to_register_ok [OF assms] video_fields by blast
  ultimately show ?thesis
    by (simp add: video_config_from_register_def Let_def and_mask_take_bit)
qed

lemma video_decode_encode:
  assumes "video_config_from_register v = Some c"
  shows "video_config_to_register c = Some v"
proof -
  have "take_bit 12 v OR push_bit 12 (take_bit 12 (drop_bit 12 v)) OR
      push_bit 24 (ucast (ucast (take_bit 8 (drop_bit 24 v)) :: u8)) = v"
    by (rule bit_word_eqI) (auto simp: bit_simps)
  then show ?thesis
    using assms video_to_register_ok [OF video_from_register_ok [OF assms]]
    by (auto simp: video_config_from_register_def Let_def and_mask_take_bit
        video_format_from_u8_Some split: option.splits)
qed

lemma video_total_bytes_nowrap:
  assumes "video_config_ok c"
  shows "unat (video_total_bytes c) =
      unat (vc_width c) * unat (vc_height c) * unat (bytes_per_pixel (vc_format c))"
    "0 < unat (video_total_bytes c)"
proof -
  have b: "unat (vc_width c) * unat (vc_height c) \<le> 4096 * 4096"
    using assms by (intro mult_le_mono) (simp_all add: video_config_ok_def)
  moreover have p: "1 \<le> unat (bytes_per_pixel (vc_format c))"
    "unat (bytes_per_pixel (vc_format c)) \<le> 4"
    by (cases "vc_format c"; simp)+
  ultimately have "unat (vc_width c) * unat (vc_height c) * unat (bytes_per_pixel (vc_format c))
      \<le> 4096 * 4096 * 4"
    using mult_le_mono [OF b p(2)] by simp
  with b show "unat (video_total_bytes c) =
      unat (vc_width c) * unat (vc_height c) * unat (bytes_per_pixel (vc_format c))"
    by (simp add: video_total_bytes_def unat_mult_nowrap)
  with assms p show "0 < unat (video_total_bytes c)" by (simp add: video_config_ok_def)
qed

lemma audio_to_register_ok:
  assumes "audio_config_ok c"
  shows "audio_config_to_register c =
    ucast (take_bit 2 (sample_rate_to_u8 (ac_sample_rate c))) OR
    push_bit 2 (ucast (take_bit 1 (channels_to_u8 (ac_channels c)))) OR
    push_bit 3 (take_bit 16 (ac_sample_count c - 1))"
  using assms
  by (simp add: audio_config_to_register_def audio_config_ok_def Let_def word_le_nat_alt
      word_less_nat_alt and_mask_take_bit sample_rate_to_u8_bits channels_to_u8_bits
      del: take_bit_Suc_0 One_nat_def)

lemma audio_encode_decode:
  assumes "audio_config_ok c"
  shows "audio_config_from_register (audio_config_to_register c) = Some c"
proof -
  have "take_bit 16 (ac_sample_count c - 1) + 1 = ac_sample_count c"
    using assms unat_bound_pred [of "ac_sample_count c" 16] by (simp add: audio_config_ok_def)
  moreover obtain r where "audio_config_to_register c = r"
    "ucast (take_bit 2 r) = sample_rate_to_u8 (ac_sample_rate c)"
    "ucast (take_bit 1 (drop_bit 2 r)) = channels_to_u8 (ac_channels c)"
    "take_bit 16 (drop_bit 3 r) = take_bit 16 (ac_sample_count c - 1)"
    using audio_to_register_ok [OF assms] audio_fields sample_rate_to_u8_bits
      channels_to_u8_bits by metis
  ultimately show ?thesis
    by (simp add: audio_config_from_register_def Let_def and_mask_take_bit
        del: take_bit_Suc_0 One_nat_def)
qed

lemma audio_bytes:
  assumes "audio_config_ok c"
  shows "checked_mul (ac_sample_count c) (bytes_per_sample c) =
      Some (ac_sample_count c * bytes_per_sample c)" (is ?A)
    "buffer_bytes c = Some (ac_sample_count c * bytes_per_sample c)" (is ?B)
    "unat (ac_sample_count c * bytes_per_sample c) =
      unat (ac_sample_count c) * channels_count (ac_channels c) * 2" (is ?C)
proof -
  have n: "unat (ac_sample_count c) \<le> 65536"
    using assms by (simp add: audio_config_ok_def)
  then have i: "uint (ac_sample_count c) \<le> 65536"
    using uint_nat [of "ac_sample_count c"] by linarith
  have bps: "bytes_per_sample c = (case ac_channels c of Mono \<Rightarrow> 2 | Stereo \<Rightarrow> 4)"
    by (cases "ac_channels c") (simp_all add: bytes_per_sample_def)
  have u: "unat (bytes_per_sample c) = channels_count (ac_channels c) * 2"
    "uint (bytes_per_sample c) \<le> 4" "channels_count (ac_channels c) \<le> 2"
    by (cases "ac_channels c"; simp add: bps)+
  have "uint (ac_sample_count c) * uint (bytes_per_sample c) \<le> 65536 * 4"
    using i u(2) by (intro mult_mono) simp_all
  then show ?A by (simp add: checked_mul_def)
  then show ?B
    by (cases "ac_channels c") (simp_all add: buffer_bytes_def bytes_per_sample_def checked_mul_def)
  have "unat (ac_sample_count c) * (channels_count (ac_channels c) * 2) \<le> 65536 * 4"
    using n u(3) by (intro mult_le_mono) simp_all
  then show ?C using unat_mult_nowrap [of "ac_sample_count c" "bytes_per_sample c"] u(1)
    by (simp add: mult.assoc)
qed

section \<open>Properties\<close>

text \<open>
  the video configuration register holds exactly the valid configurations.  Encoding a
  configuration of 1 to 4096 pixels a side and decoding it again returns it; every register
  value that decodes is the encoding of what it decodes to; and the byte count of a decoded
  configuration is the product of its dimensions, never zero and never wrapped.
\<close>

theorem video_config_roundtrip:
  "(video_config_ok c \<longrightarrow>
      (\<exists>r. video_config_to_register c = Some r \<and> video_config_from_register r = Some c)) \<and>
   (video_config_from_register v = Some c \<longrightarrow>
      video_config_to_register c = Some v \<and>
      unat (video_total_bytes c) =
        unat (vc_width c) * unat (vc_height c) * unat (bytes_per_pixel (vc_format c)) \<and>
      0 < unat (video_total_bytes c))"
  using video_encode_decode video_decode_encode video_from_register_ok video_total_bytes_nowrap
  by blast

lemma video_config_roundtrip_witness:
  "video_config_to_register \<lparr>vc_width = 320, vc_height = 240, vc_format = Rgb565\<rparr> = Some 0x020EF13F \<and>
   unat (video_total_bytes \<lparr>vc_width = 320, vc_height = 240, vc_format = Rgb565\<rparr>) = 153600"
  using video_config_roundtrip [of "\<lparr>vc_width = 320, vc_height = 240, vc_format = Rgb565\<rparr>" "0x020EF13F"]
  by (simp add: video_config_from_register_def Let_def video_format_from_u8_def)

text \<open>
  an audio configuration of 1 to 65536 samples survives the trip through its register,
  and the size of its DMA transfer is computed without overflow: the device's
  \<open>checked_mul\<close> never fails on a decoded configuration.
\<close>

theorem audio_config_roundtrip:
  assumes "audio_config_ok c"
  shows "audio_config_from_register (audio_config_to_register c) = Some c \<and>
    (\<exists>n. checked_mul (ac_sample_count c) (bytes_per_sample c) = Some n \<and>
      buffer_bytes c = Some n \<and>
      unat n = unat (ac_sample_count c) * channels_count (ac_channels c) * 2)"
  using audio_encode_decode [OF assms] audio_bytes [OF assms] by auto

lemma audio_config_roundtrip_witness:
  "audio_config_from_register (audio_config_to_register
     \<lparr>ac_sample_rate = Hz22050, ac_channels = Stereo, ac_sample_count = 65536\<rparr>) =
   Some \<lparr>ac_sample_rate = Hz22050, ac_channels = Stereo, ac_sample_count = 65536\<rparr>"
  by (rule audio_config_roundtrip [THEN conjunct1]) (simp add: audio_config_ok_def)

text \<open>The sine generator indexes its table in range for every index and divider.\<close>

lemma sine_phase_bound: "unat ((i div d) mod (128 :: u32)) < 128"
  by (simp add: unat_mod_distrib)

lemma generate_sine_sample_in_table:
  "generate_sine_sample i d \<in> set SINE_TABLE \<union> uminus ` set SINE_TABLE"
proof -
  have l: "length SINE_TABLE = 32" by (simp add: SINE_TABLE_def)
  show ?thesis
    using sine_phase_bound [of i "if d = 0 then 1 else d"]
    by (auto simp: generate_sine_sample_def Let_def l intro!: nth_mem imageI)
qed

end
