(* ===== verification/Video_Device.thy ===== *)
theory Video_Device
  imports Chunk_Engine Media_Config
begin

text \<open>
  The video device (\<open>bus-shared/src/video.rs\<close>): configuration registers, the present operation
  that streams a frame buffer out of DRAM, and frame pacing on host time.  The present
  callback is modelled by the log of the frames it was given, kept only when a callback is
  installed.  Frame pacing divides by \<open>target_fps\<close>, which panics in Rust for 0; the invariant
  \<open>video_inv\<close> excludes it (\<open>Video::new\<close> uses 60).
\<close>

section \<open>State and operations\<close>

record active_present =
  ap_current_addr :: u32
  ap_bytes_remaining :: u32
  ap_pixel_data :: "u8 list"
  ap_config :: video_config

record video =
  video_addr :: u32
  video_config_reg :: u32
  video_active_present :: "active_present option"
  video_target_fps :: u32
  video_last_frame_time_us :: "u64 option"
  video_has_callback :: bool
  video_presented :: "(u8 list \<times> video_config) list"

definition video_with_fps :: "u32 \<Rightarrow> bool \<Rightarrow> video" where
  "video_with_fps fps cb =
     \<lparr>video_addr = 0, video_config_reg = 0, video_active_present = None, video_target_fps = fps,
      video_last_frame_time_us = None, video_has_callback = cb, video_presented = []\<rparr>"

definition video_new :: "bool \<Rightarrow> video" where
  "video_new cb = video_with_fps 60 cb"

definition is_present_active :: "video \<Rightarrow> bool" where
  "is_present_active v = (video_active_present v \<noteq> None)"

definition is_frame_ready :: "video \<Rightarrow> u64 \<Rightarrow> bool" where
  "is_frame_ready v current_time_us =
    (case video_last_frame_time_us v of
       None \<Rightarrow> True
     | Some last_time_us \<Rightarrow>
       (let us_per_frame = 1000000 div ucast (video_target_fps v);
            elapsed_us = saturating_sub current_time_us last_time_us
        in elapsed_us \<ge> us_per_frame))"

definition start_present :: "video \<Rightarrow> video" where
  "start_present v =
    (if is_present_active v then v
     else case video_config_from_register (video_config_reg v) of
       None \<Rightarrow> v
     | Some config \<Rightarrow>
       (let total_bytes = video_total_bytes config
        in if total_bytes = 0 then v
           else v\<lparr>video_active_present := Some \<lparr>ap_current_addr = video_addr v,
             ap_bytes_remaining = total_bytes, ap_pixel_data = [], ap_config = config\<rparr>\<rparr>))"

definition invoke_present_callback :: "video \<Rightarrow> active_present \<Rightarrow> u64 \<Rightarrow> video" where
  "invoke_present_callback v p current_time_us =
    (let v = (if video_has_callback v
              then v\<lparr>video_presented := video_presented v @ [(ap_pixel_data p, ap_config p)]\<rparr>
              else v)
     in v\<lparr>video_last_frame_time_us := Some current_time_us\<rparr>)"

definition present_chunk :: "video \<Rightarrow> system_context \<Rightarrow> video \<times> system_context" where
  "present_chunk v ctx =
    (case video_active_present v of
       None \<Rightarrow> (v, ctx)
     | Some p \<Rightarrow>
       (let (bytes, read_size) = read_memory_chunk ctx (ap_current_addr p) (ap_bytes_remaining p);
            p = p\<lparr>ap_pixel_data := ap_pixel_data p @ take (unat read_size) bytes,
                  ap_current_addr := ap_current_addr p + read_size,
                  ap_bytes_remaining := ap_bytes_remaining p - read_size\<rparr>
        in if ap_bytes_remaining p = 0
           then (invoke_present_callback (v\<lparr>video_active_present := None\<rparr>) p
                   (ctx_elapsed_time_us ctx), ctx)
           else (v\<lparr>video_active_present := Some p\<rparr>, ctx)))"

definition video_read_word :: "video \<Rightarrow> system_context \<Rightarrow> u32 \<Rightarrow> (video, u32) handler" where
  "video_read_word v ctx offset =
     (if offset = 0x00 then (Ok (video_addr v), v, ctx)
      else if offset = 0x04 then (Ok (video_config_reg v), v, ctx)
      else if offset = 0x08 then
        (let status = 0;
             status = (if is_frame_ready v (ctx_elapsed_time_us ctx) then status OR push_bit 0 1
                       else status);
             status = (if \<not> is_present_active v then status OR push_bit 1 1 else status)
         in (Ok status, v, ctx))
      else if offset = 0x0C then (Err (ReadFromWriteOnly offset), v, ctx)
      else (Err (InvalidAddress offset), v, ctx))"

definition video_write_word ::
  "video \<Rightarrow> system_context \<Rightarrow> u32 \<Rightarrow> u32 \<Rightarrow> (video, unit) handler" where
  "video_write_word v ctx offset x =
     (if offset = 0x00 then (Ok (), v\<lparr>video_addr := x\<rparr>, ctx)
      else if offset = 0x04 then (Ok (), v\<lparr>video_config_reg := x\<rparr>, ctx)
      else if offset = 0x08 then (Err (WriteToReadOnly offset), v, ctx)
      else if offset = 0x0C then (Ok (), start_present v, ctx)
      else (Err (InvalidAddress offset), v, ctx))"

definition video_size :: "video \<Rightarrow> u32" where
  "video_size v = 16"

definition video_name :: "video \<Rightarrow> string" where
  "video_name v = ''Video''"

definition video_reset :: "video \<Rightarrow> system_context \<Rightarrow> video \<times> system_context" where
  "video_reset v ctx =
     (v\<lparr>video_addr := 0, video_config_reg := 0, video_active_present := None,
        video_last_frame_time_us := None\<rparr>, ctx)"

definition video_clock_cycle :: "video \<Rightarrow> system_context \<Rightarrow> video \<times> system_context" where
  "video_clock_cycle v ctx = present_chunk v ctx"

definition video_ops :: "video bus_device_ops" where
  "video_ops = \<lparr>
     bd_read_word = video_read_word, bd_write_word = video_write_word,
     bd_read_halfword = default_read_halfword, bd_write_halfword = default_write_halfword,
     bd_read_byte = default_read_byte, bd_write_byte = default_write_byte,
     bd_size = video_size, bd_name = video_name, bd_reset = video_reset,
     bd_clock_cycle = video_clock_cycle\<rparr>"

lemmas video_defs = video_read_word_def video_write_word_def video_size_def video_name_def
  video_reset_def video_clock_cycle_def video_ops_def

section \<open>Contract\<close>

text \<open>
  While a present operation runs, the bytes collected and the bytes remaining add up to the
  size of its configuration, and some remain.
\<close>

definition video_inv :: "video \<Rightarrow> bool" where
  "video_inv v \<longleftrightarrow> video_target_fps v \<noteq> 0 \<and>
     (\<forall>p. video_active_present v = Some p \<longrightarrow>
        ap_bytes_remaining p \<noteq> 0 \<and>
        length (ap_pixel_data p) + unat (ap_bytes_remaining p) =
          unat (video_total_bytes (ap_config p)))"

lemma video_new_inv: "video_inv (video_new cb)"
  by (simp add: video_inv_def video_new_def video_with_fps_def)

lemma start_present_inv: "video_inv v \<Longrightarrow> video_inv (start_present v)"
  by (auto simp: video_inv_def start_present_def Let_def split: option.splits)

lemma present_chunk_step:
  assumes "present_chunk v c = (v', c')"
  shows "video_inv v \<Longrightarrow> video_inv v'" "c' = c"
proof -
  show "c' = c" using assms
    by (auto simp: present_chunk_def Let_def split: option.splits prod.splits if_splits)
  assume i: "video_inv v"
  show "video_inv v'"
  proof (cases "video_active_present v")
    case None
    with assms i show ?thesis by (simp add: present_chunk_def)
  next
    case (Some p)
    obtain bytes k where r: "read_memory_chunk c (ap_current_addr p) (ap_bytes_remaining p) = (bytes, k)"
      by fastforce
    from Some i have "ap_bytes_remaining p \<noteq> 0" by (simp add: video_inv_def)
    note g = read_memory_chunk_progress [OF r this]
    with r Some i assms show ?thesis
      by (auto simp: present_chunk_def Let_def video_inv_def invoke_present_callback_def
          split: if_splits)
  qed
qed

interpretation video: bus_device video_ops video_inv
proof unfold_locales
  fix d c r x d' c' assume s: "device_step video_ops r (d, c) = (x, d', c')"
  show "ctx_effect c c'"
    using s by (cases r) (auto simp: video_defs default_ops outcome_def Let_def
        dest: present_chunk_step split: if_splits)
  show "bd_size video_ops d' = bd_size video_ops d" "bd_name video_ops d' = bd_name video_ops d"
    by (simp_all add: video_defs)
  assume "video_inv d"
  with s show "video_inv d'"
    by (cases r) (auto simp: video_defs default_ops outcome_def start_present_inv Let_def
        dest: present_chunk_step split: if_splits, auto simp: video_inv_def)
next
  fix d c r e d' c' assume "device_step video_ops r (d, c) = (Inl e, d', c')"
  then show "d' = d \<and> c' = c"
    by (cases r) (auto simp: video_defs default_ops outcome_def Let_def split: if_splits)
qed (simp_all add: video_defs)

section \<open>The present operation as a chunk engine\<close>

definition video_active :: "video \<Rightarrow> chunk_state option" where
  "video_active v =
     map_option (\<lambda>p. (ap_current_addr p, ap_bytes_remaining p, ap_pixel_data p))
       (video_active_present v)"

fun video_with_active :: "video \<Rightarrow> chunk_state \<Rightarrow> video" where
  "video_with_active v (a, n, xs) =
     v\<lparr>video_active_present := map_option (\<lambda>p. p\<lparr>ap_current_addr := a, ap_bytes_remaining := n,
       ap_pixel_data := xs\<rparr>) (video_active_present v)\<rparr>"

text \<open>The device after the last chunk: the frame is delivered and the pacing clock set.\<close>

definition video_finish :: "video \<Rightarrow> u8 list \<Rightarrow> system_context \<Rightarrow> video" where
  "video_finish v xs c =
    (case video_active_present v of
       None \<Rightarrow> v\<lparr>video_active_present := None\<rparr>
     | Some p \<Rightarrow> invoke_present_callback (v\<lparr>video_active_present := None\<rparr>)
         \<lparr>ap_current_addr = 0, ap_bytes_remaining = 0, ap_pixel_data = xs, ap_config = ap_config p\<rparr>
         (ctx_elapsed_time_us c))"

interpretation video_engine:
  chunk_engine video_clock_cycle video_active video_with_active video_finish
proof unfold_locales
  fix d :: video and c a n xs a' n' xs'
  assume a: "video_active d = Some (a, n, xs)" "n \<noteq> 0"
    and s: "chunk_step c (a, n, xs) = (a', n', xs')"
  from a obtain p where p: "video_active_present d = Some p"
    "ap_current_addr p = a" "ap_bytes_remaining p = n" "ap_pixel_data p = xs"
    by (auto simp: video_active_def)
  obtain bytes k where r: "read_memory_chunk c a n = (bytes, k)" by fastforce
  with s p show "n' \<noteq> 0 \<Longrightarrow> video_clock_cycle d c = (video_with_active d (a', n', xs'), c)"
    and "n' = 0 \<Longrightarrow> video_clock_cycle d c = (video_finish d xs' c, c)"
    by (auto simp: video_clock_cycle_def present_chunk_def video_finish_def Let_def
        invoke_present_callback_def)
qed (auto simp: video_active_def video_clock_cycle_def present_chunk_def video_finish_def
  invoke_present_callback_def Let_def split: option.splits)

definition video_cycles :: "nat \<Rightarrow> video \<times> system_context \<Rightarrow> video \<times> system_context" where
  "video_cycles n = (\<lambda>(v, c). video_clock_cycle v c) ^^ n"

lemma video_cycles_engine: "video_cycles n = video_engine.cycle ^^ n"
proof -
  have "(\<lambda>(v, c). video_clock_cycle v c) = video_engine.cycle"
    by (auto simp: fun_eq_iff video_engine.cycle_def)
  then show ?thesis by (simp add: video_cycles_def)
qed

section \<open>Properties\<close>

lemma start_present_active:
  assumes "\<not> is_present_active v" "video_config_from_register (video_config_reg v) = Some cfg"
  shows "start_present v = v\<lparr>video_active_present := Some \<lparr>ap_current_addr = video_addr v,
    ap_bytes_remaining = video_total_bytes cfg, ap_pixel_data = [], ap_config = cfg\<rparr>\<rparr>"
    "video_total_bytes cfg \<noteq> 0"
proof -
  show "video_total_bytes cfg \<noteq> 0"
    using video_total_bytes_nowrap(2) [OF video_from_register_ok [OF assms(2)]] by auto
  with assms show "start_present v = v\<lparr>video_active_present := Some
      \<lparr>ap_current_addr = video_addr v, ap_bytes_remaining = video_total_bytes cfg,
       ap_pixel_data = [], ap_config = cfg\<rparr>\<rparr>"
    by (simp add: start_present_def Let_def)
qed

text \<open>
  A triggered present operation delivers the frame.  From an idle device whose
  configuration register decodes and with a callback installed, after at most as many cycles
  as the frame has bytes the device is idle again and the callback has been called once more,
  with exactly the \<open>width * height * bytes_per_pixel\<close> bytes of memory at \<open>VIDEO_ADDR\<close>, in order
  (zero outside DRAM), and the decoded configuration; the pacing clock holds the completion time.
\<close>

lemma present_completes:
  assumes "\<not> is_present_active v" "video_has_callback v"
    and "video_config_from_register (video_config_reg v) = Some cfg"
  shows "\<exists>k v'. 0 < k \<and> k \<le> unat (video_total_bytes cfg) \<and>
    video_cycles k (start_present v, c) = (v', c) \<and> \<not> is_present_active v' \<and>
    video_presented v' = video_presented v @
      [(read_block ctx_read_byte c (video_addr v) (unat (video_total_bytes cfg)), cfg)] \<and>
    video_last_frame_time_us v' = Some (ctx_elapsed_time_us c)"
proof -
  note s = start_present_active [OF assms(1,3)]
  then have "video_active (start_present v) = Some (video_addr v, video_total_bytes cfg, [])"
    by (simp add: video_active_def)
  from video_engine.completes [OF this s(2), of c] obtain k
    where k: "0 < k" "k \<le> unat (video_total_bytes cfg)"
    and r: "video_cycles k (start_present v, c) =
      (video_finish (start_present v)
        (read_block ctx_read_byte c (video_addr v) (unat (video_total_bytes cfg))) c, c)"
    by (auto simp: video_cycles_engine)
  show ?thesis
    by (rule exI [of _ k], rule exI [of _ "video_finish (start_present v)
        (read_block ctx_read_byte c (video_addr v) (unat (video_total_bytes cfg))) c"])
      (use k r assms(2) s in \<open>simp add: video_finish_def invoke_present_callback_def
        is_present_active_def\<close>)
qed

definition video_example :: video where
  "video_example = (video_new True)\<lparr>video_addr := 0x80000000, video_config_reg := 0x02001003\<rparr>"

text \<open>
  The status register tells the truth.  On a device that satisfies its invariant, reading
  VIDEO_STATUS has no effect and returns FRAME_READY exactly when no frame has completed yet or
  at least \<open>1000000 / target_fps\<close> microseconds have passed since the last one, and
  PRESENT_READY exactly when no present operation is active.
\<close>

theorem video_status_register:
  "\<exists>s. video_read_word v c 0x08 = (Ok s, v, c) \<and>
    (s AND 1 \<noteq> 0 \<longleftrightarrow>
      (case video_last_frame_time_us v of None \<Rightarrow> True
       | Some t \<Rightarrow> 1000000 div unat (video_target_fps v) \<le>
           unat (ctx_elapsed_time_us c) - unat t)) \<and>
    (s AND 2 \<noteq> 0 \<longleftrightarrow> video_active_present v = None)"
proof -
  have u: "unat (ucast (video_target_fps v) :: u64) = unat (video_target_fps v)"
    by (simp add: unat_ucast_up)
  show ?thesis
    by (auto simp: video_read_word_def is_frame_ready_def is_present_active_def Let_def
        word_le_nat_alt unat_div_distrib u split: option.splits)
qed

end
