(* ===== verification/Audio_Device.thy ===== *)
theory Audio_Device
  imports Chunk_Engine Media_Config
begin

text \<open>
  The audio device (\<open>bus-shared/src/audio.rs\<close>): configuration registers, the DMA read of a
  sample buffer, the conversion of its bytes to samples, and the back pressure window.  The two
  callbacks are modelled by the logs of what they were given, kept when the callback is
  installed.  The threshold \<open>(sample_rate_hz as f32 * buffer_ahead_multiplier) as u32\<close> is a
  function field of the state, so that no claim depends on floating point; for the default
  multiplier 2.0 it is exactly twice the rate.  The failure of the fallible buffer allocation
  is not modelled.  \<open>samples_in_current_window\<close> wraps at 32 bits as in a release build.
\<close>

section \<open>State and operations\<close>

record active_dma =
  ad_current_addr :: u32
  ad_bytes_remaining :: u32
  ad_sample_data :: "u8 list"
  ad_config :: audio_config

record audio =
  audio_addr :: u32
  audio_config_reg :: u32
  audio_active_dma :: "active_dma option"
  audio_has_sample_callback :: bool
  audio_has_config_callback :: bool
  samples_in_current_window :: u32
  window_start_time_us :: "u64 option"
  max_samples_for_rate :: "u32 \<Rightarrow> u32"
  audio_samples_log :: "i16 list list"
  audio_config_log :: "audio_config list"

definition audio_with_threshold :: "(u32 \<Rightarrow> u32) \<Rightarrow> bool \<Rightarrow> bool \<Rightarrow> audio" where
  "audio_with_threshold f sample_cb config_cb =
     \<lparr>audio_addr = 0, audio_config_reg = 0, audio_active_dma = None,
      audio_has_sample_callback = sample_cb, audio_has_config_callback = config_cb,
      samples_in_current_window = 0, window_start_time_us = None, max_samples_for_rate = f,
      audio_samples_log = [], audio_config_log = []\<rparr>"

definition audio_new :: "bool \<Rightarrow> bool \<Rightarrow> audio" where
  "audio_new sample_cb config_cb = audio_with_threshold (\<lambda>hz. 2 * hz) sample_cb config_cb"

definition is_dma_active :: "audio \<Rightarrow> bool" where
  "is_dma_active a = (audio_active_dma a \<noteq> None)"

definition is_sample_buffer_ready :: "audio \<Rightarrow> u64 \<Rightarrow> bool" where
  "is_sample_buffer_ready a current_time_us =
    (case audio_config_from_register (audio_config_reg a) of
       None \<Rightarrow> True
     | Some config \<Rightarrow>
       (let window_elapsed = (case window_start_time_us a of
              None \<Rightarrow> 0 | Some start_time \<Rightarrow> saturating_sub current_time_us start_time)
        in if window_elapsed \<ge> 1000000 then True
           else samples_in_current_window a <
             max_samples_for_rate a (to_hz (ac_sample_rate config))))"

definition start_dma :: "audio \<Rightarrow> audio" where
  "start_dma a =
    (if is_dma_active a then a
     else case audio_config_from_register (audio_config_reg a) of
       None \<Rightarrow> a
     | Some config \<Rightarrow>
       (case checked_mul (ac_sample_count config) (bytes_per_sample config) of
          None \<Rightarrow> a
        | Some total_bytes \<Rightarrow>
          (if total_bytes = 0 then a
           else a\<lparr>audio_active_dma := Some \<lparr>ad_current_addr = audio_addr a,
             ad_bytes_remaining = total_bytes, ad_sample_data = [], ad_config = config\<rparr>\<rparr>)))"

text \<open>The two nested loops over samples and channels, skipping incomplete samples.\<close>

definition parse_samples :: "nat \<Rightarrow> nat \<Rightarrow> u8 list \<Rightarrow> i16 list" where
  "parse_samples sample_count channel_count data =
     concat (map (\<lambda>sample_idx. concat (map (\<lambda>channel_idx.
       (let byte_offset = (sample_idx * channel_count + channel_idx) * 2
        in if byte_offset + 1 < length data
           then [of_le16 (data ! byte_offset) (data ! (byte_offset + 1))] else []))
       [0..<channel_count])) [0..<sample_count])"

definition invoke_sample_callback :: "audio \<Rightarrow> active_dma \<Rightarrow> u64 \<Rightarrow> audio" where
  "invoke_sample_callback a d current_time_us =
    (let channel_count = channels_count (ac_channels (ad_config d));
         sample_count = unat (ac_sample_count (ad_config d));
         samples = parse_samples sample_count channel_count (ad_sample_data d);
         window_elapsed = (case window_start_time_us a of
           None \<Rightarrow> - 1 | Some start_time \<Rightarrow> saturating_sub current_time_us start_time);
         a = (if window_elapsed \<ge> 1000000
              then a\<lparr>window_start_time_us := Some current_time_us,
                     samples_in_current_window := of_nat sample_count\<rparr>
              else a\<lparr>samples_in_current_window :=
                       samples_in_current_window a + of_nat sample_count\<rparr>)
     in if audio_has_sample_callback a
        then a\<lparr>audio_samples_log := audio_samples_log a @ [samples]\<rparr> else a)"

definition dma_chunk :: "audio \<Rightarrow> system_context \<Rightarrow> audio \<times> system_context" where
  "dma_chunk a ctx =
    (case audio_active_dma a of
       None \<Rightarrow> (a, ctx)
     | Some d \<Rightarrow>
       (let (bytes, read_size) = read_memory_chunk ctx (ad_current_addr d) (ad_bytes_remaining d);
            d = d\<lparr>ad_sample_data := ad_sample_data d @ take (unat read_size) bytes,
                  ad_current_addr := ad_current_addr d + read_size,
                  ad_bytes_remaining := ad_bytes_remaining d - read_size\<rparr>
        in if ad_bytes_remaining d = 0
           then (invoke_sample_callback (a\<lparr>audio_active_dma := None\<rparr>) d
                   (ctx_elapsed_time_us ctx), ctx)
           else (a\<lparr>audio_active_dma := Some d\<rparr>, ctx)))"

definition handle_config_write :: "audio \<Rightarrow> u32 \<Rightarrow> audio" where
  "handle_config_write a new_config =
    (let a = a\<lparr>audio_config_reg := new_config, samples_in_current_window := 0,
               window_start_time_us := None\<rparr>
     in case audio_config_from_register new_config of
          None \<Rightarrow> a
        | Some config \<Rightarrow> if audio_has_config_callback a
            then a\<lparr>audio_config_log := audio_config_log a @ [config]\<rparr> else a)"

definition audio_read_word :: "audio \<Rightarrow> system_context \<Rightarrow> u32 \<Rightarrow> (audio, u32) handler" where
  "audio_read_word a ctx offset =
     (if offset = 0x00 then (Ok (audio_addr a), a, ctx)
      else if offset = 0x04 then (Ok (audio_config_reg a), a, ctx)
      else if offset = 0x08 then
        (let status = 0;
             status = (if \<not> is_dma_active a then status OR push_bit 0 1 else status);
             status = (if is_sample_buffer_ready a (ctx_elapsed_time_us ctx)
                       then status OR push_bit 1 1 else status)
         in (Ok status, a, ctx))
      else if offset = 0x0C then (Err (ReadFromWriteOnly offset), a, ctx)
      else (Err (InvalidAddress offset), a, ctx))"

definition audio_write_word ::
  "audio \<Rightarrow> system_context \<Rightarrow> u32 \<Rightarrow> u32 \<Rightarrow> (audio, unit) handler" where
  "audio_write_word a ctx offset x =
     (if offset = 0x00 then (Ok (), a\<lparr>audio_addr := x\<rparr>, ctx)
      else if offset = 0x04 then (Ok (), handle_config_write a x, ctx)
      else if offset = 0x08 then (Err (WriteToReadOnly offset), a, ctx)
      else if offset = 0x0C then (Ok (), start_dma a, ctx)
      else (Err (InvalidAddress offset), a, ctx))"

definition audio_size :: "audio \<Rightarrow> u32" where
  "audio_size a = 16"

definition audio_name :: "audio \<Rightarrow> string" where
  "audio_name a = ''Audio''"

definition audio_reset :: "audio \<Rightarrow> system_context \<Rightarrow> audio \<times> system_context" where
  "audio_reset a ctx =
     (a\<lparr>audio_addr := 0, audio_config_reg := 0, audio_active_dma := None,
        samples_in_current_window := 0, window_start_time_us := None\<rparr>, ctx)"

definition audio_clock_cycle :: "audio \<Rightarrow> system_context \<Rightarrow> audio \<times> system_context" where
  "audio_clock_cycle a ctx = dma_chunk a ctx"

definition audio_ops :: "audio bus_device_ops" where
  "audio_ops = \<lparr>
     bd_read_word = audio_read_word, bd_write_word = audio_write_word,
     bd_read_halfword = default_read_halfword, bd_write_halfword = default_write_halfword,
     bd_read_byte = default_read_byte, bd_write_byte = default_write_byte,
     bd_size = audio_size, bd_name = audio_name, bd_reset = audio_reset,
     bd_clock_cycle = audio_clock_cycle\<rparr>"

lemmas audio_defs = audio_read_word_def audio_write_word_def audio_size_def audio_name_def
  audio_reset_def audio_clock_cycle_def audio_ops_def

section \<open>Contract\<close>

definition audio_inv :: "audio \<Rightarrow> bool" where
  "audio_inv a \<longleftrightarrow>
     (\<forall>d. audio_active_dma a = Some d \<longrightarrow>
        ad_bytes_remaining d \<noteq> 0 \<and>
        length (ad_sample_data d) + unat (ad_bytes_remaining d) =
          unat (ac_sample_count (ad_config d)) * channels_count (ac_channels (ad_config d)) * 2)"

lemma start_dma_inv: "audio_inv a \<Longrightarrow> audio_inv (start_dma a)"
  using audio_bytes audio_from_register_ok
  by (fastforce simp: audio_inv_def start_dma_def split: option.splits if_splits)

lemma invoke_sample_callback_active [simp]:
  "audio_active_dma (invoke_sample_callback a d t) = audio_active_dma a"
  by (simp add: invoke_sample_callback_def Let_def)

lemma dma_chunk_step:
  assumes "dma_chunk a c = (a', c')"
  shows "audio_inv a \<Longrightarrow> audio_inv a'" "c' = c"
proof -
  show "c' = c" using assms
    by (auto simp: dma_chunk_def Let_def split: option.splits prod.splits if_splits)
  assume i: "audio_inv a"
  show "audio_inv a'"
  proof (cases "audio_active_dma a")
    case None
    with assms i show ?thesis by (simp add: dma_chunk_def)
  next
    case (Some d)
    obtain bytes k where r: "read_memory_chunk c (ad_current_addr d) (ad_bytes_remaining d) = (bytes, k)"
      by fastforce
    from Some i have "ad_bytes_remaining d \<noteq> 0" by (simp add: audio_inv_def)
    note g = read_memory_chunk_progress [OF r this]
    with r Some i assms show ?thesis
      by (auto simp: dma_chunk_def Let_def audio_inv_def split: if_splits)
  qed
qed

lemma handle_config_write_active [simp]:
  "audio_active_dma (handle_config_write a v) = audio_active_dma a"
  by (simp add: handle_config_write_def Let_def split: option.splits)

interpretation audio: bus_device audio_ops audio_inv
proof unfold_locales
  fix d c r x d' c' assume s: "device_step audio_ops r (d, c) = (x, d', c')"
  show "ctx_effect c c'"
    using s by (cases r) (auto simp: audio_defs default_ops outcome_def Let_def
        dest: dma_chunk_step split: if_splits)
  show "bd_size audio_ops d' = bd_size audio_ops d" "bd_name audio_ops d' = bd_name audio_ops d"
    by (simp_all add: audio_defs)
  assume "audio_inv d"
  with s show "audio_inv d'"
    by (cases r) (auto simp: audio_defs default_ops outcome_def start_dma_inv Let_def
        dest: dma_chunk_step split: if_splits, auto simp: audio_inv_def)
next
  fix d c r e d' c' assume "device_step audio_ops r (d, c) = (Inl e, d', c')"
  then show "d' = d \<and> c' = c"
    by (cases r) (auto simp: audio_defs default_ops outcome_def Let_def split: if_splits)
qed (simp_all add: audio_defs)

section \<open>The DMA read as a chunk engine\<close>

definition audio_active :: "audio \<Rightarrow> chunk_state option" where
  "audio_active a =
     map_option (\<lambda>d. (ad_current_addr d, ad_bytes_remaining d, ad_sample_data d))
       (audio_active_dma a)"

fun audio_with_active :: "audio \<Rightarrow> chunk_state \<Rightarrow> audio" where
  "audio_with_active v (a, n, xs) =
     v\<lparr>audio_active_dma := map_option (\<lambda>d. d\<lparr>ad_current_addr := a, ad_bytes_remaining := n,
       ad_sample_data := xs\<rparr>) (audio_active_dma v)\<rparr>"

definition audio_finish :: "audio \<Rightarrow> u8 list \<Rightarrow> system_context \<Rightarrow> audio" where
  "audio_finish a xs c =
    (case audio_active_dma a of
       None \<Rightarrow> a\<lparr>audio_active_dma := None\<rparr>
     | Some d \<Rightarrow> invoke_sample_callback (a\<lparr>audio_active_dma := None\<rparr>)
         \<lparr>ad_current_addr = 0, ad_bytes_remaining = 0, ad_sample_data = xs, ad_config = ad_config d\<rparr>
         (ctx_elapsed_time_us c))"

interpretation audio_engine:
  chunk_engine audio_clock_cycle audio_active audio_with_active audio_finish
proof unfold_locales
  fix d :: audio and c a n xs a' n' xs'
  assume a: "audio_active d = Some (a, n, xs)" "n \<noteq> 0"
    and s: "chunk_step c (a, n, xs) = (a', n', xs')"
  from a obtain p where p: "audio_active_dma d = Some p"
    "ad_current_addr p = a" "ad_bytes_remaining p = n" "ad_sample_data p = xs"
    by (auto simp: audio_active_def)
  obtain bytes k where r: "read_memory_chunk c a n = (bytes, k)" by fastforce
  with s p show "n' \<noteq> 0 \<Longrightarrow> audio_clock_cycle d c = (audio_with_active d (a', n', xs'), c)"
    and "n' = 0 \<Longrightarrow> audio_clock_cycle d c = (audio_finish d xs' c, c)"
    by (auto simp: audio_clock_cycle_def dma_chunk_def audio_finish_def Let_def
        invoke_sample_callback_def)
qed (auto simp: audio_active_def audio_clock_cycle_def dma_chunk_def audio_finish_def
  split: option.splits)

definition audio_cycles :: "nat \<Rightarrow> audio \<times> system_context \<Rightarrow> audio \<times> system_context" where
  "audio_cycles n = (\<lambda>(a, c). audio_clock_cycle a c) ^^ n"

lemma audio_cycles_engine: "audio_cycles n = audio_engine.cycle ^^ n"
proof -
  have "(\<lambda>(a, c). audio_clock_cycle a c) = audio_engine.cycle"
    by (auto simp: fun_eq_iff audio_engine.cycle_def)
  then show ?thesis by (simp add: audio_cycles_def)
qed

section \<open>The sample parser\<close>

lemma concat_map_two_level:
  "concat (map (\<lambda>s. concat (map (\<lambda>c. g (s * m + c)) [0..<m])) [0..<n]) = concat (map g [0..<n * m])"
proof (induction n)
  case (Suc n)
  have "map (\<lambda>c. g (n * m + c)) [0..<m] = map g [n * m..<n * m + m]"
    by (rule nth_equalityI) auto
  moreover have "[0..<Suc n * m] = [0..<n * m] @ [n * m..<n * m + m]"
    using upt_add_eq_append [of 0 "n * m" m] by (simp add: add.commute)
  ultimately show ?case using Suc by simp
qed simp

lemma parse_samples_flat:
  "parse_samples n m data =
     concat (map (\<lambda>i. if i * 2 + 1 < length data
       then [of_le16 (data ! (i * 2)) (data ! (i * 2 + 1))] else []) [0..<n * m])"
  unfolding parse_samples_def Let_def
  by (rule concat_map_two_level [where g = "\<lambda>i. if i * 2 + 1 < length data
       then [of_le16 (data ! (i * 2)) (data ! (i * 2 + 1))] else []"])

lemma parse_samples_prefix:
  "k * 2 \<le> length data \<Longrightarrow>
    concat (map le_bytes16 (concat (map (\<lambda>i. if i * 2 + 1 < length data
       then [of_le16 (data ! (i * 2)) (data ! (i * 2 + 1))] else []) [0..<k]))) = take (k * 2) data"
proof (induction k)
  case (Suc k)
  then have "take (Suc k * 2) data = take (k * 2) data @ [data ! (k * 2), data ! (k * 2 + 1)]"
    by (simp add: take_Suc_conv_app_nth)
  with Suc show ?case by simp
qed simp

lemma parse_samples_complete:
  assumes "length data = n * m * 2"
  shows "concat (map le_bytes16 (parse_samples n m data)) = data"
    "length (parse_samples n m data) = n * m"
proof -
  show "concat (map le_bytes16 (parse_samples n m data)) = data"
    using parse_samples_prefix [of "n * m" data] assms by (simp add: parse_samples_flat)
  then have "length (concat (map le_bytes16 (parse_samples n m data))) = n * m * 2"
    using assms by simp
  then show "length (parse_samples n m data) = n * m"
    by (simp add: length_concat comp_def sum_list_triv)
qed

section \<open>Properties\<close>

lemma start_dma_active:
  assumes "\<not> is_dma_active a" "audio_config_from_register (audio_config_reg a) = Some cfg"
  defines "n \<equiv> ac_sample_count cfg * bytes_per_sample cfg"
  shows "start_dma a = a\<lparr>audio_active_dma := Some \<lparr>ad_current_addr = audio_addr a,
      ad_bytes_remaining = n, ad_sample_data = [], ad_config = cfg\<rparr>\<rparr>"
    "n \<noteq> 0" "unat n = unat (ac_sample_count cfg) * channels_count (ac_channels cfg) * 2"
proof -
  have ok: "audio_config_ok cfg" using assms(2) by (rule audio_from_register_ok)
  note b = audio_bytes [OF ok]
  show u: "unat n = unat (ac_sample_count cfg) * channels_count (ac_channels cfg) * 2"
    using b n_def by simp
  moreover have "0 < unat (ac_sample_count cfg)" using ok by (simp add: audio_config_ok_def)
  moreover have "0 < channels_count (ac_channels cfg)" by (cases "ac_channels cfg") simp_all
  ultimately have "0 < unat n" by simp
  then show nz: "n \<noteq> 0" by auto
  show "start_dma a = a\<lparr>audio_active_dma := Some \<lparr>ad_current_addr = audio_addr a,
      ad_bytes_remaining = n, ad_sample_data = [], ad_config = cfg\<rparr>\<rparr>"
    using assms(1,2) b nz by (simp add: start_dma_def n_def)
qed

text \<open>
  C37: a triggered audio DMA delivers every sample.  From an idle device with a decodable
  configuration and a sample callback, after at most as many cycles as the buffer has bytes
  the device is idle again and the callback has received exactly one more buffer, of
  \<open>sample_count * channels\<close> samples, whose little-endian bytes are the memory at
  \<open>AUDIO_ADDR\<close>, in order, with no sample skipped.
\<close>

theorem audio_delivers_samples:
  assumes "\<not> is_dma_active a" "audio_has_sample_callback a"
    and "audio_config_from_register (audio_config_reg a) = Some cfg"
  shows "\<exists>k a' samples. 0 < k \<and> audio_cycles k (start_dma a, c) = (a', c) \<and>
    k \<le> unat (ac_sample_count cfg) * channels_count (ac_channels cfg) * 2 \<and>
    \<not> is_dma_active a' \<and> audio_samples_log a' = audio_samples_log a @ [samples] \<and>
    length samples = unat (ac_sample_count cfg) * channels_count (ac_channels cfg) \<and>
    concat (map le_bytes16 samples) =
      read_block ctx_read_byte c (audio_addr a) (2 * length samples)"
proof -
  let ?n = "ac_sample_count cfg * bytes_per_sample cfg"
  let ?d = "read_block ctx_read_byte c (audio_addr a) (unat ?n)"
  let ?s = "parse_samples (unat (ac_sample_count cfg)) (channels_count (ac_channels cfg)) ?d"
  note s = start_dma_active [OF assms(1,3)]
  then have "audio_active (start_dma a) = Some (audio_addr a, ?n, [])"
    by (simp add: audio_active_def)
  from audio_engine.completes [OF this s(2), of c] obtain k
    where k: "0 < k" "k \<le> unat ?n"
    and r: "audio_cycles k (start_dma a, c) = (audio_finish (start_dma a) ?d c, c)"
    by (auto simp: audio_cycles_engine)
  have p: "concat (map le_bytes16 ?s) = ?d"
    "length ?s = unat (ac_sample_count cfg) * channels_count (ac_channels cfg)"
    using parse_samples_complete [of ?d] s(3) by simp_all
  have "audio_samples_log (audio_finish (start_dma a) ?d c) = audio_samples_log a @ [?s]"
    "\<not> is_dma_active (audio_finish (start_dma a) ?d c)"
    using assms(2) s(1) by (simp_all add: audio_finish_def invoke_sample_callback_def Let_def
        is_dma_active_def)
  with k r p s(3) show ?thesis
    by (intro exI [of _ k] exI [of _ "audio_finish (start_dma a) ?d c"] exI [of _ ?s])
      (simp add: mult.commute)
qed

definition audio_example :: audio where
  "audio_example = (audio_new True False)\<lparr>audio_addr := 0x80001000, audio_config_reg := 0x1D\<rparr>"

lemma audio_delivers_samples_witness:
  "\<exists>k a' samples. 0 < k \<and>
    audio_cycles k (start_dma audio_example, context_new mem_new) = (a', context_new mem_new) \<and>
    k \<le> 16 \<and> \<not> is_dma_active a' \<and> audio_samples_log a' = [samples] \<and> length samples = 8 \<and>
    concat (map le_bytes16 samples) =
      read_block ctx_read_byte (context_new mem_new) 0x80001000 (2 * length samples)"
  using audio_delivers_samples [of audio_example
      "\<lparr>ac_sample_rate = Hz44100, ac_channels = Stereo, ac_sample_count = 4\<rparr>" "context_new mem_new"]
  by (simp add: audio_example_def audio_new_def audio_with_threshold_def is_dma_active_def
      audio_config_from_register_def Let_def sample_rate_from_u8_def channels_from_u8_def)

end
