(* ===== verification/System_Bus.thy ===== *)
theory System_Bus
  imports Simple_Devices Dma_Engine Video_Device Audio_Device
begin

text \<open>
  The system bus (\<open>bus-shared/src/bus.rs\<close>): the memory map, registration of devices, routing of
  reads and writes, reset and clocking.  A boxed \<open>dyn BusDevice\<close> is the sum of the device
  implementations of the repository, \<open>ext_device\<close>, with its own interpretation of the device
  contract.  A panic (an access to the RTL half of the address space, an index out of range) is
  \<^term>\<open>None\<close>.  The invariant \<open>bus_inv\<close> says that the map entries are disjoint, name existing
  devices and cover the built-in ones; the lemmas show that registration and every access keep
  it, that routing is unique and total, and that DRAM behaves as one byte memory.
\<close>

section \<open>External devices\<close>

datatype ext_device = ExtDma dma | ExtVideo video | ExtAudio audio | ExtFifo fifo

definition map_dev :: "('d \<Rightarrow> 'e) \<Rightarrow> ('d, 'a) handler \<Rightarrow> ('e, 'a) handler" where
  "map_dev f h = (case h of (r, d, c) \<Rightarrow> (r, f d, c))"

fun ext_read_word :: "ext_device \<Rightarrow> system_context \<Rightarrow> u32 \<Rightarrow> (ext_device, u32) handler" where
  "ext_read_word (ExtDma d) c a = map_dev ExtDma (bd_read_word dma_ops d c a)"
| "ext_read_word (ExtVideo d) c a = map_dev ExtVideo (bd_read_word video_ops d c a)"
| "ext_read_word (ExtAudio d) c a = map_dev ExtAudio (bd_read_word audio_ops d c a)"
| "ext_read_word (ExtFifo d) c a = map_dev ExtFifo (bd_read_word fifo_ops d c a)"

fun ext_write_word ::
  "ext_device \<Rightarrow> system_context \<Rightarrow> u32 \<Rightarrow> u32 \<Rightarrow> (ext_device, unit) handler" where
  "ext_write_word (ExtDma d) c a v = map_dev ExtDma (bd_write_word dma_ops d c a v)"
| "ext_write_word (ExtVideo d) c a v = map_dev ExtVideo (bd_write_word video_ops d c a v)"
| "ext_write_word (ExtAudio d) c a v = map_dev ExtAudio (bd_write_word audio_ops d c a v)"
| "ext_write_word (ExtFifo d) c a v = map_dev ExtFifo (bd_write_word fifo_ops d c a v)"

fun ext_read_halfword :: "ext_device \<Rightarrow> system_context \<Rightarrow> u32 \<Rightarrow> (ext_device, u16) handler" where
  "ext_read_halfword (ExtDma d) c a = map_dev ExtDma (bd_read_halfword dma_ops d c a)"
| "ext_read_halfword (ExtVideo d) c a = map_dev ExtVideo (bd_read_halfword video_ops d c a)"
| "ext_read_halfword (ExtAudio d) c a = map_dev ExtAudio (bd_read_halfword audio_ops d c a)"
| "ext_read_halfword (ExtFifo d) c a = map_dev ExtFifo (bd_read_halfword fifo_ops d c a)"

fun ext_write_halfword ::
  "ext_device \<Rightarrow> system_context \<Rightarrow> u32 \<Rightarrow> u16 \<Rightarrow> (ext_device, unit) handler" where
  "ext_write_halfword (ExtDma d) c a v = map_dev ExtDma (bd_write_halfword dma_ops d c a v)"
| "ext_write_halfword (ExtVideo d) c a v = map_dev ExtVideo (bd_write_halfword video_ops d c a v)"
| "ext_write_halfword (ExtAudio d) c a v = map_dev ExtAudio (bd_write_halfword audio_ops d c a v)"
| "ext_write_halfword (ExtFifo d) c a v = map_dev ExtFifo (bd_write_halfword fifo_ops d c a v)"

fun ext_read_byte :: "ext_device \<Rightarrow> system_context \<Rightarrow> u32 \<Rightarrow> (ext_device, u8) handler" where
  "ext_read_byte (ExtDma d) c a = map_dev ExtDma (bd_read_byte dma_ops d c a)"
| "ext_read_byte (ExtVideo d) c a = map_dev ExtVideo (bd_read_byte video_ops d c a)"
| "ext_read_byte (ExtAudio d) c a = map_dev ExtAudio (bd_read_byte audio_ops d c a)"
| "ext_read_byte (ExtFifo d) c a = map_dev ExtFifo (bd_read_byte fifo_ops d c a)"

fun ext_write_byte ::
  "ext_device \<Rightarrow> system_context \<Rightarrow> u32 \<Rightarrow> u8 \<Rightarrow> (ext_device, unit) handler" where
  "ext_write_byte (ExtDma d) c a v = map_dev ExtDma (bd_write_byte dma_ops d c a v)"
| "ext_write_byte (ExtVideo d) c a v = map_dev ExtVideo (bd_write_byte video_ops d c a v)"
| "ext_write_byte (ExtAudio d) c a v = map_dev ExtAudio (bd_write_byte audio_ops d c a v)"
| "ext_write_byte (ExtFifo d) c a v = map_dev ExtFifo (bd_write_byte fifo_ops d c a v)"

fun ext_size :: "ext_device \<Rightarrow> u32" where
  "ext_size (ExtDma d) = bd_size dma_ops d"
| "ext_size (ExtVideo d) = bd_size video_ops d"
| "ext_size (ExtAudio d) = bd_size audio_ops d"
| "ext_size (ExtFifo d) = bd_size fifo_ops d"

fun ext_name :: "ext_device \<Rightarrow> string" where
  "ext_name (ExtDma d) = bd_name dma_ops d"
| "ext_name (ExtVideo d) = bd_name video_ops d"
| "ext_name (ExtAudio d) = bd_name audio_ops d"
| "ext_name (ExtFifo d) = bd_name fifo_ops d"

fun ext_reset :: "ext_device \<Rightarrow> system_context \<Rightarrow> ext_device \<times> system_context" where
  "ext_reset (ExtDma d) c = map_prod ExtDma id (bd_reset dma_ops d c)"
| "ext_reset (ExtVideo d) c = map_prod ExtVideo id (bd_reset video_ops d c)"
| "ext_reset (ExtAudio d) c = map_prod ExtAudio id (bd_reset audio_ops d c)"
| "ext_reset (ExtFifo d) c = map_prod ExtFifo id (bd_reset fifo_ops d c)"

fun ext_clock_cycle :: "ext_device \<Rightarrow> system_context \<Rightarrow> ext_device \<times> system_context" where
  "ext_clock_cycle (ExtDma d) c = map_prod ExtDma id (bd_clock_cycle dma_ops d c)"
| "ext_clock_cycle (ExtVideo d) c = map_prod ExtVideo id (bd_clock_cycle video_ops d c)"
| "ext_clock_cycle (ExtAudio d) c = map_prod ExtAudio id (bd_clock_cycle audio_ops d c)"
| "ext_clock_cycle (ExtFifo d) c = map_prod ExtFifo id (bd_clock_cycle fifo_ops d c)"

definition ext_ops :: "ext_device bus_device_ops" where
  "ext_ops = \<lparr>
     bd_read_word = ext_read_word, bd_write_word = ext_write_word,
     bd_read_halfword = ext_read_halfword, bd_write_halfword = ext_write_halfword,
     bd_read_byte = ext_read_byte, bd_write_byte = ext_write_byte,
     bd_size = ext_size, bd_name = ext_name, bd_reset = ext_reset,
     bd_clock_cycle = ext_clock_cycle\<rparr>"

fun ext_inv :: "ext_device \<Rightarrow> bool" where
  "ext_inv (ExtDma d) = dma_inv d"
| "ext_inv (ExtVideo d) = video_inv d"
| "ext_inv (ExtAudio d) = audio_inv d"
| "ext_inv (ExtFifo d) = True"

lemma map_dev_simp [simp]: "map_dev f (r, d, c) = (r, f d, c)"
  by (simp add: map_dev_def)

lemma map_dev_iff: "map_dev f h = (r, e, c) \<longleftrightarrow> (\<exists>d. h = (r, d, c) \<and> e = f d)"
  by (cases h) auto

lemma outcome_map_dev: "outcome g (map_dev f h) = map_dev f (outcome g h)"
  by (cases h) (simp add: outcome_def)

lemma map_dev_Ok: "(Inr x, map_prod f id p) = map_dev f (Inr x, p)"
  by (cases p) simp

lemma ext_step:
  "device_step ext_ops r (ExtDma d, c) = map_dev ExtDma (device_step dma_ops r (d, c))"
  "device_step ext_ops r (ExtVideo v, c) = map_dev ExtVideo (device_step video_ops r (v, c))"
  "device_step ext_ops r (ExtAudio a, c) = map_dev ExtAudio (device_step audio_ops r (a, c))"
  "device_step ext_ops r (ExtFifo f, c) = map_dev ExtFifo (device_step fifo_ops r (f, c))"
  by (cases r; simp add: ext_ops_def outcome_map_dev map_dev_Ok)+

lemma ext_ops_size_name [simp]: "bd_size ext_ops = ext_size" "bd_name ext_ops = ext_name"
  by (simp_all add: ext_ops_def)

interpretation ext: bus_device ext_ops ext_inv
proof unfold_locales
  fix d c r x d' c' assume s: "device_step ext_ops r (d, c) = (x, d', c')"
  show "ctx_effect c c'" "bd_size ext_ops d' = bd_size ext_ops d"
    "bd_name ext_ops d' = bd_name ext_ops d"
    using s by (cases d; force simp: ext_step map_dev_iff
        dest: dma.step_ctx video.step_ctx audio.step_ctx fifo.step_ctx
          dma.step_size video.step_size audio.step_size fifo.step_size
          dma.step_name video.step_name audio.step_name fifo.step_name)+
  assume "ext_inv d"
  with s show "ext_inv d'"
    by (cases d) (auto simp: ext_step map_dev_iff
        dest: dma.step_inv video.step_inv audio.step_inv)
next
  fix d c r e d' c' assume "device_step ext_ops r (d, c) = (Inl e, d', c')"
  then show "d' = d \<and> c' = c"
    by (cases d) (auto simp: ext_step map_dev_iff
        dest: dma.step_err video.step_err audio.step_err fifo.step_err)
next
  fix d show "bd_size ext_ops d \<noteq> 0" "bd_size ext_ops d mod 4 = 0"
    using dma.size_pos dma.size_aligned video.size_pos video.size_aligned audio.size_pos
      audio.size_aligned fifo.size_pos fifo.size_aligned
    by (cases d; simp)+
qed

section \<open>The bus\<close>

datatype device_id = IdDram | IdSimControl | IdExternal nat

record memory_map_entry =
  mme_base :: u32
  mme_end :: u32
  mme_id :: device_id

record system_bus =
  sb_memory :: memory
  sb_dram :: dram
  sb_sim_control :: sim_control
  sb_external_devices :: "ext_device list"
  sb_memory_map :: "memory_map_entry list"
  sb_elapsed_time_us :: u64

definition system_bus_new :: system_bus where
  "system_bus_new =
    (let dram = dram_new; sc = sim_control_new
     in \<lparr>sb_memory = mem_new, sb_dram = dram, sb_sim_control = sc, sb_external_devices = [],
         sb_memory_map =
           [\<lparr>mme_base = SIM_CONTROL_BASE,
             mme_end = saturating_add SIM_CONTROL_BASE (bd_size sim_control_ops sc),
             mme_id = IdSimControl\<rparr>,
            \<lparr>mme_base = DRAM_BASE, mme_end = saturating_add DRAM_BASE (bd_size dram_ops dram),
             mme_id = IdDram\<rparr>],
         sb_elapsed_time_us = 0\<rparr>)"

definition update_elapsed_time :: "system_bus \<Rightarrow> u64 \<Rightarrow> system_bus" where
  "update_elapsed_time b t = b\<lparr>sb_elapsed_time_us := t\<rparr>"

text \<open>The name of the device behind a handle; the index panics out of range.\<close>

definition device_name :: "system_bus \<Rightarrow> device_id \<Rightarrow> string option" where
  "device_name b i =
    (case i of
       IdDram \<Rightarrow> Some (bd_name dram_ops (sb_dram b))
     | IdSimControl \<Rightarrow> Some (bd_name sim_control_ops (sb_sim_control b))
     | IdExternal idx \<Rightarrow>
         if idx < length (sb_external_devices b)
         then Some (bd_name ext_ops (sb_external_devices b ! idx)) else None)"

definition register_device ::
  "system_bus \<Rightarrow> u32 \<Rightarrow> ext_device \<Rightarrow> ((registration_error, unit) result \<times> system_bus) option" where
  "register_device b base_addr device =
    (let sz = bd_size ext_ops device
     in if sz = 0 then Some (Err ZeroSize, b)
        else if \<not> is_multiple_of sz 4 then Some (Err (InvalidAlignment sz), b)
        else if \<not> is_multiple_of base_addr 4 then Some (Err (InvalidBaseAlignment base_addr), b)
        else
          (let end_addr = saturating_add base_addr sz
           in case find (\<lambda>e. ranges_overlap base_addr end_addr (mme_base e) (mme_end e))
                (sb_memory_map b) of
                Some e \<Rightarrow>
                  (case device_name b (mme_id e) of
                     None \<Rightarrow> None
                   | Some nm \<Rightarrow>
                       Some (Err (AddressOverlap base_addr end_addr (mme_base e) (mme_end e) nm), b))
              | None \<Rightarrow>
                  (let device_idx = length (sb_external_devices b)
                   in Some (Ok (), b\<lparr>sb_external_devices := sb_external_devices b @ [device],
                        sb_memory_map := sb_memory_map b @
                          [\<lparr>mme_base = base_addr, mme_end = end_addr,
                            mme_id = IdExternal device_idx\<rparr>]\<rparr>))))"

definition registered_devices :: "system_bus \<Rightarrow> (u32 \<times> u32 \<times> string option) list" where
  "registered_devices b =
     map (\<lambda>e. (mme_base e, mme_end e - mme_base e, device_name b (mme_id e))) (sb_memory_map b)"

definition find_device_id :: "system_bus \<Rightarrow> u32 \<Rightarrow> (device_id \<times> u32) option" where
  "find_device_id b addr =
    (case find (\<lambda>e. mme_base e \<le> addr \<and> addr < mme_end e) (sb_memory_map b) of
       Some e \<Rightarrow> Some (mme_id e, addr - mme_base e)
     | None \<Rightarrow> None)"

text \<open>
  The common shape of the six accesses: build the context, call the method of the device the
  handle names, store the device and the memory back.
\<close>

definition bus_dispatch ::
  "(dram \<Rightarrow> system_context \<Rightarrow> (dram, 'a) handler) \<Rightarrow>
   (sim_control \<Rightarrow> system_context \<Rightarrow> (sim_control, 'a) handler) \<Rightarrow>
   (ext_device \<Rightarrow> system_context \<Rightarrow> (ext_device, 'a) handler) \<Rightarrow>
   system_bus \<Rightarrow> device_id \<Rightarrow> ((bus_device_error, 'a) result \<times> system_bus) option" where
  "bus_dispatch f_dram f_sim f_ext b i =
    (let ctx = with_elapsed_time (sb_memory b) (sb_elapsed_time_us b)
     in case i of
          IdDram \<Rightarrow>
            (case f_dram (sb_dram b) ctx of
               (r, d, c) \<Rightarrow> Some (r, b\<lparr>sb_dram := d, sb_memory := ctx_memory c\<rparr>))
        | IdSimControl \<Rightarrow>
            (case f_sim (sb_sim_control b) ctx of
               (r, s, c) \<Rightarrow> Some (r, b\<lparr>sb_sim_control := s, sb_memory := ctx_memory c\<rparr>))
        | IdExternal idx \<Rightarrow>
            if idx < length (sb_external_devices b)
            then (case f_ext (sb_external_devices b ! idx) ctx of
                    (r, d, c) \<Rightarrow> Some (r, b\<lparr>
                      sb_external_devices := (sb_external_devices b)[idx := d],
                      sb_memory := ctx_memory c\<rparr>))
            else None)"

text \<open>A device error is logged and yields the default value; an unmapped RTL address panics.\<close>

definition bus_read ::
  "'a \<Rightarrow> (u32 \<Rightarrow> dram \<Rightarrow> system_context \<Rightarrow> (dram, 'a) handler) \<Rightarrow>
   (u32 \<Rightarrow> sim_control \<Rightarrow> system_context \<Rightarrow> (sim_control, 'a) handler) \<Rightarrow>
   (u32 \<Rightarrow> ext_device \<Rightarrow> system_context \<Rightarrow> (ext_device, 'a) handler) \<Rightarrow>
   system_bus \<Rightarrow> u32 \<Rightarrow> ('a \<times> system_bus) option" where
  "bus_read dv f_dram f_sim f_ext b addr =
    (case find_device_id b addr of
       Some (i, offset) \<Rightarrow>
         (case bus_dispatch (f_dram offset) (f_sim offset) (f_ext offset) b i of
            None \<Rightarrow> None
          | Some (Inr v, b') \<Rightarrow> Some (v, b')
          | Some (Inl e, b') \<Rightarrow> Some (dv, b'))
     | None \<Rightarrow> if is_rtl_peripheral_addr addr then None else Some (dv, b))"

definition bus_read_word :: "system_bus \<Rightarrow> u32 \<Rightarrow> (u32 \<times> system_bus) option" where
  "bus_read_word = bus_read 0
     (\<lambda>off d c. bd_read_word dram_ops d c off)
     (\<lambda>off d c. bd_read_word sim_control_ops d c off)
     (\<lambda>off d c. bd_read_word ext_ops d c off)"

definition bus_read_halfword :: "system_bus \<Rightarrow> u32 \<Rightarrow> (u16 \<times> system_bus) option" where
  "bus_read_halfword = bus_read 0
     (\<lambda>off d c. bd_read_halfword dram_ops d c off)
     (\<lambda>off d c. bd_read_halfword sim_control_ops d c off)
     (\<lambda>off d c. bd_read_halfword ext_ops d c off)"

definition bus_read_byte :: "system_bus \<Rightarrow> u32 \<Rightarrow> (u8 \<times> system_bus) option" where
  "bus_read_byte = bus_read 0
     (\<lambda>off d c. bd_read_byte dram_ops d c off)
     (\<lambda>off d c. bd_read_byte sim_control_ops d c off)
     (\<lambda>off d c. bd_read_byte ext_ops d c off)"

definition bus_write_word :: "system_bus \<Rightarrow> u32 \<Rightarrow> u32 \<Rightarrow> system_bus option" where
  "bus_write_word b addr v = map_option snd (bus_read ()
     (\<lambda>off d c. bd_write_word dram_ops d c off v)
     (\<lambda>off d c. bd_write_word sim_control_ops d c off v)
     (\<lambda>off d c. bd_write_word ext_ops d c off v) b addr)"

definition bus_write_halfword :: "system_bus \<Rightarrow> u32 \<Rightarrow> u16 \<Rightarrow> system_bus option" where
  "bus_write_halfword b addr v = map_option snd (bus_read ()
     (\<lambda>off d c. bd_write_halfword dram_ops d c off v)
     (\<lambda>off d c. bd_write_halfword sim_control_ops d c off v)
     (\<lambda>off d c. bd_write_halfword ext_ops d c off v) b addr)"

definition bus_write_byte :: "system_bus \<Rightarrow> u32 \<Rightarrow> u8 \<Rightarrow> system_bus option" where
  "bus_write_byte b addr v = map_option snd (bus_read ()
     (\<lambda>off d c. bd_write_byte dram_ops d c off v)
     (\<lambda>off d c. bd_write_byte sim_control_ops d c off v)
     (\<lambda>off d c. bd_write_byte ext_ops d c off v) b addr)"

text \<open>The loops over the external devices thread the context through.\<close>

primrec for_devices ::
  "('d \<Rightarrow> system_context \<Rightarrow> 'd \<times> system_context) \<Rightarrow> 'd list \<Rightarrow> system_context \<Rightarrow>
   'd list \<times> system_context" where
  "for_devices f [] c = ([], c)"
| "for_devices f (d # ds) c =
     (let (d', c1) = f d c; (ds', c2) = for_devices f ds c1 in (d' # ds', c2))"

definition reset_all_devices :: "system_bus \<Rightarrow> system_bus" where
  "reset_all_devices b =
    (let ctx = with_elapsed_time (sb_memory b) (sb_elapsed_time_us b);
         (d, ctx) = bd_reset dram_ops (sb_dram b) ctx;
         (s, ctx) = bd_reset sim_control_ops (sb_sim_control b) ctx;
         (ds, ctx) = for_devices (bd_reset ext_ops) (sb_external_devices b) ctx
     in b\<lparr>sb_dram := d, sb_sim_control := s, sb_external_devices := ds,
          sb_memory := mem_reset (ctx_memory ctx)\<rparr>)"

definition clock_cycle_all_devices :: "system_bus \<Rightarrow> system_bus" where
  "clock_cycle_all_devices b =
    (let ctx = with_elapsed_time (sb_memory b) (sb_elapsed_time_us b);
         (d, ctx) = bd_clock_cycle dram_ops (sb_dram b) ctx;
         (s, ctx) = bd_clock_cycle sim_control_ops (sb_sim_control b) ctx;
         (ds, ctx) = for_devices (bd_clock_cycle ext_ops) (sb_external_devices b) ctx
     in b\<lparr>sb_dram := d, sb_sim_control := s, sb_external_devices := ds,
          sb_memory := ctx_memory ctx\<rparr>)"

section \<open>Invariant\<close>

fun entries_disjoint :: "memory_map_entry list \<Rightarrow> bool" where
  "entries_disjoint [] = True"
| "entries_disjoint (e # es) =
     (list_all (\<lambda>f. \<not> ranges_overlap (mme_base e) (mme_end e) (mme_base f) (mme_end f)) es \<and>
      entries_disjoint es)"

definition entry_ok :: "ext_device list \<Rightarrow> memory_map_entry \<Rightarrow> bool" where
  "entry_ok ds e \<longleftrightarrow> mme_base e < mme_end e \<and>
    (case mme_id e of
       IdDram \<Rightarrow> mme_base e = DRAM_BASE \<and> mme_end e = 0x90000000
     | IdSimControl \<Rightarrow> mme_base e = SIM_CONTROL_BASE \<and> mme_end e = SIM_CONTROL_BASE + 4
     | IdExternal i \<Rightarrow> i < length ds \<and> mme_end e = saturating_add (mme_base e) (ext_size (ds ! i)))"

definition bus_inv :: "system_bus \<Rightarrow> bool" where
  "bus_inv b \<longleftrightarrow> dram_inv (sb_dram b) \<and> list_all ext_inv (sb_external_devices b) \<and>
     map mme_id (sb_memory_map b) =
       [IdSimControl, IdDram] @ map IdExternal [0..<length (sb_external_devices b)] \<and>
     list_all (entry_ok (sb_external_devices b)) (sb_memory_map b) \<and>
     entries_disjoint (sb_memory_map b) \<and>
     (\<forall>a. \<not> in_dram a \<longrightarrow> mem_get (sb_memory b) a = 0)"

text \<open>What no access changes: the map, the time, the sizes of the devices, memory outside DRAM.\<close>

definition bus_frame :: "system_bus \<Rightarrow> system_bus \<Rightarrow> bool" where
  "bus_frame b b' \<longleftrightarrow> sb_memory_map b' = sb_memory_map b \<and>
     sb_elapsed_time_us b' = sb_elapsed_time_us b \<and>
     map ext_size (sb_external_devices b') = map ext_size (sb_external_devices b) \<and>
     (\<forall>a. \<not> in_dram a \<longrightarrow> mem_get (sb_memory b') a = mem_get (sb_memory b) a)"

lemma entry_ok_sizes:
  assumes "map ext_size ds' = map ext_size ds"
  shows "entry_ok ds' e = entry_ok ds e"
proof -
  have l: "length ds' = length ds" using assms map_eq_imp_length_eq by blast
  have "i < length ds \<Longrightarrow> ext_size (ds' ! i) = ext_size (ds ! i)" for i
    using assms l by (metis nth_map)
  with l show ?thesis by (auto simp: entry_ok_def split: device_id.splits)
qed

lemma bus_inv_frame:
  assumes "bus_inv b" "bus_frame b b'" "dram_inv (sb_dram b')"
    "list_all ext_inv (sb_external_devices b')"
  shows "bus_inv b'"
proof -
  have "length (sb_external_devices b') = length (sb_external_devices b)"
    using assms(2) map_eq_imp_length_eq unfolding bus_frame_def by blast
  moreover have "entry_ok (sb_external_devices b') = entry_ok (sb_external_devices b)"
    using assms(2) entry_ok_sizes unfolding bus_frame_def by blast
  ultimately show ?thesis using assms by (simp add: bus_inv_def bus_frame_def)
qed

lemma entries_disjoint_append:
  "entries_disjoint (es @ [e]) \<longleftrightarrow> entries_disjoint es \<and>
     (\<forall>f \<in> set es. \<not> ranges_overlap (mme_base f) (mme_end f) (mme_base e) (mme_end e))"
  by (induction es) (auto simp: list_all_iff)

lemma entries_disjoint_nth:
  "entries_disjoint es \<Longrightarrow> i < j \<Longrightarrow> j < length es \<Longrightarrow>
    \<not> ranges_overlap (mme_base (es ! i)) (mme_end (es ! i)) (mme_base (es ! j)) (mme_end (es ! j))"
proof (induction es arbitrary: i j)
  case (Cons e es)
  then show ?case by (cases i; cases j) (auto simp: list_all_iff)
qed simp

lemma system_bus_new_inv: "bus_inv system_bus_new"
  by (simp add: bus_inv_def system_bus_new_def dram_inv_def dram_new_def dram_defs
      sim_control_defs entry_ok_def ranges_overlap_def address_map rust_int)

lemma bus_inv_entry:
  assumes "bus_inv b" "e \<in> set (sb_memory_map b)"
  shows "mme_base e < mme_end e" "entry_ok (sb_external_devices b) e"
    "case mme_id e of IdExternal i \<Rightarrow> i < length (sb_external_devices b) | _ \<Rightarrow> True"
  using assms by (auto simp: bus_inv_def list_all_iff entry_ok_def split: device_id.splits)

section \<open>Routing\<close>

definition in_entry :: "memory_map_entry \<Rightarrow> u32 \<Rightarrow> bool" where
  "in_entry e a = (mme_base e \<le> a \<and> a < mme_end e)"

lemma find_device_id_Some:
  assumes "find_device_id b a = Some (i, off)"
  obtains e where "e \<in> set (sb_memory_map b)" "in_entry e a" "i = mme_id e"
    "off = a - mme_base e"
  using assms unfolding find_device_id_def in_entry_def
  by (auto split: option.splits dest: find_SomeD)

lemma find_device_id_None:
  "find_device_id b a = None \<longleftrightarrow> (\<forall>e \<in> set (sb_memory_map b). \<not> in_entry e a)"
proof (cases "find (\<lambda>e. mme_base e \<le> a \<and> a < mme_end e) (sb_memory_map b)")
  case None
  from iffD1 [OF find_None_iff None] show ?thesis
    by (auto simp: find_device_id_def in_entry_def None)
next
  case (Some e)
  then show ?thesis
    using find_SomeD [OF Some] by (auto simp: find_device_id_def in_entry_def)
qed

lemma bus_entry_unique:
  assumes "bus_inv b" "e \<in> set (sb_memory_map b)" "f \<in> set (sb_memory_map b)"
    and "in_entry e a" "in_entry f a"
  shows "e = f"
proof (rule ccontr)
  assume "e \<noteq> f"
  from assms(2,3) obtain i j where ij: "i < length (sb_memory_map b)" "e = sb_memory_map b ! i"
    "j < length (sb_memory_map b)" "f = sb_memory_map b ! j"
    by (metis in_set_conv_nth)
  have d: "entries_disjoint (sb_memory_map b)" using assms(1) by (simp add: bus_inv_def)
  have "ranges_overlap (mme_base e) (mme_end e) (mme_base f) (mme_end f)"
    "ranges_overlap (mme_base f) (mme_end f) (mme_base e) (mme_end e)"
    using assms(4,5) by (auto simp: ranges_overlap_def in_entry_def)
  moreover have "i \<noteq> j" using \<open>e \<noteq> f\<close> ij by auto
  ultimately show False
    using entries_disjoint_nth [OF d, of i j] entries_disjoint_nth [OF d, of j i] ij
    by (metis nat_neq_iff)
qed

lemma find_device_id_entry:
  assumes "bus_inv b" "e \<in> set (sb_memory_map b)" "in_entry e a"
  shows "find_device_id b a = Some (mme_id e, a - mme_base e)"
proof (cases "find_device_id b a")
  case None
  with assms show ?thesis by (simp add: find_device_id_None)
next
  case (Some r)
  then obtain i off where r: "find_device_id b a = Some (i, off)" by (cases r) auto
  from find_device_id_Some [OF r] bus_entry_unique [OF assms(1,2) _ assms(3)] r
  show ?thesis by metis
qed

section \<open>Accesses keep the invariant\<close>

text \<open>
  The six accesses differ in the methods they call; each corresponds to one device request.
  The locale collects what their common proof uses.
\<close>

locale bus_access =
  fixes dv :: "'a"
    and f_dram :: "u32 \<Rightarrow> dram \<Rightarrow> system_context \<Rightarrow> (dram, 'a) handler"
    and f_sim :: "u32 \<Rightarrow> sim_control \<Rightarrow> system_context \<Rightarrow> (sim_control, 'a) handler"
    and f_ext :: "u32 \<Rightarrow> ext_device \<Rightarrow> system_context \<Rightarrow> (ext_device, 'a) handler"
    and req :: "u32 \<Rightarrow> device_request"
    and g :: "'a \<Rightarrow> u32"
  assumes dram_req: "outcome g (f_dram off d c) = device_step dram_ops (req off) (d, c)"
    and sim_req: "outcome g (f_sim off s c) = device_step sim_control_ops (req off) (s, c)"
    and ext_req: "outcome g (f_ext off e c) = device_step ext_ops (req off) (e, c)"
begin

lemma handler_step:
  "f_dram off d c = (r, d', c') \<Longrightarrow> device_step dram_ops (req off) (d, c) = (map_sum id g r, d', c')"
  "f_sim off s c = (r, s', c') \<Longrightarrow>
    device_step sim_control_ops (req off) (s, c) = (map_sum id g r, s', c')"
  "f_ext off e c = (r, e', c') \<Longrightarrow> device_step ext_ops (req off) (e, c) = (map_sum id g r, e', c')"
  by (simp_all add: outcome_def flip: dram_req sim_req ext_req)

lemma dispatch:
  assumes "bus_inv b" "case i of IdExternal k \<Rightarrow> k < length (sb_external_devices b) | _ \<Rightarrow> True"
  obtains r b' where "bus_dispatch (f_dram off) (f_sim off) (f_ext off) b i = Some (r, b')"
    "bus_inv b'" "bus_frame b b'" "r = Inl e \<Longrightarrow> b' = b"
proof -
  let ?c = "with_elapsed_time (sb_memory b) (sb_elapsed_time_us b)"
  have fr: "bus_frame b (b\<lparr>sb_dram := d, sb_sim_control := s, sb_external_devices := ds,
      sb_memory := ctx_memory c'\<rparr>)"
    if "ctx_effect ?c c'" "map ext_size ds = map ext_size (sb_external_devices b)" for d s ds c'
    using that by (simp add: bus_frame_def ctx_effect_def with_elapsed_time_def)
  show thesis
  proof (cases i)
    case IdDram
    obtain r d' c' where h: "f_dram off (sb_dram b) ?c = (r, d', c')" by (metis surj_pair)
    note st = handler_step(1) [OF h]
    have f: "bus_frame b (b\<lparr>sb_dram := d', sb_memory := ctx_memory c'\<rparr>)"
      using fr [OF dram.step_ctx [OF st], where d = d' and s = "sb_sim_control b"
          and ds = "sb_external_devices b"] by simp
    moreover have "bus_inv (b\<lparr>sb_dram := d', sb_memory := ctx_memory c'\<rparr>)"
      by (rule bus_inv_frame [OF assms(1) f])
        (use dram.step_inv [OF _ st] assms(1) in \<open>simp_all add: bus_inv_def\<close>)
    moreover have "b\<lparr>sb_dram := d', sb_memory := ctx_memory c'\<rparr> = b" if "r = Inl e"
      using dram.step_err [of "req off" "sb_dram b" ?c e d' c'] st that
      by (simp add: with_elapsed_time_def)
    ultimately show thesis using that h IdDram by (simp add: bus_dispatch_def Let_def)
  next
    case IdSimControl
    obtain r d' c' where h: "f_sim off (sb_sim_control b) ?c = (r, d', c')" by (metis surj_pair)
    note st = handler_step(2) [OF h]
    have f: "bus_frame b (b\<lparr>sb_sim_control := d', sb_memory := ctx_memory c'\<rparr>)"
      using fr [OF sim_control.step_ctx [OF st], where d = "sb_dram b" and s = d'
          and ds = "sb_external_devices b"] by simp
    moreover have "bus_inv (b\<lparr>sb_sim_control := d', sb_memory := ctx_memory c'\<rparr>)"
      by (rule bus_inv_frame [OF assms(1) f])
        (use assms(1) in \<open>simp_all add: bus_inv_def\<close>)
    moreover have "b\<lparr>sb_sim_control := d', sb_memory := ctx_memory c'\<rparr> = b" if "r = Inl e"
      using sim_control.step_err [of "req off" "sb_sim_control b" ?c e d' c'] st that
      by (simp add: with_elapsed_time_def)
    ultimately show thesis using that h IdSimControl by (simp add: bus_dispatch_def Let_def)
  next
    case (IdExternal k)
    with assms(2) have k: "k < length (sb_external_devices b)" by simp
    obtain r d' c' where h: "f_ext off (sb_external_devices b ! k) ?c = (r, d', c')"
      by (metis surj_pair)
    note st = handler_step(3) [OF h]
    let ?b = "b\<lparr>sb_external_devices := (sb_external_devices b)[k := d'],
        sb_memory := ctx_memory c'\<rparr>"
    have sz: "map ext_size ((sb_external_devices b)[k := d']) = map ext_size (sb_external_devices b)"
      using ext.step_size [OF st] k by (simp add: map_update list_update_same_conv)
    have "ext_inv (sb_external_devices b ! k)"
      using assms(1) k by (simp add: bus_inv_def list_all_length)
    then have "list_all ext_inv ((sb_external_devices b)[k := d'])"
      using ext.step_inv [OF _ st] assms(1) k
      by (auto simp: bus_inv_def list_all_length nth_list_update)
    moreover have f: "bus_frame b ?b"
      using fr [OF ext.step_ctx [OF st] sz, where d = "sb_dram b" and s = "sb_sim_control b"] by simp
    ultimately have "bus_inv ?b"
      by (intro bus_inv_frame [OF assms(1) f])
        (use assms(1) in \<open>simp_all add: bus_inv_def\<close>)
    moreover have "?b = b" if "r = Inl e"
      using ext.step_err [of "req off" "sb_external_devices b ! k" ?c e d' c'] st that
      by (simp add: with_elapsed_time_def)
    ultimately show thesis using that h f k IdExternal by (simp add: bus_dispatch_def Let_def)
  qed
qed

lemma access_None:
  assumes "bus_inv b"
  shows "bus_read dv f_dram f_sim f_ext b a = None \<longleftrightarrow>
    find_device_id b a = None \<and> is_rtl_peripheral_addr a"
proof (cases "find_device_id b a")
  case (Some p)
  obtain i off where p: "find_device_id b a = Some (i, off)" using Some by (cases p) auto
  from find_device_id_Some [OF p] obtain e where "e \<in> set (sb_memory_map b)" "i = mme_id e"
    by metis
  with dispatch [OF assms, of i off] bus_inv_entry(3) [OF assms]
  obtain r b' where "bus_dispatch (f_dram off) (f_sim off) (f_ext off) b i = Some (r, b')"
    by metis
  with p show ?thesis by (cases r) (simp_all add: bus_read_def)
qed (simp add: bus_read_def)

lemma access_inv:
  assumes "bus_inv b" "bus_read dv f_dram f_sim f_ext b a = Some (v, b')"
  shows "bus_inv b' \<and> bus_frame b b'"
proof (cases "find_device_id b a")
  case None
  with assms show ?thesis by (auto simp: bus_read_def bus_frame_def split: if_splits)
next
  case (Some p)
  obtain i off where p: "find_device_id b a = Some (i, off)" using Some by (cases p) auto
  from find_device_id_Some [OF p] obtain e where "e \<in> set (sb_memory_map b)" "i = mme_id e"
    by metis
  with dispatch [OF assms(1), of i off] bus_inv_entry(3) [OF assms(1)]
  obtain r b'' where "bus_dispatch (f_dram off) (f_sim off) (f_ext off) b i = Some (r, b'')"
    "bus_inv b''" "bus_frame b b''"
    by metis
  with p assms(2) show ?thesis by (cases r) (auto simp: bus_read_def)
qed

end

text \<open>Facts \<open>outcome f (outcome-free handler)\<close> needed by the interpretations.\<close>

lemma outcome_id [simp]: "outcome id h = h" "outcome (\<lambda>x. x) h = h"
  by (simp_all add: outcome_def map_sum.id [unfolded id_def] id_def)

interpretation rw: bus_access 0 "\<lambda>off d c. bd_read_word dram_ops d c off"
  "\<lambda>off d c. bd_read_word sim_control_ops d c off" "\<lambda>off d c. bd_read_word ext_ops d c off"
  ReqReadWord id
  by unfold_locales simp_all

interpretation rh: bus_access 0 "\<lambda>off d c. bd_read_halfword dram_ops d c off"
  "\<lambda>off d c. bd_read_halfword sim_control_ops d c off"
  "\<lambda>off d c. bd_read_halfword ext_ops d c off" ReqReadHalfword ucast
  by unfold_locales simp_all

interpretation rb: bus_access 0 "\<lambda>off d c. bd_read_byte dram_ops d c off"
  "\<lambda>off d c. bd_read_byte sim_control_ops d c off" "\<lambda>off d c. bd_read_byte ext_ops d c off"
  ReqReadByte ucast
  by unfold_locales simp_all

interpretation ww: bus_access "()" "\<lambda>off d c. bd_write_word dram_ops d c off v"
  "\<lambda>off d c. bd_write_word sim_control_ops d c off v"
  "\<lambda>off d c. bd_write_word ext_ops d c off v" "\<lambda>off. ReqWriteWord off v" "\<lambda>_. 0" for v
  by unfold_locales simp_all

interpretation wh: bus_access "()" "\<lambda>off d c. bd_write_halfword dram_ops d c off v"
  "\<lambda>off d c. bd_write_halfword sim_control_ops d c off v"
  "\<lambda>off d c. bd_write_halfword ext_ops d c off v" "\<lambda>off. ReqWriteHalfword off v" "\<lambda>_. 0" for v
  by unfold_locales simp_all

interpretation wb: bus_access "()" "\<lambda>off d c. bd_write_byte dram_ops d c off v"
  "\<lambda>off d c. bd_write_byte sim_control_ops d c off v"
  "\<lambda>off d c. bd_write_byte ext_ops d c off v" "\<lambda>off. ReqWriteByte off v" "\<lambda>_. 0" for v
  by unfold_locales simp_all

section \<open>Reset and clock\<close>

lemma for_devices_step:
  assumes f: "\<And>d c. f d c = snd (device_step ext_ops r (d, c))"
  shows "for_devices f ds c = (ds', c') \<Longrightarrow> map ext_size ds' = map ext_size ds \<and>
    ctx_effect c c' \<and> (list_all ext_inv ds \<longrightarrow> list_all ext_inv ds')"
proof (induction ds arbitrary: c ds')
  case (Cons d ds)
  obtain d1 c1 where s1: "f d c = (d1, c1)" by fastforce
  obtain ds2 c2 where s2: "for_devices f ds c1 = (ds2, c2)" by fastforce
  from Cons.prems s1 s2 have e: "ds' = d1 # ds2" "c' = c2" by simp_all
  from s1 f obtain x where st: "device_step ext_ops r (d, c) = (x, d1, c1)"
    by (metis prod.collapse)
  with Cons.IH [of c1 ds2] s2 e ext.step_ctx [OF st] ext.step_size [OF st] ext.step_inv [OF _ st]
  show ?case by (auto intro: ctx_effect_trans)
qed simp

definition bus_step_ok :: "system_bus \<Rightarrow> system_bus \<Rightarrow> bool" where
  "bus_step_ok b b' \<longleftrightarrow> (bus_inv b \<longrightarrow> bus_inv b' \<and> bus_frame b b')"

lemma clock_cycle_all_devices_ok: "bus_step_ok b (clock_cycle_all_devices b)"
proof -
  let ?c = "with_elapsed_time (sb_memory b) (sb_elapsed_time_us b)"
  obtain ds c where d: "for_devices (bd_clock_cycle ext_ops) (sb_external_devices b) ?c = (ds, c)"
    by fastforce
  note s = for_devices_step [of "bd_clock_cycle ext_ops" ReqClock, OF _ d]
  have e: "clock_cycle_all_devices b = b\<lparr>sb_external_devices := ds, sb_memory := ctx_memory c\<rparr>"
    using d by (simp add: clock_cycle_all_devices_def Let_def dram_ops_def sim_control_ops_def
        default_clock_cycle_def)
  have f: "bus_frame b (clock_cycle_all_devices b)"
    using s by (simp add: e bus_frame_def ctx_effect_def with_elapsed_time_def)
  show ?thesis
    unfolding bus_step_ok_def
  proof (intro impI conjI)
    assume i: "bus_inv b"
    show "bus_inv (clock_cycle_all_devices b)"
      by (rule bus_inv_frame [OF i f]) (use i s in \<open>simp_all add: e bus_inv_def\<close>)
  qed (rule f)
qed

lemma reset_all_devices_ok: "bus_step_ok b (reset_all_devices b)"
proof -
  let ?c = "with_elapsed_time (sb_memory b) (sb_elapsed_time_us b)"
  obtain ds c where d: "for_devices (bd_reset ext_ops) (sb_external_devices b) ?c = (ds, c)"
    by fastforce
  note s = for_devices_step [of "bd_reset ext_ops" ReqReset, OF _ d]
  have e: "reset_all_devices b = b\<lparr>sb_sim_control := (sb_sim_control b)\<lparr>tohost_value := None\<rparr>,
      sb_external_devices := ds, sb_memory := mem_reset (ctx_memory c)\<rparr>"
    using d by (simp add: reset_all_devices_def Let_def dram_defs sim_control_defs)
  have f: "bus_frame b (reset_all_devices b)" if "bus_inv b"
    using s that by (simp add: e bus_frame_def bus_inv_def)
  show ?thesis
    unfolding bus_step_ok_def
  proof (intro impI conjI)
    assume i: "bus_inv b"
    show "bus_inv (reset_all_devices b)"
      by (rule bus_inv_frame [OF i f [OF i]]) (use i s in \<open>simp_all add: e bus_inv_def\<close>)
  qed (rule f)
qed

section \<open>Registration\<close>

lemma saturating_end:
  assumes "base mod 4 = (0 :: u32)" "sz \<noteq> 0"
  shows "base < saturating_add base sz"
proof -
  have "unat base mod 4 = 0" using assms(1) unat_mod_distrib [of base 4] by simp
  then have "unat base < 4294967295" using u32_bound [of base] by presburger
  moreover have "0 < unat sz" using assms(2) unat_gt_0 [of sz] by simp
  ultimately show ?thesis by (simp add: word_less_nat_alt unat_saturating_add)
qed

lemma device_name_Some:
  "bus_inv b \<Longrightarrow> e \<in> set (sb_memory_map b) \<Longrightarrow> device_name b (mme_id e) \<noteq> None"
  using bus_inv_entry(3) [of b e] by (auto simp: device_name_def split: device_id.splits)

definition overlapping :: "system_bus \<Rightarrow> u32 \<Rightarrow> u32 \<Rightarrow> memory_map_entry option" where
  "overlapping b base_addr end_addr =
     find (\<lambda>e. ranges_overlap base_addr end_addr (mme_base e) (mme_end e)) (sb_memory_map b)"

lemma ext_size_valid: "ext_size d \<noteq> 0" "is_multiple_of (ext_size d) 4"
  using ext.size_pos [of d] ext.size_aligned [of d] by (simp_all add: is_multiple_of_def)

lemma register_device_cases:
  assumes "bus_inv b"
  shows "register_device b base d =
    (if base mod 4 \<noteq> 0 then Some (Err (InvalidBaseAlignment base), b)
     else case overlapping b base (saturating_add base (ext_size d)) of
       Some e \<Rightarrow> Some (Err (AddressOverlap base (saturating_add base (ext_size d)) (mme_base e)
         (mme_end e) (the (device_name b (mme_id e)))), b)
     | None \<Rightarrow> Some (Ok (), b\<lparr>sb_external_devices := sb_external_devices b @ [d],
         sb_memory_map := sb_memory_map b @ [\<lparr>mme_base = base,
           mme_end = saturating_add base (ext_size d),
           mme_id = IdExternal (length (sb_external_devices b))\<rparr>]\<rparr>))"
proof (cases "overlapping b base (saturating_add base (ext_size d))")
  case None
  then show ?thesis
    using ext_size_valid [of d]
    by (simp add: register_device_def overlapping_def Let_def is_multiple_of_def [of base])
next
  case (Some e)
  then have "e \<in> set (sb_memory_map b)" unfolding overlapping_def by (rule find_SomeD [THEN conjunct1])
  then obtain nm where "device_name b (mme_id e) = Some nm"
    using device_name_Some [OF assms] by blast
  with Some show ?thesis
    using ext_size_valid [of d]
    by (simp add: register_device_def overlapping_def Let_def is_multiple_of_def [of base])
qed

lemma entry_ok_append: "entry_ok ds e \<Longrightarrow> entry_ok (ds @ [d]) e"
  by (auto simp: entry_ok_def nth_append split: device_id.splits)

lemma overlapping_None:
  "overlapping b base end_addr = None \<longleftrightarrow>
    (\<forall>e \<in> set (sb_memory_map b). \<not> ranges_overlap base end_addr (mme_base e) (mme_end e))"
  unfolding overlapping_def by (simp only: find_None_iff) blast

lemma register_device_inv:
  assumes "bus_inv b" "register_device b base d = Some (Inr (), b')" "ext_inv d"
  shows "bus_inv b'"
proof -
  let ?top = "saturating_add base (ext_size d)"
  let ?e = "\<lparr>mme_base = base, mme_end = ?top, mme_id = IdExternal (length (sb_external_devices b))\<rparr>"
  from assms(1,2) have a: "base mod 4 = 0" and o: "overlapping b base ?top = None"
    and b': "b' = b\<lparr>sb_external_devices := sb_external_devices b @ [d],
      sb_memory_map := sb_memory_map b @ [?e]\<rparr>"
    by (auto simp: register_device_cases split: if_splits option.splits)
  have "entry_ok (sb_external_devices b @ [d]) ?e"
    using saturating_end [OF a, of "ext_size d"] ext_size_valid by (simp add: entry_ok_def)
  moreover have "\<forall>f \<in> set (sb_memory_map b). \<not> ranges_overlap (mme_base f) (mme_end f) base ?top"
    using o by (auto simp: overlapping_None ranges_overlap_def)
  moreover have "list_all (entry_ok (sb_external_devices b @ [d])) (sb_memory_map b)"
    using assms(1) by (auto simp: bus_inv_def list_all_iff intro: entry_ok_append)
  ultimately show ?thesis
    using assms(1,3) by (simp add: bus_inv_def b' entries_disjoint_append)
qed

section \<open>DRAM through the bus\<close>

lemma bus_dram_entry:
  assumes "bus_inv b"
  obtains e where "e \<in> set (sb_memory_map b)" "mme_id e = IdDram" "mme_base e = DRAM_BASE"
    "mme_end e = 0x90000000"
proof -
  have "IdDram \<in> mme_id ` set (sb_memory_map b)"
    using assms by (auto simp: bus_inv_def simp flip: set_map)
  then obtain e where e: "e \<in> set (sb_memory_map b)" "mme_id e = IdDram" by auto
  with bus_inv_entry(2) [OF assms e(1)] that show thesis by (simp add: entry_ok_def)
qed

lemma find_dram:
  assumes "bus_inv b" "in_dram a"
  shows "find_device_id b a = Some (IdDram, a - DRAM_BASE)"
proof -
  obtain e where e: "e \<in> set (sb_memory_map b)" "mme_id e = IdDram" "mme_base e = DRAM_BASE"
    "mme_end e = 0x90000000"
    using bus_dram_entry [OF assms(1)] .
  then have "in_entry e a"
    using assms(2) by (simp add: in_entry_def in_dram_iff word_le_nat_alt word_less_nat_alt address_map)
  with find_device_id_entry [OF assms(1) e(1)] e show ?thesis by simp
qed

lemma bus_dram_base: "bus_inv b \<Longrightarrow> dram_base_addr (sb_dram b) = DRAM_BASE"
  by (simp add: bus_inv_def dram_inv_def)

lemma valid_in_dram: "is_valid_dram_range a n \<Longrightarrow> in_dram a"
  using unat_gt_0 [of n] by (auto simp: valid_dram_range in_dram_iff)

lemma bus_dram_byte:
  assumes "bus_inv b" "in_dram a"
  shows "bus_read_byte b a = Some (mem_read_byte (sb_memory b) a, b)"
    "bus_write_byte b a v = Some (b\<lparr>sb_memory := mem_write_byte (sb_memory b) a v\<rparr>)"
  using assms(2) by (simp_all add: bus_read_byte_def bus_write_byte_def bus_read_def
      find_dram [OF assms] bus_dispatch_def Let_def dram_defs bus_dram_base [OF assms(1)]
      with_elapsed_time_def ctx_read_byte_def ctx_write_byte_def in_dram_def)

lemma bus_dram_word:
  assumes "bus_inv b" "is_valid_dram_range a 4"
  shows "bus_read_word b a = Some (mem_read_word (sb_memory b) a, b)"
    "bus_write_word b a v = Some (b\<lparr>sb_memory := mem_write_word (sb_memory b) a v\<rparr>)"
  using assms(2) by (simp_all add: bus_read_word_def bus_write_word_def bus_read_def
      find_dram [OF assms(1) valid_in_dram [OF assms(2)]] bus_dispatch_def Let_def dram_defs
      bus_dram_base [OF assms(1)] with_elapsed_time_def ctx_read_word_def ctx_write_word_def)

lemma bus_dram_halfword:
  assumes "bus_inv b" "is_valid_dram_range a 2"
  shows "bus_read_halfword b a = Some (mem_read_halfword (sb_memory b) a, b)"
    "bus_write_halfword b a h = Some (b\<lparr>sb_memory := mem_write_halfword (sb_memory b) a h\<rparr>)"
  using assms(2) by (simp_all add: bus_read_halfword_def bus_write_halfword_def bus_read_def
      find_dram [OF assms(1) valid_in_dram [OF assms(2)]] bus_dispatch_def Let_def dram_defs
      bus_dram_base [OF assms(1)] with_elapsed_time_def ctx_read_halfword_def
      ctx_write_halfword_def)

section \<open>Reachable buses\<close>

datatype bus_op =
    OpReadWord u32 | OpReadHalfword u32 | OpReadByte u32
  | OpWriteWord u32 u32 | OpWriteHalfword u32 u16 | OpWriteByte u32 u8
  | OpRegister u32 ext_device | OpReset | OpClock | OpElapsed u64

fun bus_exec :: "system_bus \<Rightarrow> bus_op \<Rightarrow> system_bus option" where
  "bus_exec b (OpReadWord a) = map_option snd (bus_read_word b a)"
| "bus_exec b (OpReadHalfword a) = map_option snd (bus_read_halfword b a)"
| "bus_exec b (OpReadByte a) = map_option snd (bus_read_byte b a)"
| "bus_exec b (OpWriteWord a v) = bus_write_word b a v"
| "bus_exec b (OpWriteHalfword a v) = bus_write_halfword b a v"
| "bus_exec b (OpWriteByte a v) = bus_write_byte b a v"
| "bus_exec b (OpRegister base d) = map_option snd (register_device b base d)"
| "bus_exec b OpReset = Some (reset_all_devices b)"
| "bus_exec b OpClock = Some (clock_cycle_all_devices b)"
| "bus_exec b (OpElapsed t) = Some (update_elapsed_time b t)"

text \<open>Devices are registered in a state that satisfies their invariant, such as a new one.\<close>

fun bus_op_ok :: "bus_op \<Rightarrow> bool" where
  "bus_op_ok (OpRegister base d) = ext_inv d"
| "bus_op_ok _ = True"

fun bus_op_addr :: "bus_op \<Rightarrow> u32 option" where
  "bus_op_addr (OpReadWord a) = Some a"
| "bus_op_addr (OpReadHalfword a) = Some a"
| "bus_op_addr (OpReadByte a) = Some a"
| "bus_op_addr (OpWriteWord a v) = Some a"
| "bus_op_addr (OpWriteHalfword a h) = Some a"
| "bus_op_addr (OpWriteByte a w) = Some a"
| "bus_op_addr _ = None"

inductive bus_reachable :: "system_bus \<Rightarrow> bool" where
  init: "bus_reachable system_bus_new"
| step: "bus_reachable b \<Longrightarrow> bus_op_ok op \<Longrightarrow> bus_exec b op = Some b' \<Longrightarrow> bus_reachable b'"

lemmas bus_access_defs = bus_read_word_def bus_read_halfword_def bus_read_byte_def
  bus_write_word_def bus_write_halfword_def bus_write_byte_def

lemma bus_exec_inv:
  assumes i: "bus_inv b" and "bus_op_ok op" "bus_exec b op = Some b'"
  shows "bus_inv b'"
proof (cases op)
  case (OpRegister base d)
  with assms obtain r where r: "register_device b base d = Some (r, b')" by auto
  show ?thesis
  proof (cases r)
    case (Inl e)
    with r i show ?thesis by (auto simp: register_device_cases split: if_splits option.splits)
  next
    case (Inr u)
    with r OpRegister assms(2) show ?thesis using register_device_inv [OF i, of base d b'] by simp
  qed
next
  case (OpElapsed t)
  with assms show ?thesis by (auto simp: update_elapsed_time_def bus_inv_def)
qed (use assms rw.access_inv [OF i] rh.access_inv [OF i] rb.access_inv [OF i]
       ww.access_inv [OF i] wh.access_inv [OF i] wb.access_inv [OF i]
       clock_cycle_all_devices_ok [of b] reset_all_devices_ok [of b]
     in \<open>auto simp: bus_access_defs bus_step_ok_def\<close>)

lemma bus_reachable_invariant: "bus_reachable b \<Longrightarrow> bus_inv b"
  by (induction rule: bus_reachable.induct) (auto intro: system_bus_new_inv bus_exec_inv)

lemma bus_exec_None:
  assumes i: "bus_inv b"
  shows "bus_exec b op = None \<longleftrightarrow>
    (\<exists>a. bus_op_addr op = Some a \<and> find_device_id b a = None \<and> is_rtl_peripheral_addr a)"
proof (cases op)
  case (OpRegister base d)
  then show ?thesis by (simp add: register_device_cases [OF i] split: option.splits)
qed (use rw.access_None [OF i] rh.access_None [OF i] rb.access_None [OF i]
       ww.access_None [OF i] wh.access_None [OF i] wb.access_None [OF i]
     in \<open>auto simp: bus_access_defs\<close>)

section \<open>Properties of the bus\<close>

text \<open>
  C1: on every bus that can be built and used through the operations of \<open>SystemBus\<close>, no
  address belongs to two devices, and routing finds exactly the device an address belongs to,
  with the offset into its window.
\<close>

theorem bus_routing_unique:
  assumes "bus_reachable b"
  shows "(\<forall>e f. e \<in> set (sb_memory_map b) \<and> f \<in> set (sb_memory_map b) \<and>
      in_entry e a \<and> in_entry f a \<longrightarrow> e = f) \<and>
    (find_device_id b a = Some (i, off) \<longleftrightarrow>
      (\<exists>e \<in> set (sb_memory_map b). in_entry e a \<and> i = mme_id e \<and> off = a - mme_base e))"
proof -
  note inv = bus_reachable_invariant [OF assms]
  have "find_device_id b a = Some (i, off) \<longleftrightarrow>
      (\<exists>e \<in> set (sb_memory_map b). in_entry e a \<and> i = mme_id e \<and> off = a - mme_base e)"
    using find_device_id_Some [of b a i off] find_device_id_entry [OF inv] by (metis)
  with bus_entry_unique [OF inv] show ?thesis by blast
qed

lemma bus_routing_unique_witness:
  "find_device_id system_bus_new 0xF0000002 = Some (IdSimControl, 2)"
proof -
  have "\<exists>e \<in> set (sb_memory_map system_bus_new). in_entry e 0xF0000002 \<and>
      IdSimControl = mme_id e \<and> 2 = 0xF0000002 - mme_base e"
    by (simp add: system_bus_new_def in_entry_def address_map sim_control_defs rust_int)
  then show ?thesis
    using bus_routing_unique [OF bus_reachable.init, of "0xF0000002" IdSimControl 2] by blast
qed

text \<open>
  C2: the bus panics exactly where its messages say it must not be used.  On a reachable bus
  every operation returns, except an access at an unmapped address of the RTL half of the
  address space; in particular no index of a memory map entry is ever out of range and every
  access at or above 0x80000000 returns.
\<close>

theorem bus_panics_only_on_rtl:
  assumes "bus_reachable b"
  shows "(bus_exec b op = None \<longleftrightarrow>
      (\<exists>a. bus_op_addr op = Some a \<and> find_device_id b a = None \<and> unat a < 0x80000000)) \<and>
    (\<forall>a. 0x80000000 \<le> unat a \<longrightarrow> bus_read_word b a \<noteq> None \<and> bus_write_word b a v \<noteq> None)"
  using bus_exec_None [OF bus_reachable_invariant [OF assms], of op]
    bus_exec_None [OF bus_reachable_invariant [OF assms], of "OpReadWord a" for a]
    bus_exec_None [OF bus_reachable_invariant [OF assms], of "OpWriteWord a v" for a]
  by auto

lemma bus_panics_only_on_rtl_witness:
  "bus_read_word system_bus_new 0x90000000 \<noteq> None"
  using bus_panics_only_on_rtl [OF bus_reachable.init, of OpClock] by simp

text \<open>
  C3: DRAM is one byte memory, whatever devices are registered.  On a reachable bus a word
  written inside DRAM is read back as a word and as its little-endian bytes, every other DRAM
  byte keeps its value, and no other part of the bus changes.
\<close>

theorem bus_dram_read_after_write:
  assumes "bus_reachable b" "is_valid_dram_range a 4"
  shows "\<exists>b'. bus_write_word b a v = Some b' \<and> b' = b\<lparr>sb_memory := sb_memory b'\<rparr> \<and>
    bus_read_word b' a = Some (v, b') \<and>
    (\<forall>i < 4. bus_read_byte b' (a + of_nat i) = Some (le_bytes32 v ! i, b')) \<and>
    (\<forall>c. in_dram c \<and> 4 \<le> unat (c - a) \<longrightarrow>
       map_option fst (bus_read_byte b' c) = map_option fst (bus_read_byte b c))"
proof -
  note inv = bus_reachable_invariant [OF assms(1)]
  let ?b = "b\<lparr>sb_memory := mem_write_word (sb_memory b) a v\<rparr>"
  have w: "bus_write_word b a v = Some ?b" using bus_dram_word(2) [OF inv assms(2)] .
  then have inv': "bus_inv ?b" using bus_exec_inv [OF inv, of "OpWriteWord a v" ?b] by simp
  note rd = mem_read_byte_write_word [of "sb_memory b" a v]
  have "bus_read_word ?b a = Some (v, ?b)"
    using bus_dram_word(1) [OF inv' assms(2)] by simp
  moreover have "bus_read_byte ?b (a + of_nat i) = Some (le_bytes32 v ! i, ?b)" if "i < 4" for i
    using bus_dram_byte(1) [OF inv' valid_dram_offset(1) [OF assms(2)], of i] that rd
    by (simp add: unat_of_nat)
  moreover have "map_option fst (bus_read_byte ?b c) = map_option fst (bus_read_byte b c)"
    if "in_dram c" "4 \<le> unat (c - a)" for c
    using bus_dram_byte(1) [OF inv' that(1)] bus_dram_byte(1) [OF inv that(1)] rd that by simp
  ultimately show ?thesis using w by (intro exI [of _ ?b]) simp
qed

lemma bus_dram_read_after_write_witness:
  "\<exists>b'. bus_write_word system_bus_new 0x80000100 0xDEADBEEF = Some b' \<and>
    bus_read_word b' 0x80000100 = Some (0xDEADBEEF, b')"
  using bus_dram_read_after_write [OF bus_reachable.init, of "0x80000100" "0xDEADBEEF"]
  by (auto simp: valid_dram_range)

end
