(* ===== verification/Bus_Dma.thy ===== *)
theory Bus_Dma
  imports System_Bus
begin

text \<open>
  The DMA driver of the embedded library (\<open>riscv_shared/src/dma.rs\<close>) against the DMA device on
  the system bus: the register writes of \<open>start_transfer\<close> and the polling of \<open>is_dma_busy\<close> as
  bus accesses, and the memory-to-memory copy they achieve.  Also the properties of device
  registration.
\<close>

section \<open>The driver\<close>





definition ctx_of :: "system_bus \<Rightarrow> system_context" where
  "ctx_of b = with_elapsed_time (sb_memory b) (sb_elapsed_time_us b)"

definition set_dma :: "system_bus \<Rightarrow> dma \<Rightarrow> system_bus" where
  "set_dma b d = b\<lparr>sb_external_devices := [ExtDma d]\<rparr>"






section \<open>Properties\<close>

lemma ctx_of_set_dma [simp]: "ctx_of (set_dma b d) = ctx_of b"
  by (simp add: ctx_of_def set_dma_def)






text \<open>
  C5: registration accepts a device exactly when its base is word aligned and its window
  meets no registered window, in which case the device becomes reachable at its base and all
  earlier routes stay; otherwise the error names the offending address or the first
  overlapping device and the bus is unchanged.
\<close>

theorem register_device_correct:
  assumes "bus_reachable b"
  shows "\<exists>r b'. register_device b base d = Some (r, b') \<and>
    (r = Ok () \<longleftrightarrow> base mod 4 = 0 \<and>
      (\<forall>e \<in> set (sb_memory_map b). \<not> ranges_overlap base (saturating_add base (ext_size d))
        (mme_base e) (mme_end e))) \<and>
    (r \<noteq> Ok () \<longrightarrow> b' = b) \<and>
    (r = Ok () \<and> ext_inv d \<longrightarrow>
      find_device_id b' base = Some (IdExternal (length (sb_external_devices b)), 0) \<and>
      (\<forall>a p. find_device_id b a = Some p \<longrightarrow> find_device_id b' a = Some p))"
proof -
  note inv = bus_reachable_invariant [OF assms(1)]
  let ?top = "saturating_add base (ext_size d)"
  let ?e = "\<lparr>mme_base = base, mme_end = ?top, mme_id = IdExternal (length (sb_external_devices b))\<rparr>"
  let ?b = "b\<lparr>sb_external_devices := sb_external_devices b @ [d],
      sb_memory_map := sb_memory_map b @ [?e]\<rparr>"
  show ?thesis
  proof (cases "base mod 4 = 0 \<and> overlapping b base ?top = None")
    case True
    then have r: "register_device b base d = Some (Inr (), ?b)"
      by (simp add: register_device_cases [OF inv])
    have new: "find_device_id ?b base = Some (IdExternal (length (sb_external_devices b)), 0)"
      if "ext_inv d"
    proof -
      have "in_entry ?e base"
        using True saturating_end [of base "ext_size d"] ext_size_valid
        by (simp add: in_entry_def)
      with find_device_id_entry [OF register_device_inv [OF inv r that], of ?e base]
      show ?thesis by simp
    qed
    have "find_device_id ?b a = Some p" if "find_device_id b a = Some p" "ext_inv d" for a p
    proof -
      obtain i off where p: "p = (i, off)" by (cases p)
      from that(1) p have f: "find_device_id b a = Some (i, off)" by simp
      obtain e where "e \<in> set (sb_memory_map b)" "in_entry e a" "i = mme_id e" "off = a - mme_base e"
        using find_device_id_Some [OF f] .
      with find_device_id_entry [OF register_device_inv [OF inv r that(2)], of e a] p
      show ?thesis by simp
    qed
    moreover have "\<forall>e \<in> set (sb_memory_map b). \<not> ranges_overlap base ?top (mme_base e) (mme_end e)"
      using True by (simp add: overlapping_None)
    ultimately show ?thesis
      using r new True by (intro exI [of _ "Inr ()"] exI [of _ ?b]) blast
  next
    case False
    then obtain x where "register_device b base d = Some (Inl x, b)"
      by (cases "base mod 4 = 0"; cases "overlapping b base ?top")
        (simp_all add: register_device_cases [OF inv])
    moreover have "\<not> (base mod 4 = 0 \<and>
        (\<forall>e \<in> set (sb_memory_map b). \<not> ranges_overlap base ?top (mme_base e) (mme_end e)))"
      using False by (simp add: overlapping_None)
    ultimately show ?thesis by (intro exI [of _ "Inl x"] exI [of _ b]) blast
  qed
qed

lemma register_device_correct_witness:
  "\<exists>r b'. register_device system_bus_new VIDEO_BASE (ExtVideo (video_new True)) = Some (r, b') \<and>
    find_device_id b' VIDEO_BASE = Some (IdExternal 0, 0)"
  using register_device_correct [OF bus_reachable.init, of VIDEO_BASE "ExtVideo (video_new True)"]
    video_new_inv
  by (auto simp: system_bus_new_def address_map ranges_overlap_def sim_control_defs dram_defs
      video_defs rust_int)

text \<open>
  The exclusive end of a window is computed with \<open>saturating_add\<close>: a device whose window ends
  at the top of the address space is accepted, and its last byte is not routed to it.
\<close>

lemma register_top_of_space:
  "case register_device system_bus_new 0xFFFFFFF0 (ExtVideo (video_new True)) of
     Some (Inr u, b) \<Rightarrow> find_device_id b 0xFFFFFFFE = Some (IdExternal 0, 14) \<and>
       find_device_id b 0xFFFFFFFF = None
   | _ \<Rightarrow> False"
  by (simp add: register_device_def system_bus_new_def Let_def video_defs is_multiple_of_def
      ranges_overlap_def address_map sim_control_defs dram_defs rust_int find_device_id_def)

end
