(* ===== verification/Host_Bus.thy ===== *)
theory Host_Bus
  imports Address_Map
begin

text \<open>
  The host-bus packet protocol (\<open>bus-shared/src/host_bus_handler.rs\<close>): request and response
  structures, region classification, the receive state machine that parses packets byte by
  byte, the transmit buffer, and the host- and CPU-initiated request flows of
  \<open>HostBusHandler\<close>.  \<open>usize\<close> values are \<open>nat\<close>.  An operation that returns a \<open>Result\<close> after
  changing the handler returns the changed handler with the error.
\<close>

section \<open>Requests and responses\<close>

datatype access_size = Byte | Halfword | Word

fun byte_count :: "access_size \<Rightarrow> u8" where
  "byte_count Byte = 1"
| "byte_count Halfword = 2"
| "byte_count Word = 4"

fun to_size_code :: "access_size \<Rightarrow> u8" where
  "to_size_code Byte = 0"
| "to_size_code Halfword = 1"
| "to_size_code Word = 2"

definition access_size_from_u8 :: "u8 \<Rightarrow> access_size option" where
  "access_size_from_u8 v =
     (if v = 0 then Some Byte else if v = 1 then Some Halfword else if v = 2 then Some Word
      else None)"

definition MAX_BURST_BEATS :: u32 where "MAX_BURST_BEATS = 65536"
definition CTRL1_RESERVED_MASK :: u8 where "CTRL1_RESERVED_MASK = 0xFE"

record bus_request =
  br_addr :: u32
  br_wdata :: u32
  br_we :: bool
  br_size :: access_size
  br_burst_len :: u32
  br_src_fixed :: bool
  br_dst_fixed :: bool
  br_data :: "u8 list"

definition request_read :: "u32 \<Rightarrow> access_size \<Rightarrow> bus_request" where
  "request_read addr sz = \<lparr>br_addr = addr, br_wdata = 0, br_we = False, br_size = sz,
     br_burst_len = 1, br_src_fixed = False, br_dst_fixed = False, br_data = []\<rparr>"

definition request_write :: "u32 \<Rightarrow> u32 \<Rightarrow> access_size \<Rightarrow> bus_request" where
  "request_write addr v sz = \<lparr>br_addr = addr, br_wdata = v, br_we = True, br_size = sz,
     br_burst_len = 1, br_src_fixed = False, br_dst_fixed = False,
     br_data = take (unat (byte_count sz)) (le_bytes32 v)\<rparr>"

definition request_burst_read ::
  "u32 \<Rightarrow> access_size \<Rightarrow> u32 \<Rightarrow> bool \<Rightarrow> bool \<Rightarrow> bus_request" where
  "request_burst_read addr sz burst_len src_fixed dst_fixed =
     \<lparr>br_addr = addr, br_wdata = 0, br_we = False, br_size = sz, br_burst_len = burst_len,
      br_src_fixed = src_fixed, br_dst_fixed = dst_fixed, br_data = []\<rparr>"

text \<open>\<open>data.get(..beat).unwrap_or(&[])\<close> copied into a zeroed array of four bytes.\<close>

definition first_beat :: "access_size \<Rightarrow> u8 list \<Rightarrow> u32" where
  "first_beat sz bytes =
    (let beat = unat (byte_count sz);
         first_slice = (if beat \<le> length bytes then take beat bytes else [])
     in of_le32_list (first_slice @ replicate (4 - length first_slice) 0))"

definition request_burst_write ::
  "u32 \<Rightarrow> access_size \<Rightarrow> u32 \<Rightarrow> bool \<Rightarrow> bool \<Rightarrow> u8 list \<Rightarrow> bus_request" where
  "request_burst_write addr sz burst_len src_fixed dst_fixed bytes =
     \<lparr>br_addr = addr, br_wdata = first_beat sz bytes, br_we = True, br_size = sz,
      br_burst_len = burst_len, br_src_fixed = src_fixed, br_dst_fixed = dst_fixed,
      br_data = bytes\<rparr>"

record bus_response =
  bp_rdata :: u32
  bp_size :: access_size
  bp_we :: bool
  bp_addr :: u32
  bp_burst_len :: u32
  bp_src_fixed :: bool
  bp_dst_fixed :: bool
  bp_data :: "u8 list"

definition response_write_ack :: "access_size \<Rightarrow> bus_response" where
  "response_write_ack sz = \<lparr>bp_rdata = 0, bp_size = sz, bp_we = True, bp_addr = 0,
     bp_burst_len = 1, bp_src_fixed = False, bp_dst_fixed = False, bp_data = []\<rparr>"

definition response_read_data :: "u32 \<Rightarrow> access_size \<Rightarrow> bus_response" where
  "response_read_data v sz = \<lparr>bp_rdata = v, bp_size = sz, bp_we = False, bp_addr = 0,
     bp_burst_len = 1, bp_src_fixed = False, bp_dst_fixed = False,
     bp_data = take (unat (byte_count sz)) (le_bytes32 v)\<rparr>"

definition response_burst_read_data ::
  "u32 \<Rightarrow> access_size \<Rightarrow> u32 \<Rightarrow> bool \<Rightarrow> bool \<Rightarrow> u8 list \<Rightarrow> bus_response" where
  "response_burst_read_data addr sz burst_len src_fixed dst_fixed bytes =
     \<lparr>bp_rdata = first_beat sz bytes, bp_size = sz, bp_we = False, bp_addr = addr,
      bp_burst_len = burst_len, bp_src_fixed = src_fixed, bp_dst_fixed = dst_fixed,
      bp_data = bytes\<rparr>"

datatype handler_error =
    BufferFull | RequestPending | NoDataAvailable | NoRequestAvailable | NoOutstandingRequest
  | InvalidAddressRange | InvalidBurstConfig

section \<open>Address regions\<close>

datatype request_address_region = RtlPeripheral | NonRtl | SpansRtlBoundary

definition request_end_addr :: "bus_request \<Rightarrow> u32 option" where
  "request_end_addr r =
    (let stride = ucast (byte_count (br_size r));
         address_span_beats =
           (if (br_we r \<and> br_dst_fixed r) \<or> (\<not> br_we r \<and> br_src_fixed r) then 1
            else br_burst_len r)
     in case checked_mul address_span_beats stride of
          None \<Rightarrow> None
        | Some total_bytes \<Rightarrow>
          (case checked_sub total_bytes 1 of
             None \<Rightarrow> None
           | Some last_byte_offset \<Rightarrow> checked_add (br_addr r) last_byte_offset))"

definition classify_request_region :: "bus_request \<Rightarrow> request_address_region" where
  "classify_request_region r =
    (case request_end_addr r of
       None \<Rightarrow> NonRtl
     | Some end_addr \<Rightarrow>
       (case (is_rtl_peripheral_addr (br_addr r), is_rtl_peripheral_addr end_addr) of
          (True, True) \<Rightarrow> RtlPeripheral
        | (False, False) \<Rightarrow> NonRtl
        | _ \<Rightarrow> SpansRtlBoundary))"

section \<open>The handler\<close>

datatype rx_state = RxIdle | RxCtrl1 | RxLen0 | RxLen1 | RxAddr u8 | RxPayload nat

record incoming_request =
  ir_valid :: bool
  ir_request :: "bus_request option"

record incoming_response =
  ip_valid :: bool
  ip_response :: "bus_response option"

record host_bus_handler =
  hb_rx_state :: rx_state
  hb_rx_packet_type :: u8
  hb_rx_temp_we :: bool
  hb_rx_temp_size :: u8
  hb_rx_temp_src_fixed :: bool
  hb_rx_temp_dst_fixed :: bool
  hb_rx_temp_burst_len :: u32
  hb_rx_addr_accumulator :: u32
  hb_rx_payload :: "u8 list"
  hb_outgoing_response :: incoming_response
  hb_incoming_request :: incoming_request
  hb_accepted_request :: "bus_request option"
  hb_tx_buffer :: "u8 list"
  hb_tx_index :: nat
  hb_outgoing_request :: "bus_request option"
  hb_outgoing_request_tx_started :: bool
  hb_pending_response :: "bus_response option"

definition handler_new :: host_bus_handler where
  "handler_new = \<lparr>hb_rx_state = RxIdle, hb_rx_packet_type = 0, hb_rx_temp_we = False,
     hb_rx_temp_size = 0, hb_rx_temp_src_fixed = False, hb_rx_temp_dst_fixed = False,
     hb_rx_temp_burst_len = 1, hb_rx_addr_accumulator = 0, hb_rx_payload = [],
     hb_outgoing_response = \<lparr>ip_valid = False, ip_response = None\<rparr>,
     hb_incoming_request = \<lparr>ir_valid = False, ir_request = None\<rparr>,
     hb_accepted_request = None, hb_tx_buffer = [], hb_tx_index = 0,
     hb_outgoing_request = None, hb_outgoing_request_tx_started = False,
     hb_pending_response = None\<rparr>"

definition handler_reset :: "host_bus_handler \<Rightarrow> host_bus_handler" where
  "handler_reset h = handler_new"

definition can_accept_rx :: "host_bus_handler \<Rightarrow> bool" where
  "can_accept_rx h =
     (if hb_rx_state h \<noteq> RxIdle then True
      else \<not> ip_valid (hb_outgoing_response h) \<or> \<not> ir_valid (hb_incoming_request h))"

definition bytes_for_size :: "u8 \<Rightarrow> u8" where
  "bytes_for_size sz = (if sz = 0 then 1 else if sz = 1 then 2 else 4)"

definition expected_payload_len :: "u8 \<Rightarrow> bool \<Rightarrow> u8 \<Rightarrow> u32 \<Rightarrow> nat" where
  "expected_payload_len packet_type we sz burst_len =
    (let beat = unat (bytes_for_size sz); beats = unat burst_len
     in if (packet_type = 0x00 \<or> packet_type = 0x02) \<and> we then beat * beats
        else if (packet_type = 0x01 \<or> packet_type = 0x03) \<and> \<not> we then beat * beats
        else 0)"

definition extract_first_word :: "u8 list \<Rightarrow> u32" where
  "extract_first_word payload =
    (let n = min (length payload) 4 in of_le32_list (take n payload @ replicate (4 - n) 0))"

section \<open>Receiving\<close>

definition rx_request :: "host_bus_handler \<Rightarrow> access_size \<Rightarrow> bus_request" where
  "rx_request h sz = \<lparr>br_addr = hb_rx_addr_accumulator h,
     br_wdata = extract_first_word (hb_rx_payload h), br_we = hb_rx_temp_we h, br_size = sz,
     br_burst_len = hb_rx_temp_burst_len h, br_src_fixed = hb_rx_temp_src_fixed h,
     br_dst_fixed = hb_rx_temp_dst_fixed h, br_data = hb_rx_payload h\<rparr>"

definition metadata_matches :: "host_bus_handler \<Rightarrow> access_size \<Rightarrow> bus_request \<Rightarrow> bool" where
  "metadata_matches h sz out_req \<longleftrightarrow>
     br_we out_req = hb_rx_temp_we h \<and> br_size out_req = sz \<and>
     br_addr out_req = hb_rx_addr_accumulator h \<and>
     br_burst_len out_req = hb_rx_temp_burst_len h \<and>
     br_src_fixed out_req = hb_rx_temp_src_fixed h \<and>
     br_dst_fixed out_req = hb_rx_temp_dst_fixed h"

definition rx_response :: "host_bus_handler \<Rightarrow> access_size \<Rightarrow> bus_response" where
  "rx_response h sz =
    (if hb_rx_temp_we h
     then \<lparr>bp_rdata = 0, bp_size = sz, bp_we = True, bp_addr = hb_rx_addr_accumulator h,
           bp_burst_len = hb_rx_temp_burst_len h, bp_src_fixed = hb_rx_temp_src_fixed h,
           bp_dst_fixed = hb_rx_temp_dst_fixed h, bp_data = []\<rparr>
     else \<lparr>bp_rdata = extract_first_word (hb_rx_payload h), bp_size = sz, bp_we = False,
           bp_addr = hb_rx_addr_accumulator h, bp_burst_len = hb_rx_temp_burst_len h,
           bp_src_fixed = hb_rx_temp_src_fixed h, bp_dst_fixed = hb_rx_temp_dst_fixed h,
           bp_data = hb_rx_payload h\<rparr>)"

definition finalize_rx_packet ::
  "host_bus_handler \<Rightarrow> (handler_error, unit) result \<times> host_bus_handler" where
  "finalize_rx_packet h =
    (let sz = (case access_size_from_u8 (hb_rx_temp_size h) of None \<Rightarrow> Byte | Some s \<Rightarrow> s);
         request = rx_request h sz
     in if hb_rx_packet_type h = 0x00 \<or> hb_rx_packet_type h = 0x02 then
          (if ir_valid (hb_incoming_request h) then (Err BufferFull, h)
           else (Ok (), h\<lparr>hb_incoming_request := \<lparr>ir_valid = True, ir_request = Some request\<rparr>,
                          hb_rx_payload := []\<rparr>))
        else if hb_rx_packet_type h = 0x01 \<or> hb_rx_packet_type h = 0x03 then
          (if ip_valid (hb_outgoing_response h) then (Err BufferFull, h)
           else if hb_rx_packet_type h = 0x03 \<and>
             (case hb_outgoing_request h of None \<Rightarrow> False
              | Some out_req \<Rightarrow> \<not> metadata_matches h sz out_req)
           then (Ok (), h\<lparr>hb_rx_payload := []\<rparr>)
           else (Ok (), h\<lparr>hb_outgoing_response :=
                            \<lparr>ip_valid = True, ip_response = Some (rx_response h sz)\<rparr>,
                          hb_rx_payload := []\<rparr>))
        else (Ok (), h\<lparr>hb_rx_payload := []\<rparr>))"

text \<open>\<open>finalize_rx_packet()?\<close> followed by the return to \<open>Idle\<close>.\<close>

definition finish_packet ::
  "host_bus_handler \<Rightarrow> (handler_error, unit) result \<times> host_bus_handler" where
  "finish_packet h =
    (case finalize_rx_packet h of
       (Inl e, h') \<Rightarrow> (Inl e, h')
     | (Inr u, h') \<Rightarrow> (Inr u, h'\<lparr>hb_rx_state := RxIdle\<rparr>))"

definition transfer_rx_byte ::
  "host_bus_handler \<Rightarrow> u8 \<Rightarrow> (handler_error, unit) result \<times> host_bus_handler" where
  "transfer_rx_byte h byte =
    (if \<not> can_accept_rx h then (Err BufferFull, h)
     else case hb_rx_state h of
       RxIdle \<Rightarrow>
         (let packet_type = drop_bit 4 byte AND 0x0F; sz = drop_bit 2 byte AND 0x03
          in if packet_type > 0x03 \<or> sz = 0x03 then (Ok (), h)
             else (Ok (), h\<lparr>hb_rx_packet_type := packet_type, hb_rx_temp_size := sz,
                            hb_rx_temp_src_fixed := (drop_bit 1 byte AND 0x01 \<noteq> 0),
                            hb_rx_temp_dst_fixed := (byte AND 0x01 \<noteq> 0),
                            hb_rx_state := RxCtrl1\<rparr>))
     | RxCtrl1 \<Rightarrow>
         (if byte AND CTRL1_RESERVED_MASK \<noteq> 0 then (Ok (), h\<lparr>hb_rx_state := RxIdle\<rparr>)
          else (Ok (), h\<lparr>hb_rx_temp_we := (byte AND 0x01 \<noteq> 0), hb_rx_state := RxLen0\<rparr>))
     | RxLen0 \<Rightarrow>
         (Ok (), h\<lparr>hb_rx_temp_burst_len := ucast byte, hb_rx_state := RxLen1\<rparr>)
     | RxLen1 \<Rightarrow>
         (let bl = hb_rx_temp_burst_len h OR push_bit 8 (ucast byte);
              bl = saturating_add bl 1
          in if bl = 0 then (Ok (), h\<lparr>hb_rx_temp_burst_len := bl, hb_rx_state := RxIdle\<rparr>)
             else (Ok (), h\<lparr>hb_rx_temp_burst_len := bl, hb_rx_addr_accumulator := 0,
                            hb_rx_state := RxAddr 0\<rparr>))
     | RxAddr byte_idx \<Rightarrow>
         (let h = h\<lparr>hb_rx_addr_accumulator := hb_rx_addr_accumulator h OR
                      push_bit (unat (byte_idx * 8)) (ucast byte)\<rparr>
          in if byte_idx = 3 then
               (let payload_len = expected_payload_len (hb_rx_packet_type h) (hb_rx_temp_we h)
                      (hb_rx_temp_size h) (hb_rx_temp_burst_len h)
                in if payload_len = 0 then finish_packet h
                   else (Ok (), h\<lparr>hb_rx_payload := [], hb_rx_state := RxPayload payload_len\<rparr>))
             else (Ok (), h\<lparr>hb_rx_state := RxAddr (byte_idx + 1)\<rparr>))
     | RxPayload remaining \<Rightarrow>
         (let h = h\<lparr>hb_rx_payload := hb_rx_payload h @ [byte]\<rparr>
          in if remaining = 1 then finish_packet h
             else (Ok (), h\<lparr>hb_rx_state := RxPayload (remaining - 1)\<rparr>)))"

section \<open>Transmitting\<close>

definition encode_packet ::
  "u8 \<Rightarrow> access_size \<Rightarrow> bool \<Rightarrow> bool \<Rightarrow> bool \<Rightarrow> u32 \<Rightarrow> u32 \<Rightarrow> u8 list \<Rightarrow> u8 list" where
  "encode_packet packet_type sz we src_fixed dst_fixed burst_len addr payload =
    (let ctrl0 = push_bit 4 (packet_type AND 0x0F) OR push_bit 2 (to_size_code sz AND 0x03) OR
           push_bit 1 (of_bool src_fixed) OR of_bool dst_fixed;
         len_m1 = ucast (saturating_sub burst_len 1)
     in [ctrl0, of_bool we] @ le_bytes16 len_m1 @ le_bytes32 addr @ payload)"

definition start_tx_packet :: "host_bus_handler \<Rightarrow> host_bus_handler option" where
  "start_tx_packet h =
    (case (hb_accepted_request h, hb_pending_response h) of
       (Some _, Some r) \<Rightarrow>
         Some (h\<lparr>hb_pending_response := None,
                 hb_tx_buffer := encode_packet 0x01 (bp_size r) (bp_we r) (bp_src_fixed r)
                   (bp_dst_fixed r) (bp_burst_len r) (bp_addr r) (bp_data r),
                 hb_accepted_request := None\<rparr>)
     | _ \<Rightarrow>
       (case hb_outgoing_request h of
          Some r \<Rightarrow>
            if \<not> hb_outgoing_request_tx_started h
            then Some (h\<lparr>hb_tx_buffer := encode_packet 0x02 (br_size r) (br_we r) (br_src_fixed r)
                          (br_dst_fixed r) (br_burst_len r) (br_addr r) (br_data r),
                         hb_outgoing_request_tx_started := True\<rparr>)
            else None
        | None \<Rightarrow> None))"

text \<open>The second half of \<open>transfer_tx_byte\<close>, once the buffer is loaded.\<close>

definition take_tx_byte :: "host_bus_handler \<Rightarrow> u8 option \<times> host_bus_handler" where
  "take_tx_byte h =
    (if hb_tx_index h < length (hb_tx_buffer h)
     then (let byte = hb_tx_buffer h ! hb_tx_index h;
               h = h\<lparr>hb_tx_index := hb_tx_index h + 1\<rparr>
           in if hb_tx_index h \<ge> length (hb_tx_buffer h)
              then (Some byte, h\<lparr>hb_tx_buffer := [], hb_tx_index := 0\<rparr>)
              else (Some byte, h))
     else (None, h))"

definition transfer_tx_byte :: "host_bus_handler \<Rightarrow> u8 option \<times> host_bus_handler" where
  "transfer_tx_byte h =
    (if hb_tx_index h \<ge> length (hb_tx_buffer h)
     then (let h = h\<lparr>hb_tx_buffer := [], hb_tx_index := 0\<rparr>
           in case start_tx_packet h of None \<Rightarrow> (None, h) | Some h' \<Rightarrow> take_tx_byte h')
     else take_tx_byte h)"

definition has_tx_data :: "host_bus_handler \<Rightarrow> bool" where
  "has_tx_data h =
    (if hb_tx_index h < length (hb_tx_buffer h) then True
     else (hb_accepted_request h \<noteq> None \<and> hb_pending_response h \<noteq> None) \<or>
       (hb_outgoing_request h \<noteq> None \<and> \<not> hb_outgoing_request_tx_started h))"

section \<open>Requests in both directions\<close>

definition send_request ::
  "host_bus_handler \<Rightarrow> bus_request \<Rightarrow> (handler_error, unit) result \<times> host_bus_handler" where
  "send_request h r =
    (if hb_outgoing_request h \<noteq> None then (Err RequestPending, h)
     else if br_burst_len r = 0 \<or> br_burst_len r > MAX_BURST_BEATS then (Err InvalidBurstConfig, h)
     else if br_we r \<and>
       length (br_data r) \<noteq> unat (byte_count (br_size r)) * unat (br_burst_len r)
     then (Err InvalidBurstConfig, h)
     else if \<not> br_we r \<and> br_data r \<noteq> [] then (Err InvalidBurstConfig, h)
     else if classify_request_region r \<noteq> RtlPeripheral then (Err InvalidAddressRange, h)
     else (Ok (), h\<lparr>hb_outgoing_request := Some r\<rparr>))"

definition receive_response :: "host_bus_handler \<Rightarrow> bus_response option \<times> host_bus_handler" where
  "receive_response h =
    (if \<not> ip_valid (hb_outgoing_response h) then (None, h)
     else if hb_outgoing_request h = None \<and> hb_accepted_request h = None then (None, h)
     else (ip_response (hb_outgoing_response h),
           h\<lparr>hb_outgoing_request := None, hb_outgoing_request_tx_started := False,
             hb_outgoing_response := \<lparr>ip_valid = False, ip_response = None\<rparr>\<rparr>))"

definition accept_request ::
  "host_bus_handler \<Rightarrow> (handler_error, bus_request) result \<times> host_bus_handler" where
  "accept_request h =
    (if \<not> ir_valid (hb_incoming_request h) \<or> hb_accepted_request h \<noteq> None
     then (Err NoRequestAvailable, h)
     else case ir_request (hb_incoming_request h) of
       None \<Rightarrow> (Err NoRequestAvailable, h)
     | Some r \<Rightarrow> (Ok r, h\<lparr>hb_accepted_request := Some r,
         hb_incoming_request := \<lparr>ir_valid = False, ir_request = None\<rparr>\<rparr>))"

definition complete_request ::
  "host_bus_handler \<Rightarrow> bus_response \<Rightarrow> (handler_error, unit) result \<times> host_bus_handler" where
  "complete_request h resp =
    (case hb_accepted_request h of
       None \<Rightarrow> (Err NoOutstandingRequest, h)
     | Some accepted \<Rightarrow>
       (let resp = (if bp_addr resp = 0
              then resp\<lparr>bp_addr := br_addr accepted, bp_burst_len := br_burst_len accepted,
                        bp_src_fixed := br_src_fixed accepted,
                        bp_dst_fixed := br_dst_fixed accepted\<rparr>
              else resp)
        in if bp_we resp \<noteq> br_we accepted \<or> bp_size resp \<noteq> br_size accepted \<or>
              bp_addr resp \<noteq> br_addr accepted \<or> bp_burst_len resp \<noteq> br_burst_len accepted \<or>
              bp_src_fixed resp \<noteq> br_src_fixed accepted \<or>
              bp_dst_fixed resp \<noteq> br_dst_fixed accepted
           then (Err InvalidBurstConfig, h)
           else
             (let expected_data_len = (if br_we accepted then 0
                    else unat (byte_count (br_size accepted)) * unat (br_burst_len accepted))
              in if length (bp_data resp) \<noteq> expected_data_len then (Err InvalidBurstConfig, h)
                 else (Ok (), h\<lparr>hb_pending_response := Some resp\<rparr>))))"

definition has_pending_outgoing_request :: "host_bus_handler \<Rightarrow> bool" where
  "has_pending_outgoing_request h = (hb_outgoing_request h \<noteq> None)"

definition has_incoming_request :: "host_bus_handler \<Rightarrow> bool" where
  "has_incoming_request h =
     (ir_valid (hb_incoming_request h) \<and> hb_accepted_request h = None)"

definition is_waiting_for_completion :: "host_bus_handler \<Rightarrow> bool" where
  "is_waiting_for_completion h =
     (hb_accepted_request h \<noteq> None \<and> hb_pending_response h = None)"

end
