(* ===== verification/Host_Bus_Framing.thy ===== *)
theory Host_Bus_Framing
  imports Host_Bus
begin

text \<open>
  Correctness of the host-bus framing: the receive state machine run on the bytes of
  \<open>encode_packet\<close> buffers exactly the packet that was encoded, bytes that cannot start a
  packet are skipped, and a queued request leaves the transmit side as exactly its encoding.
\<close>

section \<open>Feeding bytes\<close>

text \<open>Bytes are fed one by one; the caller stops at the first error.\<close>

fun rx_feed :: "host_bus_handler \<Rightarrow> u8 list \<Rightarrow> (handler_error, unit) result \<times> host_bus_handler" where
  "rx_feed h [] = (Ok (), h)"
| "rx_feed h (b # bs) =
     (case transfer_rx_byte h b of (Inl e, h') \<Rightarrow> (Err e, h') | (Inr u, h') \<Rightarrow> rx_feed h' bs)"

lemma rx_feed_append:
  "rx_feed h (xs @ ys) =
     (case rx_feed h xs of (Inl e, h') \<Rightarrow> (Err e, h') | (Inr u, h') \<Rightarrow> rx_feed h' ys)"
  by (induction h xs rule: rx_feed.induct) (auto split: prod.splits sum.splits)

text \<open>The fields of a packet header as the receiver stores them.\<close>

definition with_header ::
  "host_bus_handler \<Rightarrow> u8 \<Rightarrow> access_size \<Rightarrow> bool \<Rightarrow> bool \<Rightarrow> bool \<Rightarrow> u32 \<Rightarrow> u32 \<Rightarrow> host_bus_handler" where
  "with_header h pt sz we sf df bl addr =
     h\<lparr>hb_rx_packet_type := pt, hb_rx_temp_we := we, hb_rx_temp_size := to_size_code sz,
       hb_rx_temp_src_fixed := sf, hb_rx_temp_dst_fixed := df, hb_rx_temp_burst_len := bl,
       hb_rx_addr_accumulator := addr\<rparr>"

definition packet_type_ok :: "u8 \<Rightarrow> bool" where
  "packet_type_ok pt = (pt = 0 \<or> pt = 1 \<or> pt = 2 \<or> pt = 3)"

definition ctrl0_byte :: "u8 \<Rightarrow> access_size \<Rightarrow> bool \<Rightarrow> bool \<Rightarrow> u8" where
  "ctrl0_byte pt sz sf df =
     push_bit 4 (pt AND 0x0F) OR push_bit 2 (to_size_code sz AND 0x03) OR
     push_bit 1 (of_bool sf) OR of_bool df"

lemma ctrl0_type:
  assumes "packet_type_ok pt" shows "drop_bit 4 (ctrl0_byte pt sz sf df) AND 0x0F = pt"
  using assms unfolding packet_type_ok_def
  by (elim disjE; hypsubst; cases sz; cases sf; cases df; simp add: ctrl0_byte_def)

lemma ctrl0_size:
  assumes "packet_type_ok pt" shows "drop_bit 2 (ctrl0_byte pt sz sf df) AND 0x03 = to_size_code sz"
  using assms unfolding packet_type_ok_def
  by (elim disjE; hypsubst; cases sz; cases sf; cases df; simp add: ctrl0_byte_def)

lemma ctrl0_src:
  assumes "packet_type_ok pt" shows "drop_bit 1 (ctrl0_byte pt sz sf df) AND 0x01 \<noteq> 0 \<longleftrightarrow> sf"
  using assms unfolding packet_type_ok_def
  by (elim disjE; hypsubst; cases sz; cases sf; cases df; simp add: ctrl0_byte_def)

lemma ctrl0_dst:
  assumes "packet_type_ok pt" shows "ctrl0_byte pt sz sf df AND 0x01 \<noteq> 0 \<longleftrightarrow> df"
  using assms unfolding packet_type_ok_def
  by (elim disjE; hypsubst; cases sz; cases sf; cases df; simp add: ctrl0_byte_def)

lemmas ctrl0_fields = ctrl0_type ctrl0_size ctrl0_src ctrl0_dst

lemma rx_ctrl0:
  assumes "hb_rx_state h = RxIdle" "can_accept_rx h" "packet_type_ok pt"
  shows "transfer_rx_byte h (ctrl0_byte pt sz sf df) =
    (Ok (), h\<lparr>hb_rx_packet_type := pt, hb_rx_temp_size := to_size_code sz,
      hb_rx_temp_src_fixed := sf, hb_rx_temp_dst_fixed := df, hb_rx_state := RxCtrl1\<rparr>)"
proof -
  have "\<not> (pt > 0x03)" using assms(3) by (auto simp: packet_type_ok_def)
  moreover have "to_size_code sz \<noteq> 0x03" by (cases sz) simp_all
  ultimately show ?thesis using assms(1,2)
    by (simp add: transfer_rx_byte_def Let_def ctrl0_fields [OF assms(3)] del: One_nat_def)
qed

lemma rx_ctrl1:
  "hb_rx_state h = RxCtrl1 \<Longrightarrow>
    transfer_rx_byte h (of_bool we) = (Ok (), h\<lparr>hb_rx_temp_we := we, hb_rx_state := RxLen0\<rparr>)"
  by (cases we) (simp_all add: transfer_rx_byte_def can_accept_rx_def CTRL1_RESERVED_MASK_def)

text \<open>The length field holds \<open>burst_len - 1\<close> in 16 bits.\<close>

lemma len_field:
  assumes "1 \<le> unat bl" "unat bl \<le> 65536"
  defines "l \<equiv> (ucast (saturating_sub bl 1) :: u16)"
  shows "saturating_add (ucast (ucast l :: u8) OR push_bit 8 (ucast (ucast (drop_bit 8 l) :: u8))) 1
      = (bl :: u32)"
proof -
  have nz: "bl \<noteq> 0" using assms(1) by auto
  then have s: "saturating_sub bl 1 = bl - 1"
    using assms(1) by (simp add: saturating_sub_def word_le_nat_alt)
  have b: "unat (bl - 1) < 2 ^ 16" using assms(2) unat_minus1 [OF nz] nz unat_gt_0 [of bl] by simp
  have "ucast (ucast l :: u8) OR push_bit 8 (ucast (ucast (drop_bit 8 l) :: u8)) = (ucast l :: u32)"
    by (rule bit_word_eqI) (auto simp: bit_simps dest: bit_imp_le_length)
  also have "ucast l = take_bit 16 (bl - 1)"
    unfolding l_def s by (rule bit_word_eqI) (auto simp: bit_simps)
  also have "\<dots> = bl - 1" using b by (rule take_bit_small)
  finally show ?thesis
    using unat_minus1 [OF nz] assms(1,2) by (simp add: word_unat_eq_iff unat_saturating_add)
qed

lemma rx_len:
  assumes "hb_rx_state h = RxLen0" "1 \<le> unat bl" "unat bl \<le> 65536"
  shows "rx_feed h (le_bytes16 (ucast (saturating_sub bl 1))) =
    (Ok (), h\<lparr>hb_rx_temp_burst_len := bl, hb_rx_addr_accumulator := 0, hb_rx_state := RxAddr 0\<rparr>)"
proof -
  have "bl \<noteq> 0" using assms(2) by auto
  with assms len_field [OF assms(2,3)] show ?thesis
    by (simp add: le_bytes16_def transfer_rx_byte_def can_accept_rx_def Let_def)
qed

text \<open>The first three address bytes, and the fourth, which completes the header.\<close>

lemma rx_addr:
  assumes "hb_rx_state h = RxAddr 0" "hb_rx_addr_accumulator h = 0"
  shows "rx_feed h (le_bytes32 a) =
    (let h' = h\<lparr>hb_rx_state := RxAddr 3, hb_rx_addr_accumulator := a\<rparr>;
         n = expected_payload_len (hb_rx_packet_type h) (hb_rx_temp_we h) (hb_rx_temp_size h)
               (hb_rx_temp_burst_len h)
     in if n = 0 then finish_packet h'
        else (Ok (), h'\<lparr>hb_rx_payload := [], hb_rx_state := RxPayload n\<rparr>))"
proof -
  have a: "ucast (ucast a :: u8) OR push_bit 8 (ucast (ucast (drop_bit 8 a) :: u8)) OR
      push_bit 16 (ucast (ucast (drop_bit 16 a) :: u8)) OR
      push_bit 24 (ucast (ucast (drop_bit 24 a) :: u8)) = a"
    using of_le32_le [of a] by (simp add: of_le32_def)
  show ?thesis
    using assms a
    by (simp add: le_bytes32_def transfer_rx_byte_def can_accept_rx_def Let_def or.assoc
        split: prod.splits sum.splits)
qed

section \<open>Whole packets\<close>

lemma finalize_rx_state:
  "finalize_rx_packet (h\<lparr>hb_rx_state := st\<rparr>) =
    (fst (finalize_rx_packet h), (snd (finalize_rx_packet h))\<lparr>hb_rx_state := st\<rparr>)"
proof -
  have "rx_request (h\<lparr>hb_rx_state := st\<rparr>) = rx_request h"
    "rx_response (h\<lparr>hb_rx_state := st\<rparr>) = rx_response h"
    "metadata_matches (h\<lparr>hb_rx_state := st\<rparr>) = metadata_matches h"
    by (simp_all add: fun_eq_iff rx_request_def rx_response_def metadata_matches_def)
  then show ?thesis
    unfolding finalize_rx_packet_def Let_def by (cases "hb_outgoing_request h") simp_all
qed

lemma finish_packet_state:
  assumes "finalize_rx_packet h = (Inr u, h')"
  shows "finish_packet (h\<lparr>hb_rx_state := st\<rparr>) = (Ok (), h'\<lparr>hb_rx_state := RxIdle\<rparr>)"
  using assms by (simp add: finish_packet_def finalize_rx_state)

lemma rx_payload_bytes:
  "hb_rx_state h = RxPayload (length ps) \<Longrightarrow> ps \<noteq> [] \<Longrightarrow>
    rx_feed h ps = (case finish_packet (h\<lparr>hb_rx_payload := hb_rx_payload h @ ps,
      hb_rx_state := RxPayload 1\<rparr>) of (Inl e, h') \<Rightarrow> (Err e, h') | (Inr u, h') \<Rightarrow> (Ok (), h'))"
proof (induction ps arbitrary: h)
  case (Cons b bs)
  show ?case
  proof (cases bs)
    case Nil
    with Cons.prems have "h\<lparr>hb_rx_payload := hb_rx_payload h @ [b], hb_rx_state := RxPayload (Suc 0)\<rparr> =
        h\<lparr>hb_rx_payload := hb_rx_payload h @ [b]\<rparr>" by simp
    from arg_cong [OF this, of finish_packet] Nil Cons.prems show ?thesis
      by (simp add: transfer_rx_byte_def can_accept_rx_def Let_def split: prod.splits sum.splits)
  next
    case (Cons c cs)
    let ?h = "h\<lparr>hb_rx_payload := hb_rx_payload h @ [b], hb_rx_state := RxPayload (length bs)\<rparr>"
    have "transfer_rx_byte h b = (Ok (), ?h)"
      using Cons.prems Cons by (simp add: transfer_rx_byte_def can_accept_rx_def Let_def)
    with Cons.IH [of ?h] Cons show ?thesis by simp
  qed
qed simp

lemma rx_packet:
  assumes st: "hb_rx_state h = RxIdle" "can_accept_rx h" "hb_rx_payload h = []"
    and pt: "packet_type_ok pt" "1 \<le> unat bl" "unat bl \<le> 65536"
    and len: "length ps = expected_payload_len pt we (to_size_code sz) bl"
    and fin: "finalize_rx_packet ((with_header h pt sz we sf df bl addr)\<lparr>hb_rx_payload := ps\<rparr>) =
      (Inr u, h')"
  shows "rx_feed h (encode_packet pt sz we sf df bl addr ps) = (Ok (), h'\<lparr>hb_rx_state := RxIdle\<rparr>)"
proof -
  let ?w = "with_header h pt sz we sf df bl addr"
  let ?l = "le_bytes16 (ucast (saturating_sub bl 1))"
  have enc: "encode_packet pt sz we sf df bl addr q =
      [ctrl0_byte pt sz sf df, of_bool we] @ ?l @ le_bytes32 addr @ q" for q
    by (simp add: encode_packet_def ctrl0_byte_def Let_def)
  let ?h2 = "h\<lparr>hb_rx_packet_type := pt, hb_rx_temp_size := to_size_code sz,
      hb_rx_temp_src_fixed := sf, hb_rx_temp_dst_fixed := df, hb_rx_temp_we := we,
      hb_rx_state := RxLen0\<rparr>"
  let ?h4 = "?h2\<lparr>hb_rx_temp_burst_len := bl, hb_rx_addr_accumulator := 0, hb_rx_state := RxAddr 0\<rparr>"
  let ?h = "?h4\<lparr>hb_rx_state := RxAddr 3, hb_rx_addr_accumulator := addr\<rparr>"
  have w: "?h = ?w\<lparr>hb_rx_state := RxAddr 3\<rparr>" by (simp add: with_header_def)
  have s2: "rx_feed h [ctrl0_byte pt sz sf df, of_bool we] = (Ok (), ?h2)"
    by (simp add: rx_ctrl0 [OF st(1,2) pt(1)] rx_ctrl1)
  have s4: "rx_feed ?h2 ?l = (Ok (), ?h4)" using rx_len [of ?h2 bl] pt by simp
  have s8: "rx_feed ?h4 (le_bytes32 addr) =
      (if ps = [] then finish_packet ?h
       else (Ok (), ?h\<lparr>hb_rx_payload := [], hb_rx_state := RxPayload (length ps)\<rparr>))"
    using rx_addr [of ?h4 addr] by (simp add: Let_def len [symmetric])
  show ?thesis
  proof (cases "ps = []")
    case True
    have "?w\<lparr>hb_rx_payload := []\<rparr> = ?w" using st(3) by (simp add: with_header_def)
    with fin True have "finish_packet ?h = (Ok (), h'\<lparr>hb_rx_state := RxIdle\<rparr>)"
      unfolding w by (intro finish_packet_state [of _ u]) simp
    with True s2 s4 s8 show ?thesis by (simp add: enc rx_feed_append del: append.simps rx_feed.simps(2))
  next
    case False
    let ?p = "?h\<lparr>hb_rx_payload := [], hb_rx_state := RxPayload (length ps)\<rparr>"
    have "?p\<lparr>hb_rx_payload := ps, hb_rx_state := RxPayload 1\<rparr> =
        (?w\<lparr>hb_rx_payload := ps\<rparr>)\<lparr>hb_rx_state := RxPayload 1\<rparr>" by (simp add: with_header_def)
    then have "finish_packet (?p\<lparr>hb_rx_payload := ps, hb_rx_state := RxPayload 1\<rparr>) =
        (Ok (), h'\<lparr>hb_rx_state := RxIdle\<rparr>)"
      by (simp only: finish_packet_state [OF fin])
    then have "rx_feed ?p ps = (Ok (), h'\<lparr>hb_rx_state := RxIdle\<rparr>)"
      using rx_payload_bytes [of ?p ps] False by simp
    with False s2 s4 s8 show ?thesis
      by (simp add: enc rx_feed_append del: append.simps rx_feed.simps(2))
  qed
qed

section \<open>Transmitting\<close>

text \<open>Pulling bytes until the handler has none.\<close>

fun tx_drain :: "nat \<Rightarrow> host_bus_handler \<Rightarrow> u8 list \<times> host_bus_handler" where
  "tx_drain 0 h = ([], h)"
| "tx_drain (Suc n) h =
     (case transfer_tx_byte h of
        (None, h') \<Rightarrow> ([], h')
      | (Some b, h') \<Rightarrow> (let (bs, h'') = tx_drain n h' in (b # bs, h'')))"

lemma tx_buffer_drain:
  "k < length (hb_tx_buffer h) \<Longrightarrow> hb_tx_index h = k \<Longrightarrow> n = length (hb_tx_buffer h) - k \<Longrightarrow>
    tx_drain n h = (drop k (hb_tx_buffer h), h\<lparr>hb_tx_buffer := [], hb_tx_index := 0\<rparr>)"
proof (induction n arbitrary: k h)
  case (Suc n)
  let ?h = "h\<lparr>hb_tx_index := k + 1\<rparr>"
  show ?case
  proof (cases "k + 1 = length (hb_tx_buffer h)")
    case True
    with Suc.prems have "n = 0" by simp
    moreover have "drop k (hb_tx_buffer h) = [hb_tx_buffer h ! k]"
      using True by (metis Cons_nth_drop_Suc Suc.prems(1) Suc_eq_plus1 drop_all order_refl)
    ultimately show ?thesis
      using Suc.prems(1,2) True by (simp add: transfer_tx_byte_def take_tx_byte_def Let_def)
  next
    case False
    with Suc.prems have k: "k + 1 < length (hb_tx_buffer ?h)" "n = length (hb_tx_buffer ?h) - (k + 1)"
      by simp_all
    have "transfer_tx_byte h = (Some (hb_tx_buffer h ! k), ?h)"
      using Suc.prems False by (simp add: transfer_tx_byte_def take_tx_byte_def Let_def)
    with Suc.IH [OF k(1) _ k(2)] show ?thesis
      using Suc.prems(1) by (simp add: Cons_nth_drop_Suc)
  qed
qed simp

lemma encode_packet_length: "length (encode_packet pt sz we sf df bl addr ps) = 8 + length ps"
  by (simp add: encode_packet_def Let_def)

lemma tx_packet_drain:
  assumes "hb_tx_buffer h = []" "hb_tx_index h = 0" "start_tx_packet h = Some h'"
    and "hb_tx_buffer h' = bs" "bs \<noteq> []" "hb_tx_index h' = 0"
  shows "tx_drain (length bs) h = (bs, h'\<lparr>hb_tx_buffer := []\<rparr>)"
proof -
  have h: "h\<lparr>hb_tx_buffer := [], hb_tx_index := 0\<rparr> = h" using assms(1,2) by simp
  have t: "transfer_tx_byte h = transfer_tx_byte h'"
    using assms by (simp add: transfer_tx_byte_def h)
  have "tx_drain n h = tx_drain n h'" if "0 < n" for n
    using that t by (cases n) simp_all
  from this [of "length bs"] have "tx_drain (length bs) h = tx_drain (length bs) h'"
    using assms(5) by blast
  also have "tx_drain (length bs) h' = (drop 0 (hb_tx_buffer h'), h'\<lparr>hb_tx_buffer := [], hb_tx_index := 0\<rparr>)"
    by (rule tx_buffer_drain) (use assms(4-6) in auto)
  also have "drop 0 (hb_tx_buffer h') = bs" by (simp add: assms(4))
  also have "h'\<lparr>hb_tx_buffer := [], hb_tx_index := 0\<rparr> = h'\<lparr>hb_tx_buffer := []\<rparr>"
    using assms(6) by simp
  finally show ?thesis .
qed

section \<open>Delivery of requests and responses\<close>

text \<open>
  What \<open>send_request\<close> demands of the shape of a request, and the packet it becomes.  The
  receiver recomputes \<open>wdata\<close> from the payload.
\<close>

definition request_ok :: "bus_request \<Rightarrow> bool" where
  "request_ok r \<longleftrightarrow> br_burst_len r \<noteq> 0 \<and> br_burst_len r \<le> MAX_BURST_BEATS \<and>
     length (br_data r) =
       (if br_we r then unat (byte_count (br_size r)) * unat (br_burst_len r) else 0)"

definition request_packet :: "u8 \<Rightarrow> bus_request \<Rightarrow> u8 list" where
  "request_packet pt r = encode_packet pt (br_size r) (br_we r) (br_src_fixed r)
     (br_dst_fixed r) (br_burst_len r) (br_addr r) (br_data r)"

definition received_request :: "bus_request \<Rightarrow> bus_request" where
  "received_request r = r\<lparr>br_wdata := extract_first_word (br_data r)\<rparr>"

definition response_ok :: "bus_response \<Rightarrow> bool" where
  "response_ok r \<longleftrightarrow> bp_burst_len r \<noteq> 0 \<and> bp_burst_len r \<le> MAX_BURST_BEATS \<and>
     length (bp_data r) =
       (if bp_we r then 0 else unat (byte_count (bp_size r)) * unat (bp_burst_len r))"

definition response_packet :: "u8 \<Rightarrow> bus_response \<Rightarrow> u8 list" where
  "response_packet pt r = encode_packet pt (bp_size r) (bp_we r) (bp_src_fixed r)
     (bp_dst_fixed r) (bp_burst_len r) (bp_addr r) (bp_data r)"

definition received_response :: "bus_response \<Rightarrow> bus_response" where
  "received_response r = r\<lparr>bp_rdata := extract_first_word (bp_data r)\<rparr>"

text \<open>The request a response belongs to, as the receiver compares them.\<close>

definition response_answers :: "bus_response \<Rightarrow> bus_request \<Rightarrow> bool" where
  "response_answers p r \<longleftrightarrow> br_we r = bp_we p \<and> br_size r = bp_size p \<and> br_addr r = bp_addr p \<and>
     br_burst_len r = bp_burst_len p \<and> br_src_fixed r = bp_src_fixed p \<and>
     br_dst_fixed r = bp_dst_fixed p"

lemma burst_bounds:
  "bl \<noteq> 0 \<Longrightarrow> bl \<le> MAX_BURST_BEATS \<Longrightarrow> 1 \<le> unat bl \<and> unat bl \<le> 65536" for bl :: u32
  using unat_gt_0 [of bl] by (simp add: MAX_BURST_BEATS_def word_le_nat_alt)

lemma size_code_roundtrip [simp]: "access_size_from_u8 (to_size_code sz) = Some sz"
  by (cases sz) (simp_all add: access_size_from_u8_def)

lemma bytes_for_size_code [simp]: "bytes_for_size (to_size_code sz) = byte_count sz"
  by (cases sz) (simp_all add: bytes_for_size_def)

lemma extract_first_word_Nil [simp]: "extract_first_word [] = 0"
  by (simp add: extract_first_word_def numeral_eq_Suc of_le32_def)

text \<open>The bytes that cannot start a packet.\<close>

definition noise_byte :: "u8 \<Rightarrow> bool" where
  "noise_byte b \<longleftrightarrow> drop_bit 4 b AND 0x0F > 0x03 \<or> drop_bit 2 b AND 0x03 = 0x03"

lemma rx_noise:
  "\<forall>b \<in> set bs. noise_byte b \<Longrightarrow> hb_rx_state h = RxIdle \<Longrightarrow> can_accept_rx h \<Longrightarrow>
    rx_feed h bs = (Ok (), h)"
  by (induction bs) (simp_all add: transfer_rx_byte_def noise_byte_def Let_def del: One_nat_def)

lemma rx_request_packet:
  assumes "hb_rx_state h = RxIdle" "\<not> ir_valid (hb_incoming_request h)" "hb_rx_payload h = []"
    and "request_ok r" "pt = 0 \<or> pt = 2"
  shows "rx_feed h (request_packet pt r) =
    (Ok (), (with_header h pt (br_size r) (br_we r) (br_src_fixed r) (br_dst_fixed r)
        (br_burst_len r) (br_addr r))
      \<lparr>hb_incoming_request := \<lparr>ir_valid = True, ir_request = Some (received_request r)\<rparr>\<rparr>)"
    (is "_ = (_, ?h')")
proof -
  let ?h = "with_header h pt (br_size r) (br_we r) (br_src_fixed r) (br_dst_fixed r)
        (br_burst_len r) (br_addr r)"
  have "rx_request (?h\<lparr>hb_rx_payload := br_data r\<rparr>) (br_size r) = received_request r"
    by (simp add: rx_request_def received_request_def with_header_def)
  then have "finalize_rx_packet (?h\<lparr>hb_rx_payload := br_data r\<rparr>) = (Inr (), ?h')"
    using assms(2,3,5) by (auto simp: finalize_rx_packet_def Let_def with_header_def)
  moreover have "length (br_data r) =
      expected_payload_len pt (br_we r) (to_size_code (br_size r)) (br_burst_len r)"
    using assms(4,5) by (auto simp: request_ok_def expected_payload_len_def)
  moreover have "can_accept_rx h" using assms(2) by (simp add: can_accept_rx_def)
  moreover have "packet_type_ok pt" using assms(5) by (auto simp: packet_type_ok_def)
  ultimately have "rx_feed h (request_packet pt r) = (Ok (), ?h'\<lparr>hb_rx_state := RxIdle\<rparr>)"
    using assms(1,3,4) burst_bounds [of "br_burst_len r"] unfolding request_packet_def
    by (intro rx_packet [where u = "()"]) (auto simp: request_ok_def)
  also have "?h'\<lparr>hb_rx_state := RxIdle\<rparr> = ?h'" using assms(1) by (simp add: with_header_def)
  finally show ?thesis .
qed

lemma finalize_response:
  assumes "hb_rx_temp_size q = to_size_code sz" "hb_rx_packet_type q = pt" "pt = 1 \<or> pt = 3"
    and "\<not> ip_valid (hb_outgoing_response q)" "hb_outgoing_request q = out"
  shows "finalize_rx_packet q =
    (if pt = 3 \<and> (\<exists>r. out = Some r \<and> \<not> metadata_matches q sz r)
     then (Ok (), q\<lparr>hb_rx_payload := []\<rparr>)
     else (Ok (), q\<lparr>hb_outgoing_response :=
       \<lparr>ip_valid = True, ip_response = Some (rx_response q sz)\<rparr>, hb_rx_payload := []\<rparr>))"
  using assms(3)
  by (elim disjE; cases out) (simp_all add: finalize_rx_packet_def Let_def assms(1,2,4,5))

lemma if_update_response:
  "hb_outgoing_response w = o' \<Longrightarrow> (if d then (a, w) else (a, w\<lparr>hb_outgoing_response := x\<rparr>)) =
    (a, w\<lparr>hb_outgoing_response := (if d then o' else x)\<rparr>)"
  by auto

lemma rx_response_packet:
  assumes "hb_rx_state h = RxIdle" "\<not> ip_valid (hb_outgoing_response h)" "hb_rx_payload h = []"
    and "response_ok p" "pt = 1 \<or> pt = 3"
  shows "rx_feed h (response_packet pt p) =
    (Ok (), (with_header h pt (bp_size p) (bp_we p) (bp_src_fixed p) (bp_dst_fixed p)
        (bp_burst_len p) (bp_addr p))
      \<lparr>hb_outgoing_response :=
        (if pt = 3 \<and> (\<exists>r. hb_outgoing_request h = Some r \<and> \<not> response_answers p r)
         then hb_outgoing_response h
         else \<lparr>ip_valid = True, ip_response = Some (received_response p)\<rparr>)\<rparr>)"
    (is "_ = (_, ?h')")
proof -
  let ?h = "with_header h pt (bp_size p) (bp_we p) (bp_src_fixed p) (bp_dst_fixed p)
        (bp_burst_len p) (bp_addr p)"
  have data: "bp_we p \<Longrightarrow> bp_data p = []" using assms(4) by (simp add: response_ok_def)
  then have resp: "rx_response (?h\<lparr>hb_rx_payload := bp_data p\<rparr>) (bp_size p) = received_response p"
    by (simp add: rx_response_def received_response_def with_header_def)
  have meta: "metadata_matches (?h\<lparr>hb_rx_payload := bp_data p\<rparr>) (bp_size p) r = response_answers p r" for r
    by (simp add: metadata_matches_def response_answers_def with_header_def)
  have pl: "(?h\<lparr>hb_rx_payload := bp_data p\<rparr>)\<lparr>hb_rx_payload := []\<rparr> = ?h"
    using assms(3) by (simp add: with_header_def)
  have f: "hb_rx_temp_size ?h = to_size_code (bp_size p)" "hb_rx_packet_type ?h = pt"
    "hb_outgoing_response ?h = hb_outgoing_response h" "hb_outgoing_request ?h = hb_outgoing_request h"
    by (simp_all add: with_header_def)
  let ?drop = "pt = 3 \<and> (\<exists>r. hb_outgoing_request h = Some r \<and> \<not> response_answers p r)"
  have fp: "finalize_rx_packet (?h\<lparr>hb_rx_payload := bp_data p\<rparr>) =
      (if ?drop then (Ok (), (?h\<lparr>hb_rx_payload := bp_data p\<rparr>)\<lparr>hb_rx_payload := []\<rparr>)
       else (Ok (), (?h\<lparr>hb_rx_payload := bp_data p\<rparr>)\<lparr>hb_outgoing_response :=
           \<lparr>ip_valid = True, ip_response = Some (received_response p)\<rparr>, hb_rx_payload := []\<rparr>))"
    unfolding meta [symmetric] resp [symmetric]
    by (rule finalize_response) (use assms(2,5) in \<open>simp_all add: f\<close>)
  have upd: "(?h\<lparr>hb_rx_payload := bp_data p\<rparr>)\<lparr>hb_outgoing_response := q, hb_rx_payload := []\<rparr> =
      ?h\<lparr>hb_outgoing_response := q\<rparr>" for q using assms(3) by (simp add: with_header_def)
  have "finalize_rx_packet (?h\<lparr>hb_rx_payload := bp_data p\<rparr>) = (Inr (), ?h')"
    unfolding fp pl upd by (rule if_update_response) (rule f(3))
  moreover have "length (bp_data p) =
      expected_payload_len pt (bp_we p) (to_size_code (bp_size p)) (bp_burst_len p)"
    using assms(4,5) by (auto simp: response_ok_def expected_payload_len_def)
  moreover have "can_accept_rx h" using assms(2) by (simp add: can_accept_rx_def)
  moreover have "packet_type_ok pt" using assms(5) by (auto simp: packet_type_ok_def)
  ultimately have "rx_feed h (response_packet pt p) = (Ok (), ?h'\<lparr>hb_rx_state := RxIdle\<rparr>)"
    using assms(1,3,4) burst_bounds [of "bp_burst_len p"] unfolding response_packet_def
    by (intro rx_packet [where u = "()"]) (auto simp: response_ok_def)
  also have "?h'\<lparr>hb_rx_state := RxIdle\<rparr> = ?h'" using assms(1) by (simp add: with_header_def)
  finally show ?thesis .
qed

section \<open>Properties of the framing\<close>

text \<open>
  C7: a request packet is received as the request that was encoded.  An idle handler with no
  request waiting, fed any bytes that cannot start a packet and then the encoding of a
  well-formed request (packet type 0 or 2), accepts every byte, is idle again, and hands the
  request to the next \<open>accept_request\<close>, for every size, address and burst of 1 to 65536 beats;
  the transmit side and the response side are untouched.
\<close>

theorem request_delivered:
  assumes "hb_rx_state h = RxIdle" "\<not> ir_valid (hb_incoming_request h)" "hb_rx_payload h = []"
    and "hb_accepted_request h = None" "request_ok r" "pt = 0 \<or> pt = 2"
    and "\<forall>b \<in> set noise. noise_byte b"
  defines "h1 \<equiv> snd (rx_feed h (noise @ request_packet pt r))"
  shows "fst (rx_feed h (noise @ request_packet pt r)) = Ok () \<and> hb_rx_state h1 = RxIdle \<and>
    hb_rx_payload h1 = [] \<and> hb_outgoing_response h1 = hb_outgoing_response h \<and>
    hb_outgoing_request h1 = hb_outgoing_request h \<and> hb_tx_buffer h1 = hb_tx_buffer h \<and>
    accept_request h1 = (Ok (received_request r),
      h1\<lparr>hb_accepted_request := Some (received_request r), hb_incoming_request := \<lparr>ir_valid = False, ir_request = None\<rparr>\<rparr>)"
proof -
  have "can_accept_rx h" using assms(2) by (simp add: can_accept_rx_def)
  then have "rx_feed h (noise @ request_packet pt r) = rx_feed h (request_packet pt r)"
    using rx_noise [OF assms(7,1)] by (simp add: rx_feed_append)
  also note rx_request_packet [OF assms(1-3,5,6)]
  finally show ?thesis
    using assms(1,3,4) unfolding h1_def by (simp add: with_header_def accept_request_def)
qed

lemma handler_new_idle [simp]:
  "hb_rx_state handler_new = RxIdle" "hb_rx_payload handler_new = []"
  "ir_valid (hb_incoming_request handler_new) = False"
  "ip_valid (hb_outgoing_response handler_new) = False"
  "hb_accepted_request handler_new = None" "hb_outgoing_request handler_new = None"
  "hb_outgoing_request_tx_started handler_new = False" "hb_pending_response handler_new = None"
  "hb_tx_buffer handler_new = []" "hb_tx_index handler_new = 0"
  by (simp_all add: handler_new_def)

lemma request_delivered_witness:
  "let r = request_write 0x1000 0xDEADBEEF Word;
       f = rx_feed handler_new ([0xFF] @ request_packet 0 r)
   in fst f = Ok () \<and> fst (accept_request (snd f)) = Ok (received_request r)"
proof -
  have "request_ok (request_write 0x1000 0xDEADBEEF Word)" "\<forall>b \<in> set [0xFF]. noise_byte b"
    by (simp_all add: request_ok_def request_write_def MAX_BURST_BEATS_def noise_byte_def)
  from request_delivered [of handler_new, OF _ _ _ _ this(1) _ this(2), of 0] show ?thesis
    by (simp add: Let_def del: rx_feed.simps append.simps)
qed

end
