(* ===== verification/Host_Bus_Session.thy ===== *)
theory Host_Bus_Session
  imports Host_Bus_Framing
begin

text \<open>
  Sessions of the host-bus handler: which requests \<open>send_request\<close> accepts and how it classifies
  their address region, a full exchange between two handlers (request out, response back), the
  states a handler can reach under any sequence of calls, and the loop
  \<open>drain_rx_buffer_to_handler\<close> of \<open>device-runtime/src/fpga.rs\<close> that feeds it.
\<close>

section \<open>Regions and the send guard\<close>

text \<open>The bytes a request touches: a fixed address is touched by one beat only.\<close>

definition touched_bytes :: "bus_request \<Rightarrow> nat" where
  "touched_bytes r =
     unat (byte_count (br_size r)) *
       (if (br_we r \<and> br_dst_fixed r) \<or> (\<not> br_we r \<and> br_src_fixed r) then 1
        else unat (br_burst_len r))"

lemma checked_mul_eq:
  "checked_mul a b = (if unat a * unat b < 2 ^ LENGTH('a) then Some (a * b) else None)"
  for a b :: "'a::len word"
  using of_nat_less_iff [of "unat a * unat b" "2 ^ LENGTH('a)", where 'a = int]
  by (simp add: checked_mul_def)

lemma byte_count_bounds: "1 \<le> unat (byte_count sz)" "unat (byte_count sz) \<le> 4"
  by (cases sz; simp)+

lemma request_end_addr_None:
  "request_end_addr r = None \<longleftrightarrow>
     touched_bytes r = 0 \<or> touched_bytes r \<ge> 4294967296 \<or>
     unat (br_addr r) + touched_bytes r > 4294967296" (is "?l \<longleftrightarrow> ?r")
  and request_end_addr_Some:
  "request_end_addr r = Some e \<Longrightarrow>
     touched_bytes r \<noteq> 0 \<and> unat e = unat (br_addr r) + touched_bytes r - 1"
proof -
  define n :: u32 where
    "n = (if (br_we r \<and> br_dst_fixed r) \<or> (\<not> br_we r \<and> br_src_fixed r) then 1 else br_burst_len r)"
  define s :: u32 where "s = ucast (byte_count (br_size r))"
  have t: "touched_bytes r = unat n * unat s"
    by (simp add: touched_bytes_def n_def s_def unat_ucast_up)
  have e: "request_end_addr r =
      (case checked_mul n s of None \<Rightarrow> None
       | Some b \<Rightarrow> (case checked_sub b 1 of None \<Rightarrow> None | Some l \<Rightarrow> checked_add (br_addr r) l))"
    by (simp add: request_end_addr_def Let_def n_def s_def)
  have m: "unat (n * s) = touched_bytes r" if "touched_bytes r < 4294967296"
    using that t by (simp add: unat_mult_nowrap)
  have s: "checked_sub b 1 = (if b = 0 then None else Some (b - 1))" for b :: u32
    using unat_gt_0 [of b] by (auto simp: checked_sub_def word_le_nat_alt)
  have z: "touched_bytes r < 4294967296 \<Longrightarrow> n * s = 0 \<longleftrightarrow> touched_bytes r = 0"
    using m by (simp add: word_unat_eq_iff)
  show "?l \<longleftrightarrow> ?r"
  proof (cases "touched_bytes r < 4294967296")
    case True
    then show ?thesis
      using m z unat_minus1 [of "n * s"] t
      by (auto simp: e checked_mul_eq s checked_add_None_iff)
  next
    case False
    then show ?thesis using t by (auto simp: e checked_mul_eq)
  qed
  show "touched_bytes r \<noteq> 0 \<and> unat e = unat (br_addr r) + touched_bytes r - 1"
    if "request_end_addr r = Some e"
    using that m z unat_minus1 [of "n * s"] t
    by (auto simp: e checked_mul_eq s checked_add_Some_iff split: if_splits)
qed

lemma touched_bytes_zero: "touched_bytes r = 0 \<Longrightarrow> br_burst_len r = 0"
  using byte_count_bounds [of "br_size r"] by (auto simp: touched_bytes_def word_unat_eq_iff split: if_splits)

lemma classify_request_region_eq:
  "classify_request_region r =
     (if touched_bytes r = 0 \<or> touched_bytes r \<ge> 4294967296 \<or>
         unat (br_addr r) + touched_bytes r > 4294967296 then NonRtl
      else if unat (br_addr r) + touched_bytes r \<le> 2147483648 then RtlPeripheral
      else if unat (br_addr r) < 2147483648 then SpansRtlBoundary
      else NonRtl)"
proof (cases "request_end_addr r")
  case None
  then show ?thesis
    using request_end_addr_None [of r] by (auto simp: classify_request_region_def)
next
  case (Some e)
  have "\<not> (touched_bytes r = 0 \<or> touched_bytes r \<ge> 4294967296 \<or>
      unat (br_addr r) + touched_bytes r > 4294967296)"
    using Some request_end_addr_None [of r] by auto
  then show ?thesis
    using Some request_end_addr_Some [OF Some]
    by (simp add: classify_request_region_def split: bool.splits) linarith
qed

text \<open>
  \<open>classify_request_region\<close> decides by the whole range of bytes a request touches: RTL when
  it lies below \<open>0x80000000\<close>, spanning when it crosses that boundary, and otherwise (also for an
  empty burst, a length of the whole address space and a range that leaves it) not RTL.
\<close>

theorem classify_request_region_correct:
  "classify_request_region r =
     (if touched_bytes r = 0 \<or> touched_bytes r \<ge> 4294967296 \<or>
         unat (br_addr r) + touched_bytes r > 4294967296 then NonRtl
      else if unat (br_addr r) + touched_bytes r \<le> 2147483648 then RtlPeripheral
      else if unat (br_addr r) < 2147483648 then SpansRtlBoundary
      else NonRtl)"
  by (rule classify_request_region_eq)

lemma send_request_eq:
  "send_request h r =
     (if hb_outgoing_request h \<noteq> None then (Err RequestPending, h)
      else if \<not> request_ok r then (Err InvalidBurstConfig, h)
      else if unat (br_addr r) + touched_bytes r > 2147483648 then (Err InvalidAddressRange, h)
      else (Ok (), h\<lparr>hb_outgoing_request := Some r\<rparr>))"
proof -
  have "touched_bytes r \<noteq> 0 \<and> touched_bytes r \<le> 4 * 65536" if "request_ok r"
  proof -
    have "unat (br_burst_len r) \<le> 65536" "1 \<le> unat (br_burst_len r)"
      using that burst_bounds by (auto simp: request_ok_def)
    then have "touched_bytes r \<le> 4 * 65536"
      unfolding touched_bytes_def by (intro mult_le_mono byte_count_bounds) auto
    then show ?thesis using touched_bytes_zero [of r] that by (auto simp: request_ok_def)
  qed
  moreover have "send_request h r =
      (if hb_outgoing_request h \<noteq> None then (Err RequestPending, h)
       else if \<not> request_ok r then (Err InvalidBurstConfig, h)
       else if classify_request_region r \<noteq> RtlPeripheral then (Err InvalidAddressRange, h)
       else (Ok (), h\<lparr>hb_outgoing_request := Some r\<rparr>))"
    unfolding send_request_def by (auto simp: request_ok_def not_less)
  ultimately show ?thesis by (auto simp: classify_request_region_eq)
qed

text \<open>
  C9: \<open>send_request\<close> queues a request exactly when no other one is outstanding, its burst is of 1
  to 65536 beats, its payload has one element per written beat and none for a read, and every
  byte it touches lies below \<open>0x80000000\<close>; otherwise the handler is unchanged and the error says
  which check failed, in the order of the code.
\<close>

theorem send_request_correct:
  "send_request h r =
     (if hb_outgoing_request h \<noteq> None then (Err RequestPending, h)
      else if \<not> request_ok r then (Err InvalidBurstConfig, h)
      else if unat (br_addr r) + touched_bytes r > 2147483648 then (Err InvalidAddressRange, h)
      else (Ok (), h\<lparr>hb_outgoing_request := Some r\<rparr>))"
  by (rule send_request_eq)

section \<open>An exchange between two handlers\<close>

text \<open>
  Host \<open>a\<close> sends \<open>r\<close>, its bytes are pulled and fed to \<open>b\<close>, which accepts the request and completes
  it with \<open>p\<close>; the response bytes are pulled from \<open>b\<close> and fed to \<open>a\<close>, which takes the response.
\<close>

definition host_exchange ::
  "host_bus_handler \<Rightarrow> host_bus_handler \<Rightarrow> bus_request \<Rightarrow> bus_response \<Rightarrow>
   (handler_error, bus_request) result \<times> bus_response option \<times> host_bus_handler \<times> host_bus_handler" where
  "host_exchange a b r p =
    (let a1 = snd (send_request a r);
         (out, a2) = tx_drain (8 + length (br_data r)) a1;
         b1 = snd (rx_feed b out);
         (q, b2) = accept_request b1;
         b3 = snd (complete_request b2 p);
         (back, b4) = tx_drain (8 + length (bp_data p)) b3;
         a3 = snd (rx_feed a2 back);
         (v, a4) = receive_response a3
     in (q, v, a4, b4))"

text \<open>A handler with nothing in flight.\<close>

definition quiet :: "host_bus_handler \<Rightarrow> bool" where
  "quiet h \<longleftrightarrow> hb_rx_state h = RxIdle \<and> hb_rx_payload h = [] \<and>
     \<not> ir_valid (hb_incoming_request h) \<and> \<not> ip_valid (hb_outgoing_response h) \<and>
     hb_accepted_request h = None \<and> hb_pending_response h = None \<and>
     hb_outgoing_request h = None \<and> \<not> hb_outgoing_request_tx_started h \<and>
     hb_tx_buffer h = [] \<and> hb_tx_index h = 0"

lemma quiet_new: "quiet handler_new"
  by (simp add: quiet_def)

lemma with_header_quiet [simp]:
  "hb_accepted_request (with_header h pt sz we sf df bl addr) = hb_accepted_request h"
  "hb_pending_response (with_header h pt sz we sf df bl addr) = hb_pending_response h"
  "hb_outgoing_request (with_header h pt sz we sf df bl addr) = hb_outgoing_request h"
  "hb_outgoing_request_tx_started (with_header h pt sz we sf df bl addr) =
    hb_outgoing_request_tx_started h"
  "hb_tx_buffer (with_header h pt sz we sf df bl addr) = hb_tx_buffer h"
  "hb_tx_index (with_header h pt sz we sf df bl addr) = hb_tx_index h"
  "hb_rx_state (with_header h pt sz we sf df bl addr) = hb_rx_state h"
  "hb_rx_payload (with_header h pt sz we sf df bl addr) = hb_rx_payload h"
  "hb_incoming_request (with_header h pt sz we sf df bl addr) = hb_incoming_request h"
  "hb_outgoing_response (with_header h pt sz we sf df bl addr) = hb_outgoing_response h"
  by (simp_all add: with_header_def)

text \<open>What leaves a handler that has just queued a request, or completed one.\<close>

lemma request_bytes:
  assumes "hb_tx_buffer h = []" "hb_tx_index h = 0" "hb_pending_response h = None"
    and "hb_outgoing_request h = Some r" "\<not> hb_outgoing_request_tx_started h"
  shows "tx_drain (8 + length (br_data r)) h =
    (request_packet 0x02 r, h\<lparr>hb_outgoing_request_tx_started := True, hb_tx_buffer := []\<rparr>)"
proof -
  let ?h = "h\<lparr>hb_tx_buffer := request_packet 0x02 r, hb_outgoing_request_tx_started := True\<rparr>"
  have "start_tx_packet h = Some ?h"
    using assms(3-5) by (simp add: start_tx_packet_def request_packet_def split: option.split)
  moreover have l: "length (request_packet 0x02 r) = 8 + length (br_data r)"
    by (simp add: request_packet_def encode_packet_length)
  then have "request_packet 0x02 r \<noteq> []" by auto
  ultimately have "tx_drain (length (request_packet 0x02 r)) h =
      (request_packet 0x02 r, ?h\<lparr>hb_tx_buffer := []\<rparr>)"
    using assms(1,2) by (intro tx_packet_drain) simp_all
  then show ?thesis by (simp add: l)
qed

lemma response_bytes:
  assumes "hb_tx_buffer h = []" "hb_tx_index h = 0" "hb_pending_response h = Some p"
    and "hb_accepted_request h = Some r"
  shows "tx_drain (8 + length (bp_data p)) h =
    (response_packet 0x01 p,
      h\<lparr>hb_pending_response := None, hb_accepted_request := None, hb_tx_buffer := []\<rparr>)"
proof -
  let ?h = "h\<lparr>hb_pending_response := None, hb_tx_buffer := response_packet 0x01 p, hb_accepted_request := None\<rparr>"
  have "start_tx_packet h = Some ?h"
    using assms(3,4) by (simp add: start_tx_packet_def response_packet_def)
  moreover have l: "length (response_packet 0x01 p) = 8 + length (bp_data p)"
    by (simp add: response_packet_def encode_packet_length)
  then have "response_packet 0x01 p \<noteq> []" by auto
  ultimately have "tx_drain (length (response_packet 0x01 p)) h =
      (response_packet 0x01 p, ?h\<lparr>hb_tx_buffer := []\<rparr>)"
    using assms(1,2) by (intro tx_packet_drain) simp_all
  then show ?thesis by (simp add: l)
qed

lemma complete_request_ok:
  assumes "hb_accepted_request h = Some r" "response_answers p r"
    and "length (bp_data p) =
      (if br_we r then 0 else unat (byte_count (br_size r)) * unat (br_burst_len r))"
  shows "complete_request h p = (Ok (), h\<lparr>hb_pending_response := Some p\<rparr>)"
proof -
  have "p\<lparr>bp_addr := br_addr r, bp_burst_len := br_burst_len r, bp_src_fixed := br_src_fixed r,
      bp_dst_fixed := br_dst_fixed r\<rparr> = p"
    using assms(2) by (simp add: response_answers_def)
  then show ?thesis
    using assms by (simp add: complete_request_def Let_def response_answers_def)
qed

lemma response_answers_received: "response_answers p (received_request r) = response_answers p r"
  by (simp add: response_answers_def received_request_def)

text \<open>
  C6: between two quiet handlers every exchange goes through: for any request that
  \<open>send_request\<close> takes and any response that answers it with the right number of bytes, the
  other side accepts exactly that request (with \<open>wdata\<close> recomputed from the payload), the host
  receives exactly that response, and both handlers are quiet again, so exchanges can follow
  one another without end.
\<close>

theorem host_exchange_correct:
  assumes "quiet a" "quiet b" "request_ok r" "unat (br_addr r) + touched_bytes r \<le> 2147483648"
    and "response_answers p r" "response_ok p"
  shows "case host_exchange a b r p of (q, v, a', b') \<Rightarrow>
    q = Ok (received_request r) \<and> v = Some (received_response p) \<and> quiet a' \<and> quiet b'"
proof -
  note q = assms(1,2) [unfolded quiet_def]
  let ?a1 = "a\<lparr>hb_outgoing_request := Some r\<rparr>"
  let ?a2 = "?a1\<lparr>hb_outgoing_request_tx_started := True, hb_tx_buffer := []\<rparr>"
  let ?hd = "\<lambda>h. with_header h 2 (br_size r) (br_we r) (br_src_fixed r) (br_dst_fixed r)
    (br_burst_len r) (br_addr r)"
  let ?b1 = "(?hd b)\<lparr>hb_incoming_request := \<lparr>ir_valid = True, ir_request = Some (received_request r)\<rparr>\<rparr>"
  let ?b2 = "?b1\<lparr>hb_accepted_request := Some (received_request r),
    hb_incoming_request := \<lparr>ir_valid = False, ir_request = None\<rparr>\<rparr>"
  let ?b3 = "?b2\<lparr>hb_pending_response := Some p\<rparr>"
  let ?b4 = "?b3\<lparr>hb_pending_response := None, hb_accepted_request := None, hb_tx_buffer := []\<rparr>"
  let ?a3 = "(with_header ?a2 1 (bp_size p) (bp_we p) (bp_src_fixed p) (bp_dst_fixed p)
      (bp_burst_len p) (bp_addr p))
    \<lparr>hb_outgoing_response := \<lparr>ip_valid = True, ip_response = Some (received_response p)\<rparr>\<rparr>"
  have 1: "send_request a r = (Ok (), ?a1)"
    using q(1) assms(3,4) by (simp add: send_request_eq)
  have 2: "tx_drain (8 + length (br_data r)) ?a1 = (request_packet 2 r, ?a2)"
    by (rule request_bytes) (use q(1) in simp_all)
  have 3: "rx_feed b (request_packet 2 r) = (Ok (), ?b1)"
    by (rule rx_request_packet) (use q(2) assms(3) in simp_all)
  have 4: "accept_request ?b1 = (Ok (received_request r), ?b2)"
    using q(2) by (simp add: accept_request_def)
  have 5: "complete_request ?b2 p = (Ok (), ?b3)"
  proof (rule complete_request_ok)
    show "response_answers p (received_request r)" by (simp add: response_answers_received assms(5))
    show "length (bp_data p) = (if br_we (received_request r) then 0 else
        unat (byte_count (br_size (received_request r))) * unat (br_burst_len (received_request r)))"
      using assms(5,6) by (simp add: response_answers_def response_ok_def received_request_def)
  qed simp
  have 6: "tx_drain (8 + length (bp_data p)) ?b3 = (response_packet 1 p, ?b4)"
    by (rule response_bytes) (use q(2) in simp_all)
  have 7: "rx_feed ?a2 (response_packet 1 p) = (Ok (), ?a3)"
    using rx_response_packet [of ?a2 p 1] q(1) assms(6) by simp
  have 8: "receive_response ?a3 = (Some (received_response p),
      ?a3\<lparr>hb_outgoing_request := None, hb_outgoing_request_tx_started := False,
        hb_outgoing_response := \<lparr>ip_valid = False, ip_response = None\<rparr>\<rparr>)"
    by (simp add: receive_response_def)
  show ?thesis
    unfolding host_exchange_def Let_def
    by (simp only: 1 2 3 4 5 6 7 8 snd_conv prod.case)
      (use q in \<open>simp add: quiet_def\<close>)
qed

lemma host_exchange_witness:
  "case host_exchange handler_new handler_new (request_write 0x1000 7 Word)
      ((response_write_ack Word)\<lparr>bp_addr := 0x1000\<rparr>) of
    (q, v, a', b') \<Rightarrow> q = Ok (received_request (request_write 0x1000 7 Word)) \<and>
      v = Some (received_response ((response_write_ack Word)\<lparr>bp_addr := 0x1000\<rparr>)) \<and>
      quiet a' \<and> quiet b'"
  by (rule host_exchange_correct)
    (simp_all add: quiet_new request_ok_def request_write_def response_write_ack_def
      MAX_BURST_BEATS_def touched_bytes_def response_answers_def response_ok_def)

text \<open>
  An idle handler fed a response packet takes it as its response; a tagged response (packet
  type 3) that does not answer the outstanding request is dropped instead, and nothing else of
  the handler that a caller can see changes.
\<close>

theorem response_delivered:
  assumes "quiet (h\<lparr>hb_outgoing_request := None, hb_outgoing_request_tx_started := False\<rparr>)"
    and "hb_outgoing_request h = Some r" "response_ok p" "pt = 1 \<or> pt = 3"
  shows "fst (receive_response (snd (rx_feed h (response_packet pt p)))) =
      (if pt = 3 \<and> \<not> response_answers p r then None else Some (received_response p)) \<and>
    has_pending_outgoing_request (snd (receive_response (snd (rx_feed h (response_packet pt p))))) =
      (pt = 3 \<and> \<not> response_answers p r)"
proof -
  have q: "hb_rx_state h = RxIdle" "\<not> ip_valid (hb_outgoing_response h)" "hb_rx_payload h = []"
    using assms(1) by (simp_all add: quiet_def)
  show ?thesis
    using rx_response_packet [OF q assms(3,4)] assms(2) q(2)
    by (simp add: receive_response_def has_pending_outgoing_request_def)
qed

lemma response_delivered_witness:
  "let r = request_read 0x1000 Word; h = handler_new\<lparr>hb_outgoing_request := Some r\<rparr>;
       p = (response_read_data 5 Word)\<lparr>bp_addr := 0x2000\<rparr>
   in fst (receive_response (snd (rx_feed h (response_packet 3 p)))) = None"
proof -
  let ?h = "handler_new\<lparr>hb_outgoing_request := Some (request_read 0x1000 Word)\<rparr>"
  let ?p = "(response_read_data 5 Word)\<lparr>bp_addr := 0x2000\<rparr>"
  have "\<not> response_answers ?p (request_read 0x1000 Word)" "response_ok ?p"
    by (simp_all add: response_answers_def request_read_def response_read_data_def response_ok_def
      MAX_BURST_BEATS_def)
  with response_delivered [of ?h "request_read 0x1000 Word" ?p 3] show ?thesis
    by (simp add: quiet_def Let_def)
qed

section \<open>The feeding loop\<close>

text \<open>
  \<open>drain_rx_buffer_to_handler\<close> (\<open>fpga.rs\<close>): the receive buffer is fed until the handler cannot
  accept a byte or rejects one; the rejected byte stays in the buffer.
\<close>

fun drain_rx_buffer :: "host_bus_handler \<Rightarrow> u8 list \<Rightarrow> host_bus_handler \<times> u8 list" where
  "drain_rx_buffer h [] = (h, [])"
| "drain_rx_buffer h (b # bs) =
     (if \<not> can_accept_rx h then (h, b # bs)
      else case transfer_rx_byte h b of
        (Inl e, h') \<Rightarrow> (h', b # bs)
      | (Inr u, h') \<Rightarrow> drain_rx_buffer h' bs)"

text \<open>
  C10: when the last payload byte of a write request arrives while an earlier request still waits
  to be accepted, the handler reports \<open>BufferFull\<close> but has already stored the byte; the loop keeps
  the byte in its buffer and feeds it again after \<open>accept_request\<close>, so the request is delivered
  with its last payload byte doubled: one byte more than its beats.
\<close>

theorem rx_retry_duplicates_byte:
  assumes "hb_rx_state h = RxPayload 1" "hb_rx_packet_type h = 0 \<or> hb_rx_packet_type h = 2"
    and "hb_incoming_request h = \<lparr>ir_valid = True, ir_request = Some waiting\<rparr>"
    and "hb_accepted_request h = None"
  shows "case drain_rx_buffer h (b # bs) of (h1, rest) \<Rightarrow>
    rest = b # bs \<and>
    (case accept_request h1 of (q, h2) \<Rightarrow> q = Ok waiting \<and>
      (case drain_rx_buffer h2 [b] of (h3, rest3) \<Rightarrow> rest3 = [] \<and>
        map_option br_data (ir_request (hb_incoming_request h3)) =
          Some (hb_rx_payload h @ [b, b])))"
proof -
  let ?h1 = "h\<lparr>hb_rx_payload := hb_rx_payload h @ [b]\<rparr>"
  have "drain_rx_buffer h (b # bs) = (?h1, b # bs)"
    using assms by (auto simp: transfer_rx_byte_def can_accept_rx_def finish_packet_def
      finalize_rx_packet_def Let_def)
  moreover have "accept_request ?h1 = (Ok waiting, ?h1\<lparr>hb_accepted_request := Some waiting,
      hb_incoming_request := \<lparr>ir_valid = False, ir_request = None\<rparr>\<rparr>)" (is "_ = (_, ?h2)")
    using assms by (simp add: accept_request_def)
  moreover have "\<exists>h3. drain_rx_buffer ?h2 [b] = (h3, []) \<and>
      map_option br_data (ir_request (hb_incoming_request h3)) = Some (hb_rx_payload h @ [b, b])"
    using assms(1,2) by (auto simp: transfer_rx_byte_def can_accept_rx_def finish_packet_def
      finalize_rx_packet_def Let_def rx_request_def)
  ultimately show ?thesis by (auto simp del: drain_rx_buffer.simps)
qed

lemma rx_retry_duplicates_byte_witness:
  "let w = request_read 0x1000 Word;
       h = handler_new\<lparr>hb_rx_state := RxPayload 1, hb_rx_temp_we := True,
         hb_incoming_request := \<lparr>ir_valid = True, ir_request = Some w\<rparr>\<rparr>
   in case drain_rx_buffer h [9] of (h1, rest) \<Rightarrow> rest = [9] \<and>
     (case accept_request h1 of (q, h2) \<Rightarrow> q = Ok w \<and>
       (case drain_rx_buffer h2 [9] of (h3, rest3) \<Rightarrow> rest3 = [] \<and>
         map_option br_data (ir_request (hb_incoming_request h3)) = Some [9, 9]))"
  using rx_retry_duplicates_byte [of "handler_new\<lparr>hb_rx_state := RxPayload 1, hb_rx_temp_we := True,
      hb_incoming_request := \<lparr>ir_valid = True, ir_request = Some (request_read 0x1000 Word)\<rparr>\<rparr>"
      "request_read 0x1000 Word" 9 "[]"]
  by (simp add: Let_def handler_new_def split_beta del: drain_rx_buffer.simps)

section \<open>Reachable handlers\<close>

inductive handler_reachable :: "host_bus_handler \<Rightarrow> bool" where
  reach_new: "handler_reachable handler_new"
| reach_reset: "handler_reachable h \<Longrightarrow> handler_reachable (handler_reset h)"
| reach_rx: "handler_reachable h \<Longrightarrow> handler_reachable (snd (transfer_rx_byte h b))"
| reach_tx: "handler_reachable h \<Longrightarrow> handler_reachable (snd (transfer_tx_byte h))"
| reach_send: "handler_reachable h \<Longrightarrow> handler_reachable (snd (send_request h r))"
| reach_receive: "handler_reachable h \<Longrightarrow> handler_reachable (snd (receive_response h))"
| reach_accept: "handler_reachable h \<Longrightarrow> handler_reachable (snd (accept_request h))"
| reach_complete: "handler_reachable h \<Longrightarrow> handler_reachable (snd (complete_request h p))"

text \<open>
  The receive registers: the shift of an address byte stays below the width, the payload
  countdown stays positive (\<open>remaining - 1\<close> never underflows), the codes are valid.
\<close>

definition rx_inv :: "host_bus_handler \<Rightarrow> bool" where
  "rx_inv h \<longleftrightarrow> unat (hb_rx_packet_type h) \<le> 3 \<and> unat (hb_rx_temp_size h) \<le> 2 \<and>
     (case hb_rx_state h of
        RxAddr i \<Rightarrow> unat i \<le> 3 \<and> hb_rx_temp_burst_len h \<noteq> 0
      | RxPayload n \<Rightarrow> 0 < n
      | _ \<Rightarrow> True) \<and>
     ((\<forall>n. hb_rx_state h \<noteq> RxPayload n) \<longrightarrow> hb_rx_payload h = [])"

definition slots_inv :: "host_bus_handler \<Rightarrow> bool" where
  "slots_inv h \<longleftrightarrow>
     (ir_valid (hb_incoming_request h) \<longleftrightarrow> ir_request (hb_incoming_request h) \<noteq> None) \<and>
     (ip_valid (hb_outgoing_response h) \<longleftrightarrow> ip_response (hb_outgoing_response h) \<noteq> None) \<and>
     (hb_pending_response h \<noteq> None \<longrightarrow> hb_accepted_request h \<noteq> None) \<and>
     (hb_outgoing_request_tx_started h \<longrightarrow> hb_outgoing_request h \<noteq> None) \<and>
     (\<forall>r. hb_outgoing_request h = Some r \<longrightarrow>
        request_ok r \<and> unat (br_addr r) + touched_bytes r \<le> 2147483648) \<and>
     (hb_tx_buffer h = [] \<and> hb_tx_index h = 0 \<or> hb_tx_index h < length (hb_tx_buffer h))"

lemma u8_type_bound: "\<not> (t :: u8) > 3 \<Longrightarrow> unat t \<le> 3"
  by (simp add: word_less_nat_alt)

lemma u8_size_bound:
  assumes "take_bit 2 x \<noteq> (3 :: u8)" shows "unat (take_bit 2 x) \<le> 2"
proof -
  have "unat t \<noteq> 3" if "t \<noteq> (3 :: u8)" for t using that by (simp add: word_unat_eq_iff)
  with assms have "unat (take_bit 2 x) \<noteq> 3" by blast
  moreover have "unat (take_bit 2 x) < 2 ^ 2" by (rule unat_take_bit_less)
  then have "unat (take_bit 2 x) < 4" unfolding power2_eq_square by linarith
  ultimately show ?thesis by linarith
qed

lemma finalize_rx_inv:
  assumes "finalize_rx_packet h = (q, h')"
  shows "hb_rx_packet_type h' = hb_rx_packet_type h \<and> hb_rx_temp_size h' = hb_rx_temp_size h \<and>
    hb_rx_state h' = hb_rx_state h \<and> hb_rx_temp_burst_len h' = hb_rx_temp_burst_len h \<and>
    (h' = h \<and> q = Err BufferFull \<or> hb_rx_payload h' = [] \<and> q = Ok ())"
proof -
  have "h' = snd (finalize_rx_packet h)" "q = fst (finalize_rx_packet h)" using assms by simp_all
  then show ?thesis
    by (simp only:) (simp add: finalize_rx_packet_def Let_def)
qed

lemma finalize_slots_inv: "slots_inv h \<Longrightarrow> slots_inv (snd (finalize_rx_packet h))"
  unfolding slots_inv_def finalize_rx_packet_def Let_def by simp

lemma finish_packet_rx_inv:
  assumes "unat (hb_rx_packet_type h) \<le> 3" "unat (hb_rx_temp_size h) \<le> 2"
    and "hb_rx_state h = RxAddr 3 \<and> hb_rx_temp_burst_len h \<noteq> 0 \<and> hb_rx_payload h = [] \<or>
      hb_rx_state h = RxPayload 1"
  shows "rx_inv (snd (finish_packet h))"
proof (cases "finalize_rx_packet h")
  case (Pair q h')
  from finalize_rx_inv [OF this] assms Pair show ?thesis
    by (auto simp: finish_packet_def rx_inv_def split: sum.splits)
qed

lemma finish_packet_slots_inv: "slots_inv h \<Longrightarrow> slots_inv (snd (finish_packet h))"
  using finalize_slots_inv [of h]
  by (cases "finalize_rx_packet h"; cases "fst (finalize_rx_packet h)")
    (simp_all add: finish_packet_def slots_inv_def)

lemma rx_rx_inv: "rx_inv h \<Longrightarrow> rx_inv (snd (transfer_rx_byte h b))"
proof (cases "hb_rx_state h")
  case RxIdle
  assume "rx_inv h"
  then show ?thesis
    using RxIdle u8_type_bound [of "drop_bit 4 b AND 0xF"] u8_size_bound [of "drop_bit 2 b"]
    by (auto simp: transfer_rx_byte_def Let_def rx_inv_def field_simps_bits)
next
  case (RxAddr i)
  assume inv: "rx_inv h"
  show ?thesis
  proof (cases "i = 3")
    case True
    with RxAddr inv show ?thesis
      using finish_packet_rx_inv [of "h\<lparr>hb_rx_addr_accumulator := v\<rparr>" for v]
      by (auto simp: transfer_rx_byte_def Let_def rx_inv_def can_accept_rx_def)
  next
    case False
    with RxAddr inv have "unat i < 3" by (simp add: rx_inv_def word_unat_eq_iff)
    then have "unat (i + 1) \<le> 3" by (simp add: unat_plus_nowrap)
    with RxAddr inv False show ?thesis
      by (auto simp: transfer_rx_byte_def Let_def rx_inv_def can_accept_rx_def)
  qed
next
  case (RxPayload n)
  assume "rx_inv h"
  with RxPayload show ?thesis
    using finish_packet_rx_inv [of "h\<lparr>hb_rx_payload := v\<rparr>" for v]
    by (auto simp: transfer_rx_byte_def Let_def rx_inv_def can_accept_rx_def)
qed (auto simp: transfer_rx_byte_def Let_def rx_inv_def can_accept_rx_def)

text \<open>\<open>slots_inv\<close> reads no receive register.\<close>

lemma slots_inv_rx_registers:
  "slots_inv (h\<lparr>hb_rx_state := st\<rparr>) = slots_inv h"
  "slots_inv (h\<lparr>hb_rx_payload := ps\<rparr>) = slots_inv h"
  "slots_inv (h\<lparr>hb_rx_packet_type := t\<rparr>) = slots_inv h"
  "slots_inv (h\<lparr>hb_rx_temp_we := we\<rparr>) = slots_inv h"
  "slots_inv (h\<lparr>hb_rx_temp_size := sz\<rparr>) = slots_inv h"
  "slots_inv (h\<lparr>hb_rx_temp_src_fixed := sf\<rparr>) = slots_inv h"
  "slots_inv (h\<lparr>hb_rx_temp_dst_fixed := df\<rparr>) = slots_inv h"
  "slots_inv (h\<lparr>hb_rx_temp_burst_len := bl\<rparr>) = slots_inv h"
  "slots_inv (h\<lparr>hb_rx_addr_accumulator := a\<rparr>) = slots_inv h"
  by (simp_all add: slots_inv_def)

lemma rx_slots_inv: "slots_inv h \<Longrightarrow> slots_inv (snd (transfer_rx_byte h b))"
  by (cases "hb_rx_state h")
    (simp_all add: transfer_rx_byte_def Let_def slots_inv_rx_registers finish_packet_slots_inv)

lemma encode_packet_nonempty [simp]: "encode_packet pt sz we sf df bl addr ps \<noteq> []"
  by (simp add: encode_packet_def Let_def)

lemma start_tx_slots:
  assumes "slots_inv h" "start_tx_packet h = Some h'"
  shows "slots_inv (h'\<lparr>hb_tx_buffer := [], hb_tx_index := 0\<rparr>) \<and> hb_tx_buffer h' \<noteq> [] \<and>
    hb_tx_index h' = hb_tx_index h"
proof (cases "hb_accepted_request h = None \<or> hb_pending_response h = None")
  case True
  then obtain r where "hb_outgoing_request h = Some r" "h' = h\<lparr>hb_tx_buffer := encode_packet 0x02 (br_size r)
      (br_we r) (br_src_fixed r) (br_dst_fixed r) (br_burst_len r) (br_addr r) (br_data r),
      hb_outgoing_request_tx_started := True\<rparr>"
    using assms(2) by (auto simp: start_tx_packet_def split: option.splits if_splits)
  then show ?thesis using assms(1) by (simp add: slots_inv_def)
next
  case False
  then show ?thesis using assms by (auto simp: start_tx_packet_def slots_inv_def)
qed

lemma take_tx_slots:
  assumes "slots_inv (h\<lparr>hb_tx_buffer := [], hb_tx_index := 0\<rparr>)"
    and "hb_tx_index h < length (hb_tx_buffer h)"
  shows "slots_inv (snd (take_tx_byte h)) \<and> fst (take_tx_byte h) = Some (hb_tx_buffer h ! hb_tx_index h)"
  using assms unfolding take_tx_byte_def Let_def slots_inv_def by simp

lemma slots_inv_clear_tx: "slots_inv h \<Longrightarrow> slots_inv (h\<lparr>hb_tx_buffer := [], hb_tx_index := 0\<rparr>)"
  unfolding slots_inv_def by simp

lemma tx_slots_inv:
  assumes "slots_inv h" shows "slots_inv (snd (transfer_tx_byte h))"
proof (cases "hb_tx_index h \<ge> length (hb_tx_buffer h)")
  case True
  let ?h = "h\<lparr>hb_tx_buffer := [], hb_tx_index := 0\<rparr>"
  have h: "slots_inv ?h" by (rule slots_inv_clear_tx [OF assms])
  show ?thesis
  proof (cases "start_tx_packet ?h")
    case None
    with True h show ?thesis by (simp add: transfer_tx_byte_def Let_def)
  next
    case (Some h')
    from start_tx_slots [OF h this] have "slots_inv (snd (take_tx_byte h'))"
      by (intro take_tx_slots [THEN conjunct1]) auto
    with True Some show ?thesis by (simp add: transfer_tx_byte_def Let_def)
  qed
next
  case False
  then show ?thesis
    using take_tx_slots [of h] slots_inv_clear_tx [OF assms] by (simp add: transfer_tx_byte_def)
qed

lemma call_slots_inv:
  assumes "slots_inv h"
  shows "slots_inv (snd (send_request h r))" "slots_inv (snd (receive_response h))"
    "slots_inv (snd (accept_request h))" "slots_inv (snd (complete_request h p))"
proof -
  show "slots_inv (snd (send_request h r))"
    using assms unfolding send_request_eq by (auto simp: slots_inv_def not_less)
  show "slots_inv (snd (receive_response h))"
    using assms unfolding receive_response_def by (auto simp: slots_inv_def)
  show "slots_inv (snd (accept_request h))"
    using assms unfolding accept_request_def by (auto simp: slots_inv_def split: option.split)
  show "slots_inv (snd (complete_request h p))"
    using assms unfolding complete_request_def Let_def by (auto simp: slots_inv_def split: option.split)
qed

lemma call_rx_inv:
  assumes "rx_inv h"
  shows "rx_inv (snd (transfer_tx_byte h))" "rx_inv (snd (send_request h r))"
    "rx_inv (snd (receive_response h))" "rx_inv (snd (accept_request h))"
    "rx_inv (snd (complete_request h p))"
proof -
  have same: "rx_inv h'" if "hb_rx_packet_type h' = hb_rx_packet_type h"
    "hb_rx_temp_size h' = hb_rx_temp_size h" "hb_rx_state h' = hb_rx_state h"
    "hb_rx_temp_burst_len h' = hb_rx_temp_burst_len h" "hb_rx_payload h' = hb_rx_payload h" for h'
    using assms that by (simp add: rx_inv_def cong: rx_state.case_cong)
  show "rx_inv (snd (transfer_tx_byte h))"
    by (rule same; simp add: transfer_tx_byte_def Let_def start_tx_packet_def take_tx_byte_def
      split: option.split)
  show "rx_inv (snd (send_request h r))" by (rule same; simp add: send_request_def)
  show "rx_inv (snd (receive_response h))" by (rule same; simp add: receive_response_def)
  show "rx_inv (snd (accept_request h))"
    by (rule same; simp add: accept_request_def split: option.split)
  show "rx_inv (snd (complete_request h p))"
    by (rule same; simp add: complete_request_def Let_def split: option.split)
qed

lemma handler_reachable_inv: "handler_reachable h \<Longrightarrow> rx_inv h \<and> slots_inv h"
proof (induction rule: handler_reachable.induct)
  case reach_new
  show ?case by (simp add: rx_inv_def slots_inv_def) (simp add: handler_new_def)
next
  case (reach_reset h)
  show ?case by (simp add: handler_reset_def rx_inv_def slots_inv_def) (simp add: handler_new_def)
qed (simp_all add: rx_rx_inv rx_slots_inv tx_slots_inv call_slots_inv call_rx_inv)

lemma start_tx_None_iff:
  "start_tx_packet h = None \<longleftrightarrow>
    (hb_accepted_request h = None \<or> hb_pending_response h = None) \<and>
    (hb_outgoing_request h = None \<or> hb_outgoing_request_tx_started h)"
  by (cases "hb_accepted_request h"; cases "hb_pending_response h"; cases "hb_outgoing_request h")
    (simp_all add: start_tx_packet_def)

lemma start_tx_buffer:
  "start_tx_packet h = Some h' \<Longrightarrow> hb_tx_buffer h' \<noteq> [] \<and> hb_tx_index h' = hb_tx_index h"
  by (auto simp: start_tx_packet_def split: option.splits if_splits)

lemma take_tx_Some:
  "hb_tx_index h < length (hb_tx_buffer h) \<Longrightarrow> fst (take_tx_byte h) \<noteq> None"
  by (simp add: take_tx_byte_def Let_def)

lemma has_tx_data_iff: "has_tx_data h \<longleftrightarrow> fst (transfer_tx_byte h) \<noteq> None"
proof (cases "hb_tx_index h < length (hb_tx_buffer h)")
  case True
  then show ?thesis using take_tx_Some [of h] by (simp add: has_tx_data_def transfer_tx_byte_def)
next
  case False
  let ?h = "h\<lparr>hb_tx_buffer := [], hb_tx_index := 0\<rparr>"
  have "has_tx_data h \<longleftrightarrow> start_tx_packet ?h \<noteq> None"
    using False by (auto simp: has_tx_data_def start_tx_None_iff)
  moreover have "fst (take_tx_byte h') \<noteq> None" if "start_tx_packet ?h = Some h'" for h'
    using start_tx_buffer [OF that] by (intro take_tx_Some) simp
  ultimately show ?thesis
    using False by (cases "start_tx_packet ?h") (simp_all add: transfer_tx_byte_def Let_def)
qed

text \<open>
  C8: in every state that a handler can reach by any sequence of calls, no step of the receive
  machine can overflow (an address byte is shifted by at most 24 bits, the payload countdown is
  positive when it is decremented), no payload is kept outside the payload phase, a queued
  outgoing request is well formed and addresses RTL only, a response waits only for an accepted
  request, and \<open>has_tx_data\<close> is true exactly when \<open>transfer_tx_byte\<close> has a byte to give.
\<close>

theorem handler_reachable_safe:
  assumes "handler_reachable h"
  shows "(\<forall>i. hb_rx_state h = RxAddr i \<longrightarrow> unat (i * 8) \<le> 24) \<and>
    (\<forall>n. hb_rx_state h = RxPayload n \<longrightarrow> 0 < n) \<and>
    ((\<forall>n. hb_rx_state h \<noteq> RxPayload n) \<longrightarrow> hb_rx_payload h = []) \<and>
    (\<forall>r. hb_outgoing_request h = Some r \<longrightarrow>
      request_ok r \<and> classify_request_region r = RtlPeripheral) \<and>
    (hb_pending_response h \<noteq> None \<longrightarrow> hb_accepted_request h \<noteq> None) \<and>
    (has_tx_data h \<longleftrightarrow> fst (transfer_tx_byte h) \<noteq> None)"
proof -
  note inv = handler_reachable_inv [OF assms]
  have shift: "unat (i * 8) \<le> 24" if "unat i \<le> 3" for i :: u8
    using that by (simp add: unat_mult_nowrap)
  have rtl: "classify_request_region r = RtlPeripheral"
    if "request_ok r" "unat (br_addr r) + touched_bytes r \<le> 2147483648" for r
  proof -
    have "fst (send_request handler_new r) = Ok ()"
      using that by (simp add: send_request_eq)
    then show ?thesis by (simp add: send_request_def split: if_splits)
  qed
  have tx: "has_tx_data h \<longleftrightarrow> fst (transfer_tx_byte h) \<noteq> None" by (rule has_tx_data_iff)
  show ?thesis
  proof (intro conjI)
    show "\<forall>i. hb_rx_state h = RxAddr i \<longrightarrow> unat (i * 8) \<le> 24"
      using inv shift by (auto simp: rx_inv_def)
    show "\<forall>n. hb_rx_state h = RxPayload n \<longrightarrow> 0 < n"
      using inv by (auto simp: rx_inv_def)
    show "(\<forall>n. hb_rx_state h \<noteq> RxPayload n) \<longrightarrow> hb_rx_payload h = []"
      using inv by (simp add: rx_inv_def)
    show "\<forall>r. hb_outgoing_request h = Some r \<longrightarrow>
        request_ok r \<and> classify_request_region r = RtlPeripheral"
      using inv rtl unfolding slots_inv_def by blast
    show "hb_pending_response h \<noteq> None \<longrightarrow> hb_accepted_request h \<noteq> None"
      using inv unfolding slots_inv_def by blast
  qed (rule tx)
qed

lemma handler_reachable_safe_witness:
  "has_tx_data (snd (send_request handler_new (request_read 0x1000 Word))) \<longleftrightarrow>
    fst (transfer_tx_byte (snd (send_request handler_new (request_read 0x1000 Word)))) \<noteq> None"
  using handler_reachable_safe [OF reach_send [OF reach_new]] by blast

end
