(* ===== verification/Insn_Encode.thy ===== *)
theory Insn_Encode
  imports Hw_Prelude
begin

text \<open>
  The instruction encoders of \<open>riscv_core/src/instruction.rs\<close>, one definition per function: the
  five base formats, RV32I, Zicsr, M, the compressed encoders, A and F.  \<open>u32\<close> and \<open>i32\<close>
  arguments are the same words (\<open>imm as u32\<close> keeps the bits); \<open>insn |= e\<close> accumulates as one
  disjunction in the order of the code.  The compressed encoders that \<open>assert!\<close> return \<^term>\<open>None\<close>
  where they panic.  The right shifts of \<open>i32\<close> values in the code are of \<open>imm & 0x3F\<close>, which is
  not negative, so \<^term>\<open>drop_bit\<close> is exact.  Function names that clash with HOL get the suffix
  \<open>_insn\<close>.
\<close>

section \<open>Formats and encoders\<close>

named_theorems encoders \<open>definitions of the encoders that only fix fields of a format\<close>

definition encode_i_type :: "u32 \<Rightarrow> u32 \<Rightarrow> u32 \<Rightarrow> u32 \<Rightarrow> i32 \<Rightarrow> u32" where
  "encode_i_type opcode rd funct3 rs1 imm =
    (let imm_u = imm AND 0xfff
     in push_bit 20 imm_u OR push_bit 15 rs1 OR push_bit 12 funct3 OR push_bit 7 rd OR opcode)"

definition encode_r_type :: "u32 \<Rightarrow> u32 \<Rightarrow> u32 \<Rightarrow> u32 \<Rightarrow> u32 \<Rightarrow> u32 \<Rightarrow> u32" where
  "encode_r_type opcode rd funct3 rs1 rs2 funct7 =
    push_bit 25 funct7 OR
       push_bit 20 rs2 OR
       push_bit 15 rs1 OR
       push_bit 12 funct3 OR
       push_bit 7 rd OR
       opcode"

definition encode_u_type :: "u32 \<Rightarrow> u32 \<Rightarrow> u32 \<Rightarrow> u32" where
  "encode_u_type opcode rd imm =
    imm AND 0xfffff000 OR push_bit 7 rd OR opcode"

definition encode_b_type :: "u32 \<Rightarrow> u32 \<Rightarrow> u32 \<Rightarrow> u32 \<Rightarrow> i32 \<Rightarrow> u32" where
  "encode_b_type opcode funct3 rs1 rs2 imm =
    (let imm_u = imm;
         imm_12 = drop_bit 12 imm_u AND 1;
         imm_10_5 = drop_bit 5 imm_u AND 0x3f;
         imm_4_1 = drop_bit 1 imm_u AND 0xf;
         imm_11 = drop_bit 11 imm_u AND 1
     in push_bit 31 imm_12 OR
       push_bit 25 imm_10_5 OR
       push_bit 20 rs2 OR
       push_bit 15 rs1 OR
       push_bit 12 funct3 OR
       push_bit 8 imm_4_1 OR
       push_bit 7 imm_11 OR
       opcode)"

definition encode_s_type :: "u32 \<Rightarrow> u32 \<Rightarrow> u32 \<Rightarrow> u32 \<Rightarrow> i32 \<Rightarrow> u32" where
  "encode_s_type opcode funct3 rs1 rs2 imm =
    (let imm_u = imm AND 0xfff;
         imm_11_5 = drop_bit 5 imm_u AND 0x7f;
         imm_4_0 = imm_u AND 0x1f
     in push_bit 25 imm_11_5 OR
       push_bit 20 rs2 OR
       push_bit 15 rs1 OR
       push_bit 12 funct3 OR
       push_bit 7 imm_4_0 OR
       opcode)"

definition addi :: "u32 \<Rightarrow> u32 \<Rightarrow> i32 \<Rightarrow> u32" where
  "addi rd rs1 imm =
    encode_i_type 0x13 rd 0 rs1 imm"

definition add_insn :: "u32 \<Rightarrow> u32 \<Rightarrow> u32 \<Rightarrow> u32" where
  "add_insn rd rs1 rs2 =
    encode_r_type 0x33 rd 0 rs1 rs2 0"

definition sub_insn :: "u32 \<Rightarrow> u32 \<Rightarrow> u32 \<Rightarrow> u32" where
  "sub_insn rd rs1 rs2 =
    encode_r_type 0x33 rd 0 rs1 rs2 0x20"

definition and_insn :: "u32 \<Rightarrow> u32 \<Rightarrow> u32 \<Rightarrow> u32" where
  "and_insn rd rs1 rs2 =
    encode_r_type 0x33 rd 7 rs1 rs2 0"

definition andi :: "u32 \<Rightarrow> u32 \<Rightarrow> i32 \<Rightarrow> u32" where
  "andi rd rs1 imm =
    encode_i_type 0x13 rd 7 rs1 imm"

definition or_insn :: "u32 \<Rightarrow> u32 \<Rightarrow> u32 \<Rightarrow> u32" where
  "or_insn rd rs1 rs2 =
    encode_r_type 0x33 rd 6 rs1 rs2 0"

definition ori :: "u32 \<Rightarrow> u32 \<Rightarrow> i32 \<Rightarrow> u32" where
  "ori rd rs1 imm =
    encode_i_type 0x13 rd 6 rs1 imm"

definition xor_insn :: "u32 \<Rightarrow> u32 \<Rightarrow> u32 \<Rightarrow> u32" where
  "xor_insn rd rs1 rs2 =
    encode_r_type 0x33 rd 4 rs1 rs2 0"

definition xori :: "u32 \<Rightarrow> u32 \<Rightarrow> i32 \<Rightarrow> u32" where
  "xori rd rs1 imm =
    encode_i_type 0x13 rd 4 rs1 imm"

definition sll :: "u32 \<Rightarrow> u32 \<Rightarrow> u32 \<Rightarrow> u32" where
  "sll rd rs1 rs2 =
    encode_r_type 0x33 rd 1 rs1 rs2 0"

definition slli :: "u32 \<Rightarrow> u32 \<Rightarrow> u32 \<Rightarrow> u32" where
  "slli rd rs1 shamt =
    encode_i_type 0x13 rd 1 rs1 shamt"

definition srl :: "u32 \<Rightarrow> u32 \<Rightarrow> u32 \<Rightarrow> u32" where
  "srl rd rs1 rs2 =
    encode_r_type 0x33 rd 5 rs1 rs2 0"

definition srli :: "u32 \<Rightarrow> u32 \<Rightarrow> u32 \<Rightarrow> u32" where
  "srli rd rs1 shamt =
    encode_i_type 0x13 rd 5 rs1 shamt"

definition sra :: "u32 \<Rightarrow> u32 \<Rightarrow> u32 \<Rightarrow> u32" where
  "sra rd rs1 rs2 =
    encode_r_type 0x33 rd 5 rs1 rs2 0x20"

definition srai :: "u32 \<Rightarrow> u32 \<Rightarrow> u32 \<Rightarrow> u32" where
  "srai rd rs1 shamt =
    encode_i_type 0x13 rd 5 rs1 (shamt OR 0x400)"

definition slt :: "u32 \<Rightarrow> u32 \<Rightarrow> u32 \<Rightarrow> u32" where
  "slt rd rs1 rs2 =
    encode_r_type 0x33 rd 2 rs1 rs2 0"

definition slti :: "u32 \<Rightarrow> u32 \<Rightarrow> i32 \<Rightarrow> u32" where
  "slti rd rs1 imm =
    encode_i_type 0x13 rd 2 rs1 imm"

definition sltu :: "u32 \<Rightarrow> u32 \<Rightarrow> u32 \<Rightarrow> u32" where
  "sltu rd rs1 rs2 =
    encode_r_type 0x33 rd 3 rs1 rs2 0"

definition sltiu :: "u32 \<Rightarrow> u32 \<Rightarrow> i32 \<Rightarrow> u32" where
  "sltiu rd rs1 imm =
    encode_i_type 0x13 rd 3 rs1 imm"

definition lui :: "u32 \<Rightarrow> u32 \<Rightarrow> u32" where
  "lui rd imm =
    encode_u_type 0x37 rd imm"

definition auipc :: "u32 \<Rightarrow> u32 \<Rightarrow> u32" where
  "auipc rd imm =
    encode_u_type 0x17 rd imm"

definition beq :: "u32 \<Rightarrow> u32 \<Rightarrow> i32 \<Rightarrow> u32" where
  "beq rs1 rs2 imm =
    encode_b_type 0x63 0 rs1 rs2 imm"

definition bne :: "u32 \<Rightarrow> u32 \<Rightarrow> i32 \<Rightarrow> u32" where
  "bne rs1 rs2 imm =
    encode_b_type 0x63 1 rs1 rs2 imm"

definition blt :: "u32 \<Rightarrow> u32 \<Rightarrow> i32 \<Rightarrow> u32" where
  "blt rs1 rs2 imm =
    encode_b_type 0x63 4 rs1 rs2 imm"

definition bge :: "u32 \<Rightarrow> u32 \<Rightarrow> i32 \<Rightarrow> u32" where
  "bge rs1 rs2 imm =
    encode_b_type 0x63 5 rs1 rs2 imm"

definition bltu :: "u32 \<Rightarrow> u32 \<Rightarrow> i32 \<Rightarrow> u32" where
  "bltu rs1 rs2 imm =
    encode_b_type 0x63 6 rs1 rs2 imm"

definition bgeu :: "u32 \<Rightarrow> u32 \<Rightarrow> i32 \<Rightarrow> u32" where
  "bgeu rs1 rs2 imm =
    encode_b_type 0x63 7 rs1 rs2 imm"

definition jal :: "u32 \<Rightarrow> i32 \<Rightarrow> u32" where
  "jal rd imm =
    (let imm_u = imm;
         imm_20 = drop_bit 20 imm_u AND 1;
         imm_10_1 = drop_bit 1 imm_u AND 0x3ff;
         imm_11 = drop_bit 11 imm_u AND 1;
         imm_19_12 = drop_bit 12 imm_u AND 0xff
     in push_bit 31 imm_20 OR
       push_bit 12 imm_19_12 OR
       push_bit 20 imm_11 OR
       push_bit 21 imm_10_1 OR
       push_bit 7 rd OR
       0x6f)"

definition jalr :: "u32 \<Rightarrow> u32 \<Rightarrow> i32 \<Rightarrow> u32" where
  "jalr rd rs1 imm =
    encode_i_type 0x67 rd 0 rs1 imm"

definition lw :: "u32 \<Rightarrow> u32 \<Rightarrow> i32 \<Rightarrow> u32" where
  "lw rd rs1 imm =
    encode_i_type 3 rd 2 rs1 imm"

definition lh :: "u32 \<Rightarrow> u32 \<Rightarrow> i32 \<Rightarrow> u32" where
  "lh rd rs1 imm =
    encode_i_type 3 rd 1 rs1 imm"

definition lb :: "u32 \<Rightarrow> u32 \<Rightarrow> i32 \<Rightarrow> u32" where
  "lb rd rs1 imm =
    encode_i_type 3 rd 0 rs1 imm"

definition lhu :: "u32 \<Rightarrow> u32 \<Rightarrow> i32 \<Rightarrow> u32" where
  "lhu rd rs1 imm =
    encode_i_type 3 rd 5 rs1 imm"

definition lbu :: "u32 \<Rightarrow> u32 \<Rightarrow> i32 \<Rightarrow> u32" where
  "lbu rd rs1 imm =
    encode_i_type 3 rd 4 rs1 imm"

definition sw :: "u32 \<Rightarrow> u32 \<Rightarrow> i32 \<Rightarrow> u32" where
  "sw rs1 rs2 imm =
    encode_s_type 0x23 2 rs1 rs2 imm"

definition sh :: "u32 \<Rightarrow> u32 \<Rightarrow> i32 \<Rightarrow> u32" where
  "sh rs1 rs2 imm =
    encode_s_type 0x23 1 rs1 rs2 imm"

definition sb :: "u32 \<Rightarrow> u32 \<Rightarrow> i32 \<Rightarrow> u32" where
  "sb rs1 rs2 imm =
    encode_s_type 0x23 0 rs1 rs2 imm"

definition fence :: u32 where
  "fence = 0xff0000f"

definition ecall :: u32 where
  "ecall = encode_i_type 0x73 0 0 0 0"

definition ebreak :: u32 where
  "ebreak = encode_i_type 0x73 0 0 0 1"

definition mret :: u32 where
  "mret = encode_i_type 0x73 0 0 0 0x302"

definition wfi :: u32 where
  "wfi = encode_i_type 0x73 0 0 0 0x105"

definition csrrw :: "u32 \<Rightarrow> u32 \<Rightarrow> u32 \<Rightarrow> u32" where
  "csrrw rd rs1 csr =
    encode_i_type 0x73 rd 1 rs1 csr"

definition csrrs :: "u32 \<Rightarrow> u32 \<Rightarrow> u32 \<Rightarrow> u32" where
  "csrrs rd rs1 csr =
    encode_i_type 0x73 rd 2 rs1 csr"

definition csrrc :: "u32 \<Rightarrow> u32 \<Rightarrow> u32 \<Rightarrow> u32" where
  "csrrc rd rs1 csr =
    encode_i_type 0x73 rd 3 rs1 csr"

definition csrrwi :: "u32 \<Rightarrow> u32 \<Rightarrow> u32 \<Rightarrow> u32" where
  "csrrwi rd imm csr =
    encode_i_type 0x73 rd 5 imm csr"

definition csrrsi :: "u32 \<Rightarrow> u32 \<Rightarrow> u32 \<Rightarrow> u32" where
  "csrrsi rd imm csr =
    encode_i_type 0x73 rd 6 imm csr"

definition csrrci :: "u32 \<Rightarrow> u32 \<Rightarrow> u32 \<Rightarrow> u32" where
  "csrrci rd imm csr =
    encode_i_type 0x73 rd 7 imm csr"

definition mul_insn :: "u32 \<Rightarrow> u32 \<Rightarrow> u32 \<Rightarrow> u32" where
  "mul_insn rd rs1 rs2 =
    encode_r_type 0x33 rd 0 rs1 rs2 1"

definition mulh :: "u32 \<Rightarrow> u32 \<Rightarrow> u32 \<Rightarrow> u32" where
  "mulh rd rs1 rs2 =
    encode_r_type 0x33 rd 1 rs1 rs2 1"

definition mulhsu :: "u32 \<Rightarrow> u32 \<Rightarrow> u32 \<Rightarrow> u32" where
  "mulhsu rd rs1 rs2 =
    encode_r_type 0x33 rd 2 rs1 rs2 1"

definition mulhu :: "u32 \<Rightarrow> u32 \<Rightarrow> u32 \<Rightarrow> u32" where
  "mulhu rd rs1 rs2 =
    encode_r_type 0x33 rd 3 rs1 rs2 1"

definition div_insn :: "u32 \<Rightarrow> u32 \<Rightarrow> u32 \<Rightarrow> u32" where
  "div_insn rd rs1 rs2 =
    encode_r_type 0x33 rd 4 rs1 rs2 1"

definition divu :: "u32 \<Rightarrow> u32 \<Rightarrow> u32 \<Rightarrow> u32" where
  "divu rd rs1 rs2 =
    encode_r_type 0x33 rd 5 rs1 rs2 1"

definition rem_insn :: "u32 \<Rightarrow> u32 \<Rightarrow> u32 \<Rightarrow> u32" where
  "rem_insn rd rs1 rs2 =
    encode_r_type 0x33 rd 6 rs1 rs2 1"

definition remu :: "u32 \<Rightarrow> u32 \<Rightarrow> u32 \<Rightarrow> u32" where
  "remu rd rs1 rs2 =
    encode_r_type 0x33 rd 7 rs1 rs2 1"

definition c_addi4spn :: "u32 \<Rightarrow> u32 \<Rightarrow> u32 \<Rightarrow> u16 option" where
  "c_addi4spn rd rs1 nzuimm =
    (if \<not> (rs1 = 2 \<and> 8 \<le> rd \<and> rd \<le> 15 \<and> is_multiple_of nzuimm 4 \<and> nzuimm \<le> 1020) then None
     else (let n = nzuimm
     in Some (push_bit 7 (ucast (drop_bit 6 n AND 0xf)) OR
       push_bit 11 (ucast (drop_bit 4 n AND 3)) OR
       push_bit 5 (ucast (drop_bit 3 n AND 1)) OR
       push_bit 6 (ucast (drop_bit 2 n AND 1)) OR
       push_bit 2 (ucast (rd - 8 AND 7)))))"

definition c_lw :: "u32 \<Rightarrow> u32 \<Rightarrow> u32 \<Rightarrow> u16 option" where
  "c_lw rd rs1 offset =
    (if \<not> (8 \<le> rd \<and> rd \<le> 15 \<and> 8 \<le> rs1 \<and> rs1 \<le> 15 \<and> is_multiple_of offset 4 \<and> offset \<le> 124) then None
     else (let u = drop_bit 2 offset
     in Some (push_bit 5 (ucast (drop_bit 4 u AND 1)) OR
       push_bit 6 (ucast (u AND 1)) OR
       push_bit 10 (ucast (drop_bit 1 u AND 7)) OR
       push_bit 7 (ucast (rs1 - 8 AND 7)) OR
       push_bit 2 (ucast (rd - 8 AND 7)) OR
       push_bit 13 2)))"

definition c_sw :: "u32 \<Rightarrow> u32 \<Rightarrow> u32 \<Rightarrow> u16 option" where
  "c_sw rs1 rs2 offset =
    (if \<not> (8 \<le> rs1 \<and> rs1 \<le> 15 \<and> 8 \<le> rs2 \<and> rs2 \<le> 15 \<and> is_multiple_of offset 4 \<and> offset \<le> 124) then None
     else (let u = drop_bit 2 offset
     in Some (push_bit 5 (ucast (drop_bit 4 u AND 1)) OR
       push_bit 6 (ucast (u AND 1)) OR
       push_bit 10 (ucast (drop_bit 1 u AND 7)) OR
       push_bit 7 (ucast (rs1 - 8 AND 7)) OR
       push_bit 2 (ucast (rs2 - 8 AND 7)) OR
       push_bit 13 6)))"

definition c_flw :: "u32 \<Rightarrow> u32 \<Rightarrow> u32 \<Rightarrow> u16 option" where
  "c_flw fd rs1 offset =
    (if \<not> (8 \<le> fd \<and> fd \<le> 15 \<and> 8 \<le> rs1 \<and> rs1 \<le> 15 \<and> is_multiple_of offset 4 \<and> offset \<le> 124) then None
     else (let u = drop_bit 2 offset
     in Some (push_bit 5 (ucast (drop_bit 4 u AND 1)) OR
       push_bit 6 (ucast (u AND 1)) OR
       push_bit 10 (ucast (drop_bit 1 u AND 7)) OR
       push_bit 7 (ucast (rs1 - 8 AND 7)) OR
       push_bit 2 (ucast (fd - 8 AND 7)) OR
       push_bit 13 3)))"

definition c_fsw :: "u32 \<Rightarrow> u32 \<Rightarrow> u32 \<Rightarrow> u16 option" where
  "c_fsw rs1 fs2 offset =
    (if \<not> (8 \<le> rs1 \<and> rs1 \<le> 15 \<and> 8 \<le> fs2 \<and> fs2 \<le> 15 \<and> is_multiple_of offset 4 \<and> offset \<le> 124) then None
     else (let u = drop_bit 2 offset
     in Some (push_bit 5 (ucast (drop_bit 4 u AND 1)) OR
       push_bit 6 (ucast (u AND 1)) OR
       push_bit 10 (ucast (drop_bit 1 u AND 7)) OR
       push_bit 7 (ucast (rs1 - 8 AND 7)) OR
       push_bit 2 (ucast (fs2 - 8 AND 7)) OR
       push_bit 13 7)))"

definition c_nop :: u16 where
  "c_nop = 1"

definition c_addi :: "u32 \<Rightarrow> i32 \<Rightarrow> u16" where
  "c_addi rd imm =
    (let imm6 = imm AND 0x3f
     in push_bit 12 (ucast (drop_bit 5 imm6 AND 1)) OR
       push_bit 2 (ucast (imm6 AND 0x1f)) OR
       push_bit 7 (ucast (rd AND 0x1f)) OR
       push_bit 13 0 OR
       1)"

definition c_jal :: "i32 \<Rightarrow> u16" where
  "c_jal offset =
    (let imm_u = offset AND 0xfff
     in push_bit 12 (ucast (drop_bit 11 imm_u AND 1)) OR
       push_bit 8 (ucast (drop_bit 10 imm_u AND 1)) OR
       push_bit 9 (ucast (drop_bit 8 imm_u AND 3)) OR
       push_bit 6 (ucast (drop_bit 7 imm_u AND 1)) OR
       push_bit 7 (ucast (drop_bit 6 imm_u AND 1)) OR
       push_bit 2 (ucast (drop_bit 5 imm_u AND 1)) OR
       push_bit 11 (ucast (drop_bit 4 imm_u AND 1)) OR
       push_bit 3 (ucast (drop_bit 1 imm_u AND 7)) OR
       1 OR
       push_bit 13 1)"

definition c_li :: "u32 \<Rightarrow> i32 \<Rightarrow> u16" where
  "c_li rd imm =
    (let imm6 = imm AND 0x3f
     in push_bit 12 (ucast (drop_bit 5 imm6 AND 1)) OR
       push_bit 2 (ucast (imm6 AND 0x1f)) OR
       push_bit 7 (ucast (rd AND 0x1f)) OR
       1 OR
       push_bit 13 2)"

definition c_addi16sp :: "u32 \<Rightarrow> u16 option" where
  "c_addi16sp nzimm =
    (if \<not> (is_multiple_of nzimm 16 \<and> nzimm \<le> 1008) then None
     else (let nz = drop_bit 4 nzimm
     in Some (push_bit 12 (ucast (drop_bit 5 nz AND 1)) OR
       push_bit 3 (ucast (drop_bit 3 nz AND 3)) OR
       push_bit 5 (ucast (drop_bit 2 nz AND 1)) OR
       push_bit 2 (ucast (drop_bit 1 nz AND 1)) OR
       push_bit 6 (ucast (nz AND 1)) OR
       push_bit 7 (2 AND 0x1f) OR
       1 OR
       push_bit 13 3)))"

definition c_lui :: "u32 \<Rightarrow> u32 \<Rightarrow> u16 option" where
  "c_lui rd nzimm_field =
    (if \<not> (nzimm_field \<le> 0x3F) then None
     else Some (push_bit 12 (ucast (drop_bit 5 nzimm_field AND 1)) OR
       push_bit 2 (ucast (nzimm_field AND 0x1f)) OR
       push_bit 7 (ucast (rd AND 0x1f)) OR
       1 OR
       push_bit 13 3))"

definition c_srli :: "u32 \<Rightarrow> u32 \<Rightarrow> u16 option" where
  "c_srli rd shamt =
    (if \<not> (8 \<le> rd \<and> rd \<le> 15 \<and> shamt \<noteq> 0 \<and> shamt \<le> 31) then None
     else Some (push_bit 2 (ucast (shamt AND 0x1f)) OR
       push_bit 7 (ucast (rd - 8 AND 7)) OR
       push_bit 13 4 OR
       push_bit 10 0 OR
       1))"

definition c_srai :: "u32 \<Rightarrow> u32 \<Rightarrow> u16 option" where
  "c_srai rd shamt =
    (if \<not> (8 \<le> rd \<and> rd \<le> 15 \<and> shamt \<noteq> 0 \<and> shamt \<le> 31) then None
     else Some (push_bit 2 (ucast (shamt AND 0x1f)) OR
       push_bit 7 (ucast (rd - 8 AND 7)) OR
       push_bit 13 4 OR
       push_bit 10 1 OR
       1))"

definition c_andi :: "u32 \<Rightarrow> i32 \<Rightarrow> u16 option" where
  "c_andi rd imm =
    (if \<not> (8 \<le> rd \<and> rd \<le> 15) then None
     else (let imm6 = imm AND 0x3f
     in Some (push_bit 12 (ucast (drop_bit 5 imm6 AND 1)) OR
       push_bit 2 (ucast (imm6 AND 0x1f)) OR
       push_bit 7 (ucast (rd - 8 AND 7)) OR
       push_bit 13 4 OR
       push_bit 10 2 OR
       1)))"

definition c_rtype_family :: "u32 \<Rightarrow> u32 \<Rightarrow> u32 \<Rightarrow> u16 option" where
  "c_rtype_family rd rs2 funct2_ca =
    (if \<not> (8 \<le> rd \<and> rd \<le> 15 \<and> 8 \<le> rs2 \<and> rs2 \<le> 15) then None
     else Some (push_bit 2 (ucast (rs2 - 8 AND 7)) OR
       push_bit 7 (ucast (rd - 8 AND 7)) OR
       push_bit 13 4 OR
       push_bit 10 3 OR
       push_bit 5 (ucast funct2_ca AND 3) OR
       1))"

definition c_sub :: "u32 \<Rightarrow> u32 \<Rightarrow> u16 option" where
  "c_sub rd rs2 =
    c_rtype_family rd rs2 0"

definition c_xor :: "u32 \<Rightarrow> u32 \<Rightarrow> u16 option" where
  "c_xor rd rs2 =
    c_rtype_family rd rs2 1"

definition c_or :: "u32 \<Rightarrow> u32 \<Rightarrow> u16 option" where
  "c_or rd rs2 =
    c_rtype_family rd rs2 2"

definition c_and :: "u32 \<Rightarrow> u32 \<Rightarrow> u16 option" where
  "c_and rd rs2 =
    c_rtype_family rd rs2 3"

definition c_j :: "i32 \<Rightarrow> u16" where
  "c_j offset =
    (let imm_u = offset AND 0xfff
     in push_bit 12 (ucast (drop_bit 11 imm_u AND 1)) OR
       push_bit 8 (ucast (drop_bit 10 imm_u AND 1)) OR
       push_bit 9 (ucast (drop_bit 8 imm_u AND 3)) OR
       push_bit 6 (ucast (drop_bit 7 imm_u AND 1)) OR
       push_bit 7 (ucast (drop_bit 6 imm_u AND 1)) OR
       push_bit 2 (ucast (drop_bit 5 imm_u AND 1)) OR
       push_bit 11 (ucast (drop_bit 4 imm_u AND 1)) OR
       push_bit 3 (ucast (drop_bit 1 imm_u AND 7)) OR
       1 OR
       push_bit 13 5)"

definition c_beqz :: "u32 \<Rightarrow> i32 \<Rightarrow> u16 option" where
  "c_beqz rs1 offset =
    (if \<not> (8 \<le> rs1 \<and> rs1 \<le> 15) then None
     else (let imm_u = offset AND 0x1ff
     in Some (push_bit 12 (ucast (drop_bit 8 imm_u AND 1)) OR
       push_bit 6 (ucast (drop_bit 7 imm_u AND 1)) OR
       push_bit 5 (ucast (drop_bit 6 imm_u AND 1)) OR
       push_bit 2 (ucast (drop_bit 5 imm_u AND 1)) OR
       push_bit 10 (ucast (drop_bit 3 imm_u AND 3)) OR
       push_bit 3 (ucast (drop_bit 1 imm_u AND 3)) OR
       push_bit 7 (ucast (rs1 - 8 AND 7)) OR
       1 OR
       push_bit 13 6)))"

definition c_bnez :: "u32 \<Rightarrow> i32 \<Rightarrow> u16 option" where
  "c_bnez rs1 offset =
    (if \<not> (8 \<le> rs1 \<and> rs1 \<le> 15) then None
     else (let imm_u = offset AND 0x1ff
     in Some (push_bit 12 (ucast (drop_bit 8 imm_u AND 1)) OR
       push_bit 6 (ucast (drop_bit 7 imm_u AND 1)) OR
       push_bit 5 (ucast (drop_bit 6 imm_u AND 1)) OR
       push_bit 2 (ucast (drop_bit 5 imm_u AND 1)) OR
       push_bit 10 (ucast (drop_bit 3 imm_u AND 3)) OR
       push_bit 3 (ucast (drop_bit 1 imm_u AND 3)) OR
       push_bit 7 (ucast (rs1 - 8 AND 7)) OR
       1 OR
       push_bit 13 7)))"

definition c_slli :: "u32 \<Rightarrow> u32 \<Rightarrow> u16 option" where
  "c_slli rd shamt =
    (if \<not> (rd < 32 \<and> shamt \<le> 63) then None
     else Some (push_bit 2 (ucast (shamt AND 0x1f)) OR
       push_bit 7 (ucast (rd AND 0x1f)) OR
       2 OR
       push_bit 13 0))"

definition c_lwsp :: "u32 \<Rightarrow> u32 \<Rightarrow> u16 option" where
  "c_lwsp rd offset =
    (if \<not> (is_multiple_of offset 4 \<and> offset \<le> 255) then None
     else (let u = drop_bit 2 offset
     in Some (push_bit 4 (ucast (u AND 7)) OR
       push_bit 12 (ucast (drop_bit 3 u AND 1)) OR
       push_bit 2 (ucast (drop_bit 4 u AND 3)) OR
       push_bit 7 (ucast (rd AND 0x1f)) OR
       2 OR
       push_bit 13 2)))"

definition c_flwsp :: "u32 \<Rightarrow> u32 \<Rightarrow> u16 option" where
  "c_flwsp fd offset =
    (if \<not> (fd < 32 \<and> is_multiple_of offset 4 \<and> offset \<le> 255) then None
     else (let u = drop_bit 2 offset
     in Some (push_bit 4 (ucast (u AND 7)) OR
       push_bit 12 (ucast (drop_bit 3 u AND 1)) OR
       push_bit 2 (ucast (drop_bit 4 u AND 3)) OR
       push_bit 7 (ucast (fd AND 0x1f)) OR
       2 OR
       push_bit 13 3)))"

definition c_jr :: "u32 \<Rightarrow> u16 option" where
  "c_jr rs1 =
    (if \<not> (rs1 < 32) then None
     else Some (push_bit 7 (ucast (rs1 AND 0x1f)) OR
       2 OR
       push_bit 13 4))"

definition c_mv :: "u32 \<Rightarrow> u32 \<Rightarrow> u16" where
  "c_mv rd rs2 =
    push_bit 2 (ucast (rs2 AND 0x1f)) OR
       push_bit 7 (ucast (rd AND 0x1f)) OR
       2 OR
       push_bit 13 4"

definition c_ebreak :: u16 where
  "c_ebreak = 0x9002"

definition c_jalr :: "u32 \<Rightarrow> u16 option" where
  "c_jalr rs1 =
    (if \<not> (rs1 \<noteq> 0) then None
     else Some (push_bit 7 (ucast (rs1 AND 0x1f)) OR
       2 OR
       push_bit 13 4 OR
       push_bit 12 1))"

definition c_add :: "u32 \<Rightarrow> u32 \<Rightarrow> u16 option" where
  "c_add rd rs2 =
    (if \<not> (rd \<noteq> 0 \<and> rs2 \<noteq> 0) then None
     else Some (push_bit 2 (ucast (rs2 AND 0x1f)) OR
       push_bit 7 (ucast (rd AND 0x1f)) OR
       2 OR
       push_bit 13 4 OR
       push_bit 12 1))"

definition c_swsp :: "u32 \<Rightarrow> u32 \<Rightarrow> u16 option" where
  "c_swsp rs2 offset =
    (if \<not> (is_multiple_of offset 4 \<and> offset \<le> 1020) then None
     else (let u = drop_bit 2 offset
     in Some (push_bit 7 (ucast (drop_bit 4 u AND 3)) OR
       push_bit 9 (ucast (u AND 0xf)) OR
       push_bit 2 (ucast (rs2 AND 0x1f)) OR
       2 OR
       push_bit 13 6)))"

definition c_fswsp :: "u32 \<Rightarrow> u32 \<Rightarrow> u16 option" where
  "c_fswsp fs2 offset =
    (if \<not> (fs2 < 32 \<and> is_multiple_of offset 4 \<and> offset \<le> 252) then None
     else (let u = drop_bit 2 offset
     in Some (push_bit 7 (ucast (drop_bit 4 u AND 3)) OR
       push_bit 9 (ucast (u AND 0xf)) OR
       push_bit 2 (ucast (fs2 AND 0x1f)) OR
       2 OR
       push_bit 13 7)))"

definition encode_atomic :: "u32 \<Rightarrow> bool \<Rightarrow> bool \<Rightarrow> u32 \<Rightarrow> u32 \<Rightarrow> u32 \<Rightarrow> u32" where
  "encode_atomic funct5 aq rl rd rs1 rs2 =
    (let aq_bit = (if aq then 1 else 0);
         rl_bit = (if rl then 1 else 0)
     in push_bit 27 funct5 OR
       push_bit 26 aq_bit OR
       push_bit 25 rl_bit OR
       push_bit 20 rs2 OR
       push_bit 15 rs1 OR
       push_bit 12 2 OR
       push_bit 7 rd OR
       0x2f)"

definition lr_w :: "u32 \<Rightarrow> u32 \<Rightarrow> u32" where
  "lr_w rd rs1 =
    encode_atomic 2 False False rd rs1 0"

definition lr_w_aq :: "u32 \<Rightarrow> u32 \<Rightarrow> u32" where
  "lr_w_aq rd rs1 =
    encode_atomic 2 True False rd rs1 0"

definition sc_w :: "u32 \<Rightarrow> u32 \<Rightarrow> u32 \<Rightarrow> u32" where
  "sc_w rd rs1 rs2 =
    encode_atomic 3 False False rd rs1 rs2"

definition sc_w_rl :: "u32 \<Rightarrow> u32 \<Rightarrow> u32 \<Rightarrow> u32" where
  "sc_w_rl rd rs1 rs2 =
    encode_atomic 3 False True rd rs1 rs2"

definition amoswap_w :: "u32 \<Rightarrow> u32 \<Rightarrow> u32 \<Rightarrow> u32" where
  "amoswap_w rd rs1 rs2 =
    encode_atomic 1 False False rd rs1 rs2"

definition amoadd_w :: "u32 \<Rightarrow> u32 \<Rightarrow> u32 \<Rightarrow> u32" where
  "amoadd_w rd rs1 rs2 =
    encode_atomic 0 False False rd rs1 rs2"

definition amoxor_w :: "u32 \<Rightarrow> u32 \<Rightarrow> u32 \<Rightarrow> u32" where
  "amoxor_w rd rs1 rs2 =
    encode_atomic 4 False False rd rs1 rs2"

definition amoand_w :: "u32 \<Rightarrow> u32 \<Rightarrow> u32 \<Rightarrow> u32" where
  "amoand_w rd rs1 rs2 =
    encode_atomic 0xc False False rd rs1 rs2"

definition amoor_w :: "u32 \<Rightarrow> u32 \<Rightarrow> u32 \<Rightarrow> u32" where
  "amoor_w rd rs1 rs2 =
    encode_atomic 8 False False rd rs1 rs2"

definition amomin_w :: "u32 \<Rightarrow> u32 \<Rightarrow> u32 \<Rightarrow> u32" where
  "amomin_w rd rs1 rs2 =
    encode_atomic 0x10 False False rd rs1 rs2"

definition amomax_w :: "u32 \<Rightarrow> u32 \<Rightarrow> u32 \<Rightarrow> u32" where
  "amomax_w rd rs1 rs2 =
    encode_atomic 0x14 False False rd rs1 rs2"

definition amominu_w :: "u32 \<Rightarrow> u32 \<Rightarrow> u32 \<Rightarrow> u32" where
  "amominu_w rd rs1 rs2 =
    encode_atomic 0x18 False False rd rs1 rs2"

definition amomaxu_w :: "u32 \<Rightarrow> u32 \<Rightarrow> u32 \<Rightarrow> u32" where
  "amomaxu_w rd rs1 rs2 =
    encode_atomic 0x1c False False rd rs1 rs2"

definition encode_fp_r_type :: "u32 \<Rightarrow> u32 \<Rightarrow> u32 \<Rightarrow> u32 \<Rightarrow> u32 \<Rightarrow> u32 \<Rightarrow> u32" where
  "encode_fp_r_type opcode rd rm rs1 rs2 funct7 =
    push_bit 25 funct7 OR
       push_bit 20 rs2 OR
       push_bit 15 rs1 OR
       push_bit 12 rm OR
       push_bit 7 rd OR
       opcode"

definition encode_fp_r4_type :: "u32 \<Rightarrow> u32 \<Rightarrow> u32 \<Rightarrow> u32 \<Rightarrow> u32 \<Rightarrow> u32 \<Rightarrow> u32 \<Rightarrow> u32" where
  "encode_fp_r4_type opcode rd rm rs1 rs2 funct2 rs3 =
    push_bit 27 rs3 OR
       push_bit 25 funct2 OR
       push_bit 20 rs2 OR
       push_bit 15 rs1 OR
       push_bit 12 rm OR
       push_bit 7 rd OR
       opcode"

definition flw :: "u32 \<Rightarrow> u32 \<Rightarrow> i32 \<Rightarrow> u32" where
  "flw fd rs1 imm =
    encode_i_type 7 fd 2 rs1 imm"

definition fsw :: "u32 \<Rightarrow> u32 \<Rightarrow> i32 \<Rightarrow> u32" where
  "fsw rs1 fs2 imm =
    encode_s_type 0x27 2 rs1 fs2 imm"

definition fadd_s :: "u32 \<Rightarrow> u32 \<Rightarrow> u32 \<Rightarrow> u32" where
  "fadd_s fd fs1 fs2 =
    encode_fp_r_type 0x53 fd 7 fs1 fs2 0"

definition fsub_s :: "u32 \<Rightarrow> u32 \<Rightarrow> u32 \<Rightarrow> u32" where
  "fsub_s fd fs1 fs2 =
    encode_fp_r_type 0x53 fd 7 fs1 fs2 4"

definition fmul_s :: "u32 \<Rightarrow> u32 \<Rightarrow> u32 \<Rightarrow> u32" where
  "fmul_s fd fs1 fs2 =
    encode_fp_r_type 0x53 fd 7 fs1 fs2 8"

definition fdiv_s :: "u32 \<Rightarrow> u32 \<Rightarrow> u32 \<Rightarrow> u32" where
  "fdiv_s fd fs1 fs2 =
    encode_fp_r_type 0x53 fd 7 fs1 fs2 0xc"

definition fsqrt_s :: "u32 \<Rightarrow> u32 \<Rightarrow> u32" where
  "fsqrt_s fd fs1 =
    encode_fp_r_type 0x53 fd 7 fs1 0 0x2c"

definition fmadd_s :: "u32 \<Rightarrow> u32 \<Rightarrow> u32 \<Rightarrow> u32 \<Rightarrow> u32" where
  "fmadd_s fd fs1 fs2 fs3 =
    encode_fp_r4_type 0x43 fd 7 fs1 fs2 0 fs3"

definition fmsub_s :: "u32 \<Rightarrow> u32 \<Rightarrow> u32 \<Rightarrow> u32 \<Rightarrow> u32" where
  "fmsub_s fd fs1 fs2 fs3 =
    encode_fp_r4_type 0x47 fd 7 fs1 fs2 0 fs3"

definition fnmsub_s :: "u32 \<Rightarrow> u32 \<Rightarrow> u32 \<Rightarrow> u32 \<Rightarrow> u32" where
  "fnmsub_s fd fs1 fs2 fs3 =
    encode_fp_r4_type 0x4b fd 7 fs1 fs2 0 fs3"

definition fnmadd_s :: "u32 \<Rightarrow> u32 \<Rightarrow> u32 \<Rightarrow> u32 \<Rightarrow> u32" where
  "fnmadd_s fd fs1 fs2 fs3 =
    encode_fp_r4_type 0x4f fd 7 fs1 fs2 0 fs3"

definition fmin_s :: "u32 \<Rightarrow> u32 \<Rightarrow> u32 \<Rightarrow> u32" where
  "fmin_s fd fs1 fs2 =
    encode_fp_r_type 0x53 fd 0 fs1 fs2 0x14"

definition fmax_s :: "u32 \<Rightarrow> u32 \<Rightarrow> u32 \<Rightarrow> u32" where
  "fmax_s fd fs1 fs2 =
    encode_fp_r_type 0x53 fd 1 fs1 fs2 0x14"

definition fsgnj_s :: "u32 \<Rightarrow> u32 \<Rightarrow> u32 \<Rightarrow> u32" where
  "fsgnj_s fd fs1 fs2 =
    encode_fp_r_type 0x53 fd 0 fs1 fs2 0x10"

definition fsgnjn_s :: "u32 \<Rightarrow> u32 \<Rightarrow> u32 \<Rightarrow> u32" where
  "fsgnjn_s fd fs1 fs2 =
    encode_fp_r_type 0x53 fd 1 fs1 fs2 0x10"

definition fsgnjx_s :: "u32 \<Rightarrow> u32 \<Rightarrow> u32 \<Rightarrow> u32" where
  "fsgnjx_s fd fs1 fs2 =
    encode_fp_r_type 0x53 fd 2 fs1 fs2 0x10"

definition feq_s :: "u32 \<Rightarrow> u32 \<Rightarrow> u32 \<Rightarrow> u32" where
  "feq_s rd fs1 fs2 =
    encode_fp_r_type 0x53 rd 2 fs1 fs2 0x50"

definition flt_s :: "u32 \<Rightarrow> u32 \<Rightarrow> u32 \<Rightarrow> u32" where
  "flt_s rd fs1 fs2 =
    encode_fp_r_type 0x53 rd 1 fs1 fs2 0x50"

definition fle_s :: "u32 \<Rightarrow> u32 \<Rightarrow> u32 \<Rightarrow> u32" where
  "fle_s rd fs1 fs2 =
    encode_fp_r_type 0x53 rd 0 fs1 fs2 0x50"

definition fcvt_w_s :: "u32 \<Rightarrow> u32 \<Rightarrow> u32" where
  "fcvt_w_s rd fs1 =
    encode_fp_r_type 0x53 rd 7 fs1 0 0x60"

definition fcvt_wu_s :: "u32 \<Rightarrow> u32 \<Rightarrow> u32" where
  "fcvt_wu_s rd fs1 =
    encode_fp_r_type 0x53 rd 7 fs1 1 0x60"

definition fcvt_s_w :: "u32 \<Rightarrow> u32 \<Rightarrow> u32" where
  "fcvt_s_w fd rs1 =
    encode_fp_r_type 0x53 fd 7 rs1 0 0x68"

definition fcvt_s_wu :: "u32 \<Rightarrow> u32 \<Rightarrow> u32" where
  "fcvt_s_wu fd rs1 =
    encode_fp_r_type 0x53 fd 7 rs1 1 0x68"

definition fmv_x_w :: "u32 \<Rightarrow> u32 \<Rightarrow> u32" where
  "fmv_x_w rd fs1 =
    encode_fp_r_type 0x53 rd 0 fs1 0 0x70"

definition fmv_w_x :: "u32 \<Rightarrow> u32 \<Rightarrow> u32" where
  "fmv_w_x fd rs1 =
    encode_fp_r_type 0x53 fd 0 rs1 0 0x78"

definition fclass_s :: "u32 \<Rightarrow> u32 \<Rightarrow> u32" where
  "fclass_s rd fs1 =
    encode_fp_r_type 0x53 rd 1 fs1 0 0x70"

declare
  addi_def [encoders]
  add_insn_def [encoders]
  sub_insn_def [encoders]
  and_insn_def [encoders]
  andi_def [encoders]
  or_insn_def [encoders]
  ori_def [encoders]
  xor_insn_def [encoders]
  xori_def [encoders]
  sll_def [encoders]
  slli_def [encoders]
  srl_def [encoders]
  srli_def [encoders]
  sra_def [encoders]
  srai_def [encoders]
  slt_def [encoders]
  slti_def [encoders]
  sltu_def [encoders]
  sltiu_def [encoders]
  lui_def [encoders]
  auipc_def [encoders]
  beq_def [encoders]
  bne_def [encoders]
  blt_def [encoders]
  bge_def [encoders]
  bltu_def [encoders]
  bgeu_def [encoders]
  jalr_def [encoders]
  lw_def [encoders]
  lh_def [encoders]
  lb_def [encoders]
  lhu_def [encoders]
  lbu_def [encoders]
  sw_def [encoders]
  sh_def [encoders]
  sb_def [encoders]
  fence_def [encoders]
  ecall_def [encoders]
  ebreak_def [encoders]
  mret_def [encoders]
  wfi_def [encoders]
  csrrw_def [encoders]
  csrrs_def [encoders]
  csrrc_def [encoders]
  csrrwi_def [encoders]
  csrrsi_def [encoders]
  csrrci_def [encoders]
  mul_insn_def [encoders]
  mulh_def [encoders]
  mulhsu_def [encoders]
  mulhu_def [encoders]
  div_insn_def [encoders]
  divu_def [encoders]
  rem_insn_def [encoders]
  remu_def [encoders]
  lr_w_def [encoders]
  lr_w_aq_def [encoders]
  sc_w_def [encoders]
  sc_w_rl_def [encoders]
  amoswap_w_def [encoders]
  amoadd_w_def [encoders]
  amoxor_w_def [encoders]
  amoand_w_def [encoders]
  amoor_w_def [encoders]
  amomin_w_def [encoders]
  amomax_w_def [encoders]
  amominu_w_def [encoders]
  amomaxu_w_def [encoders]
  flw_def [encoders]
  fsw_def [encoders]
  fadd_s_def [encoders]
  fsub_s_def [encoders]
  fmul_s_def [encoders]
  fdiv_s_def [encoders]
  fsqrt_s_def [encoders]
  fmadd_s_def [encoders]
  fmsub_s_def [encoders]
  fnmsub_s_def [encoders]
  fnmadd_s_def [encoders]
  fmin_s_def [encoders]
  fmax_s_def [encoders]
  fsgnj_s_def [encoders]
  fsgnjn_s_def [encoders]
  fsgnjx_s_def [encoders]
  feq_s_def [encoders]
  flt_s_def [encoders]
  fle_s_def [encoders]
  fcvt_w_s_def [encoders]
  fcvt_wu_s_def [encoders]
  fcvt_s_w_def [encoders]
  fcvt_s_wu_def [encoders]
  fmv_x_w_def [encoders]
  fmv_w_x_def [encoders]
  fclass_s_def [encoders]

end
