(* ===== verification/Insn_Fields.thy ===== *)
theory Insn_Fields
  imports Insn_Encode
begin

text \<open>
  The fields of the words that the format encoders build: the opcode, the register fields, the
  function codes and the scattered immediate bits are read back as they were put in, for
  operands within their widths.
\<close>

lemma bits_below: "unat w < 2 ^ k \<Longrightarrow> k \<le> n \<Longrightarrow> bit w n = False" for w :: "'a::len word"
  by (metis bit_take_bit_iff leD take_bit_small)

lemma field_bits:
  "w < 2 \<Longrightarrow> 1 \<le> n \<Longrightarrow> bit w n = False" "w < 4 \<Longrightarrow> 2 \<le> n \<Longrightarrow> bit w n = False"
  "w < 8 \<Longrightarrow> 3 \<le> n \<Longrightarrow> bit w n = False" "w < 16 \<Longrightarrow> 4 \<le> n \<Longrightarrow> bit w n = False"
  "w < 32 \<Longrightarrow> 5 \<le> n \<Longrightarrow> bit w n = False" "w < 128 \<Longrightarrow> 7 \<le> n \<Longrightarrow> bit w n = False"
  for w :: u32
  using bits_below [of w 1 n] bits_below [of w 2 n] bits_below [of w 3 n] bits_below [of w 4 n]
    bits_below [of w 5 n] bits_below [of w 7 n]
  by (simp_all add: word_less_nat_alt)

text \<open>Two words are equal when their bits are, position by position.\<close>

lemma word32_eqI:
  assumes "list_all (\<lambda>n. bit a n = bit b n) [0, 1, 2, 3, 4, 5, 6, 7, 8, 9, 10, 11, 12, 13, 14, 15,
    16, 17, 18, 19, 20, 21, 22, 23, 24, 25, 26, 27, 28, 29, 30, 31]"
  shows "a = (b :: u32)"
proof (rule bit_word_eqI)
  fix n assume "n < LENGTH(32)"
  then have "n \<in> set [0, 1, 2, 3, 4, 5, 6, 7, 8, 9, 10, 11, 12, 13, 14, 15,
    16, 17, 18, 19, 20, 21, 22, 23, 24, 25, 26, 27, 28, 29, 30, 31]" by (simp; presburger)
  then show "bit a n = bit b n" using assms unfolding list_all_iff by (rule bspec [rotated])
qed

lemma r_fields:
  assumes "opcode < 128" "rd < 32" "f3 < 8" "rs1 < 32" "rs2 < 32" "f7 < 128"
  shows "(encode_r_type opcode rd f3 rs1 rs2 f7) AND 0x7F = opcode" (is ?a)
    and "drop_bit 7 (encode_r_type opcode rd f3 rs1 rs2 f7) AND 0x1F = rd" (is ?b)
    and "drop_bit 12 (encode_r_type opcode rd f3 rs1 rs2 f7) AND 7 = f3" (is ?c)
    and "drop_bit 15 (encode_r_type opcode rd f3 rs1 rs2 f7) AND 0x1F = rs1" (is ?d)
    and "drop_bit 20 (encode_r_type opcode rd f3 rs1 rs2 f7) AND 0x1F = rs2" (is ?e)
    and "drop_bit 25 (encode_r_type opcode rd f3 rs1 rs2 f7) AND 0x7F = f7" (is ?f)
proof -
  note z = field_bits(6) [OF assms(1)] field_bits(5) [OF assms(2)] field_bits(3) [OF assms(3)] field_bits(5) [OF assms(4)] field_bits(5) [OF assms(5)] field_bits(6) [OF assms(6)]
  show ?a ?b ?c ?d ?e ?f
    unfolding encode_r_type_def Let_def field_simps_bits
    by (rule word32_eqI, simp add: bit_simps z del: bit_0)+
qed

lemma i_fields:
  assumes "opcode < 128" "rd < 32" "f3 < 8" "rs1 < 32"
  shows "(encode_i_type opcode rd f3 rs1 imm) AND 0x7F = opcode" (is ?a)
    and "drop_bit 7 (encode_i_type opcode rd f3 rs1 imm) AND 0x1F = rd" (is ?b)
    and "drop_bit 12 (encode_i_type opcode rd f3 rs1 imm) AND 7 = f3" (is ?c)
    and "drop_bit 15 (encode_i_type opcode rd f3 rs1 imm) AND 0x1F = rs1" (is ?d)
    and "drop_bit 20 (encode_i_type opcode rd f3 rs1 imm) AND 0x1F = imm AND 0x1F" (is ?e)
    and "drop_bit 25 (encode_i_type opcode rd f3 rs1 imm) AND 0x7F = drop_bit 5 imm AND 0x7F" (is ?f)
    and "drop_bit 20 (encode_i_type opcode rd f3 rs1 imm) AND 0xFFF = imm AND 0xFFF" (is ?g)
proof -
  note z = field_bits(6) [OF assms(1)] field_bits(5) [OF assms(2)] field_bits(3) [OF assms(3)] field_bits(5) [OF assms(4)]
  show ?a ?b ?c ?d ?e ?f ?g
    unfolding encode_i_type_def Let_def field_simps_bits
    by (rule word32_eqI, simp add: bit_simps z del: bit_0)+
qed

lemma s_fields:
  assumes "opcode < 128" "f3 < 8" "rs1 < 32" "rs2 < 32"
  shows "(encode_s_type opcode f3 rs1 rs2 imm) AND 0x7F = opcode" (is ?a)
    and "drop_bit 12 (encode_s_type opcode f3 rs1 rs2 imm) AND 7 = f3" (is ?b)
    and "drop_bit 15 (encode_s_type opcode f3 rs1 rs2 imm) AND 0x1F = rs1" (is ?c)
    and "drop_bit 20 (encode_s_type opcode f3 rs1 rs2 imm) AND 0x1F = rs2" (is ?d)
    and "push_bit 5 (drop_bit 25 (encode_s_type opcode f3 rs1 rs2 imm) AND 0x7F) OR (drop_bit 7 (encode_s_type opcode f3 rs1 rs2 imm) AND 0x1F) = imm AND 0xFFF" (is ?e)
proof -
  note z = field_bits(6) [OF assms(1)] field_bits(3) [OF assms(2)] field_bits(5) [OF assms(3)] field_bits(5) [OF assms(4)]
  show ?a ?b ?c ?d ?e
    unfolding encode_s_type_def Let_def field_simps_bits
    by (rule word32_eqI, simp add: bit_simps z del: bit_0)+
qed

lemma b_fields:
  assumes "opcode < 128" "f3 < 8" "rs1 < 32" "rs2 < 32"
  shows "(encode_b_type opcode f3 rs1 rs2 imm) AND 0x7F = opcode" (is ?a)
    and "drop_bit 12 (encode_b_type opcode f3 rs1 rs2 imm) AND 7 = f3" (is ?b)
    and "drop_bit 15 (encode_b_type opcode f3 rs1 rs2 imm) AND 0x1F = rs1" (is ?c)
    and "drop_bit 20 (encode_b_type opcode f3 rs1 rs2 imm) AND 0x1F = rs2" (is ?d)
    and "push_bit 12 (drop_bit 31 (encode_b_type opcode f3 rs1 rs2 imm) AND 1) OR push_bit 11 (drop_bit 7 (encode_b_type opcode f3 rs1 rs2 imm) AND 1) OR
      push_bit 5 (drop_bit 25 (encode_b_type opcode f3 rs1 rs2 imm) AND 0x3F) OR push_bit 1 (drop_bit 8 (encode_b_type opcode f3 rs1 rs2 imm) AND 0xF) =
      push_bit 1 (drop_bit 1 imm AND 0xFFF)" (is ?e)
proof -
  note z = field_bits(6) [OF assms(1)] field_bits(3) [OF assms(2)] field_bits(5) [OF assms(3)] field_bits(5) [OF assms(4)]
  show ?a ?b ?c ?d
    unfolding encode_b_type_def Let_def field_simps_bits
    by (rule word32_eqI, simp add: bit_simps z del: bit_0)+
  show ?e
    unfolding encode_b_type_def Let_def field_simps_bits
    by (rule word32_eqI, simp add: bit_simps z del: bit_0 One_nat_def push_bit_Suc take_bit_Suc_0)+
qed

lemma u_fields:
  assumes "opcode < 128" "rd < 32"
  shows "(encode_u_type opcode rd imm) AND 0x7F = opcode" (is ?a)
    and "drop_bit 7 (encode_u_type opcode rd imm) AND 0x1F = rd" (is ?b)
    and "(encode_u_type opcode rd imm) AND 0xFFFFF000 = imm AND 0xFFFFF000" (is ?c)
proof -
  note z = field_bits(6) [OF assms(1)] field_bits(5) [OF assms(2)]
  show ?a ?b ?c
    unfolding encode_u_type_def Let_def field_simps_bits
    by (rule word32_eqI, simp add: bit_simps z del: bit_0)+
qed

lemma j_fields:
  assumes "rd < 32"
  shows "(jal rd imm) AND 0x7F = 0x6F" (is ?a)
    and "drop_bit 7 (jal rd imm) AND 0x1F = rd" (is ?b)
    and "push_bit 20 (drop_bit 31 (jal rd imm) AND 1) OR push_bit 12 (drop_bit 12 (jal rd imm) AND 0xFF) OR
      push_bit 11 (drop_bit 20 (jal rd imm) AND 1) OR push_bit 1 (drop_bit 21 (jal rd imm) AND 0x3FF) =
      push_bit 1 (drop_bit 1 imm AND 0xFFFFF)" (is ?c)
proof -
  note z = field_bits(5) [OF assms(1)]
  show ?a ?b
    unfolding jal_def Let_def field_simps_bits
    by (rule word32_eqI, simp add: bit_simps z del: bit_0)+
  show ?c
    unfolding jal_def Let_def field_simps_bits
    by (rule word32_eqI, simp add: bit_simps z del: bit_0 One_nat_def push_bit_Suc take_bit_Suc_0)+
qed

lemma a_fields:
  assumes "f5 < 32" "rd < 32" "rs1 < 32" "rs2 < 32"
  shows "(encode_atomic f5 aq rl rd rs1 rs2) AND 0x7F = 0x2F" (is ?a)
    and "drop_bit 7 (encode_atomic f5 aq rl rd rs1 rs2) AND 0x1F = rd" (is ?b)
    and "drop_bit 12 (encode_atomic f5 aq rl rd rs1 rs2) AND 7 = 2" (is ?c)
    and "drop_bit 15 (encode_atomic f5 aq rl rd rs1 rs2) AND 0x1F = rs1" (is ?d)
    and "drop_bit 20 (encode_atomic f5 aq rl rd rs1 rs2) AND 0x1F = rs2" (is ?e)
    and "drop_bit 25 (encode_atomic f5 aq rl rd rs1 rs2) AND 1 = of_bool rl" (is ?f)
    and "drop_bit 26 (encode_atomic f5 aq rl rd rs1 rs2) AND 1 = of_bool aq" (is ?g)
    and "drop_bit 27 (encode_atomic f5 aq rl rd rs1 rs2) AND 0x1F = f5" (is ?h)
proof -
  note z = field_bits(5) [OF assms(1)] field_bits(5) [OF assms(2)] field_bits(5) [OF assms(3)] field_bits(5) [OF assms(4)]
  show ?a ?b ?c ?d ?e ?h
    unfolding encode_atomic_def Let_def field_simps_bits
    by (rule word32_eqI, simp add: bit_simps z del: bit_0)+
  show ?f ?g
    unfolding encode_atomic_def Let_def field_simps_bits
    by (rule word32_eqI, simp add: bit_simps z del: bit_0 One_nat_def push_bit_Suc take_bit_Suc_0)+
qed

end
