(* ===== verification/Insn_Decode.thy ===== *)
theory Insn_Decode
  imports Insn_Fields
begin

text \<open>
  The instruction decoder behind the execution trace (\<open>riscv_core/src/trace.rs\<close>): immediates and
  \<open>InstructionTrace::from_instruction\<close>, one definition per arm of its \<open>match\<close>.  The theorems
  connect it to the encoders: every instruction type decodes from its encoder with exactly the
  operands that were encoded.
\<close>

section \<open>Trace structures\<close>

datatype instruction_type =
    Add | Sub | Sll | Slt | Sltu | Xor | Srl | Sra | Or | And
  | Addi | Slti | Sltiu | Xori | Ori | Andi | Slli | Srli | Srai
  | Lw | Lh | Lb | Lhu | Lbu
  | Sw | Sh | Sb
  | Beq | Bne | Blt | Bge | Bltu | Bgeu
  | Lui | Auipc
  | Jal | Jalr
  | Ecall | Ebreak | Fence
  | Csrrw | Csrrs | Csrrc | Csrrwi | Csrrsi | Csrrci
  | Mul | Mulh | Mulhsu | Mulhu | Div | Divu | Rem | Remu
  | Unknown

record register_operand =
  op_reg :: u8
  op_value :: u32

record instruction_trace =
  it_pc :: u32
  it_instruction :: u32
  it_type :: instruction_type
  it_rd :: "register_operand option"
  it_rs1 :: "register_operand option"
  it_rs2 :: "register_operand option"
  it_immediate :: "i32 option"

section \<open>Immediates\<close>

definition get_imm_i :: "u32 \<Rightarrow> u32" where
  "get_imm_i i =
    (let imm = drop_bit 20 i AND 0xFFF
     in if imm AND 0x800 \<noteq> 0 then imm OR 0xFFFFF000 else imm)"

definition get_imm_s :: "u32 \<Rightarrow> u32" where
  "get_imm_s i =
    (let imm_11_5 = drop_bit 25 i AND 0x7F;
         imm_4_0 = drop_bit 7 i AND 0x1F;
         imm = push_bit 5 imm_11_5 OR imm_4_0
     in if imm AND 0x800 \<noteq> 0 then imm OR 0xFFFFF000 else imm)"

definition get_imm_b :: "u32 \<Rightarrow> u32" where
  "get_imm_b i =
    (let imm_12 = drop_bit 31 i AND 1;
         imm_10_5 = drop_bit 25 i AND 0x3F;
         imm_4_1 = drop_bit 8 i AND 0xF;
         imm_11 = drop_bit 7 i AND 1;
         imm = push_bit 12 imm_12 OR push_bit 11 imm_11 OR push_bit 5 imm_10_5 OR push_bit 1 imm_4_1
     in if imm AND 0x1000 \<noteq> 0 then imm OR 0xFFFFE000 else imm)"

definition get_imm_u :: "u32 \<Rightarrow> u32" where
  "get_imm_u i = i AND 0xFFFFF000"

definition get_imm_j :: "u32 \<Rightarrow> u32" where
  "get_imm_j i =
    (let imm_20 = drop_bit 31 i AND 1;
         imm_10_1 = drop_bit 21 i AND 0x3FF;
         imm_11 = drop_bit 20 i AND 1;
         imm_19_12 = drop_bit 12 i AND 0xFF;
         imm = push_bit 20 imm_20 OR push_bit 12 imm_19_12 OR push_bit 11 imm_11 OR push_bit 1 imm_10_1
     in if imm AND 0x100000 \<noteq> 0 then imm OR 0xFFE00000 else imm)"

section \<open>Decoding\<close>

text \<open>The types selected inside each arm.\<close>

definition r_inst_type :: "u8 \<Rightarrow> u8 \<Rightarrow> instruction_type" where
  "r_inst_type funct3 funct7 =
    (let m = (funct3, funct7)
     in if m = (0, 0) then Add else if m = (0, 0x20) then Sub
        else if m = (1, 0) then Sll else if m = (2, 0) then Slt
        else if m = (3, 0) then Sltu else if m = (4, 0) then Xor
        else if m = (5, 0) then Srl else if m = (5, 0x20) then Sra
        else if m = (6, 0) then Or else if m = (7, 0) then And
        else if m = (0, 1) then Mul else if m = (1, 1) then Mulh
        else if m = (2, 1) then Mulhsu else if m = (3, 1) then Mulhu
        else if m = (4, 1) then Div else if m = (5, 1) then Divu
        else if m = (6, 1) then Rem else if m = (7, 1) then Remu
        else Unknown)"

definition i_inst_type :: "u8 \<Rightarrow> u32 \<Rightarrow> i32 \<Rightarrow> i32 \<Rightarrow> instruction_type \<times> i32" where
  "i_inst_type funct3 funct7 imm shamt =
    (if funct3 = 0 then (Addi, imm) else if funct3 = 2 then (Slti, imm)
     else if funct3 = 3 then (Sltiu, imm) else if funct3 = 4 then (Xori, imm)
     else if funct3 = 6 then (Ori, imm) else if funct3 = 7 then (Andi, imm)
     else if funct3 = 1 then (Slli, shamt)
     else if funct3 = 5 then (if funct7 = 0 then (Srli, shamt) else (Srai, shamt))
     else (Unknown, imm))"

definition load_inst_type :: "u8 \<Rightarrow> instruction_type" where
  "load_inst_type funct3 =
    (if funct3 = 2 then Lw else if funct3 = 0 then Lb else if funct3 = 1 then Lh
     else if funct3 = 4 then Lbu else if funct3 = 5 then Lhu else Unknown)"

definition store_inst_type :: "u8 \<Rightarrow> instruction_type" where
  "store_inst_type funct3 =
    (if funct3 = 2 then Sw else if funct3 = 0 then Sb else if funct3 = 1 then Sh else Unknown)"

definition branch_inst_type :: "u8 \<Rightarrow> instruction_type" where
  "branch_inst_type funct3 =
    (if funct3 = 0 then Beq else if funct3 = 1 then Bne else if funct3 = 4 then Blt
     else if funct3 = 5 then Bge else if funct3 = 6 then Bltu else if funct3 = 7 then Bgeu
     else Unknown)"

definition csr_inst_type :: "u8 \<Rightarrow> instruction_type" where
  "csr_inst_type funct3 =
    (if funct3 = 1 then Csrrw else if funct3 = 2 then Csrrs else if funct3 = 3 then Csrrc
     else if funct3 = 5 then Csrrwi else if funct3 = 6 then Csrrsi else if funct3 = 7 then Csrrci
     else Unknown)"

definition system_trace ::
  "u32 \<Rightarrow> u32 \<Rightarrow> u8 \<Rightarrow> u8 \<Rightarrow> u8 \<Rightarrow> u32 \<Rightarrow> u32 \<Rightarrow> instruction_trace" where
  "system_trace pc instruction rd_num funct3 rs1_num rs1_value rd_value =
    (if funct3 = 0 then
       (let imm = get_imm_i instruction;
            inst_type = (if imm AND 1 = 0 then Ecall else Ebreak)
        in \<lparr>it_pc = pc, it_instruction = instruction, it_type = inst_type, it_rd = None,
             it_rs1 = None, it_rs2 = None, it_immediate = None\<rparr>)
     else
       (let csr = drop_bit 20 instruction AND 0xFFF;
            rs1_op = (if funct3 AND 4 \<noteq> 0
              then Some \<lparr>op_reg = rs1_num, op_value = ucast rs1_num\<rparr>
              else Some \<lparr>op_reg = rs1_num, op_value = rs1_value\<rparr>)
        in \<lparr>it_pc = pc, it_instruction = instruction, it_type = csr_inst_type funct3,
             it_rd = Some \<lparr>op_reg = rd_num, op_value = rd_value\<rparr>, it_rs1 = rs1_op,
             it_rs2 = None, it_immediate = Some csr\<rparr>))"

definition from_instruction ::
  "u32 \<Rightarrow> u32 \<Rightarrow> u32 \<Rightarrow> u32 \<Rightarrow> u32 \<Rightarrow> instruction_trace" where
  "from_instruction pc instruction rs1_value rs2_value rd_value =
    (let opcode = instruction AND 0x7F;
         rd_num = ucast (drop_bit 7 instruction AND 0x1F) :: u8;
         funct3 = ucast (drop_bit 12 instruction AND 7) :: u8;
         rs1_num = ucast (drop_bit 15 instruction AND 0x1F) :: u8;
         rs2_num = ucast (drop_bit 20 instruction AND 0x1F) :: u8;
         funct7 = ucast (drop_bit 25 instruction AND 0x7F) :: u8;
         rd = Some \<lparr>op_reg = rd_num, op_value = rd_value\<rparr>;
         rs1 = Some \<lparr>op_reg = rs1_num, op_value = rs1_value\<rparr>;
         rs2 = Some \<lparr>op_reg = rs2_num, op_value = rs2_value\<rparr>;
         tr = (\<lambda>t d a b i. \<lparr>it_pc = pc, it_instruction = instruction, it_type = t, it_rd = d,
           it_rs1 = a, it_rs2 = b, it_immediate = i\<rparr>)
     in if opcode = 0x33 then tr (r_inst_type funct3 funct7) rd rs1 rs2 None
        else if opcode = 0x13 then
          (let imm = get_imm_i instruction;
               shamt = drop_bit 20 instruction AND 0x1F;
               funct7 = drop_bit 25 instruction AND 0x7F;
               (inst_type, imm_val) = i_inst_type funct3 funct7 imm shamt
           in tr inst_type rd rs1 None (Some imm_val))
        else if opcode = 0x03 then
          tr (load_inst_type funct3) rd rs1 None (Some (get_imm_i instruction))
        else if opcode = 0x23 then
          tr (store_inst_type funct3) None rs1 rs2 (Some (get_imm_s instruction))
        else if opcode = 0x63 then
          tr (branch_inst_type funct3) None rs1 rs2 (Some (get_imm_b instruction))
        else if opcode = 0x37 then
          tr Lui rd None None (Some (drop_bit 12 (get_imm_u instruction)))
        else if opcode = 0x17 then
          tr Auipc rd None None (Some (drop_bit 12 (get_imm_u instruction)))
        else if opcode = 0x6F then tr Jal rd None None (Some (get_imm_j instruction))
        else if opcode = 0x67 then tr Jalr rd rs1 None (Some (get_imm_i instruction))
        else if opcode = 0x0F then tr Fence None None None None
        else if opcode = 0x73 then
          system_trace pc instruction rd_num funct3 rs1_num rs1_value rd_value
        else tr Unknown None None None None)"

section \<open>Immediates of the encoded words\<close>

lemma sign_extend_general:
  "(if take_bit (Suc k) y AND 2 ^ k \<noteq> 0 then take_bit (Suc k) y OR NOT (mask (Suc k))
    else take_bit (Suc k) y) = signed_take_bit k y" for y :: "'a::len word"
proof -
  have "take_bit (Suc k) y AND 2 ^ k \<noteq> 0 \<longleftrightarrow> bit y k"
    using and_exp_eq_0_iff_not_bit [of "take_bit (Suc k) y" k] by (simp add: bit_take_bit_iff)
  then show ?thesis
    by (auto intro!: bit_word_eqI simp: bit_signed_take_bit_iff bit_take_bit_iff bit_or_iff
      bit_not_iff bit_mask_iff min_def less_Suc_eq not_less split: if_splits simp del: take_bit_Suc)
qed

lemma sign_extend:
  "(if (y AND 0xFFF) AND 0x800 \<noteq> 0 then y AND 0xFFF OR 0xFFFFF000 else y AND 0xFFF) = signed_take_bit 11 y"
  "(if take_bit 13 y AND 0x1000 \<noteq> 0 then take_bit 13 y OR 0xFFFFE000 else take_bit 13 y) = signed_take_bit 12 y"
  "(if take_bit 21 y AND 0x100000 \<noteq> 0 then take_bit 21 y OR 0xFFE00000 else take_bit 21 y) = signed_take_bit 20 y"
  for y :: u32
proof -
  have m: "(0xFFFFF000 :: u32) = NOT (mask (Suc 11))" "(0xFFFFE000 :: u32) = NOT (mask (Suc 12))"
    "(0xFFE00000 :: u32) = NOT (mask (Suc 20))" "(0x800 :: u32) = 2 ^ 11" "(0x1000 :: u32) = 2 ^ 12"
    "(0x100000 :: u32) = 2 ^ 20" by (simp_all add: mask_eq_exp_minus_1)
  have t: "z AND 0xFFF = take_bit (Suc 11) z" "take_bit 13 y = take_bit (Suc 12) y" "take_bit 21 y = take_bit (Suc 20) y" for z :: u32
    by (simp_all add: field_simps_bits eval_nat_numeral)
  show "(if (y AND 0xFFF) AND 0x800 \<noteq> 0 then y AND 0xFFF OR 0xFFFFF000 else y AND 0xFFF) = signed_take_bit 11 y"
    unfolding m t(1) by (rule sign_extend_general)
  show "(if take_bit 13 y AND 0x1000 \<noteq> 0 then take_bit 13 y OR 0xFFFFE000 else take_bit 13 y) = signed_take_bit 12 y"
    unfolding m t(2) by (rule sign_extend_general)
  show "(if take_bit 21 y AND 0x100000 \<noteq> 0 then take_bit 21 y OR 0xFFE00000 else take_bit 21 y) = signed_take_bit 20 y"
    unfolding m t(3) by (rule sign_extend_general)
qed
lemma signed_take_bit_range:
  assumes "- (2 ^ n) \<le> sint w" "sint w < 2 ^ n" "n < LENGTH('a)"
  shows "signed_take_bit n w = (w :: 'a::len word)"
proof -
  have "signed_take_bit n (sint w) = sint w" using assms by (intro signed_take_bit_int_eq_self) auto
  moreover have "bit (signed_take_bit n w) m = bit (signed_take_bit n (sint w)) m" if "m < LENGTH('a)" for m
    using that assms(3) le_antisym [of n "LENGTH('a) - Suc 0"] by (auto simp: bit_simps min_def)
  ultimately show ?thesis
    by (intro bit_word_eqI) (simp add: bit_sint_iff)
qed
lemma imm_i_encode:
  "drop_bit 20 i AND 0xFFF = imm AND 0xFFF \<Longrightarrow> get_imm_i i = signed_take_bit 11 imm"
  unfolding get_imm_i_def Let_def by (simp only: sign_extend)

lemma imm_s_encode:
  "push_bit 5 (drop_bit 25 i AND 0x7F) OR (drop_bit 7 i AND 0x1F) = imm AND 0xFFF \<Longrightarrow>
    get_imm_s i = signed_take_bit 11 imm"
  unfolding get_imm_s_def Let_def by (simp only: sign_extend)

text \<open>An even immediate loses nothing with its lowest bit.\<close>

lemma even_push_take:
  "even imm \<Longrightarrow> push_bit 1 (take_bit k (drop_bit 1 imm)) = take_bit (Suc k) imm" for imm :: u32
  by (simp add: take_bit_Suc drop_bit_Suc even_iff_mod_2_eq_zero mult.commute)

lemma even_imm:
  assumes "even (imm :: u32)"
  shows "push_bit 1 (drop_bit 1 imm AND 0xFFF) = take_bit 13 imm"
    and "push_bit 1 (drop_bit 1 imm AND 0xFFFFF) = take_bit 21 imm"
  using even_push_take [OF assms, of 12] even_push_take [OF assms, of 20]
  unfolding field_simps_bits by simp_all

lemma imm_b_encode:
  "even imm \<Longrightarrow> push_bit 12 (drop_bit 31 i AND 1) OR push_bit 11 (drop_bit 7 i AND 1) OR
     push_bit 5 (drop_bit 25 i AND 0x3F) OR push_bit 1 (drop_bit 8 i AND 0xF) =
     push_bit 1 (drop_bit 1 imm AND 0xFFF) \<Longrightarrow> get_imm_b i = signed_take_bit 12 imm"
  unfolding get_imm_b_def Let_def by (simp only: even_imm sign_extend)

lemma imm_j_encode:
  "even imm \<Longrightarrow> push_bit 20 (drop_bit 31 i AND 1) OR push_bit 12 (drop_bit 12 i AND 0xFF) OR
     push_bit 11 (drop_bit 20 i AND 1) OR push_bit 1 (drop_bit 21 i AND 0x3FF) =
     push_bit 1 (drop_bit 1 imm AND 0xFFFFF) \<Longrightarrow> get_imm_j i = signed_take_bit 20 imm"
  unfolding get_imm_j_def Let_def by (simp only: even_imm sign_extend)

section \<open>Encoding by type\<close>

text \<open>The encoder of each instruction type, over one list of operands.\<close>

fun asm_encode :: "instruction_type \<Rightarrow> u32 \<Rightarrow> u32 \<Rightarrow> u32 \<Rightarrow> i32 \<Rightarrow> u32" where
  "asm_encode Add rd rs1 rs2 imm = add_insn rd rs1 rs2"
| "asm_encode Sub rd rs1 rs2 imm = sub_insn rd rs1 rs2"
| "asm_encode Sll rd rs1 rs2 imm = sll rd rs1 rs2"
| "asm_encode Slt rd rs1 rs2 imm = slt rd rs1 rs2"
| "asm_encode Sltu rd rs1 rs2 imm = sltu rd rs1 rs2"
| "asm_encode Xor rd rs1 rs2 imm = xor_insn rd rs1 rs2"
| "asm_encode Srl rd rs1 rs2 imm = srl rd rs1 rs2"
| "asm_encode Sra rd rs1 rs2 imm = sra rd rs1 rs2"
| "asm_encode Or rd rs1 rs2 imm = or_insn rd rs1 rs2"
| "asm_encode And rd rs1 rs2 imm = and_insn rd rs1 rs2"
| "asm_encode Mul rd rs1 rs2 imm = mul_insn rd rs1 rs2"
| "asm_encode Mulh rd rs1 rs2 imm = mulh rd rs1 rs2"
| "asm_encode Mulhsu rd rs1 rs2 imm = mulhsu rd rs1 rs2"
| "asm_encode Mulhu rd rs1 rs2 imm = mulhu rd rs1 rs2"
| "asm_encode Div rd rs1 rs2 imm = div_insn rd rs1 rs2"
| "asm_encode Divu rd rs1 rs2 imm = divu rd rs1 rs2"
| "asm_encode Rem rd rs1 rs2 imm = rem_insn rd rs1 rs2"
| "asm_encode Remu rd rs1 rs2 imm = remu rd rs1 rs2"
| "asm_encode Addi rd rs1 rs2 imm = addi rd rs1 imm"
| "asm_encode Slti rd rs1 rs2 imm = slti rd rs1 imm"
| "asm_encode Sltiu rd rs1 rs2 imm = sltiu rd rs1 imm"
| "asm_encode Xori rd rs1 rs2 imm = xori rd rs1 imm"
| "asm_encode Ori rd rs1 rs2 imm = ori rd rs1 imm"
| "asm_encode Andi rd rs1 rs2 imm = andi rd rs1 imm"
| "asm_encode Jalr rd rs1 rs2 imm = jalr rd rs1 imm"
| "asm_encode Lw rd rs1 rs2 imm = lw rd rs1 imm"
| "asm_encode Lh rd rs1 rs2 imm = lh rd rs1 imm"
| "asm_encode Lb rd rs1 rs2 imm = lb rd rs1 imm"
| "asm_encode Lhu rd rs1 rs2 imm = lhu rd rs1 imm"
| "asm_encode Lbu rd rs1 rs2 imm = lbu rd rs1 imm"
| "asm_encode Slli rd rs1 rs2 imm = slli rd rs1 imm"
| "asm_encode Srli rd rs1 rs2 imm = srli rd rs1 imm"
| "asm_encode Srai rd rs1 rs2 imm = srai rd rs1 imm"
| "asm_encode Sw rd rs1 rs2 imm = sw rs1 rs2 imm"
| "asm_encode Sh rd rs1 rs2 imm = sh rs1 rs2 imm"
| "asm_encode Sb rd rs1 rs2 imm = sb rs1 rs2 imm"
| "asm_encode Beq rd rs1 rs2 imm = beq rs1 rs2 imm"
| "asm_encode Bne rd rs1 rs2 imm = bne rs1 rs2 imm"
| "asm_encode Blt rd rs1 rs2 imm = blt rs1 rs2 imm"
| "asm_encode Bge rd rs1 rs2 imm = bge rs1 rs2 imm"
| "asm_encode Bltu rd rs1 rs2 imm = bltu rs1 rs2 imm"
| "asm_encode Bgeu rd rs1 rs2 imm = bgeu rs1 rs2 imm"
| "asm_encode Lui rd rs1 rs2 imm = lui rd imm"
| "asm_encode Auipc rd rs1 rs2 imm = auipc rd imm"
| "asm_encode Jal rd rs1 rs2 imm = jal rd imm"
| "asm_encode Csrrw rd rs1 rs2 imm = csrrw rd rs1 imm"
| "asm_encode Csrrs rd rs1 rs2 imm = csrrs rd rs1 imm"
| "asm_encode Csrrc rd rs1 rs2 imm = csrrc rd rs1 imm"
| "asm_encode Csrrwi rd rs1 rs2 imm = csrrwi rd rs1 imm"
| "asm_encode Csrrsi rd rs1 rs2 imm = csrrsi rd rs1 imm"
| "asm_encode Csrrci rd rs1 rs2 imm = csrrci rd rs1 imm"
| "asm_encode Ecall rd rs1 rs2 imm = ecall"
| "asm_encode Ebreak rd rs1 rs2 imm = ebreak"
| "asm_encode Fence rd rs1 rs2 imm = fence"
| "asm_encode Unknown rd rs1 rs2 imm = 0"

datatype operand_format =
  R_fmt | I_fmt | Shift_fmt | S_fmt | B_fmt | U_fmt | J_fmt | Csr_fmt | Csri_fmt | No_operands

definition insn_format :: "instruction_type \<Rightarrow> operand_format" where
  "insn_format t =
    (if t \<in> {Addi, Slti, Sltiu, Xori, Ori, Andi, Jalr, Lw, Lh, Lb, Lhu, Lbu} then I_fmt
     else if t \<in> {Slli, Srli, Srai} then Shift_fmt
     else if t \<in> {Sw, Sh, Sb} then S_fmt
     else if t \<in> {Beq, Bne, Blt, Bge, Bltu, Bgeu} then B_fmt
     else if t \<in> {Lui, Auipc} then U_fmt
     else if t = Jal then J_fmt
     else if t \<in> {Csrrw, Csrrs, Csrrc} then Csr_fmt
     else if t \<in> {Csrrwi, Csrrsi, Csrrci} then Csri_fmt
     else if t \<in> {Ecall, Ebreak, Fence} then No_operands
     else R_fmt)"

text \<open>The immediates an instruction of a format can hold.\<close>

definition imm_fits :: "operand_format \<Rightarrow> i32 \<Rightarrow> bool" where
  "imm_fits fmt imm =
    (case fmt of
       I_fmt \<Rightarrow> - 2048 \<le> sint imm \<and> sint imm < 2048
     | S_fmt \<Rightarrow> - 2048 \<le> sint imm \<and> sint imm < 2048
     | B_fmt \<Rightarrow> - 4096 \<le> sint imm \<and> sint imm < 4096 \<and> even imm
     | J_fmt \<Rightarrow> - 1048576 \<le> sint imm \<and> sint imm < 1048576 \<and> even imm
     | Shift_fmt \<Rightarrow> imm < 32
     | Csr_fmt \<Rightarrow> imm < 4096
     | Csri_fmt \<Rightarrow> imm < 4096
     | _ \<Rightarrow> True)"

text \<open>The trace entry an instruction should produce.\<close>

definition asm_trace ::
  "u32 \<Rightarrow> u32 \<Rightarrow> instruction_type \<Rightarrow> u32 \<Rightarrow> u32 \<Rightarrow> u32 \<Rightarrow> i32 \<Rightarrow> u32 \<Rightarrow> u32 \<Rightarrow> u32 \<Rightarrow>
    instruction_trace" where
  "asm_trace pc i t rd rs1 rs2 imm v1 v2 vd =
    (let fmt = insn_format t;
         operand = (\<lambda>r v. Some \<lparr>op_reg = ucast r, op_value = v\<rparr>)
     in \<lparr>it_pc = pc, it_instruction = i, it_type = t,
         it_rd = (if fmt \<in> {S_fmt, B_fmt, No_operands} then None else operand rd vd),
         it_rs1 = (if fmt \<in> {U_fmt, J_fmt, No_operands} then None
                   else if fmt = Csri_fmt then operand rs1 rs1 else operand rs1 v1),
         it_rs2 = (if fmt \<in> {R_fmt, S_fmt, B_fmt} then operand rs2 v2 else None),
         it_immediate = (if fmt \<in> {R_fmt, No_operands} then None
                         else if fmt = U_fmt then Some (drop_bit 12 imm) else Some imm)\<rparr>)"

section \<open>Decoding each format\<close>

lemma decode_r:
  assumes "rd < 32" "rs1 < 32" "rs2 < 32" "f3 < 8" "f7 < 128"
  shows "from_instruction pc (encode_r_type 0x33 rd f3 rs1 rs2 f7) v1 v2 vd =
    \<lparr>it_pc = pc, it_instruction = encode_r_type 0x33 rd f3 rs1 rs2 f7,
     it_type = r_inst_type (ucast f3) (ucast f7), it_rd = Some \<lparr>op_reg = ucast rd, op_value = vd\<rparr>,
     it_rs1 = Some \<lparr>op_reg = ucast rs1, op_value = v1\<rparr>,
     it_rs2 = Some \<lparr>op_reg = ucast rs2, op_value = v2\<rparr>, it_immediate = None\<rparr>"
  using assms by (simp add: from_instruction_def Let_def r_fields)

lemma decode_i_alu:
  assumes "rd < 32" "rs1 < 32" "f3 < 8"
  shows "from_instruction pc (encode_i_type 0x13 rd f3 rs1 imm) v1 v2 vd =
    (let (t, v) = i_inst_type (ucast f3) (drop_bit 5 imm AND 0x7F) (signed_take_bit 11 imm) (imm AND 0x1F)
     in \<lparr>it_pc = pc, it_instruction = encode_i_type 0x13 rd f3 rs1 imm, it_type = t,
         it_rd = Some \<lparr>op_reg = ucast rd, op_value = vd\<rparr>,
         it_rs1 = Some \<lparr>op_reg = ucast rs1, op_value = v1\<rparr>, it_rs2 = None, it_immediate = Some v\<rparr>)"
  using assms imm_i_encode [OF i_fields(7), of "0x13" rd f3 rs1 imm]
  by (simp add: from_instruction_def Let_def i_fields split: prod.splits)

lemma decode_load:
  assumes "rd < 32" "rs1 < 32" "f3 < 8"
  shows "from_instruction pc (encode_i_type 3 rd f3 rs1 imm) v1 v2 vd =
    \<lparr>it_pc = pc, it_instruction = encode_i_type 3 rd f3 rs1 imm, it_type = load_inst_type (ucast f3),
     it_rd = Some \<lparr>op_reg = ucast rd, op_value = vd\<rparr>, it_rs1 = Some \<lparr>op_reg = ucast rs1, op_value = v1\<rparr>,
     it_rs2 = None, it_immediate = Some (signed_take_bit 11 imm)\<rparr>"
  using assms imm_i_encode [OF i_fields(7), of "3" rd f3 rs1 imm]
  by (simp add: from_instruction_def Let_def i_fields)

lemma decode_jalr:
  assumes "rd < 32" "rs1 < 32"
  shows "from_instruction pc (encode_i_type 0x67 rd 0 rs1 imm) v1 v2 vd =
    \<lparr>it_pc = pc, it_instruction = encode_i_type 0x67 rd 0 rs1 imm, it_type = Jalr,
     it_rd = Some \<lparr>op_reg = ucast rd, op_value = vd\<rparr>, it_rs1 = Some \<lparr>op_reg = ucast rs1, op_value = v1\<rparr>,
     it_rs2 = None, it_immediate = Some (signed_take_bit 11 imm)\<rparr>"
  using assms imm_i_encode [OF i_fields(7), of "0x67" rd 0 rs1 imm]
  by (simp add: from_instruction_def Let_def i_fields)

lemma decode_system:
  assumes "rd < 32" "rs1 < 32" "f3 < 8"
  shows "from_instruction pc (encode_i_type 0x73 rd f3 rs1 imm) v1 v2 vd =
    system_trace pc (encode_i_type 0x73 rd f3 rs1 imm) (ucast rd) (ucast f3) (ucast rs1) v1 vd"
  using assms by (simp add: from_instruction_def Let_def i_fields)

lemma decode_store:
  assumes "rs1 < 32" "rs2 < 32" "f3 < 8"
  shows "from_instruction pc (encode_s_type 0x23 f3 rs1 rs2 imm) v1 v2 vd =
    \<lparr>it_pc = pc, it_instruction = encode_s_type 0x23 f3 rs1 rs2 imm,
     it_type = store_inst_type (ucast f3), it_rd = None,
     it_rs1 = Some \<lparr>op_reg = ucast rs1, op_value = v1\<rparr>,
     it_rs2 = Some \<lparr>op_reg = ucast rs2, op_value = v2\<rparr>, it_immediate = Some (signed_take_bit 11 imm)\<rparr>"
  using assms imm_s_encode [OF s_fields(5), of "0x23" f3 rs1 rs2 imm]
  by (simp add: from_instruction_def Let_def s_fields)

lemma decode_branch:
  assumes "rs1 < 32" "rs2 < 32" "f3 < 8" "even imm"
  shows "from_instruction pc (encode_b_type 0x63 f3 rs1 rs2 imm) v1 v2 vd =
    \<lparr>it_pc = pc, it_instruction = encode_b_type 0x63 f3 rs1 rs2 imm,
     it_type = branch_inst_type (ucast f3), it_rd = None,
     it_rs1 = Some \<lparr>op_reg = ucast rs1, op_value = v1\<rparr>,
     it_rs2 = Some \<lparr>op_reg = ucast rs2, op_value = v2\<rparr>, it_immediate = Some (signed_take_bit 12 imm)\<rparr>"
  using assms imm_b_encode [OF _ b_fields(5), of imm "0x63" f3 rs1 rs2]
  by (simp add: from_instruction_def Let_def b_fields)

lemma upper_field: "drop_bit 12 imm AND 0xFFFFF = drop_bit 12 (imm :: u32)"
  unfolding field_simps_bits by (rule bit_word_eqI) (auto simp: bit_simps dest: bit_imp_le_length)

lemma decode_upper:
  assumes "rd < 32" "opcode = 0x37 \<or> opcode = 0x17"
  shows "from_instruction pc (encode_u_type opcode rd imm) v1 v2 vd =
    \<lparr>it_pc = pc, it_instruction = encode_u_type opcode rd imm,
     it_type = (if opcode = 0x37 then Lui else Auipc),
     it_rd = Some \<lparr>op_reg = ucast rd, op_value = vd\<rparr>, it_rs1 = None, it_rs2 = None,
     it_immediate = Some (drop_bit 12 imm)\<rparr>"
  using assms(2)
  by (elim disjE; hypsubst)
    (simp_all add: from_instruction_def Let_def u_fields assms(1) get_imm_u_def upper_field)

lemma decode_jal:
  assumes "rd < 32" "even imm"
  shows "from_instruction pc (jal rd imm) v1 v2 vd =
    \<lparr>it_pc = pc, it_instruction = jal rd imm, it_type = Jal,
     it_rd = Some \<lparr>op_reg = ucast rd, op_value = vd\<rparr>, it_rs1 = None, it_rs2 = None,
     it_immediate = Some (signed_take_bit 20 imm)\<rparr>"
  using assms imm_j_encode [OF _ j_fields(3), of imm rd]
  by (simp add: from_instruction_def Let_def j_fields)

lemmas decode_formats =
  decode_r decode_i_alu decode_load decode_jalr decode_system decode_store decode_branch
  decode_upper decode_jal

lemma imm_fits_signed:
  "imm_fits I_fmt imm \<Longrightarrow> signed_take_bit 11 imm = imm" "imm_fits S_fmt imm \<Longrightarrow> signed_take_bit 11 imm = imm"
  "imm_fits B_fmt imm \<Longrightarrow> signed_take_bit 12 imm = imm" "imm_fits J_fmt imm \<Longrightarrow> signed_take_bit 20 imm = imm"
  by (simp_all add: imm_fits_def signed_take_bit_range)

lemma small_and:
  "imm < 32 \<Longrightarrow> imm AND 0x1F = imm" "imm < 32 \<Longrightarrow> (imm OR 0x400) AND 0x1F = imm"
  "imm < 32 \<Longrightarrow> drop_bit 5 imm = 0"
  "imm < 4096 \<Longrightarrow> imm AND 0xFFF = imm" for imm :: u32
proof -
  show "imm AND 0xFFF = imm" if "imm < 4096"
    unfolding field_simps_bits using that by (intro take_bit_small) (simp add: word_less_nat_alt)
  assume "imm < 32"
  note z = field_bits(5) [OF this]
  show "imm AND 0x1F = imm" "(imm OR 0x400) AND 0x1F = imm" "drop_bit 5 imm = 0"
    unfolding field_simps_bits by (rule word32_eqI, simp add: bit_simps z del: bit_0)+
qed

lemma system_words: "ecall = 0x73" "ebreak = 0x100073" "fence = 0x0FF0000F"
  by (simp_all add: encoders encode_i_type_def)

lemma register_ucast: "rs1 < 32 \<Longrightarrow> ucast (ucast rs1 :: u8) = (rs1 :: u32)"
proof -
  assume "rs1 < 32"
  note z = field_bits(5) [OF this]
  show ?thesis by (rule word32_eqI) (simp add: bit_simps z del: bit_0)
qed

text \<open>
  C38: every instruction type decodes from its encoder.  For register numbers below 32 and an
  immediate that fits the format, \<open>from_instruction\<close> applied to the word the encoder of the type
  builds yields that type, exactly those registers with the values given, and exactly that
  immediate (sign included; the upper 20 bits for LUI and AUIPC, the CSR number for Zicsr).
\<close>

theorem decode_encode:
  assumes "t \<noteq> Unknown" "rd < 32" "rs1 < 32" "rs2 < 32" "imm_fits (insn_format t) imm"
  shows "from_instruction pc (asm_encode t rd rs1 rs2 imm) v1 v2 vd =
    asm_trace pc (asm_encode t rd rs1 rs2 imm) t rd rs1 rs2 imm v1 v2 vd"
proof -
  consider "t \<in> {Add, Sub, Sll, Slt, Sltu, Xor, Srl, Sra, Or, And, Mul, Mulh, Mulhsu, Mulhu, Div, Divu, Rem, Remu}"
    | "t \<in> {Addi, Slti, Sltiu, Xori, Ori, Andi, Jalr, Lw, Lh, Lb, Lhu, Lbu}"
    | "t \<in> {Slli, Srli, Srai}" | "t \<in> {Sw, Sh, Sb}" | "t \<in> {Beq, Bne, Blt, Bge, Bltu, Bgeu}"
    | "t \<in> {Lui, Auipc}" | "t = Jal" | "t \<in> {Csrrw, Csrrs, Csrrc}" | "t \<in> {Csrrwi, Csrrsi, Csrrci}"
    | "t \<in> {Ecall, Ebreak, Fence}"
    using assms(1) by (cases t) simp_all
  then show ?thesis
  proof cases
    case 1
    then show ?thesis using assms
      by (elim insertE emptyE; hypsubst)
        (simp_all add: asm_trace_def insn_format_def encoders decode_r r_inst_type_def)
  next
    case 2
    then have "insn_format t = I_fmt" by (auto simp: insn_format_def)
    with assms(5) have "signed_take_bit 11 imm = imm" by (simp add: imm_fits_signed)
    with 2 assms(2-4) show ?thesis
      by (elim insertE emptyE; hypsubst)
        (simp_all add: asm_trace_def insn_format_def encoders decode_i_alu decode_load decode_jalr
          i_inst_type_def load_inst_type_def)
  next
    case 3
    then have "imm < 32" using assms(5) by (auto simp: insn_format_def imm_fits_def)
    with 3 assms(2-4) show ?thesis
      by (elim insertE emptyE; hypsubst)
        (simp_all add: asm_trace_def insn_format_def encoders decode_i_alu i_inst_type_def small_and)
  next
    case 4
    then have "insn_format t = S_fmt" by (auto simp: insn_format_def)
    with assms(5) have "signed_take_bit 11 imm = imm" by (simp add: imm_fits_signed)
    with 4 assms(2-4) show ?thesis
      by (elim insertE emptyE; hypsubst)
        (simp_all add: asm_trace_def insn_format_def encoders decode_store store_inst_type_def)
  next
    case 5
    then have "insn_format t = B_fmt" by (auto simp: insn_format_def)
    with assms(5) have "signed_take_bit 12 imm = imm" "even imm"
      by (simp_all add: imm_fits_signed) (simp add: imm_fits_def)
    with 5 assms(2-4) show ?thesis
      by (elim insertE emptyE; hypsubst)
        (simp_all add: asm_trace_def insn_format_def encoders decode_branch branch_inst_type_def)
  next
    case 6
    with assms(2) show ?thesis
      by (elim insertE emptyE; hypsubst)
        (simp_all add: asm_trace_def insn_format_def encoders decode_upper)
  next
    case 7
    with assms(5) have "signed_take_bit 20 imm = imm" "even imm"
      by (simp_all add: imm_fits_signed insn_format_def) (simp add: imm_fits_def insn_format_def)
    with 7 assms(2) show ?thesis
      by (simp add: asm_trace_def insn_format_def decode_jal)
  next
    case 8
    then have "imm < 4096" using assms(5) by (auto simp: insn_format_def imm_fits_def)
    with 8 assms(2-4) show ?thesis
      by (elim insertE emptyE; hypsubst)
        (simp_all add: asm_trace_def insn_format_def encoders decode_system system_trace_def
          csr_inst_type_def i_fields small_and)
  next
    case 9
    then have "imm < 4096" using assms(5) by (auto simp: insn_format_def imm_fits_def)
    with 9 assms(2-4) show ?thesis
      by (elim insertE emptyE; hypsubst)
        (simp_all add: asm_trace_def insn_format_def encoders decode_system system_trace_def
          csr_inst_type_def i_fields small_and register_ucast)
  next
    case 10
    then show ?thesis
      by (elim insertE emptyE; hypsubst)
        (simp_all add: asm_trace_def insn_format_def system_words system_trace_def Let_def
          get_imm_i_def from_instruction_def)
  qed
qed

lemma decode_encode_witness:
  "from_instruction 0x80000000 (asm_encode Addi 1 2 0 (- 5)) 10 0 5 =
    asm_trace 0x80000000 (asm_encode Addi 1 2 0 (- 5)) Addi 1 2 0 (- 5) 10 0 5"
proof (rule decode_encode)
  have "sint (- 5 :: i32) = - 5" by simp
  then show "imm_fits (insn_format Addi) (- 5)" by (simp add: imm_fits_def insn_format_def)
qed simp_all

end
