(* ===== verification/Insn_Disasm.thy ===== *)
theory Insn_Disasm
  imports Insn_Decode Text_Format
begin

text \<open>
  The disassembler \<open>riscv_core/src/disasm.rs\<close> and the \<open>Display\<close> of a trace entry
  (\<open>trace.rs\<close>).  Strings are character lists; \<open>{}\<close>, \<open>{:x}\<close> and \<open>{:02x}\<close> are the formatters of
  \<open>Text_Format\<close>.  A \<open>match\<close> whose default arm returns the text of an unknown instruction is a
  table with an optional mnemonic.  The theorems relate the text to the decoder of the trace
  (the two are separate code) and to the encoders.
\<close>

section \<open>Operands\<close>

text \<open>\<open>x{}=0x{:x}\<close> of a register number and its value.\<close>

definition fmt_reg :: "u8 \<Rightarrow> u32 \<Rightarrow> string" where
  "fmt_reg r v = ''x'' @ fmt_dec_word r @ ''=0x'' @ fmt_x_word v"

definition fmt_i32 :: "i32 \<Rightarrow> string" where
  "fmt_i32 v = fmt_int (sint v)"

text \<open>The immediates are extracted by copies of the functions of \<open>trace.rs\<close>.\<close>

definition disasm_imm_i :: "u32 \<Rightarrow> u32" where
  "disasm_imm_i i =
    (let imm = drop_bit 20 i AND 0xFFF
     in if imm AND 0x800 \<noteq> 0 then imm OR 0xFFFFF000 else imm)"

definition disasm_imm_s :: "u32 \<Rightarrow> u32" where
  "disasm_imm_s i =
    (let imm_11_5 = drop_bit 25 i AND 0x7F;
         imm_4_0 = drop_bit 7 i AND 0x1F;
         imm = push_bit 5 imm_11_5 OR imm_4_0
     in if imm AND 0x800 \<noteq> 0 then imm OR 0xFFFFF000 else imm)"

definition disasm_imm_b :: "u32 \<Rightarrow> u32" where
  "disasm_imm_b i =
    (let imm_12 = drop_bit 31 i AND 1;
         imm_10_5 = drop_bit 25 i AND 0x3F;
         imm_4_1 = drop_bit 8 i AND 0xF;
         imm_11 = drop_bit 7 i AND 1;
         imm = push_bit 12 imm_12 OR push_bit 11 imm_11 OR push_bit 5 imm_10_5 OR push_bit 1 imm_4_1
     in if imm AND 0x1000 \<noteq> 0 then imm OR 0xFFFFE000 else imm)"

definition disasm_imm_u :: "u32 \<Rightarrow> u32" where
  "disasm_imm_u i = i AND 0xFFFFF000"

definition disasm_imm_j :: "u32 \<Rightarrow> u32" where
  "disasm_imm_j i =
    (let imm_20 = drop_bit 31 i AND 1;
         imm_10_1 = drop_bit 21 i AND 0x3FF;
         imm_11 = drop_bit 20 i AND 1;
         imm_19_12 = drop_bit 12 i AND 0xFF;
         imm = push_bit 20 imm_20 OR push_bit 12 imm_19_12 OR push_bit 11 imm_11 OR push_bit 1 imm_10_1
     in if imm AND 0x100000 \<noteq> 0 then imm OR 0xFFE00000 else imm)"

lemma disasm_imm_eq [simp]:
  "disasm_imm_i = get_imm_i" "disasm_imm_s = get_imm_s" "disasm_imm_b = get_imm_b"
  "disasm_imm_u = get_imm_u" "disasm_imm_j = get_imm_j"
  by (simp_all add: fun_eq_iff disasm_imm_i_def get_imm_i_def disasm_imm_s_def get_imm_s_def
    disasm_imm_b_def get_imm_b_def disasm_imm_u_def get_imm_u_def disasm_imm_j_def get_imm_j_def)

section \<open>Mnemonic tables\<close>

definition r_mnemonic :: "u8 \<Rightarrow> u8 \<Rightarrow> string option" where
  "r_mnemonic funct3 funct7 =
    (let m = (funct3, funct7)
     in if m = (0, 0) then Some ''add'' else if m = (0, 0x20) then Some ''sub''
     else if m = (1, 0) then Some ''sll'' else if m = (2, 0) then Some ''slt''
     else if m = (3, 0) then Some ''sltu'' else if m = (4, 0) then Some ''xor''
     else if m = (5, 0) then Some ''srl'' else if m = (5, 0x20) then Some ''sra''
     else if m = (6, 0) then Some ''or'' else if m = (7, 0) then Some ''and''
     else if m = (0, 1) then Some ''mul'' else if m = (1, 1) then Some ''mulh''
     else if m = (2, 1) then Some ''mulhsu'' else if m = (3, 1) then Some ''mulhu''
     else if m = (4, 1) then Some ''div'' else if m = (5, 1) then Some ''divu''
     else if m = (6, 1) then Some ''rem'' else if m = (7, 1) then Some ''remu''
     else None)"

definition i_mnemonic :: "u8 \<Rightarrow> u32 \<Rightarrow> string option" where
  "i_mnemonic funct3 funct7 =
    (if funct3 = 0 then Some ''addi'' else if funct3 = 2 then Some ''slti''
     else if funct3 = 3 then Some ''sltiu'' else if funct3 = 4 then Some ''xori''
     else if funct3 = 6 then Some ''ori'' else if funct3 = 7 then Some ''andi''
     else if funct3 = 1 then Some ''slli''
     else if funct3 = 5 then (if funct7 = 0 then Some ''srli'' else Some ''srai'')
     else None)"

definition load_mnemonic :: "u8 \<Rightarrow> string option" where
  "load_mnemonic funct3 =
    (if funct3 = 2 then Some ''lw'' else if funct3 = 0 then Some ''lb''
     else if funct3 = 1 then Some ''lh'' else if funct3 = 4 then Some ''lbu''
     else if funct3 = 5 then Some ''lhu''
     else None)"

definition store_mnemonic :: "u8 \<Rightarrow> string option" where
  "store_mnemonic funct3 =
    (if funct3 = 2 then Some ''sw'' else if funct3 = 0 then Some ''sb''
     else if funct3 = 1 then Some ''sh''
     else None)"

definition branch_mnemonic :: "u8 \<Rightarrow> string option" where
  "branch_mnemonic funct3 =
    (if funct3 = 0 then Some ''beq'' else if funct3 = 1 then Some ''bne''
     else if funct3 = 4 then Some ''blt'' else if funct3 = 5 then Some ''bge''
     else if funct3 = 6 then Some ''bltu'' else if funct3 = 7 then Some ''bgeu''
     else None)"

definition csr_mnemonic :: "u8 \<Rightarrow> string option" where
  "csr_mnemonic funct3 =
    (if funct3 = 1 then Some ''csrrw'' else if funct3 = 2 then Some ''csrrs''
     else if funct3 = 3 then Some ''csrrc'' else if funct3 = 5 then Some ''csrrwi''
     else if funct3 = 6 then Some ''csrrsi'' else if funct3 = 7 then Some ''csrrci''
     else None)"

section \<open>Instruction groups\<close>

definition disassemble_r_type ::
  "u8 \<Rightarrow> u8 \<Rightarrow> u8 \<Rightarrow> u8 \<Rightarrow> u8 \<Rightarrow> u32 \<Rightarrow> u32 \<Rightarrow> u32 \<Rightarrow> string" where
  "disassemble_r_type rd funct3 rs1 rs2 funct7 rs1_value rs2_value rd_value =
    (case r_mnemonic funct3 funct7 of
       None \<Rightarrow> ''unknown R-type f3='' @ fmt_dec_word funct3 @ '' f7='' @ fmt_dec_word funct7
     | Some m \<Rightarrow> m @ '' '' @ fmt_reg rd rd_value @ '', '' @ fmt_reg rs1 rs1_value @ '', '' @
         fmt_reg rs2 rs2_value)"

definition disassemble_i_type_alu ::
  "u32 \<Rightarrow> u8 \<Rightarrow> u8 \<Rightarrow> u8 \<Rightarrow> u32 \<Rightarrow> u32 \<Rightarrow> string" where
  "disassemble_i_type_alu instruction rd funct3 rs1 rs1_value rd_value =
    (let imm = disasm_imm_i instruction;
         shamt = drop_bit 20 instruction AND 0x1F;
         funct7 = drop_bit 25 instruction AND 0x7F
     in case i_mnemonic funct3 funct7 of
          None \<Rightarrow> ''unknown I-type f3='' @ fmt_dec_word funct3
        | Some m \<Rightarrow>
            m @ '' '' @ fmt_reg rd rd_value @ '', '' @ fmt_reg rs1 rs1_value @ '', '' @
            (if funct3 = 1 \<or> funct3 = 5 then fmt_dec_word shamt else fmt_i32 imm))"

definition disassemble_load :: "u8 \<Rightarrow> u8 \<Rightarrow> u8 \<Rightarrow> u32 \<Rightarrow> u32 \<Rightarrow> u32 \<Rightarrow> string" where
  "disassemble_load rd funct3 rs1 imm rs1_value rd_value =
    (case load_mnemonic funct3 of
       None \<Rightarrow> ''unknown load f3='' @ fmt_dec_word funct3
     | Some m \<Rightarrow> m @ '' '' @ fmt_reg rd rd_value @ '', '' @ fmt_i32 imm @ ''('' @
         fmt_reg rs1 rs1_value @ '')'')"

definition disassemble_store :: "u8 \<Rightarrow> u8 \<Rightarrow> u8 \<Rightarrow> u32 \<Rightarrow> u32 \<Rightarrow> u32 \<Rightarrow> string" where
  "disassemble_store funct3 rs1 rs2 imm rs1_value rs2_value =
    (case store_mnemonic funct3 of
       None \<Rightarrow> ''unknown store f3='' @ fmt_dec_word funct3
     | Some m \<Rightarrow> m @ '' '' @ fmt_reg rs2 rs2_value @ '', '' @ fmt_i32 imm @ ''('' @
         fmt_reg rs1 rs1_value @ '')'')"

definition disassemble_branch :: "u8 \<Rightarrow> u8 \<Rightarrow> u8 \<Rightarrow> u32 \<Rightarrow> u32 \<Rightarrow> u32 \<Rightarrow> string" where
  "disassemble_branch funct3 rs1 rs2 imm rs1_value rs2_value =
    (case branch_mnemonic funct3 of
       None \<Rightarrow> ''unknown branch f3='' @ fmt_dec_word funct3
     | Some m \<Rightarrow> m @ '' '' @ fmt_reg rs1 rs1_value @ '', '' @ fmt_reg rs2 rs2_value @ '', '' @
         fmt_i32 imm)"

definition disassemble_fence :: "u32 \<Rightarrow> string" where
  "disassemble_fence instruction = ''fence''"

definition disassemble_system :: "u32 \<Rightarrow> u8 \<Rightarrow> u8 \<Rightarrow> u8 \<Rightarrow> u32 \<Rightarrow> u32 \<Rightarrow> string" where
  "disassemble_system instruction rd funct3 rs1 rs1_value rd_value =
    (if funct3 = 0 then
       (let imm = disasm_imm_i instruction in if imm AND 1 = 0 then ''ecall'' else ''ebreak'')
     else
       (let csr = drop_bit 20 instruction AND 0xFFF; zimm = rs1
        in case csr_mnemonic funct3 of
             None \<Rightarrow> ''unknown SYSTEM f3='' @ fmt_dec_word funct3
           | Some m \<Rightarrow>
               if funct3 AND 4 \<noteq> 0
               then m @ '' '' @ fmt_reg rd rd_value @ '', 0x'' @ fmt_x_word csr @ '', '' @ fmt_dec_word zimm
               else m @ '' '' @ fmt_reg rd rd_value @ '', 0x'' @ fmt_x_word csr @ '', '' @
                 fmt_reg rs1 rs1_value))"

text \<open>
  The arms of \<open>disassemble_atomic\<close> other than \<open>lr.w\<close> differ only in the mnemonic.
\<close>

definition atomic_mnemonic :: "u32 \<Rightarrow> string option" where
  "atomic_mnemonic funct5 =
    (if funct5 = 2 then Some ''lr.w''
     else if funct5 = 3 then Some ''sc.w''
     else if funct5 = 1 then Some ''amoswap.w''
     else if funct5 = 0 then Some ''amoadd.w''
     else if funct5 = 4 then Some ''amoxor.w''
     else if funct5 = 0xC then Some ''amoand.w''
     else if funct5 = 8 then Some ''amoor.w''
     else if funct5 = 0x10 then Some ''amomin.w''
     else if funct5 = 0x14 then Some ''amomax.w''
     else if funct5 = 0x18 then Some ''amominu.w''
     else if funct5 = 0x1C then Some ''amomaxu.w''
     else None)"

definition atomic_ordering :: "u32 \<Rightarrow> u32 \<Rightarrow> string" where
  "atomic_ordering aq rl =
    (let m = (aq, rl)
     in if m = (0, 0) then [] else if m = (1, 0) then ''.aq''
        else if m = (0, 1) then ''.rl'' else if m = (1, 1) then ''.aqrl'' else [])"

definition disassemble_atomic ::
  "u32 \<Rightarrow> u8 \<Rightarrow> u8 \<Rightarrow> u8 \<Rightarrow> u8 \<Rightarrow> u32 \<Rightarrow> u32 \<Rightarrow> u32 \<Rightarrow> string" where
  "disassemble_atomic instruction rd funct3 rs1 rs2 rs1_value rs2_value rd_value =
    (if funct3 \<noteq> 2 then ''unknown atomic f3='' @ fmt_dec_word funct3
     else
       (let funct5 = drop_bit 27 instruction AND 0x1F;
            aq = drop_bit 26 instruction AND 1;
            rl = drop_bit 25 instruction AND 1;
            ordering = atomic_ordering aq rl
        in case atomic_mnemonic funct5 of
             None \<Rightarrow> ''unknown atomic funct5='' @ fmt_dec_word funct5
           | Some m \<Rightarrow>
               if funct5 = 2
               then m @ ordering @ '' '' @ fmt_reg rd rd_value @ '', ('' @ fmt_reg rs1 rs1_value @ '')''
               else m @ ordering @ '' '' @ fmt_reg rd rd_value @ '', '' @ fmt_reg rs2 rs2_value @
                 '', ('' @ fmt_reg rs1 rs1_value @ '')''))"

section \<open>The disassembler\<close>

definition disassemble_with_all_values :: "u32 \<Rightarrow> u32 \<Rightarrow> u32 \<Rightarrow> u32 \<Rightarrow> string" where
  "disassemble_with_all_values instruction rs1_value rs2_value rd_value =
    (let opcode = instruction AND 0x7F;
         rd = ucast (drop_bit 7 instruction AND 0x1F) :: u8;
         funct3 = ucast (drop_bit 12 instruction AND 7) :: u8;
         rs1 = ucast (drop_bit 15 instruction AND 0x1F) :: u8;
         rs2 = ucast (drop_bit 20 instruction AND 0x1F) :: u8;
         funct7 = ucast (drop_bit 25 instruction AND 0x7F) :: u8
     in if opcode = 0x33 then
          disassemble_r_type rd funct3 rs1 rs2 funct7 rs1_value rs2_value rd_value
        else if opcode = 0x13 then disassemble_i_type_alu instruction rd funct3 rs1 rs1_value rd_value
        else if opcode = 0x03 then
          disassemble_load rd funct3 rs1 (disasm_imm_i instruction) rs1_value rd_value
        else if opcode = 0x23 then
          disassemble_store funct3 rs1 rs2 (disasm_imm_s instruction) rs1_value rs2_value
        else if opcode = 0x63 then
          disassemble_branch funct3 rs1 rs2 (disasm_imm_b instruction) rs1_value rs2_value
        else if opcode = 0x37 then
          ''lui '' @ fmt_reg rd rd_value @ '', 0x'' @ fmt_x_word (drop_bit 12 (disasm_imm_u instruction))
        else if opcode = 0x17 then
          ''auipc '' @ fmt_reg rd rd_value @ '', 0x'' @ fmt_x_word (drop_bit 12 (disasm_imm_u instruction))
        else if opcode = 0x6F then
          ''jal '' @ fmt_reg rd rd_value @ '', '' @ fmt_i32 (disasm_imm_j instruction)
        else if opcode = 0x67 then
          (let imm = disasm_imm_i instruction
           in ''jalr '' @ fmt_reg rd rd_value @ '', '' @ fmt_i32 imm @ ''('' @ fmt_reg rs1 rs1_value @ '')'')
        else if opcode = 0x0F then disassemble_fence instruction
        else if opcode = 0x73 then disassemble_system instruction rd funct3 rs1 rs1_value rd_value
        else if opcode = 0x2F then
          disassemble_atomic instruction rd funct3 rs1 rs2 rs1_value rs2_value rd_value
        else ''unknown opcode 0x'' @ fmt_0x 2 (unat opcode))"

definition disassemble :: "u32 \<Rightarrow> string" where
  "disassemble instruction = disassemble_with_all_values instruction 0 0 0"

definition disassemble_with_values :: "u32 \<Rightarrow> u32 \<Rightarrow> u32 \<Rightarrow> string" where
  "disassemble_with_values instruction rs1_value rs2_value =
     disassemble_with_all_values instruction rs1_value rs2_value 0"

text \<open>\<open>Display\<close> of a trace entry (\<open>map_or(0, |op| op.value)\<close>).\<close>

definition operand_value :: "register_operand option \<Rightarrow> u32" where
  "operand_value r = (case r of None \<Rightarrow> 0 | Some p \<Rightarrow> op_value p)"

definition trace_display :: "instruction_trace \<Rightarrow> string" where
  "trace_display tr = disassemble_with_all_values (it_instruction tr) (operand_value (it_rs1 tr))
     (operand_value (it_rs2 tr)) (operand_value (it_rd tr))"

section \<open>The text of a trace entry\<close>

text \<open>
  The assembly text in terms of the decoded entry: the mnemonic is the name of the type, the
  operands are those of the entry.
\<close>

fun mnemonic :: "instruction_type \<Rightarrow> string" where
  "mnemonic Add = ''add''"
| "mnemonic Sub = ''sub''"
| "mnemonic Sll = ''sll''"
| "mnemonic Slt = ''slt''"
| "mnemonic Sltu = ''sltu''"
| "mnemonic Xor = ''xor''"
| "mnemonic Srl = ''srl''"
| "mnemonic Sra = ''sra''"
| "mnemonic Or = ''or''"
| "mnemonic And = ''and''"
| "mnemonic Addi = ''addi''"
| "mnemonic Slti = ''slti''"
| "mnemonic Sltiu = ''sltiu''"
| "mnemonic Xori = ''xori''"
| "mnemonic Ori = ''ori''"
| "mnemonic Andi = ''andi''"
| "mnemonic Slli = ''slli''"
| "mnemonic Srli = ''srli''"
| "mnemonic Srai = ''srai''"
| "mnemonic Lw = ''lw''"
| "mnemonic Lh = ''lh''"
| "mnemonic Lb = ''lb''"
| "mnemonic Lhu = ''lhu''"
| "mnemonic Lbu = ''lbu''"
| "mnemonic Sw = ''sw''"
| "mnemonic Sh = ''sh''"
| "mnemonic Sb = ''sb''"
| "mnemonic Beq = ''beq''"
| "mnemonic Bne = ''bne''"
| "mnemonic Blt = ''blt''"
| "mnemonic Bge = ''bge''"
| "mnemonic Bltu = ''bltu''"
| "mnemonic Bgeu = ''bgeu''"
| "mnemonic Lui = ''lui''"
| "mnemonic Auipc = ''auipc''"
| "mnemonic Jal = ''jal''"
| "mnemonic Jalr = ''jalr''"
| "mnemonic Ecall = ''ecall''"
| "mnemonic Ebreak = ''ebreak''"
| "mnemonic Fence = ''fence''"
| "mnemonic Csrrw = ''csrrw''"
| "mnemonic Csrrs = ''csrrs''"
| "mnemonic Csrrc = ''csrrc''"
| "mnemonic Csrrwi = ''csrrwi''"
| "mnemonic Csrrsi = ''csrrsi''"
| "mnemonic Csrrci = ''csrrci''"
| "mnemonic Mul = ''mul''"
| "mnemonic Mulh = ''mulh''"
| "mnemonic Mulhsu = ''mulhsu''"
| "mnemonic Mulhu = ''mulhu''"
| "mnemonic Div = ''div''"
| "mnemonic Divu = ''divu''"
| "mnemonic Rem = ''rem''"
| "mnemonic Remu = ''remu''"
| "mnemonic Unknown = ''unknown''"

definition operand_text :: "register_operand option \<Rightarrow> string" where
  "operand_text r = (case r of None \<Rightarrow> [] | Some p \<Rightarrow> fmt_reg (op_reg p) (op_value p))"

definition operand_reg :: "register_operand option \<Rightarrow> u8" where
  "operand_reg r = (case r of None \<Rightarrow> 0 | Some p \<Rightarrow> op_reg p)"

definition is_memory_type :: "instruction_type \<Rightarrow> bool" where
  "is_memory_type t = (t \<in> {Lw, Lh, Lb, Lhu, Lbu, Jalr})"

definition trace_text :: "instruction_trace \<Rightarrow> string" where
  "trace_text tr =
    (let t = it_type tr; m = mnemonic t;
         rd = operand_text (it_rd tr); rs1 = operand_text (it_rs1 tr); rs2 = operand_text (it_rs2 tr);
         imm = (case it_immediate tr of None \<Rightarrow> 0 | Some v \<Rightarrow> v)
     in case insn_format t of
          R_fmt \<Rightarrow> m @ '' '' @ rd @ '', '' @ rs1 @ '', '' @ rs2
        | I_fmt \<Rightarrow>
            if is_memory_type t then m @ '' '' @ rd @ '', '' @ fmt_i32 imm @ ''('' @ rs1 @ '')''
            else m @ '' '' @ rd @ '', '' @ rs1 @ '', '' @ fmt_i32 imm
        | Shift_fmt \<Rightarrow> m @ '' '' @ rd @ '', '' @ rs1 @ '', '' @ fmt_i32 imm
        | S_fmt \<Rightarrow> m @ '' '' @ rs2 @ '', '' @ fmt_i32 imm @ ''('' @ rs1 @ '')''
        | B_fmt \<Rightarrow> m @ '' '' @ rs1 @ '', '' @ rs2 @ '', '' @ fmt_i32 imm
        | U_fmt \<Rightarrow> m @ '' '' @ rd @ '', 0x'' @ fmt_x_word imm
        | J_fmt \<Rightarrow> m @ '' '' @ rd @ '', '' @ fmt_i32 imm
        | Csr_fmt \<Rightarrow> m @ '' '' @ rd @ '', 0x'' @ fmt_x_word imm @ '', '' @ rs1
        | Csri_fmt \<Rightarrow> m @ '' '' @ rd @ '', 0x'' @ fmt_x_word imm @ '', '' @
            fmt_dec_word (operand_reg (it_rs1 tr))
        | No_operands \<Rightarrow> m)"

text \<open>The tables of the two modules agree, arm by arm.\<close>

lemma r_tables:
  "r_mnemonic f3 f7 = (if r_inst_type f3 f7 = Unknown then None else Some (mnemonic (r_inst_type f3 f7)))"
  "r_inst_type f3 f7 \<noteq> Unknown \<Longrightarrow> insn_format (r_inst_type f3 f7) = R_fmt"
  by (simp_all add: r_mnemonic_def r_inst_type_def Let_def insn_format_def split: if_split_asm)

lemma load_tables:
  "load_mnemonic f3 = (if load_inst_type f3 = Unknown then None else Some (mnemonic (load_inst_type f3)))"
  "load_inst_type f3 \<noteq> Unknown \<Longrightarrow> insn_format (load_inst_type f3) = I_fmt \<and> is_memory_type (load_inst_type f3)"
  by (simp_all add: load_mnemonic_def load_inst_type_def insn_format_def is_memory_type_def split: if_split_asm)

lemma store_tables:
  "store_mnemonic f3 = (if store_inst_type f3 = Unknown then None else Some (mnemonic (store_inst_type f3)))"
  "store_inst_type f3 \<noteq> Unknown \<Longrightarrow> insn_format (store_inst_type f3) = S_fmt"
  by (simp_all add: store_mnemonic_def store_inst_type_def insn_format_def split: if_split_asm)

lemma branch_tables:
  "branch_mnemonic f3 = (if branch_inst_type f3 = Unknown then None else Some (mnemonic (branch_inst_type f3)))"
  "branch_inst_type f3 \<noteq> Unknown \<Longrightarrow> insn_format (branch_inst_type f3) = B_fmt"
  by (simp_all add: branch_mnemonic_def branch_inst_type_def insn_format_def split: if_split_asm)

lemma csr_tables:
  "csr_mnemonic f3 = (if csr_inst_type f3 = Unknown then None else Some (mnemonic (csr_inst_type f3)))"
  "csr_inst_type f3 \<noteq> Unknown \<Longrightarrow>
    insn_format (csr_inst_type f3) = (if f3 AND 4 \<noteq> 0 then Csri_fmt else Csr_fmt)"
  by (simp_all add: csr_mnemonic_def csr_inst_type_def insn_format_def split: if_split_asm)

lemma i_tables:
  "i_mnemonic f3 f7 = (if fst (i_inst_type f3 f7 imm shamt) = Unknown then None
     else Some (mnemonic (fst (i_inst_type f3 f7 imm shamt))))"
  "fst (i_inst_type f3 f7 imm shamt) \<noteq> Unknown \<Longrightarrow>
    insn_format (fst (i_inst_type f3 f7 imm shamt)) = (if f3 = 1 \<or> f3 = 5 then Shift_fmt else I_fmt) \<and>
    \<not> is_memory_type (fst (i_inst_type f3 f7 imm shamt))"
  "snd (i_inst_type f3 f7 imm shamt) = (if f3 = 1 \<or> f3 = 5 then shamt else imm)"
  by (simp_all add: i_mnemonic_def i_inst_type_def insn_format_def is_memory_type_def split: if_split_asm)

lemma fmt_i32_small: "fmt_i32 (drop_bit 20 i AND 0x1F) = fmt_dec_word (drop_bit 20 i AND 0x1F :: u32)"
proof -
  let ?w = "drop_bit 20 i AND 0x1F :: u32"
  have "unat ?w < 2 ^ 5" unfolding field_simps_bits by (rule unat_take_bit_less)
  then have "uint ?w < 32" using of_nat_less_iff [of "unat ?w" 32, where 'a = int] by simp
  moreover have "- 2147483648 \<le> uint ?w" by (rule order_trans [OF _ unsigned_greater_eq]) simp
  ultimately have "sint ?w = int (unat ?w)"
    using signed_take_bit_int_eq_self [of 31 "uint ?w"] by (simp add: sint_uint)
  then show ?thesis by (simp add: fmt_i32_def fmt_int_def fmt_dec_word_def)
qed

text \<open>
  C40: the disassembler and the trace decoder agree.  For every instruction word that the trace
  decoder recognises and all register values, the disassembled text is the mnemonic of the
  decoded type with exactly the decoded registers, values and immediate.
\<close>

theorem disasm_matches_trace:
  assumes "it_type (from_instruction pc i v1 v2 vd) \<noteq> Unknown"
  shows "disassemble_with_all_values i v1 v2 vd = trace_text (from_instruction pc i v1 v2 vd)"
proof -
  define op where "op = i AND 0x7F"
  consider "op = 0x33" | "op = 0x13" | "op = 3" | "op = 0x23" | "op = 0x63" | "op = 0x37 \<or> op = 0x17"
    | "op = 0x6F" | "op = 0x67" | "op = 0x0F" | "op = 0x73"
    using assms by (fastforce simp: from_instruction_def Let_def op_def [symmetric] split: if_splits)
  then show ?thesis
  proof cases
    case 1
    then show ?thesis using assms unfolding op_def
      by (simp add: disassemble_with_all_values_def from_instruction_def Let_def trace_text_def
        operand_text_def disassemble_r_type_def r_tables)
  next
    case 2
    then show ?thesis using assms unfolding op_def
      by (simp add: disassemble_with_all_values_def from_instruction_def Let_def trace_text_def
        operand_text_def disassemble_i_type_alu_def split_beta
        i_tables(1) [of _ _ "get_imm_i i" "drop_bit 20 i AND 0x1F"] i_tables(2,3) fmt_i32_small)
  next
    case 3
    then show ?thesis using assms unfolding op_def
      by (simp add: disassemble_with_all_values_def from_instruction_def Let_def trace_text_def
        operand_text_def disassemble_load_def load_tables)
  next
    case 4
    then show ?thesis using assms unfolding op_def
      by (simp add: disassemble_with_all_values_def from_instruction_def Let_def trace_text_def
        operand_text_def disassemble_store_def store_tables)
  next
    case 5
    then show ?thesis using assms unfolding op_def
      by (simp add: disassemble_with_all_values_def from_instruction_def Let_def trace_text_def
        operand_text_def disassemble_branch_def branch_tables)
  next
    case 6
    then show ?thesis unfolding op_def
      by (elim disjE) (simp_all add: disassemble_with_all_values_def from_instruction_def Let_def
        trace_text_def operand_text_def insn_format_def)
  next
    case 10
    define f3 :: u8 where "f3 = ucast (drop_bit 12 i AND 7)"
    note expand = disassemble_with_all_values_def from_instruction_def Let_def trace_text_def
        operand_text_def operand_reg_def disassemble_system_def system_trace_def f3_def [symmetric]
    show ?thesis
    proof (cases "f3 = 0")
      case True
      then show ?thesis using 10 unfolding op_def by (simp add: expand insn_format_def)
    next
      case False
      then show ?thesis using 10 assms unfolding op_def by (simp add: expand csr_tables)
    qed
  qed (simp_all add: op_def disassemble_with_all_values_def from_instruction_def Let_def
      trace_text_def operand_text_def disassemble_fence_def insn_format_def is_memory_type_def)
qed

lemma disasm_matches_trace_witness:
  "disassemble_with_all_values (asm_encode Addi 1 2 0 7) 10 0 17 =
    trace_text (from_instruction 0 (asm_encode Addi 1 2 0 7) 10 0 17)"
proof (rule disasm_matches_trace)
  have "imm_fits (insn_format Addi) 7" by (simp add: imm_fits_def insn_format_def)
  then show "it_type (from_instruction 0 (asm_encode Addi 1 2 0 7) 10 0 17) \<noteq> Unknown"
    by (simp add: from_instruction_def Let_def encoders encode_i_type_def i_inst_type_def)
qed

text \<open>
  \<open>Display\<close> of a trace entry prints the instruction with the register values of the entry's
  execution, except for the A extension: the trace decoder has no atomic types, so an atomic
  instruction is recorded without operands and printed with all register values zero.
\<close>

theorem trace_display_correct:
  "trace_display (from_instruction pc i v1 v2 vd) =
    (if i AND 0x7F = 0x2F then disassemble i else disassemble_with_all_values i v1 v2 vd)"
proof -
  define f3 :: u8 where "f3 = ucast (drop_bit 12 i AND 7)"
  have csr: "disassemble_system i rd f3 r1 a d = disassemble_system i rd f3 r1 a' d"
    if "f3 = 0 \<or> f3 AND 4 \<noteq> 0" for rd r1 a a' d
    using that by (auto simp: disassemble_system_def Let_def split: option.split)
  note expand = trace_display_def operand_value_def disassemble_def disassemble_with_all_values_def
    from_instruction_def Let_def f3_def [symmetric]
  show ?thesis
  proof (cases "i AND 0x7F = 0x73")
    case True
    show ?thesis
    proof (cases "f3 = 0")
      case True
      then show ?thesis using \<open>i AND 0x7F = 0x73\<close> by (simp add: expand system_trace_def disassemble_system_def)
    next
      case False
      then show ?thesis using True by (simp add: expand system_trace_def) (use csr in blast)
    qed
  next
    case False
    then show ?thesis
      by (simp add: expand split_beta disassemble_fence_def)
  qed
qed

text \<open>
  an atomic instruction built by \<open>encode_atomic\<close> disassembles to its mnemonic, its ordering
  suffix and exactly the registers it was built from, for every \<open>funct5\<close> of the A extension.
\<close>

theorem disasm_atomic_encode:
  assumes "rd < 32" "rs1 < 32" "rs2 < 32" "f5 < 32" "f5 \<noteq> 2" "atomic_mnemonic f5 = Some m"
  shows "disassemble_with_all_values (encode_atomic f5 aq rl rd rs1 rs2) v1 v2 vd =
    m @ (if aq then if rl then ''.aqrl'' else ''.aq'' else if rl then ''.rl'' else []) @ '' '' @
    fmt_reg (ucast rd) vd @ '', '' @ fmt_reg (ucast rs2) v2 @ '', ('' @ fmt_reg (ucast rs1) v1 @ '')''"
proof -
  note f = a_fields [OF assms(4,1-3), of aq rl]
  have o: "atomic_ordering (of_bool aq) (of_bool rl) =
      (if aq then if rl then ''.aqrl'' else ''.aq'' else if rl then ''.rl'' else [])"
    by (cases aq; cases rl; simp add: atomic_ordering_def)
  show ?thesis
    using assms(5,6) by (simp only: disassemble_with_all_values_def Let_def f) (simp add: disassemble_atomic_def Let_def f o)
qed

lemma disasm_atomic_encode_witness:
  "disassemble_with_all_values (sc_w_rl 1 2 3) 16 32 0 =
    ''sc.w.rl '' @ fmt_reg 1 0 @ '', '' @ fmt_reg 3 32 @ '', ('' @ fmt_reg 2 16 @ '')''"
  using disasm_atomic_encode [of 1 2 3 3 "''sc.w''" False True 16 32 0]
  by (simp add: sc_w_rl_def atomic_mnemonic_def)

end
