(* ===== verification/Insn_Compressed.thy ===== *)
theory Insn_Compressed
  imports Insn_Decode
begin

text \<open>
  The compressed encoders of \<open>instruction.rs\<close> against the hardware decompressor
  \<open>rtl/common/cpu/decompress.sv\<close>, whose bit mappings they say they mirror.  The combinational
  module is a function of its two inputs; a slice \<open>insn_16[hi:lo]\<close> is \<open>slice hi lo\<close> as a
  32-bit word, a concatenation is a disjunction of shifted parts, and a replication
  \<open>{n{b}}\<close> is \<open>rep n b\<close>.  A branch that clears \<open>is_valid\<close> is \<^term>\<open>None\<close>; the instruction
  output then keeps its default, a NOP.
\<close>

section \<open>The decompressor\<close>

definition slice :: "nat \<Rightarrow> nat \<Rightarrow> u16 \<Rightarrow> u32" where
  "slice hi lo w = take_bit (hi + 1 - lo) (drop_bit lo (ucast w))"

definition rep :: "nat \<Rightarrow> bool \<Rightarrow> u32" where
  "rep n b = (if b then mask n else 0)"

definition dc_rd_full :: "u16 \<Rightarrow> u32" where "dc_rd_full w = 8 OR slice 4 2 w"
definition dc_rs1_full :: "u16 \<Rightarrow> u32" where "dc_rs1_full w = 8 OR slice 9 7 w"
definition dc_rs2_full :: "u16 \<Rightarrow> u32" where "dc_rs2_full w = 8 OR slice 4 2 w"
definition dc_rd_rs1 :: "u16 \<Rightarrow> u32" where "dc_rd_rs1 w = slice 11 7 w"
definition dc_rs2 :: "u16 \<Rightarrow> u32" where "dc_rs2 w = slice 6 2 w"
definition dc_funct3 :: "u16 \<Rightarrow> u32" where "dc_funct3 w = slice 15 13 w"
definition dc_quadrant :: "u16 \<Rightarrow> u32" where "dc_quadrant w = slice 1 0 w"

definition nzuimm_addi4spn :: "u16 \<Rightarrow> u32" where
  "nzuimm_addi4spn w = push_bit 6 (slice 10 7 w) OR push_bit 4 (slice 12 11 w) OR
     push_bit 3 (slice 5 5 w) OR push_bit 2 (slice 6 6 w)"

definition uimm_lw_sw :: "u16 \<Rightarrow> u32" where
  "uimm_lw_sw w = push_bit 6 (slice 5 5 w) OR push_bit 3 (slice 12 10 w) OR push_bit 2 (slice 6 6 w)"

text \<open>\<open>{insn_16[12], insn_16[6:2]}\<close>: \<open>imm\<close>, \<open>nzimm_lui\<close> and the shift amount of C.SLLI.\<close>

definition dc_imm6 :: "u16 \<Rightarrow> u32" where
  "dc_imm6 w = push_bit 5 (slice 12 12 w) OR slice 6 2 w"

definition dc_imm_j :: "u16 \<Rightarrow> u32" where
  "dc_imm_j w = push_bit 11 (slice 12 12 w) OR push_bit 10 (slice 8 8 w) OR
     push_bit 8 (slice 10 9 w) OR push_bit 7 (slice 6 6 w) OR push_bit 6 (slice 7 7 w) OR
     push_bit 5 (slice 2 2 w) OR push_bit 4 (slice 11 11 w) OR push_bit 1 (slice 5 3 w)"

definition dc_imm_b :: "u16 \<Rightarrow> u32" where
  "dc_imm_b w = push_bit 8 (slice 12 12 w) OR push_bit 6 (slice 6 5 w) OR push_bit 5 (slice 2 2 w) OR
     push_bit 3 (slice 11 10 w) OR push_bit 1 (slice 4 3 w)"

definition nzimm_addi16sp :: "u16 \<Rightarrow> u32" where
  "nzimm_addi16sp w = push_bit 9 (slice 12 12 w) OR push_bit 7 (slice 4 3 w) OR
     push_bit 6 (slice 5 5 w) OR push_bit 5 (slice 2 2 w) OR push_bit 4 (slice 6 6 w)"

definition uimm_lwsp :: "u16 \<Rightarrow> u32" where
  "uimm_lwsp w = push_bit 6 (slice 3 2 w) OR push_bit 5 (slice 12 12 w) OR push_bit 2 (slice 6 4 w)"

definition uimm_swsp :: "u16 \<Rightarrow> u32" where
  "uimm_swsp w = push_bit 6 (slice 8 7 w) OR push_bit 2 (slice 12 9 w)"

text \<open>The 32-bit formats as the module concatenates them.\<close>

definition cat_i :: "u32 \<Rightarrow> u32 \<Rightarrow> u32 \<Rightarrow> u32 \<Rightarrow> u32 \<Rightarrow> u32" where
  "cat_i imm12 rs1 f3 rd opcode =
     push_bit 20 imm12 OR push_bit 15 rs1 OR push_bit 12 f3 OR push_bit 7 rd OR opcode"

definition cat_r :: "u32 \<Rightarrow> u32 \<Rightarrow> u32 \<Rightarrow> u32 \<Rightarrow> u32 \<Rightarrow> u32 \<Rightarrow> u32" where
  "cat_r f7 rs2 rs1 f3 rd opcode =
     push_bit 25 f7 OR push_bit 20 rs2 OR push_bit 15 rs1 OR push_bit 12 f3 OR push_bit 7 rd OR opcode"

text \<open>\<open>{imm[hi part], rs2, rs1, 3'b010, imm[4:0], opcode}\<close>\<close>

definition cat_s :: "u32 \<Rightarrow> u32 \<Rightarrow> u32 \<Rightarrow> u32 \<Rightarrow> u32" where
  "cat_s imm rs2 rs1 opcode =
     push_bit 25 (drop_bit 5 imm) OR push_bit 20 rs2 OR push_bit 15 rs1 OR push_bit 12 2 OR
     push_bit 7 (take_bit 5 imm) OR opcode"

definition cat_u :: "u32 \<Rightarrow> u32 \<Rightarrow> u32 \<Rightarrow> u32" where
  "cat_u imm20 rd opcode = push_bit 12 imm20 OR push_bit 7 rd OR opcode"

definition cat_j :: "u32 \<Rightarrow> u32 \<Rightarrow> u32" where
  "cat_j imm_j rd =
     push_bit 31 (rep 1 (bit imm_j 11)) OR push_bit 21 (take_bit 10 (drop_bit 1 imm_j)) OR
     push_bit 20 (rep 1 (bit imm_j 11)) OR push_bit 12 (rep 8 (bit imm_j 11)) OR push_bit 7 rd OR 0x6F"

definition cat_b :: "u32 \<Rightarrow> u32 \<Rightarrow> u32 \<Rightarrow> u32" where
  "cat_b imm_b rs1 f3 =
     push_bit 28 (rep 4 (bit imm_b 8)) OR push_bit 25 (take_bit 3 (drop_bit 5 imm_b)) OR
     push_bit 20 0 OR push_bit 15 rs1 OR push_bit 12 f3 OR push_bit 8 (take_bit 4 (drop_bit 1 imm_b)) OR
     push_bit 7 (rep 1 (bit imm_b 8)) OR 0x63"

definition decompress_quadrant_0 :: "u16 \<Rightarrow> u32 option" where
  "decompress_quadrant_0 w =
    (if dc_funct3 w = 0 then
       (if nzuimm_addi4spn w = 0 then None
        else Some (cat_i (nzuimm_addi4spn w) 2 0 (dc_rd_full w) 0x13))
     else if dc_funct3 w = 2 then Some (cat_i (uimm_lw_sw w) (dc_rs1_full w) 2 (dc_rd_full w) 0x03)
     else if dc_funct3 w = 3 then Some (cat_i (uimm_lw_sw w) (dc_rs1_full w) 2 (dc_rd_full w) 0x07)
     else if dc_funct3 w = 6 then Some (cat_s (uimm_lw_sw w) (dc_rs2_full w) (dc_rs1_full w) 0x23)
     else if dc_funct3 w = 7 then Some (cat_s (uimm_lw_sw w) (dc_rs2_full w) (dc_rs1_full w) 0x27)
     else None)"

definition decompress_q1_alu :: "u16 \<Rightarrow> u32 option" where
  "decompress_q1_alu w =
    (let funct2 = slice 11 10 w; funct2_ca = slice 6 5 w; shamt = slice 6 2 w; imm = dc_imm6 w;
         rs1 = dc_rs1_full w; rs2 = dc_rs2_full w
     in if funct2 = 0 then (if shamt = 0 then None else Some (cat_r 0 shamt rs1 5 rs1 0x13))
        else if funct2 = 1 then (if shamt = 0 then None else Some (cat_r 0x20 shamt rs1 5 rs1 0x13))
        else if funct2 = 2 then
          Some (cat_i (push_bit 6 (rep 6 (bit imm 5)) OR imm) rs1 7 rs1 0x13)
        else if slice 12 12 w = 0 then
          (if funct2_ca = 0 then Some (cat_r 0x20 rs2 rs1 0 rs1 0x33)
           else if funct2_ca = 1 then Some (cat_r 0 rs2 rs1 4 rs1 0x33)
           else if funct2_ca = 2 then Some (cat_r 0 rs2 rs1 6 rs1 0x33)
           else Some (cat_r 0 rs2 rs1 7 rs1 0x33))
        else None)"

definition decompress_quadrant_1 :: "u16 \<Rightarrow> u32 option" where
  "decompress_quadrant_1 w =
    (let rd_rs1 = dc_rd_rs1 w; imm = dc_imm6 w
     in if dc_funct3 w = 0 then
          (if rd_rs1 = 0 \<and> imm = 0 then Some 0x13
           else Some (cat_i (push_bit 6 (rep 6 (bit imm 5)) OR imm) rd_rs1 0 rd_rs1 0x13))
        else if dc_funct3 w = 1 then Some (cat_j (dc_imm_j w) 1)
        else if dc_funct3 w = 2 then
          Some (cat_i (push_bit 6 (rep 6 (bit imm 5)) OR imm) 0 0 rd_rs1 0x13)
        else if dc_funct3 w = 3 then
          (if rd_rs1 = 2 then
             (let nz = nzimm_addi16sp w
              in if nz = 0 then None
                 else Some (cat_i (push_bit 10 (rep 22 (bit nz 9)) OR nz) 2 0 2 0x13))
           else
             (if rd_rs1 = 0 \<or> imm = 0 then None
              else Some (cat_u (push_bit 6 (rep 14 (bit imm 5)) OR imm) rd_rs1 0x37)))
        else if dc_funct3 w = 4 then decompress_q1_alu w
        else if dc_funct3 w = 5 then Some (cat_j (dc_imm_j w) 0)
        else if dc_funct3 w = 6 then Some (cat_b (dc_imm_b w) (dc_rs1_full w) 0)
        else Some (cat_b (dc_imm_b w) (dc_rs1_full w) 1))"

definition decompress_quadrant_2 :: "u16 \<Rightarrow> u32 option" where
  "decompress_quadrant_2 w =
    (let rd_rs1 = dc_rd_rs1 w; rs2 = dc_rs2 w; shamt = dc_imm6 w
     in if dc_funct3 w = 0 then
          (if shamt = 0 \<or> rd_rs1 = 0 then None
           else Some (cat_r 0 (take_bit 5 shamt) rd_rs1 1 rd_rs1 0x13))
        else if dc_funct3 w = 2 then
          (if rd_rs1 = 0 then None else Some (cat_i (uimm_lwsp w) 2 2 rd_rs1 0x03))
        else if dc_funct3 w = 3 then Some (cat_i (uimm_lwsp w) 2 2 rd_rs1 0x07)
        else if dc_funct3 w = 4 then
          (if slice 12 12 w = 0 then
             (if rs2 = 0 then (if rd_rs1 = 0 then None else Some (cat_i 0 rd_rs1 0 0 0x67))
              else (if rd_rs1 = 0 then None else Some (cat_r 0 rs2 0 0 rd_rs1 0x33)))
           else if rd_rs1 = 0 \<and> rs2 = 0 then Some 0x00100073
           else if rs2 = 0 then (if rd_rs1 = 0 then None else Some (cat_i 0 rd_rs1 0 1 0x67))
           else (if rd_rs1 = 0 then None else Some (cat_r 0 rs2 rd_rs1 0 rd_rs1 0x33)))
        else if dc_funct3 w = 6 then Some (cat_s (uimm_swsp w) rs2 2 0x23)
        else if dc_funct3 w = 7 then Some (cat_s (uimm_swsp w) rs2 2 0x27)
        else None)"

record decompress_out =
  dc_insn_32 :: u32
  dc_is_compressed :: bool
  dc_is_valid :: bool

definition decompress :: "u16 \<Rightarrow> u32 \<Rightarrow> decompress_out" where
  "decompress insn_16 insn_32_in =
    (if dc_quadrant insn_16 = 3
     then \<lparr>dc_insn_32 = insn_32_in, dc_is_compressed = False, dc_is_valid = True\<rparr>
     else
       (let r = (if dc_quadrant insn_16 = 0 then decompress_quadrant_0 insn_16
                 else if dc_quadrant insn_16 = 1 then decompress_quadrant_1 insn_16
                 else decompress_quadrant_2 insn_16)
        in \<lparr>dc_insn_32 = (case r of None \<Rightarrow> 0x13 | Some i \<Rightarrow> i), dc_is_compressed = True,
            dc_is_valid = (r \<noteq> None)\<rparr>))"

section \<open>Bits of the operands\<close>

lemma creg:
  assumes "8 \<le> r" "r \<le> (15 :: u32)"
  shows "bit (r - 8) 0 = bit r 0" "bit (r - 8) (Suc 0) = bit r (Suc 0)" "bit (r - 8) 2 = bit r 2"
    and "bit r 3 = True" "4 \<le> n \<Longrightarrow> bit r n = False"
proof -
  have n: "8 \<le> unat r" "unat r \<le> 15" using assms by (simp_all add: word_le_nat_alt)
  then have "unat r \<in> {8, 9, 10, 11, 12, 13, 14, 15}" by auto
  then have r: "r \<in> {8, 9, 10, 11, 12, 13, 14, 15}"
    by (elim insertE emptyE; simp add: word_unat_eq_iff)
  show "bit (r - 8) 0 = bit r 0" "bit (r - 8) (Suc 0) = bit r (Suc 0)" "bit (r - 8) 2 = bit r 2"
    "bit r 3 = True" using r by auto
  show "4 \<le> n \<Longrightarrow> bit r n = False" using n by (intro bits_below [of r 4]) simp
qed

lemma aligned_bits:
  "is_multiple_of x (4 :: u32) \<Longrightarrow> n < 2 \<Longrightarrow> bit x n = False"
  "is_multiple_of x (16 :: u32) \<Longrightarrow> n < 4 \<Longrightarrow> bit x n = False"
proof -
  have "bit x n = False" if "take_bit k x = 0" "n < k" for k
  proof -
    have "bit x n = bit (take_bit k x) n" using that(2) by (simp add: bit_take_bit_iff)
    then show ?thesis using that(1) by simp
  qed
  from this [of 2] this [of 4] show "is_multiple_of x 4 \<Longrightarrow> n < 2 \<Longrightarrow> bit x n = False"
    "is_multiple_of x 16 \<Longrightarrow> n < 4 \<Longrightarrow> bit x n = False"
    by (simp_all add: is_multiple_of_def take_bit_eq_mod)
qed

lemma even_bit0: "even x \<Longrightarrow> bit x 0 = False" for x :: u32
  by (simp add: bit_0)

lemma upper_bits:
  "x \<le> 31 \<Longrightarrow> 5 \<le> n \<Longrightarrow> bit x n = False" "x \<le> 63 \<Longrightarrow> 6 \<le> n \<Longrightarrow> bit x n = False"
  "x \<le> 124 \<Longrightarrow> 7 \<le> n \<Longrightarrow> bit x n = False" "x \<le> 255 \<Longrightarrow> 8 \<le> n \<Longrightarrow> bit x n = False"
  "x \<le> 252 \<Longrightarrow> 8 \<le> n \<Longrightarrow> bit x n = False" "x \<le> 496 \<Longrightarrow> 9 \<le> n \<Longrightarrow> bit x n = False"
  "x \<le> 1020 \<Longrightarrow> 10 \<le> n \<Longrightarrow> bit x n = False" for x :: u32
  using bits_below [of x 5 n] bits_below [of x 6 n] bits_below [of x 7 n] bits_below [of x 8 n]
    bits_below [of x 9 n] bits_below [of x 10 n]
  by (simp_all add: word_le_nat_alt)

text \<open>A signed value within a range repeats its sign bit.\<close>

lemma sign_bits:
  assumes "- (2 ^ k) \<le> sint x" "sint x < 2 ^ k" "k \<le> n" "n < 32"
  shows "bit x n = bit (x :: u32) k"
proof -
  have "k < 32" using assms(3,4) by simp
  then have "bit (signed_take_bit k x) n = bit x k"
    using assms(3,4) by (simp add: bit_signed_take_bit_iff min_absorb1)
  moreover have "signed_take_bit k x = x"
    using assms(1,2) \<open>k < 32\<close> by (intro signed_take_bit_range) simp_all
  ultimately show ?thesis by simp
qed

lemmas dc_fields = slice_def dc_rd_full_def dc_rs1_full_def dc_rs2_full_def dc_rd_rs1_def dc_rs2_def
  dc_funct3_def dc_quadrant_def nzuimm_addi4spn_def uimm_lw_sw_def dc_imm6_def dc_imm_j_def dc_imm_b_def
  nzimm_addi16sp_def uimm_lwsp_def uimm_swsp_def

lemma suc_numerals: "Suc (Suc 0) = 2" "Suc (Suc (Suc 0)) = 3"
  by simp_all

lemma rep_bits: "n < 32 \<Longrightarrow> bit (rep k b) n = (b \<and> n < k)"
  by (simp add: rep_def bit_mask_iff)

section \<open>Formats\<close>

lemma cat_i_encode: "cat_i imm rs1 f3 rd opcode = encode_i_type opcode rd f3 rs1 imm"
proof -
  have "push_bit 20 imm = push_bit 20 (imm AND 0xFFF)"
    unfolding field_simps_bits by (rule bit_word_eqI) (auto simp: bit_simps)
  then show ?thesis by (simp only: cat_i_def encode_i_type_def Let_def)
qed

lemma cat_r_encode: "cat_r f7 rs2 rs1 f3 rd opcode = encode_r_type opcode rd f3 rs1 rs2 f7"
  by (simp only: cat_r_def encode_r_type_def)

lemma cat_r_shift:
  "shamt < 32 \<Longrightarrow> f7 = 0 \<and> imm = shamt \<or> f7 = 0x20 \<and> imm = shamt OR 0x400 \<Longrightarrow>
    cat_r f7 shamt rs1 f3 rd opcode = encode_i_type opcode rd f3 rs1 imm"
proof -
  assume s: "shamt < 32" and c: "f7 = 0 \<and> imm = shamt \<or> f7 = 0x20 \<and> imm = shamt OR 0x400"
  note z = field_bits(5) [OF s]
  have "push_bit 25 f7 OR push_bit 20 shamt = push_bit 20 (imm AND 0xFFF)"
    using c unfolding field_simps_bits
    by (elim disjE conjE; hypsubst; intro word32_eqI;
      (simp only: list.pred_inject bit_simps comp_apply)?; simp add: z del: bit_0)
  then show ?thesis
    by (simp only: cat_r_def encode_i_type_def Let_def flip: or.assoc)
qed

lemma cat_s_encode: "cat_s imm rs2 rs1 opcode = encode_s_type opcode 2 rs1 rs2 imm"
proof -
  have "push_bit 25 (drop_bit 5 imm) = push_bit 25 (drop_bit 5 (imm AND 0xFFF) AND 0x7F)"
    "take_bit 5 imm = (imm AND 0xFFF) AND 0x1F"
    unfolding field_simps_bits by (rule bit_word_eqI, auto simp: bit_simps)+
  then show ?thesis by (simp only: cat_s_def encode_s_type_def Let_def)
qed

lemma cat_j_encode:
  assumes "\<And>n. 11 \<le> n \<Longrightarrow> n < 32 \<Longrightarrow> bit imm n = bit imm 11"
  shows "cat_j (take_bit 12 imm) rd = jal rd imm"
proof -
  have z: "bit imm 12 = bit imm 11" "bit imm 13 = bit imm 11" "bit imm 14 = bit imm 11"
    "bit imm 15 = bit imm 11" "bit imm 16 = bit imm 11" "bit imm 17 = bit imm 11"
    "bit imm 18 = bit imm 11" "bit imm 19 = bit imm 11" "bit imm 20 = bit imm 11"
    by (intro assms; simp)+
  show ?thesis
    unfolding cat_j_def jal_def Let_def field_simps_bits
    by (rule word32_eqI, simp only: list.pred_inject bit_simps comp_apply, simp add: z rep_bits del: bit_0)
qed

lemma cat_b_encode:
  assumes "\<And>n. 8 \<le> n \<Longrightarrow> n < 32 \<Longrightarrow> bit imm n = bit imm 8"
  shows "cat_b (take_bit 9 imm) rs1 f3 = encode_b_type 0x63 f3 rs1 0 imm"
proof -
  have z: "bit imm 9 = bit imm 8" "bit imm 10 = bit imm 8" "bit imm 11 = bit imm 8" "bit imm 12 = bit imm 8"
    by (intro assms; simp)+
  show ?thesis
    unfolding cat_b_def encode_b_type_def Let_def field_simps_bits
    by (rule word32_eqI, simp only: list.pred_inject bit_simps comp_apply, simp add: z rep_bits del: bit_0)
qed

lemma cat_i_sext6:
  assumes "\<And>n. 5 \<le> n \<Longrightarrow> n < 32 \<Longrightarrow> bit imm n = bit imm 5"
  shows "cat_i (push_bit 6 (rep 6 (bit (take_bit 6 imm) 5)) OR take_bit 6 imm) rs1 f3 rd opcode =
    encode_i_type opcode rd f3 rs1 imm"
proof -
  have z: "bit imm 6 = bit imm 5" "bit imm 7 = bit imm 5" "bit imm 8 = bit imm 5"
    "bit imm 9 = bit imm 5" "bit imm 10 = bit imm 5" "bit imm 11 = bit imm 5"
    by (intro assms; simp)+
  have "(push_bit 6 (rep 6 (bit (take_bit 6 imm) 5)) OR take_bit 6 imm) AND 0xFFF = imm AND 0xFFF"
    unfolding field_simps_bits
    by (rule word32_eqI, simp only: list.pred_inject bit_simps comp_apply, simp add: z rep_bits del: bit_0)
  then show ?thesis by (simp only: cat_i_encode encode_i_type_def Let_def)
qed

lemma cat_u_sext:
  assumes "f \<le> 0x3F"
  shows "cat_u (push_bit 6 (rep 14 (bit f 5)) OR f) rd opcode =
    encode_u_type opcode rd (push_bit 12 (signed_take_bit 5 f))"
proof -
  note z = upper_bits(2) [OF assms]
  have m: "(0xFFFFF000 :: u32) = push_bit 12 (mask 20)" by (simp add: mask_eq_exp_minus_1)
  have "push_bit 12 (push_bit 6 (rep 14 (bit f 5)) OR f) =
      push_bit 12 (signed_take_bit 5 f) AND 0xFFFFF000"
    unfolding m
    by (rule word32_eqI, simp only: list.pred_inject bit_simps comp_apply min_def,
      simp add: z rep_bits suc_numerals del: bit_0)
  then show ?thesis by (simp only: cat_u_def encode_u_type_def)
qed

lemma word_le_less_31: "x \<le> 31 \<Longrightarrow> x < (32 :: u32)"
  by (simp add: word_le_nat_alt word_less_nat_alt)

lemmas cats = cat_i_encode cat_r_encode cat_s_encode

section \<open>Each encoder\<close>

lemma c_addi4spn_expands:
  assumes "c_addi4spn rd rs1 nzuimm = Some w" "nzuimm \<noteq> 0"
  shows "decompress w x = \<lparr>dc_insn_32 = addi rd 2 nzuimm, dc_is_compressed = True, dc_is_valid = True\<rparr>"
proof -
  have g: "rs1 = 2" "8 \<le> rd" "rd \<le> 15" "is_multiple_of nzuimm 4" "nzuimm \<le> 1020"
    using assms(1) by (auto simp: c_addi4spn_def  split: if_splits)
  have w: "w = the (c_addi4spn rd rs1 nzuimm)" using assms(1) by simp
  note z = creg [OF g(2,3)] aligned_bits(1) [OF g(4)] upper_bits(7) [OF g(5)]
  have f: "dc_quadrant w = 0"
    "dc_funct3 w = 0"
    "dc_rd_full w = rd"
    "nzuimm_addi4spn w = nzuimm"
    unfolding w c_addi4spn_def  Let_def dc_fields field_simps_bits
    by (rule word32_eqI, (simp only: g if_True not_True_eq_False if_False simp_thms option.sel list.pred_inject bit_simps comp_apply)?, simp add: rep_bits suc_numerals z del: bit_0)+
  show ?thesis
    using assms g by (simp add: decompress_def decompress_quadrant_0_def Let_def f encoders cats)
qed

lemma c_lw_expands:
  assumes "c_lw rd rs1 offset = Some w"
  shows "decompress w x = \<lparr>dc_insn_32 = lw rd rs1 offset, dc_is_compressed = True, dc_is_valid = True\<rparr>"
proof -
  have g: "8 \<le> rd" "rd \<le> 15" "8 \<le> rs1" "rs1 \<le> 15" "is_multiple_of offset 4" "offset \<le> 124"
    using assms(1) by (auto simp: c_lw_def  split: if_splits)
  have w: "w = the (c_lw rd rs1 offset)" using assms(1) by simp
  note z = creg [OF g(1,2)] creg [OF g(3,4)] aligned_bits(1) [OF g(5)] upper_bits(3) [OF g(6)]
  have f: "dc_quadrant w = 0"
    "dc_funct3 w = 2"
    "dc_rd_full w = rd"
    "dc_rs1_full w = rs1"
    "uimm_lw_sw w = offset"
    unfolding w c_lw_def  Let_def dc_fields field_simps_bits
    by (rule word32_eqI, (simp only: g if_True not_True_eq_False if_False simp_thms option.sel list.pred_inject bit_simps comp_apply)?, simp add: rep_bits suc_numerals z del: bit_0)+
  show ?thesis
    using g by (simp add: decompress_def decompress_quadrant_0_def Let_def f encoders cats)
qed

lemma c_flw_expands:
  assumes "c_flw fd rs1 offset = Some w"
  shows "decompress w x = \<lparr>dc_insn_32 = flw fd rs1 offset, dc_is_compressed = True, dc_is_valid = True\<rparr>"
proof -
  have g: "8 \<le> fd" "fd \<le> 15" "8 \<le> rs1" "rs1 \<le> 15" "is_multiple_of offset 4" "offset \<le> 124"
    using assms(1) by (auto simp: c_flw_def  split: if_splits)
  have w: "w = the (c_flw fd rs1 offset)" using assms(1) by simp
  note z = creg [OF g(1,2)] creg [OF g(3,4)] aligned_bits(1) [OF g(5)] upper_bits(3) [OF g(6)]
  have f: "dc_quadrant w = 0"
    "dc_funct3 w = 3"
    "dc_rd_full w = fd"
    "dc_rs1_full w = rs1"
    "uimm_lw_sw w = offset"
    unfolding w c_flw_def  Let_def dc_fields field_simps_bits
    by (rule word32_eqI, (simp only: g if_True not_True_eq_False if_False simp_thms option.sel list.pred_inject bit_simps comp_apply)?, simp add: rep_bits suc_numerals z del: bit_0)+
  show ?thesis
    using g by (simp add: decompress_def decompress_quadrant_0_def Let_def f encoders cats)
qed

lemma c_sw_expands:
  assumes "c_sw rs1 rs2 offset = Some w"
  shows "decompress w x = \<lparr>dc_insn_32 = sw rs1 rs2 offset, dc_is_compressed = True, dc_is_valid = True\<rparr>"
proof -
  have g: "8 \<le> rs1" "rs1 \<le> 15" "8 \<le> rs2" "rs2 \<le> 15" "is_multiple_of offset 4" "offset \<le> 124"
    using assms(1) by (auto simp: c_sw_def  split: if_splits)
  have w: "w = the (c_sw rs1 rs2 offset)" using assms(1) by simp
  note z = creg [OF g(1,2)] creg [OF g(3,4)] aligned_bits(1) [OF g(5)] upper_bits(3) [OF g(6)]
  have f: "dc_quadrant w = 0"
    "dc_funct3 w = 6"
    "dc_rs2_full w = rs2"
    "dc_rs1_full w = rs1"
    "uimm_lw_sw w = offset"
    unfolding w c_sw_def  Let_def dc_fields field_simps_bits
    by (rule word32_eqI, (simp only: g if_True not_True_eq_False if_False simp_thms option.sel list.pred_inject bit_simps comp_apply)?, simp add: rep_bits suc_numerals z del: bit_0)+
  show ?thesis
    using g by (simp add: decompress_def decompress_quadrant_0_def Let_def f encoders cats)
qed

lemma c_fsw_expands:
  assumes "c_fsw rs1 fs2 offset = Some w"
  shows "decompress w x = \<lparr>dc_insn_32 = fsw rs1 fs2 offset, dc_is_compressed = True, dc_is_valid = True\<rparr>"
proof -
  have g: "8 \<le> rs1" "rs1 \<le> 15" "8 \<le> fs2" "fs2 \<le> 15" "is_multiple_of offset 4" "offset \<le> 124"
    using assms(1) by (auto simp: c_fsw_def  split: if_splits)
  have w: "w = the (c_fsw rs1 fs2 offset)" using assms(1) by simp
  note z = creg [OF g(1,2)] creg [OF g(3,4)] aligned_bits(1) [OF g(5)] upper_bits(3) [OF g(6)]
  have f: "dc_quadrant w = 0"
    "dc_funct3 w = 7"
    "dc_rs2_full w = fs2"
    "dc_rs1_full w = rs1"
    "uimm_lw_sw w = offset"
    unfolding w c_fsw_def  Let_def dc_fields field_simps_bits
    by (rule word32_eqI, (simp only: g if_True not_True_eq_False if_False simp_thms option.sel list.pred_inject bit_simps comp_apply)?, simp add: rep_bits suc_numerals z del: bit_0)+
  show ?thesis
    using g by (simp add: decompress_def decompress_quadrant_0_def Let_def f encoders cats)
qed

lemma c_nop_expands:
  assumes "w = c_nop"
  shows "decompress w x = \<lparr>dc_insn_32 = addi 0 0 0, dc_is_compressed = True, dc_is_valid = True\<rparr>"
proof -
  note w = assms(1)
  have f: "dc_quadrant w = 1"
    "dc_funct3 w = 0"
    "dc_rd_rs1 w = 0"
    "dc_imm6 w = 0"
    unfolding w c_nop_def  Let_def dc_fields field_simps_bits
    by (rule word32_eqI, (simp only: list.pred_inject bit_simps comp_apply)?, simp add: rep_bits suc_numerals del: bit_0)+
  show ?thesis
    by (simp add: decompress_def decompress_quadrant_1_def decompress_q1_alu_def Let_def f encoders cats encode_i_type_def)
qed

lemma c_addi_expands:
  assumes "rd < 32" "rd \<noteq> 0" "- 32 \<le> sint imm" "sint imm < 32" "w = c_addi rd imm"
  shows "decompress w x = \<lparr>dc_insn_32 = addi rd rd imm, dc_is_compressed = True, dc_is_valid = True\<rparr>"
proof -
  note w = assms(5)
  note z = field_bits(5) [OF assms(1)]
  have f: "dc_quadrant w = 1"
    "dc_funct3 w = 0"
    "dc_rd_rs1 w = rd"
    "dc_imm6 w = take_bit 6 imm"
    unfolding w c_addi_def  Let_def dc_fields field_simps_bits
    by (rule word32_eqI, (simp only: list.pred_inject bit_simps comp_apply)?, simp add: rep_bits suc_numerals z del: bit_0)+
  show ?thesis
    using assms(1-4) by (simp add: decompress_def decompress_quadrant_1_def decompress_q1_alu_def Let_def f encoders cat_i_sext6 [OF sign_bits [of 5 imm]])
qed

lemma c_jal_expands:
  assumes "even offset" "- 2048 \<le> sint offset" "sint offset < 2048" "w = c_jal offset"
  shows "decompress w x = \<lparr>dc_insn_32 = jal 1 offset, dc_is_compressed = True, dc_is_valid = True\<rparr>"
proof -
  note w = assms(4)
  note z = even_bit0 [OF assms(1)]
  have f: "dc_quadrant w = 1"
    "dc_funct3 w = 1"
    "dc_imm_j w = take_bit 12 offset"
    unfolding w c_jal_def  Let_def dc_fields field_simps_bits
    by (rule word32_eqI, (simp only: list.pred_inject bit_simps comp_apply)?, simp add: rep_bits suc_numerals z del: bit_0)+
  show ?thesis
    using assms(1-3) by (simp add: decompress_def decompress_quadrant_1_def decompress_q1_alu_def Let_def f encoders cat_j_encode [OF sign_bits [of 11 offset]])
qed

lemma c_j_expands:
  assumes "even offset" "- 2048 \<le> sint offset" "sint offset < 2048" "w = c_j offset"
  shows "decompress w x = \<lparr>dc_insn_32 = jal 0 offset, dc_is_compressed = True, dc_is_valid = True\<rparr>"
proof -
  note w = assms(4)
  note z = even_bit0 [OF assms(1)]
  have f: "dc_quadrant w = 1"
    "dc_funct3 w = 5"
    "dc_imm_j w = take_bit 12 offset"
    unfolding w c_j_def  Let_def dc_fields field_simps_bits
    by (rule word32_eqI, (simp only: list.pred_inject bit_simps comp_apply)?, simp add: rep_bits suc_numerals z del: bit_0)+
  show ?thesis
    using assms(1-3) by (simp add: decompress_def decompress_quadrant_1_def decompress_q1_alu_def Let_def f encoders cat_j_encode [OF sign_bits [of 11 offset]])
qed

lemma c_li_expands:
  assumes "rd < 32" "- 32 \<le> sint imm" "sint imm < 32" "w = c_li rd imm"
  shows "decompress w x = \<lparr>dc_insn_32 = addi rd 0 imm, dc_is_compressed = True, dc_is_valid = True\<rparr>"
proof -
  note w = assms(4)
  note z = field_bits(5) [OF assms(1)]
  have f: "dc_quadrant w = 1"
    "dc_funct3 w = 2"
    "dc_rd_rs1 w = rd"
    "dc_imm6 w = take_bit 6 imm"
    unfolding w c_li_def  Let_def dc_fields field_simps_bits
    by (rule word32_eqI, (simp only: list.pred_inject bit_simps comp_apply)?, simp add: rep_bits suc_numerals z del: bit_0)+
  show ?thesis
    using assms(1-3) by (simp add: decompress_def decompress_quadrant_1_def decompress_q1_alu_def Let_def f encoders cat_i_sext6 [OF sign_bits [of 5 imm]])
qed

lemma c_addi16sp_expands:
  assumes "c_addi16sp nzimm = Some w" "nzimm \<noteq> 0" "nzimm \<le> 496"
  shows "decompress w x = \<lparr>dc_insn_32 = addi 2 2 nzimm, dc_is_compressed = True, dc_is_valid = True\<rparr>"
proof -
  have g: "is_multiple_of nzimm 16" "nzimm \<le> 1008"
    using assms(1) by (auto simp: c_addi16sp_def  split: if_splits)
  have w: "w = the (c_addi16sp nzimm)" using assms(1) by simp
  note z = aligned_bits(2) [OF g(1)] upper_bits(6) [OF assms(3)]
  have f: "dc_quadrant w = 1"
    "dc_funct3 w = 3"
    "dc_rd_rs1 w = 2"
    "nzimm_addi16sp w = nzimm"
    "push_bit 10 (rep 22 (bit nzimm 9)) = 0"
    unfolding w c_addi16sp_def  Let_def dc_fields field_simps_bits
    by (rule word32_eqI, (simp only: g if_True not_True_eq_False if_False simp_thms option.sel list.pred_inject bit_simps comp_apply)?, simp add: rep_bits suc_numerals z del: bit_0)+
  show ?thesis
    using assms g by (simp add: decompress_def decompress_quadrant_1_def decompress_q1_alu_def Let_def f encoders cats)
qed

lemma c_lui_expands:
  assumes "c_lui rd nzimm_field = Some w" "rd < 32" "rd \<noteq> 0" "rd \<noteq> 2" "nzimm_field \<noteq> 0"
  shows "decompress w x = \<lparr>dc_insn_32 = lui rd (push_bit 12 (signed_take_bit 5 nzimm_field)), dc_is_compressed = True, dc_is_valid = True\<rparr>"
proof -
  have g: "nzimm_field \<le> 0x3F"
    using assms(1) by (auto simp: c_lui_def  split: if_splits)
  have w: "w = the (c_lui rd nzimm_field)" using assms(1) by simp
  note z = field_bits(5) [OF assms(2)] upper_bits(2) [OF g(1)]
  have f: "dc_quadrant w = 1"
    "dc_funct3 w = 3"
    "dc_rd_rs1 w = rd"
    "dc_imm6 w = nzimm_field"
    unfolding w c_lui_def  Let_def dc_fields field_simps_bits
    by (rule word32_eqI, (simp only: g if_True not_True_eq_False if_False simp_thms option.sel list.pred_inject bit_simps comp_apply)?, simp add: rep_bits suc_numerals z del: bit_0)+
  show ?thesis
    using assms g by (simp add: decompress_def decompress_quadrant_1_def decompress_q1_alu_def Let_def f encoders cat_u_sext [OF g(1)])
qed

lemma c_srli_expands:
  assumes "c_srli rd shamt = Some w"
  shows "decompress w x = \<lparr>dc_insn_32 = srli rd rd shamt, dc_is_compressed = True, dc_is_valid = True\<rparr>"
proof -
  have g: "8 \<le> rd" "rd \<le> 15" "shamt \<noteq> 0" "shamt \<le> 31"
    using assms(1) by (auto simp: c_srli_def  split: if_splits)
  have w: "w = the (c_srli rd shamt)" using assms(1) by simp
  note z = creg [OF g(1,2)] upper_bits(1) [OF g(4)]
  have f: "dc_quadrant w = 1"
    "dc_funct3 w = 4"
    "slice 11 10 w = 0"
    "slice 6 2 w = shamt"
    "dc_rs1_full w = rd"
    unfolding w c_srli_def  Let_def dc_fields field_simps_bits
    by (rule word32_eqI, (simp only: g if_True not_True_eq_False if_False simp_thms option.sel list.pred_inject bit_simps comp_apply)?, simp add: rep_bits suc_numerals z del: bit_0)+
  show ?thesis
    using g by (simp add: decompress_def decompress_quadrant_1_def decompress_q1_alu_def Let_def f encoders cat_r_shift [OF word_le_less_31 [OF g(4)]])
qed

lemma c_srai_expands:
  assumes "c_srai rd shamt = Some w"
  shows "decompress w x = \<lparr>dc_insn_32 = srai rd rd shamt, dc_is_compressed = True, dc_is_valid = True\<rparr>"
proof -
  have g: "8 \<le> rd" "rd \<le> 15" "shamt \<noteq> 0" "shamt \<le> 31"
    using assms(1) by (auto simp: c_srai_def  split: if_splits)
  have w: "w = the (c_srai rd shamt)" using assms(1) by simp
  note z = creg [OF g(1,2)] upper_bits(1) [OF g(4)]
  have f: "dc_quadrant w = 1"
    "dc_funct3 w = 4"
    "slice 11 10 w = 1"
    "slice 6 2 w = shamt"
    "dc_rs1_full w = rd"
    unfolding w c_srai_def  Let_def dc_fields field_simps_bits
    by (rule word32_eqI, (simp only: g if_True not_True_eq_False if_False simp_thms option.sel list.pred_inject bit_simps comp_apply)?, simp add: rep_bits suc_numerals z del: bit_0)+
  show ?thesis
    using g by (simp add: decompress_def decompress_quadrant_1_def decompress_q1_alu_def Let_def f encoders cat_r_shift [OF word_le_less_31 [OF g(4)]])
qed

lemma c_andi_expands:
  assumes "c_andi rd imm = Some w" "- 32 \<le> sint imm" "sint imm < 32"
  shows "decompress w x = \<lparr>dc_insn_32 = andi rd rd imm, dc_is_compressed = True, dc_is_valid = True\<rparr>"
proof -
  have g: "8 \<le> rd" "rd \<le> 15"
    using assms(1) by (auto simp: c_andi_def  split: if_splits)
  have w: "w = the (c_andi rd imm)" using assms(1) by simp
  note z = creg [OF g(1,2)]
  have f: "dc_quadrant w = 1"
    "dc_funct3 w = 4"
    "slice 11 10 w = 2"
    "dc_imm6 w = take_bit 6 imm"
    "dc_rs1_full w = rd"
    unfolding w c_andi_def  Let_def dc_fields field_simps_bits
    by (rule word32_eqI, (simp only: g if_True not_True_eq_False if_False simp_thms option.sel list.pred_inject bit_simps comp_apply)?, simp add: rep_bits suc_numerals z del: bit_0)+
  show ?thesis
    using assms g by (simp add: decompress_def decompress_quadrant_1_def decompress_q1_alu_def Let_def f encoders cat_i_sext6 [OF sign_bits [of 5 imm]])
qed

lemma c_sub_expands:
  assumes "c_sub rd rs2 = Some w"
  shows "decompress w x = \<lparr>dc_insn_32 = sub_insn rd rd rs2, dc_is_compressed = True, dc_is_valid = True\<rparr>"
proof -
  have g: "8 \<le> rd" "rd \<le> 15" "8 \<le> rs2" "rs2 \<le> 15"
    using assms(1) by (auto simp: c_sub_def c_rtype_family_def split: if_splits)
  have w: "w = the (c_sub rd rs2)" using assms(1) by simp
  note z = creg [OF g(1,2)] creg [OF g(3,4)]
  have f: "dc_quadrant w = 1"
    "dc_funct3 w = 4"
    "slice 11 10 w = 3"
    "slice 12 12 w = 0"
    "slice 6 5 w = 0"
    "dc_rs1_full w = rd"
    "dc_rs2_full w = rs2"
    unfolding w c_sub_def c_rtype_family_def Let_def dc_fields field_simps_bits
    by (rule word32_eqI, (simp only: g if_True not_True_eq_False if_False simp_thms option.sel list.pred_inject bit_simps comp_apply)?, simp add: rep_bits suc_numerals z del: bit_0)+
  show ?thesis
    using g by (simp add: decompress_def decompress_quadrant_1_def decompress_q1_alu_def Let_def f encoders cats)
qed

lemma c_xor_expands:
  assumes "c_xor rd rs2 = Some w"
  shows "decompress w x = \<lparr>dc_insn_32 = xor_insn rd rd rs2, dc_is_compressed = True, dc_is_valid = True\<rparr>"
proof -
  have g: "8 \<le> rd" "rd \<le> 15" "8 \<le> rs2" "rs2 \<le> 15"
    using assms(1) by (auto simp: c_xor_def c_rtype_family_def split: if_splits)
  have w: "w = the (c_xor rd rs2)" using assms(1) by simp
  note z = creg [OF g(1,2)] creg [OF g(3,4)]
  have f: "dc_quadrant w = 1"
    "dc_funct3 w = 4"
    "slice 11 10 w = 3"
    "slice 12 12 w = 0"
    "slice 6 5 w = 1"
    "dc_rs1_full w = rd"
    "dc_rs2_full w = rs2"
    unfolding w c_xor_def c_rtype_family_def Let_def dc_fields field_simps_bits
    by (rule word32_eqI, (simp only: g if_True not_True_eq_False if_False simp_thms option.sel list.pred_inject bit_simps comp_apply)?, simp add: rep_bits suc_numerals z del: bit_0)+
  show ?thesis
    using g by (simp add: decompress_def decompress_quadrant_1_def decompress_q1_alu_def Let_def f encoders cats)
qed

lemma c_or_expands:
  assumes "c_or rd rs2 = Some w"
  shows "decompress w x = \<lparr>dc_insn_32 = or_insn rd rd rs2, dc_is_compressed = True, dc_is_valid = True\<rparr>"
proof -
  have g: "8 \<le> rd" "rd \<le> 15" "8 \<le> rs2" "rs2 \<le> 15"
    using assms(1) by (auto simp: c_or_def c_rtype_family_def split: if_splits)
  have w: "w = the (c_or rd rs2)" using assms(1) by simp
  note z = creg [OF g(1,2)] creg [OF g(3,4)]
  have f: "dc_quadrant w = 1"
    "dc_funct3 w = 4"
    "slice 11 10 w = 3"
    "slice 12 12 w = 0"
    "slice 6 5 w = 2"
    "dc_rs1_full w = rd"
    "dc_rs2_full w = rs2"
    unfolding w c_or_def c_rtype_family_def Let_def dc_fields field_simps_bits
    by (rule word32_eqI, (simp only: g if_True not_True_eq_False if_False simp_thms option.sel list.pred_inject bit_simps comp_apply)?, simp add: rep_bits suc_numerals z del: bit_0)+
  show ?thesis
    using g by (simp add: decompress_def decompress_quadrant_1_def decompress_q1_alu_def Let_def f encoders cats)
qed

lemma c_and_expands:
  assumes "c_and rd rs2 = Some w"
  shows "decompress w x = \<lparr>dc_insn_32 = and_insn rd rd rs2, dc_is_compressed = True, dc_is_valid = True\<rparr>"
proof -
  have g: "8 \<le> rd" "rd \<le> 15" "8 \<le> rs2" "rs2 \<le> 15"
    using assms(1) by (auto simp: c_and_def c_rtype_family_def split: if_splits)
  have w: "w = the (c_and rd rs2)" using assms(1) by simp
  note z = creg [OF g(1,2)] creg [OF g(3,4)]
  have f: "dc_quadrant w = 1"
    "dc_funct3 w = 4"
    "slice 11 10 w = 3"
    "slice 12 12 w = 0"
    "slice 6 5 w = 3"
    "dc_rs1_full w = rd"
    "dc_rs2_full w = rs2"
    unfolding w c_and_def c_rtype_family_def Let_def dc_fields field_simps_bits
    by (rule word32_eqI, (simp only: g if_True not_True_eq_False if_False simp_thms option.sel list.pred_inject bit_simps comp_apply)?, simp add: rep_bits suc_numerals z del: bit_0)+
  show ?thesis
    using g by (simp add: decompress_def decompress_quadrant_1_def decompress_q1_alu_def Let_def f encoders cats)
qed

lemma c_beqz_expands:
  assumes "c_beqz rs1 offset = Some w" "even offset" "- 256 \<le> sint offset" "sint offset < 256"
  shows "decompress w x = \<lparr>dc_insn_32 = beq rs1 0 offset, dc_is_compressed = True, dc_is_valid = True\<rparr>"
proof -
  have g: "8 \<le> rs1" "rs1 \<le> 15"
    using assms(1) by (auto simp: c_beqz_def  split: if_splits)
  have w: "w = the (c_beqz rs1 offset)" using assms(1) by simp
  note z = creg [OF g(1,2)] even_bit0 [OF assms(2)]
  have f: "dc_quadrant w = 1"
    "dc_funct3 w = 6"
    "dc_rs1_full w = rs1"
    "dc_imm_b w = take_bit 9 offset"
    unfolding w c_beqz_def  Let_def dc_fields field_simps_bits
    by (rule word32_eqI, (simp only: g if_True not_True_eq_False if_False simp_thms option.sel list.pred_inject bit_simps comp_apply)?, simp add: rep_bits suc_numerals z del: bit_0)+
  show ?thesis
    using assms g by (simp add: decompress_def decompress_quadrant_1_def decompress_q1_alu_def Let_def f encoders cat_b_encode [OF sign_bits [of 8 offset]])
qed

lemma c_bnez_expands:
  assumes "c_bnez rs1 offset = Some w" "even offset" "- 256 \<le> sint offset" "sint offset < 256"
  shows "decompress w x = \<lparr>dc_insn_32 = bne rs1 0 offset, dc_is_compressed = True, dc_is_valid = True\<rparr>"
proof -
  have g: "8 \<le> rs1" "rs1 \<le> 15"
    using assms(1) by (auto simp: c_bnez_def  split: if_splits)
  have w: "w = the (c_bnez rs1 offset)" using assms(1) by simp
  note z = creg [OF g(1,2)] even_bit0 [OF assms(2)]
  have f: "dc_quadrant w = 1"
    "dc_funct3 w = 7"
    "dc_rs1_full w = rs1"
    "dc_imm_b w = take_bit 9 offset"
    unfolding w c_bnez_def  Let_def dc_fields field_simps_bits
    by (rule word32_eqI, (simp only: g if_True not_True_eq_False if_False simp_thms option.sel list.pred_inject bit_simps comp_apply)?, simp add: rep_bits suc_numerals z del: bit_0)+
  show ?thesis
    using assms g by (simp add: decompress_def decompress_quadrant_1_def decompress_q1_alu_def Let_def f encoders cat_b_encode [OF sign_bits [of 8 offset]])
qed

lemma c_slli_expands:
  assumes "c_slli rd shamt = Some w" "rd \<noteq> 0" "shamt \<noteq> 0" "shamt \<le> 31"
  shows "decompress w x = \<lparr>dc_insn_32 = slli rd rd shamt, dc_is_compressed = True, dc_is_valid = True\<rparr>"
proof -
  have g: "rd < 32" "shamt \<le> 63"
    using assms(1) by (auto simp: c_slli_def  split: if_splits)
  have w: "w = the (c_slli rd shamt)" using assms(1) by simp
  note z = field_bits(5) [OF g(1)] upper_bits(1) [OF assms(4)]
  have f: "dc_quadrant w = 2"
    "dc_funct3 w = 0"
    "dc_rd_rs1 w = rd"
    "dc_imm6 w = shamt"
    "take_bit 5 shamt = shamt"
    unfolding w c_slli_def  Let_def dc_fields field_simps_bits
    by (rule word32_eqI, (simp only: g if_True not_True_eq_False if_False simp_thms option.sel list.pred_inject bit_simps comp_apply)?, simp add: rep_bits suc_numerals z del: bit_0)+
  show ?thesis
    using assms g by (simp add: decompress_def decompress_quadrant_2_def Let_def f encoders cat_r_shift [OF word_le_less_31 [OF assms(4)]])
qed

lemma c_lwsp_expands:
  assumes "c_lwsp rd offset = Some w" "rd < 32" "rd \<noteq> 0"
  shows "decompress w x = \<lparr>dc_insn_32 = lw rd 2 offset, dc_is_compressed = True, dc_is_valid = True\<rparr>"
proof -
  have g: "is_multiple_of offset 4" "offset \<le> 255"
    using assms(1) by (auto simp: c_lwsp_def  split: if_splits)
  have w: "w = the (c_lwsp rd offset)" using assms(1) by simp
  note z = field_bits(5) [OF assms(2)] aligned_bits(1) [OF g(1)] upper_bits(4) [OF g(2)]
  have f: "dc_quadrant w = 2"
    "dc_funct3 w = 2"
    "dc_rd_rs1 w = rd"
    "uimm_lwsp w = offset"
    unfolding w c_lwsp_def  Let_def dc_fields field_simps_bits
    by (rule word32_eqI, (simp only: g if_True not_True_eq_False if_False simp_thms option.sel list.pred_inject bit_simps comp_apply)?, simp add: rep_bits suc_numerals z del: bit_0)+
  show ?thesis
    using assms g by (simp add: decompress_def decompress_quadrant_2_def Let_def f encoders cats)
qed

lemma c_flwsp_expands:
  assumes "c_flwsp fd offset = Some w"
  shows "decompress w x = \<lparr>dc_insn_32 = flw fd 2 offset, dc_is_compressed = True, dc_is_valid = True\<rparr>"
proof -
  have g: "fd < 32" "is_multiple_of offset 4" "offset \<le> 255"
    using assms(1) by (auto simp: c_flwsp_def  split: if_splits)
  have w: "w = the (c_flwsp fd offset)" using assms(1) by simp
  note z = field_bits(5) [OF g(1)] aligned_bits(1) [OF g(2)] upper_bits(4) [OF g(3)]
  have f: "dc_quadrant w = 2"
    "dc_funct3 w = 3"
    "dc_rd_rs1 w = fd"
    "uimm_lwsp w = offset"
    unfolding w c_flwsp_def  Let_def dc_fields field_simps_bits
    by (rule word32_eqI, (simp only: g if_True not_True_eq_False if_False simp_thms option.sel list.pred_inject bit_simps comp_apply)?, simp add: rep_bits suc_numerals z del: bit_0)+
  show ?thesis
    using g by (simp add: decompress_def decompress_quadrant_2_def Let_def f encoders cats)
qed

lemma c_jr_expands:
  assumes "c_jr rs1 = Some w" "rs1 \<noteq> 0"
  shows "decompress w x = \<lparr>dc_insn_32 = jalr 0 rs1 0, dc_is_compressed = True, dc_is_valid = True\<rparr>"
proof -
  have g: "rs1 < 32"
    using assms(1) by (auto simp: c_jr_def  split: if_splits)
  have w: "w = the (c_jr rs1)" using assms(1) by simp
  note z = field_bits(5) [OF g(1)]
  have f: "dc_quadrant w = 2"
    "dc_funct3 w = 4"
    "slice 12 12 w = 0"
    "dc_rs2 w = 0"
    "dc_rd_rs1 w = rs1"
    unfolding w c_jr_def  Let_def dc_fields field_simps_bits
    by (rule word32_eqI, (simp only: g if_True not_True_eq_False if_False simp_thms option.sel list.pred_inject bit_simps comp_apply)?, simp add: rep_bits suc_numerals z del: bit_0)+
  show ?thesis
    using assms g by (simp add: decompress_def decompress_quadrant_2_def Let_def f encoders cats)
qed

lemma c_mv_expands:
  assumes "rd < 32" "rs2 < 32" "rd \<noteq> 0" "rs2 \<noteq> 0" "w = c_mv rd rs2"
  shows "decompress w x = \<lparr>dc_insn_32 = add_insn rd 0 rs2, dc_is_compressed = True, dc_is_valid = True\<rparr>"
proof -
  note w = assms(5)
  note z = field_bits(5) [OF assms(1)] field_bits(5) [OF assms(2)]
  have f: "dc_quadrant w = 2"
    "dc_funct3 w = 4"
    "slice 12 12 w = 0"
    "dc_rs2 w = rs2"
    "dc_rd_rs1 w = rd"
    unfolding w c_mv_def  Let_def dc_fields field_simps_bits
    by (rule word32_eqI, (simp only: list.pred_inject bit_simps comp_apply)?, simp add: rep_bits suc_numerals z del: bit_0)+
  show ?thesis
    using assms(1-4) by (simp add: decompress_def decompress_quadrant_2_def Let_def f encoders cats)
qed

lemma c_ebreak_expands:
  assumes "w = c_ebreak"
  shows "decompress w x = \<lparr>dc_insn_32 = ebreak, dc_is_compressed = True, dc_is_valid = True\<rparr>"
proof -
  note w = assms(1)
  have f: "dc_quadrant w = 2"
    "dc_funct3 w = 4"
    "slice 12 12 w = 1"
    "dc_rs2 w = 0"
    "dc_rd_rs1 w = 0"
    unfolding w c_ebreak_def  Let_def dc_fields field_simps_bits
    by (rule word32_eqI, (simp only: list.pred_inject bit_simps comp_apply)?, simp add: rep_bits suc_numerals del: bit_0)+
  show ?thesis
    by (simp add: decompress_def decompress_quadrant_2_def Let_def f encoders cats encode_i_type_def)
qed

lemma c_jalr_expands:
  assumes "c_jalr rs1 = Some w" "rs1 < 32"
  shows "decompress w x = \<lparr>dc_insn_32 = jalr 1 rs1 0, dc_is_compressed = True, dc_is_valid = True\<rparr>"
proof -
  have g: "rs1 \<noteq> 0"
    using assms(1) by (auto simp: c_jalr_def  split: if_splits)
  have w: "w = the (c_jalr rs1)" using assms(1) by simp
  note z = field_bits(5) [OF assms(2)]
  have f: "dc_quadrant w = 2"
    "dc_funct3 w = 4"
    "slice 12 12 w = 1"
    "dc_rs2 w = 0"
    "dc_rd_rs1 w = rs1"
    unfolding w c_jalr_def  Let_def dc_fields field_simps_bits
    by (rule word32_eqI, (simp only: g if_True not_True_eq_False if_False simp_thms option.sel list.pred_inject bit_simps comp_apply)?, simp add: rep_bits suc_numerals z del: bit_0)+
  show ?thesis
    using assms g by (simp add: decompress_def decompress_quadrant_2_def Let_def f encoders cats)
qed

lemma c_add_expands:
  assumes "c_add rd rs2 = Some w" "rd < 32" "rs2 < 32"
  shows "decompress w x = \<lparr>dc_insn_32 = add_insn rd rd rs2, dc_is_compressed = True, dc_is_valid = True\<rparr>"
proof -
  have g: "rd \<noteq> 0" "rs2 \<noteq> 0"
    using assms(1) by (auto simp: c_add_def  split: if_splits)
  have w: "w = the (c_add rd rs2)" using assms(1) by simp
  note z = field_bits(5) [OF assms(2)] field_bits(5) [OF assms(3)]
  have f: "dc_quadrant w = 2"
    "dc_funct3 w = 4"
    "slice 12 12 w = 1"
    "dc_rs2 w = rs2"
    "dc_rd_rs1 w = rd"
    unfolding w c_add_def  Let_def dc_fields field_simps_bits
    by (rule word32_eqI, (simp only: g if_True not_True_eq_False if_False simp_thms option.sel list.pred_inject bit_simps comp_apply)?, simp add: rep_bits suc_numerals z del: bit_0)+
  show ?thesis
    using assms g by (simp add: decompress_def decompress_quadrant_2_def Let_def f encoders cats)
qed

lemma c_swsp_expands:
  assumes "c_swsp rs2 offset = Some w" "rs2 < 32" "offset \<le> 252"
  shows "decompress w x = \<lparr>dc_insn_32 = sw 2 rs2 offset, dc_is_compressed = True, dc_is_valid = True\<rparr>"
proof -
  have g: "is_multiple_of offset 4" "offset \<le> 1020"
    using assms(1) by (auto simp: c_swsp_def  split: if_splits)
  have w: "w = the (c_swsp rs2 offset)" using assms(1) by simp
  note z = field_bits(5) [OF assms(2)] aligned_bits(1) [OF g(1)] upper_bits(5) [OF assms(3)]
  have f: "dc_quadrant w = 2"
    "dc_funct3 w = 6"
    "dc_rs2 w = rs2"
    "uimm_swsp w = offset"
    unfolding w c_swsp_def  Let_def dc_fields field_simps_bits
    by (rule word32_eqI, (simp only: g if_True not_True_eq_False if_False simp_thms option.sel list.pred_inject bit_simps comp_apply)?, simp add: rep_bits suc_numerals z del: bit_0)+
  show ?thesis
    using assms g by (simp add: decompress_def decompress_quadrant_2_def Let_def f encoders cats)
qed

lemma c_fswsp_expands:
  assumes "c_fswsp fs2 offset = Some w"
  shows "decompress w x = \<lparr>dc_insn_32 = fsw 2 fs2 offset, dc_is_compressed = True, dc_is_valid = True\<rparr>"
proof -
  have g: "fs2 < 32" "is_multiple_of offset 4" "offset \<le> 252"
    using assms(1) by (auto simp: c_fswsp_def  split: if_splits)
  have w: "w = the (c_fswsp fs2 offset)" using assms(1) by simp
  note z = field_bits(5) [OF g(1)] aligned_bits(1) [OF g(2)] upper_bits(5) [OF g(3)]
  have f: "dc_quadrant w = 2"
    "dc_funct3 w = 7"
    "dc_rs2 w = fs2"
    "uimm_swsp w = offset"
    unfolding w c_fswsp_def  Let_def dc_fields field_simps_bits
    by (rule word32_eqI, (simp only: g if_True not_True_eq_False if_False simp_thms option.sel list.pred_inject bit_simps comp_apply)?, simp add: rep_bits suc_numerals z del: bit_0)+
  show ?thesis
    using g by (simp add: decompress_def decompress_quadrant_2_def Let_def f encoders cats)
qed

section \<open>All encoders\<close>

text \<open>
  One constructor per encoder; what it encodes, the operands for which the hardware accepts the
  encoding as that instruction, and the base instruction it stands for.
\<close>

datatype c_insn =
    C_ADDI4SPN u32 u32 u32
  | C_LW u32 u32 u32
  | C_FLW u32 u32 u32
  | C_SW u32 u32 u32
  | C_FSW u32 u32 u32
  | C_NOP
  | C_ADDI u32 u32
  | C_JAL u32
  | C_J u32
  | C_LI u32 u32
  | C_ADDI16SP u32
  | C_LUI u32 u32
  | C_SRLI u32 u32
  | C_SRAI u32 u32
  | C_ANDI u32 u32
  | C_SUB u32 u32
  | C_XOR u32 u32
  | C_OR u32 u32
  | C_AND u32 u32
  | C_BEQZ u32 u32
  | C_BNEZ u32 u32
  | C_SLLI u32 u32
  | C_LWSP u32 u32
  | C_FLWSP u32 u32
  | C_JR u32
  | C_MV u32 u32
  | C_EBREAK
  | C_JALR u32
  | C_ADD u32 u32
  | C_SWSP u32 u32
  | C_FSWSP u32 u32

fun c_encode :: "c_insn \<Rightarrow> u16 option" where
  "c_encode (C_ADDI4SPN rd rs1 nzuimm) = c_addi4spn rd rs1 nzuimm"
| "c_encode (C_LW rd rs1 offset) = c_lw rd rs1 offset"
| "c_encode (C_FLW fd rs1 offset) = c_flw fd rs1 offset"
| "c_encode (C_SW rs1 rs2 offset) = c_sw rs1 rs2 offset"
| "c_encode (C_FSW rs1 fs2 offset) = c_fsw rs1 fs2 offset"
| "c_encode C_NOP = Some c_nop"
| "c_encode (C_ADDI rd imm) = Some (c_addi rd imm)"
| "c_encode (C_JAL offset) = Some (c_jal offset)"
| "c_encode (C_J offset) = Some (c_j offset)"
| "c_encode (C_LI rd imm) = Some (c_li rd imm)"
| "c_encode (C_ADDI16SP nzimm) = c_addi16sp nzimm"
| "c_encode (C_LUI rd nzimm_field) = c_lui rd nzimm_field"
| "c_encode (C_SRLI rd shamt) = c_srli rd shamt"
| "c_encode (C_SRAI rd shamt) = c_srai rd shamt"
| "c_encode (C_ANDI rd imm) = c_andi rd imm"
| "c_encode (C_SUB rd rs2) = c_sub rd rs2"
| "c_encode (C_XOR rd rs2) = c_xor rd rs2"
| "c_encode (C_OR rd rs2) = c_or rd rs2"
| "c_encode (C_AND rd rs2) = c_and rd rs2"
| "c_encode (C_BEQZ rs1 offset) = c_beqz rs1 offset"
| "c_encode (C_BNEZ rs1 offset) = c_bnez rs1 offset"
| "c_encode (C_SLLI rd shamt) = c_slli rd shamt"
| "c_encode (C_LWSP rd offset) = c_lwsp rd offset"
| "c_encode (C_FLWSP fd offset) = c_flwsp fd offset"
| "c_encode (C_JR rs1) = c_jr rs1"
| "c_encode (C_MV rd rs2) = Some (c_mv rd rs2)"
| "c_encode C_EBREAK = Some c_ebreak"
| "c_encode (C_JALR rs1) = c_jalr rs1"
| "c_encode (C_ADD rd rs2) = c_add rd rs2"
| "c_encode (C_SWSP rs2 offset) = c_swsp rs2 offset"
| "c_encode (C_FSWSP fs2 offset) = c_fswsp fs2 offset"

fun c_meaning :: "c_insn \<Rightarrow> u32" where
  "c_meaning (C_ADDI4SPN rd rs1 nzuimm) = addi rd 2 nzuimm"
| "c_meaning (C_LW rd rs1 offset) = lw rd rs1 offset"
| "c_meaning (C_FLW fd rs1 offset) = flw fd rs1 offset"
| "c_meaning (C_SW rs1 rs2 offset) = sw rs1 rs2 offset"
| "c_meaning (C_FSW rs1 fs2 offset) = fsw rs1 fs2 offset"
| "c_meaning C_NOP = addi 0 0 0"
| "c_meaning (C_ADDI rd imm) = addi rd rd imm"
| "c_meaning (C_JAL offset) = jal 1 offset"
| "c_meaning (C_J offset) = jal 0 offset"
| "c_meaning (C_LI rd imm) = addi rd 0 imm"
| "c_meaning (C_ADDI16SP nzimm) = addi 2 2 nzimm"
| "c_meaning (C_LUI rd nzimm_field) = lui rd (push_bit 12 (signed_take_bit 5 nzimm_field))"
| "c_meaning (C_SRLI rd shamt) = srli rd rd shamt"
| "c_meaning (C_SRAI rd shamt) = srai rd rd shamt"
| "c_meaning (C_ANDI rd imm) = andi rd rd imm"
| "c_meaning (C_SUB rd rs2) = sub_insn rd rd rs2"
| "c_meaning (C_XOR rd rs2) = xor_insn rd rd rs2"
| "c_meaning (C_OR rd rs2) = or_insn rd rd rs2"
| "c_meaning (C_AND rd rs2) = and_insn rd rd rs2"
| "c_meaning (C_BEQZ rs1 offset) = beq rs1 0 offset"
| "c_meaning (C_BNEZ rs1 offset) = bne rs1 0 offset"
| "c_meaning (C_SLLI rd shamt) = slli rd rd shamt"
| "c_meaning (C_LWSP rd offset) = lw rd 2 offset"
| "c_meaning (C_FLWSP fd offset) = flw fd 2 offset"
| "c_meaning (C_JR rs1) = jalr 0 rs1 0"
| "c_meaning (C_MV rd rs2) = add_insn rd 0 rs2"
| "c_meaning C_EBREAK = ebreak"
| "c_meaning (C_JALR rs1) = jalr 1 rs1 0"
| "c_meaning (C_ADD rd rs2) = add_insn rd rd rs2"
| "c_meaning (C_SWSP rs2 offset) = sw 2 rs2 offset"
| "c_meaning (C_FSWSP fs2 offset) = fsw 2 fs2 offset"

fun c_legal :: "c_insn \<Rightarrow> bool" where
  "c_legal (C_ADDI4SPN rd rs1 nzuimm) = (nzuimm \<noteq> 0)"
| "c_legal (C_LW rd rs1 offset) = True"
| "c_legal (C_FLW fd rs1 offset) = True"
| "c_legal (C_SW rs1 rs2 offset) = True"
| "c_legal (C_FSW rs1 fs2 offset) = True"
| "c_legal C_NOP = True"
| "c_legal (C_ADDI rd imm) = (rd < 32 \<and> rd \<noteq> 0 \<and> - 32 \<le> sint imm \<and> sint imm < 32)"
| "c_legal (C_JAL offset) = (even offset \<and> - 2048 \<le> sint offset \<and> sint offset < 2048)"
| "c_legal (C_J offset) = (even offset \<and> - 2048 \<le> sint offset \<and> sint offset < 2048)"
| "c_legal (C_LI rd imm) = (rd < 32 \<and> - 32 \<le> sint imm \<and> sint imm < 32)"
| "c_legal (C_ADDI16SP nzimm) = (nzimm \<noteq> 0 \<and> nzimm \<le> 496)"
| "c_legal (C_LUI rd nzimm_field) = (rd < 32 \<and> rd \<noteq> 0 \<and> rd \<noteq> 2 \<and> nzimm_field \<noteq> 0)"
| "c_legal (C_SRLI rd shamt) = True"
| "c_legal (C_SRAI rd shamt) = True"
| "c_legal (C_ANDI rd imm) = (- 32 \<le> sint imm \<and> sint imm < 32)"
| "c_legal (C_SUB rd rs2) = True"
| "c_legal (C_XOR rd rs2) = True"
| "c_legal (C_OR rd rs2) = True"
| "c_legal (C_AND rd rs2) = True"
| "c_legal (C_BEQZ rs1 offset) = (even offset \<and> - 256 \<le> sint offset \<and> sint offset < 256)"
| "c_legal (C_BNEZ rs1 offset) = (even offset \<and> - 256 \<le> sint offset \<and> sint offset < 256)"
| "c_legal (C_SLLI rd shamt) = (rd \<noteq> 0 \<and> shamt \<noteq> 0 \<and> shamt \<le> 31)"
| "c_legal (C_LWSP rd offset) = (rd < 32 \<and> rd \<noteq> 0)"
| "c_legal (C_FLWSP fd offset) = True"
| "c_legal (C_JR rs1) = (rs1 \<noteq> 0)"
| "c_legal (C_MV rd rs2) = (rd < 32 \<and> rs2 < 32 \<and> rd \<noteq> 0 \<and> rs2 \<noteq> 0)"
| "c_legal C_EBREAK = True"
| "c_legal (C_JALR rs1) = (rs1 < 32)"
| "c_legal (C_ADD rd rs2) = (rd < 32 \<and> rs2 < 32)"
| "c_legal (C_SWSP rs2 offset) = (rs2 < 32 \<and> offset \<le> 252)"
| "c_legal (C_FSWSP fs2 offset) = True"

lemmas c_expands =
  c_addi4spn_expands
  c_lw_expands
  c_flw_expands
  c_sw_expands
  c_fsw_expands
  c_nop_expands
  c_addi_expands
  c_jal_expands
  c_j_expands
  c_li_expands
  c_addi16sp_expands
  c_lui_expands
  c_srli_expands
  c_srai_expands
  c_andi_expands
  c_sub_expands
  c_xor_expands
  c_or_expands
  c_and_expands
  c_beqz_expands
  c_bnez_expands
  c_slli_expands
  c_lwsp_expands
  c_flwsp_expands
  c_jr_expands
  c_mv_expands
  c_ebreak_expands
  c_jalr_expands
  c_add_expands
  c_swsp_expands
  c_fswsp_expands

text \<open>
  C39: every compressed encoder builds what the hardware decompressor expands to the base
  instruction it stands for, valid and marked compressed: for all operands the encoder accepts
  that also satisfy the conditions of \<open>c_legal\<close> (a nonzero register or immediate where the
  hardware reserves zero, a register number below 32 where the encoder masks instead of
  checking, an immediate within its signed field).
\<close>

theorem compressed_expands:
  assumes "c_encode c = Some w" "c_legal c"
  shows "decompress w x =
    \<lparr>dc_insn_32 = c_meaning c, dc_is_compressed = True, dc_is_valid = True\<rparr>"
proof (cases c)
  case (C_ADDI4SPN a b c) then show ?thesis using assms by (auto intro!: c_addi4spn_expands)
next case (C_LW a b c) then show ?thesis using assms by (auto intro!: c_lw_expands)
next case (C_FLW a b c) then show ?thesis using assms by (auto intro!: c_flw_expands)
next case (C_SW a b c) then show ?thesis using assms by (auto intro!: c_sw_expands)
next case (C_FSW a b c) then show ?thesis using assms by (auto intro!: c_fsw_expands)
next case C_NOP then show ?thesis using assms by (auto intro!: c_nop_expands)
next case (C_ADDI a b) then show ?thesis using assms by (auto intro!: c_addi_expands)
next case (C_JAL a) then show ?thesis using assms by (auto intro!: c_jal_expands)
next case (C_J a) then show ?thesis using assms by (auto intro!: c_j_expands)
next case (C_LI a b) then show ?thesis using assms by (auto intro!: c_li_expands)
next case (C_ADDI16SP a) then show ?thesis using assms by (auto intro!: c_addi16sp_expands)
next case (C_LUI a b) then show ?thesis using assms by (auto intro!: c_lui_expands)
next case (C_SRLI a b) then show ?thesis using assms by (auto intro!: c_srli_expands)
next case (C_SRAI a b) then show ?thesis using assms by (auto intro!: c_srai_expands)
next case (C_ANDI a b) then show ?thesis using assms by (auto intro!: c_andi_expands)
next case (C_SUB a b) then show ?thesis using assms by (auto intro!: c_sub_expands)
next case (C_XOR a b) then show ?thesis using assms by (auto intro!: c_xor_expands)
next case (C_OR a b) then show ?thesis using assms by (auto intro!: c_or_expands)
next case (C_AND a b) then show ?thesis using assms by (auto intro!: c_and_expands)
next case (C_BEQZ a b) then show ?thesis using assms by (auto intro!: c_beqz_expands)
next case (C_BNEZ a b) then show ?thesis using assms by (auto intro!: c_bnez_expands)
next case (C_SLLI a b) then show ?thesis using assms by (auto intro!: c_slli_expands)
next case (C_LWSP a b) then show ?thesis using assms by (auto intro!: c_lwsp_expands)
next case (C_FLWSP a b) then show ?thesis using assms by (auto intro!: c_flwsp_expands)
next case (C_JR a) then show ?thesis using assms by (auto intro!: c_jr_expands)
next case (C_MV a b) then show ?thesis using assms by (auto intro!: c_mv_expands)
next case C_EBREAK then show ?thesis using assms by (auto intro!: c_ebreak_expands)
next case (C_JALR a) then show ?thesis using assms by (auto intro!: c_jalr_expands)
next case (C_ADD a b) then show ?thesis using assms by (auto intro!: c_add_expands)
next case (C_SWSP a b) then show ?thesis using assms by (auto intro!: c_swsp_expands)
next case (C_FSWSP a b) then show ?thesis using assms by (auto intro!: c_fswsp_expands)
qed

lemma compressed_expands_witness:
  "decompress 0x4398 0 = \<lparr>dc_insn_32 = lw 14 15 0, dc_is_compressed = True, dc_is_valid = True\<rparr>"
  using compressed_expands [of "C_LW 14 15 0" "0x4398" 0] by (simp add: c_lw_def is_multiple_of_def)

section \<open>Operands the instructions cannot hold\<close>

lemma c_swsp_wraps:
  assumes "is_multiple_of offset 4" "offset \<le> 1020"
  shows "c_swsp rs2 offset = c_swsp rs2 (offset AND 0xFF)"
proof -
  note z = upper_bits(7) [OF assms(2)] aligned_bits(1) [OF assms(1)]
  have m: "take_bit 2 offset = 0" using assms(1) by (simp add: is_multiple_of_def take_bit_eq_mod)
  have "take_bit 2 (offset AND 0xFF) = 0" by (simp add: m)
  then have "is_multiple_of (offset AND 0xFF) 4" by (simp add: is_multiple_of_def take_bit_eq_mod)
  moreover have "offset AND 0xFF \<le> 1020" by (rule order_trans [OF word_and_le1]) simp
  moreover have "drop_bit 4 (drop_bit 2 offset) AND 3 = drop_bit 4 (drop_bit 2 (offset AND 0xFF)) AND 3"
    "drop_bit 2 offset AND 0xf = drop_bit 2 (offset AND 0xFF) AND 0xf"
    unfolding field_simps_bits by (rule bit_word_eqI, auto simp: bit_simps)+
  ultimately show ?thesis using assms unfolding c_swsp_def Let_def by (simp only:)
qed

lemma c_slli_wraps: "shamt \<le> 63 \<Longrightarrow> c_slli rd shamt = c_slli rd (shamt AND 0x1F)"
proof -
  assume a: "shamt \<le> 63"
  have "shamt AND 0x1F \<le> 63" by (rule order_trans [OF word_and_le1]) simp
  then show ?thesis using a by (simp add: c_slli_def ac_simps)
qed

lemma bit_of_range: "512 \<le> x \<Longrightarrow> x \<le> 1020 \<Longrightarrow> bit x 9 = True" for x :: u32
proof (rule ccontr)
  assume a: "512 \<le> x" "x \<le> 1020" "bit x 9 \<noteq> True"
  have "bit x n = bit (take_bit 9 x) n" for n
  proof (cases "n < 9")
    case False
    then have "n = 9 \<or> 10 \<le> n" by linarith
    then show ?thesis using a(3) upper_bits(7) [OF a(2)] False by (auto simp: bit_take_bit_iff)
  qed (simp add: bit_take_bit_iff)
  then have "x = take_bit 9 x" by (intro bit_eqI) simp
  then have "x AND 511 = x" by (simp add: take_bit_eq_mask mask_eq_exp_minus_1)
  moreover have "x AND 511 \<le> 511" by (rule word_and_le1)
  ultimately show False using a(1) by (simp add: word_le_nat_alt)
qed

lemma c_addi16sp_wraps:
  assumes "c_addi16sp nzimm = Some w" "512 \<le> nzimm"
  shows "dc_insn_32 (decompress w x) = addi 2 2 (nzimm - 1024)"
proof -
  have g: "is_multiple_of nzimm 16" "nzimm \<le> 1008"
    using assms(1) by (auto simp: c_addi16sp_def split: if_splits)
  have w: "w = the (c_addi16sp nzimm)" using assms(1) by simp
  have l: "nzimm \<le> 1020" using g(2) by (rule order_trans) simp
  note z = aligned_bits(2) [OF g(1)] upper_bits(7) [OF l] bit_of_range [OF assms(2) l]
  have f: "dc_quadrant w = 1" "dc_funct3 w = 3" "dc_rd_rs1 w = 2" "nzimm_addi16sp w = nzimm"
    unfolding w c_addi16sp_def  Let_def dc_fields field_simps_bits
    by (rule word32_eqI, (simp only: g if_True not_True_eq_False if_False simp_thms option.sel list.pred_inject bit_simps comp_apply)?, simp add: rep_bits suc_numerals z del: bit_0)+
  have d: "0xFFFFFC00 AND nzimm = 0" "push_bit 10 (rep 22 (bit nzimm 9)) = 0xFFFFFC00"
    by (rule word32_eqI, simp only: list.pred_inject bit_simps comp_apply, simp add: rep_bits suc_numerals z del: bit_0)+
  have "nzimm - 1024 = nzimm + 0xFFFFFC00" by (simp add: diff_conv_add_uminus del: add_uminus_conv_diff)
  then have "nzimm - 1024 = 0xFFFFFC00 OR nzimm"
    using disjunctive_add_eq_or [of "0xFFFFFC00" nzimm] d(1) by (simp only: add.commute)
  then show ?thesis
    using assms g by (auto simp add: decompress_def decompress_quadrant_1_def Let_def f d(2) encoders cats)
qed

text \<open>
  operands an encoder accepts although the instruction cannot hold them.  A C.SWSP offset from
  256 up to the accepted 1020 is stored modulo 256, a C.SLLI shift amount from 32 up to the
  accepted 63 modulo 32, and a C.ADDI16SP adjustment of 512 or more (up to 1008) is expanded as
  the negative adjustment \<open>nzimm - 1024\<close>.
\<close>

theorem compressed_encoders_wrap:
  assumes "is_multiple_of offset 4" "offset \<le> 1020" "rd < 32" "shamt \<le> 63"
    and "is_multiple_of nzimm 16" "512 \<le> nzimm" "nzimm \<le> 1008"
  shows "c_swsp rs2 offset = c_swsp rs2 (offset AND 0xFF) \<and> c_swsp rs2 offset \<noteq> None \<and>
    c_slli rd shamt = c_slli rd (shamt AND 0x1F) \<and> c_slli rd shamt \<noteq> None \<and>
    (\<exists>w. c_addi16sp nzimm = Some w \<and> dc_insn_32 (decompress w x) = addi 2 2 (nzimm - 1024))"
proof -
  have s: "c_addi16sp nzimm \<noteq> None" using assms(5,7) by (simp add: c_addi16sp_def Let_def)
  then obtain w where w: "c_addi16sp nzimm = Some w" by blast
  have n: "c_swsp rs2 offset \<noteq> None" "c_slli rd shamt \<noteq> None"
    using assms(1-4) by (simp_all add: c_swsp_def c_slli_def Let_def)
  show ?thesis
    using w n c_addi16sp_wraps [OF w assms(6)] c_swsp_wraps [OF assms(1,2), of rs2] c_slli_wraps [OF assms(4), of rd]
    by blast
qed

lemma compressed_encoders_wrap_witness:
  "c_swsp 8 256 = c_swsp 8 0 \<and> c_slli 1 33 = c_slli 1 1 \<and>
    dc_insn_32 (decompress (the (c_addi16sp 512)) 0) = addi 2 2 (- 512)"
  using compressed_encoders_wrap [of 256 1 33 512 8 0] by (auto simp: is_multiple_of_def)

end
