(* ===== verification/Vcd_Analysis.thy ===== *)
theory Vcd_Analysis
  imports Text_Format "HOL-Library.List_Lexorder" "HOL-Library.Char_ord"
begin

text \<open>
  The queryable form of a waveform file (\<open>vcd-mcp/src/domain.rs\<close>): values, the names of the
  signals, the parse loop and the queries.  The \<open>vcd\<close> crate splits the file into commands; here
  a parsed header and the list of the iterator's results are inputs.  Its identifier codes are
  opaque: the type variable \<open>'id\<close>.  Floats are their bits, printed by a parameter.
  The specification is the timeline, the flat list of the changes with their times.
\<close>

section \<open>Values\<close>

text \<open>\<open>vcd::Value\<close>: low, high, unknown and high impedance.\<close>

datatype vcd_bit = V0 | V1 | VX | VZ

datatype vcd_value =
    VScalar vcd_bit
  | VVector "vcd_bit list"
  | VReal u64
  | VString string

text \<open>\<open>show_bit\<close> and \<open>show_real\<close> are the \<open>Display\<close> of the crate's \<open>Value\<close> and of \<open>f64\<close>.\<close>

fun vcd_format :: "(vcd_bit \<Rightarrow> string) \<Rightarrow> (u64 \<Rightarrow> string) \<Rightarrow> vcd_value \<Rightarrow> string" where
  "vcd_format show_bit show_real (VScalar v) = show_bit v"
| "vcd_format show_bit show_real (VVector v) = ''0b'' @ concat (map show_bit v)"
| "vcd_format show_bit show_real (VReal r) = show_real r"
| "vcd_format show_bit show_real (VString s) = s"

fun bit_width :: "vcd_value \<Rightarrow> nat" where
  "bit_width (VScalar v) = 1"
| "bit_width (VVector v) = length v"
| "bit_width (VReal r) = 64"
| "bit_width (VString s) = 0"

definition is_scalar_high :: "vcd_value \<Rightarrow> bool" where
  "is_scalar_high v \<longleftrightarrow> v = VScalar V1"

definition is_scalar_low :: "vcd_value \<Rightarrow> bool" where
  "is_scalar_low v \<longleftrightarrow> v = VScalar V0"

fun known_bit :: "vcd_bit \<Rightarrow> bool option" where
  "known_bit V0 = Some False"
| "known_bit V1 = Some True"
| "known_bit _ = None"

text \<open>Vectors hold the most significant bit first; \<open>checked_sub\<close> fails when the index is too large.\<close>

fun get_bit :: "vcd_value \<Rightarrow> nat \<Rightarrow> bool option" where
  "get_bit (VScalar v) index = (if index = 0 then known_bit v else None)"
| "get_bit (VVector v) index =
     (if 1 + index \<le> length v then known_bit (v ! (length v - (1 + index))) else None)"
| "get_bit _ index = None"

section \<open>Signals\<close>

datatype 'id scope_item =
    ScopeItemScope string string "'id scope_item list"
  | ScopeItemVar 'id string
  | ScopeItemOther


text \<open>\<open>scope_stack.join(".")\<close>.\<close>

fun join_dots :: "string list \<Rightarrow> string" where
  "join_dots [] = []"
| "join_dots [s] = s"
| "join_dots (s # t # ss) = s @ ''.'' @ join_dots (t # ss)"

definition full_name :: "string list \<Rightarrow> string \<Rightarrow> string" where
  "full_name scope_stack reference =
    (if scope_stack = [] then reference else join_dots scope_stack @ ''.'' @ reference)"

text \<open>The stack is pushed before the items of a scope and popped after them.\<close>

fun traverse_scope_items ::
  "'id scope_item list \<Rightarrow> string list \<Rightarrow> ('id \<rightharpoonup> string) \<times> (string \<rightharpoonup> 'id) \<Rightarrow>
   ('id \<rightharpoonup> string) \<times> (string \<rightharpoonup> 'id)" where
  "traverse_scope_items [] scope_stack m = m"
| "traverse_scope_items (ScopeItemScope identifier scope_type items # rest) scope_stack m =
     traverse_scope_items rest scope_stack
       (traverse_scope_items items (scope_stack @ [identifier]) m)"
| "traverse_scope_items (ScopeItemVar code reference # rest) scope_stack (id_to_name, name_to_id) =
     traverse_scope_items rest scope_stack
       (id_to_name(code \<mapsto> full_name scope_stack reference),
        name_to_id(full_name scope_stack reference \<mapsto> code))"
| "traverse_scope_items (ScopeItemOther # rest) scope_stack m =
     traverse_scope_items rest scope_stack m"

record 'id vcd_header =
  h_timescale :: "(u32 \<times> string) option"
  h_date :: "string option"
  h_version :: "string option"
  h_items :: "'id scope_item list"

definition extract_signals_from_header ::
  "'id vcd_header \<Rightarrow> ('id \<rightharpoonup> string) \<times> (string \<rightharpoonup> 'id)" where
  "extract_signals_from_header header =
    traverse_scope_items (h_items header) [] (Map.empty, Map.empty)"

section \<open>The analysis and its queries\<close>

type_synonym 'id time_change = "u64 \<times> ('id \<times> vcd_value) list"

record 'id vcd_analysis =
  a_header :: "'id vcd_header"
  a_id_to_name :: "'id \<rightharpoonup> string"
  a_name_to_id :: "string \<rightharpoonup> 'id"
  a_time_changes :: "'id time_change list"

text \<open>The inner loop of the queries over the changes of one time.\<close>

fun last_of :: "'id \<Rightarrow> ('id \<times> vcd_value) list \<Rightarrow> vcd_value option \<Rightarrow> vcd_value option" where
  "last_of signal_id [] v = v"
| "last_of signal_id ((i, value) # changes) v =
     last_of signal_id changes (if i = signal_id then Some value else v)"

fun value_at_loop ::
  "'id \<Rightarrow> u64 \<Rightarrow> 'id time_change list \<Rightarrow> vcd_value option \<Rightarrow> vcd_value option" where
  "value_at_loop signal_id target_time [] v = v"
| "value_at_loop signal_id target_time ((timestamp, changes) # rest) v =
     (if timestamp > target_time then v
      else value_at_loop signal_id target_time rest (last_of signal_id changes v))"

definition get_signal_value_at :: "'id vcd_analysis \<Rightarrow> 'id \<Rightarrow> u64 \<Rightarrow> vcd_value option" where
  "get_signal_value_at a signal_id target_time =
    value_at_loop signal_id target_time (a_time_changes a) None"

text \<open>The three range queries share one loop; \<open>before\<close> and \<open>within\<close> are the bodies of its branches.\<close>

fun range_loop ::
  "'id \<Rightarrow> u64 \<Rightarrow> u64 \<Rightarrow> (u64 \<Rightarrow> vcd_value \<Rightarrow> 's \<Rightarrow> 's) \<Rightarrow> (u64 \<Rightarrow> vcd_value \<Rightarrow> 's \<Rightarrow> 's) \<Rightarrow>
   'id time_change list \<Rightarrow> 's \<Rightarrow> 's" where
  "range_loop signal_id start_time end_time before within [] s = s"
| "range_loop signal_id start_time end_time before within ((timestamp, changes) # rest) s =
     (if timestamp < start_time then
        range_loop signal_id start_time end_time before within rest
          (fold (\<lambda>(i, value) s. if i = signal_id then before timestamp value s else s) changes s)
      else if timestamp > end_time then s
      else range_loop signal_id start_time end_time before within rest
          (fold (\<lambda>(i, value) s. if i = signal_id then within timestamp value s else s) changes s))"

definition get_signal_changes ::
  "'id vcd_analysis \<Rightarrow> 'id \<Rightarrow> u64 \<Rightarrow> u64 \<Rightarrow> (u64 \<times> vcd_value) list" where
  "get_signal_changes a signal_id start_time end_time =
    (let (changes, last_value) =
       range_loop signal_id start_time end_time
         (\<lambda>t v (changes, last_value). (changes, Some (t, v)))
         (\<lambda>t v (changes, last_value). (changes @ [(t, v)], Some (t, v)))
         (a_time_changes a) ([], None)
     in if changes = [] then (case last_value of Some (t, v) \<Rightarrow> [(t, v)] | None \<Rightarrow> [])
        else changes)"

record file_metadata =
  fm_timescale :: "string option"
  fm_first_time :: u64
  fm_last_time :: u64
  fm_signal_count :: nat

text \<open>The unit of the timescale is given by its \<open>Debug\<close> text.\<close>

definition fmt_timescale :: "u32 \<times> string \<Rightarrow> string" where
  "fmt_timescale ts = fmt_dec_word (fst ts) @ '' '' @ snd ts"

definition get_file_metadata :: "'id vcd_analysis \<Rightarrow> file_metadata" where
  "get_file_metadata a =
    (let (first_time, last_time) =
       (if a_time_changes a = [] then (0, 0)
        else (fst (hd (a_time_changes a)), fst (last (a_time_changes a))))
     in \<lparr>fm_timescale = map_option fmt_timescale (h_timescale (a_header a)),
         fm_first_time = first_time, fm_last_time = last_time,
         fm_signal_count = card (dom (a_id_to_name a))\<rparr>)"

record signal_summary =
  change_count :: u64
  first_change_time :: "u64 option"
  last_change_time :: "u64 option"
  last_value :: "vcd_value option"
  sum_bit_width :: nat

record summary_state =
  ss_count :: u64
  ss_first :: "u64 option"
  ss_last :: "u64 option"
  ss_value :: "vcd_value option"
  ss_width :: "nat option"

definition summary_before :: "u64 \<Rightarrow> vcd_value \<Rightarrow> summary_state \<Rightarrow> summary_state" where
  "summary_before t v s = s\<lparr>ss_value := Some v,
     ss_width := (if ss_width s = None then Some (bit_width v) else ss_width s)\<rparr>"

definition summary_within :: "u64 \<Rightarrow> vcd_value \<Rightarrow> summary_state \<Rightarrow> summary_state" where
  "summary_within t v s = s\<lparr>ss_count := ss_count s + 1,
     ss_first := (if ss_first s = None then Some t else ss_first s), ss_last := Some t,
     ss_value := Some v,
     ss_width := (if ss_width s = None then Some (bit_width v) else ss_width s)\<rparr>"

definition summary_start :: summary_state where
  "summary_start = \<lparr>ss_count = 0, ss_first = None, ss_last = None, ss_value = None, ss_width = None\<rparr>"

definition get_signal_summary ::
  "'id vcd_analysis \<Rightarrow> 'id \<Rightarrow> u64 \<Rightarrow> u64 \<Rightarrow> signal_summary option" where
  "get_signal_summary a signal_id start_time end_time =
    (let s = range_loop signal_id start_time end_time summary_before summary_within
           (a_time_changes a) summary_start
     in if ss_value s \<noteq> None \<or> ss_width s \<noteq> None then
          Some \<lparr>change_count = ss_count s, first_change_time = ss_first s,
            last_change_time = ss_last s, last_value = ss_value s,
            sum_bit_width = (case ss_width s of Some w \<Rightarrow> w | None \<Rightarrow> 0)\<rparr>
        else None)"

datatype edge_type = Rising | Falling | Both

fun is_edge :: "edge_type \<Rightarrow> bool option \<Rightarrow> bool option \<Rightarrow> bool" where
  "is_edge Rising (Some prev) (Some current) \<longleftrightarrow> \<not> prev \<and> current"
| "is_edge Falling (Some prev) (Some current) \<longleftrightarrow> prev \<and> \<not> current"
| "is_edge Both (Some prev) (Some current) \<longleftrightarrow> prev \<noteq> current"
| "is_edge _ _ _ \<longleftrightarrow> False"

definition edge_bit :: "nat option \<Rightarrow> vcd_value \<Rightarrow> bool option" where
  "edge_bit bit_index v = (case bit_index of Some idx \<Rightarrow> get_bit v idx | None \<Rightarrow> get_bit v 0)"

definition edge_within ::
  "edge_type \<Rightarrow> nat option \<Rightarrow> u64 \<Rightarrow> vcd_value \<Rightarrow> u64 \<times> bool option \<Rightarrow> u64 \<times> bool option" where
  "edge_within et bit_index t v s =
    (case s of (count, last_bit) \<Rightarrow>
       (if is_edge et last_bit (edge_bit bit_index v) then count + 1 else count,
        edge_bit bit_index v))"

definition count_signal_edges ::
  "'id vcd_analysis \<Rightarrow> 'id \<Rightarrow> edge_type \<Rightarrow> nat option \<Rightarrow> u64 \<Rightarrow> u64 \<Rightarrow> u64" where
  "count_signal_edges a signal_id et bit_index start_time end_time =
    fst (range_loop signal_id start_time end_time
      (\<lambda>t v (count, last_bit). (count, edge_bit bit_index v))
      (edge_within et bit_index) (a_time_changes a) (0, None))"

section \<open>Parsing\<close>

datatype vcd_error = VcdFileOpen string | VcdParseError string | VcdSignalNotFound string

fun vcd_error_message :: "vcd_error \<Rightarrow> string" where
  "vcd_error_message (VcdFileOpen e) = ''Failed to open VCD file: '' @ e"
| "vcd_error_message (VcdParseError e) = ''Failed to parse VCD: '' @ e"
| "vcd_error_message (VcdSignalNotFound e) = ''Signal not found: '' @ e"

datatype 'id vcd_command =
    CmdTimestamp u64
  | ChangeScalar 'id vcd_bit
  | ChangeVector 'id "vcd_bit list"
  | ChangeReal 'id u64
  | ChangeString 'id string
  | CmdUpscope
  | CmdOther

text \<open>The loop: \<open>time_changes\<close>, \<open>current_time\<close> and \<open>current_changes\<close> are its accumulators.\<close>

fun parse_commands ::
  "(string, 'id vcd_command) result list \<Rightarrow> 'id time_change list \<Rightarrow> u64 \<Rightarrow>
   ('id \<times> vcd_value) list \<Rightarrow> (vcd_error, 'id time_change list) result" where
  "parse_commands [] time_changes current_time current_changes =
     Ok (if current_changes \<noteq> [] then time_changes @ [(current_time, current_changes)]
         else time_changes)"
| "parse_commands (Inl e # rest) time_changes current_time current_changes =
     Err (VcdParseError (''Command parse error: '' @ e))"
| "parse_commands (Inr command # rest) time_changes current_time current_changes =
     (case command of
        CmdTimestamp ts \<Rightarrow>
          parse_commands rest
            (if current_changes \<noteq> [] then time_changes @ [(current_time, current_changes)]
             else time_changes) ts []
      | ChangeScalar i value \<Rightarrow>
          parse_commands rest time_changes current_time (current_changes @ [(i, VScalar value)])
      | ChangeVector i value \<Rightarrow>
          parse_commands rest time_changes current_time (current_changes @ [(i, VVector value)])
      | ChangeReal i value \<Rightarrow>
          parse_commands rest time_changes current_time (current_changes @ [(i, VReal value)])
      | ChangeString i value \<Rightarrow>
          parse_commands rest time_changes current_time (current_changes @ [(i, VString value)])
      | CmdUpscope \<Rightarrow> parse_commands rest time_changes current_time current_changes
      | CmdOther \<Rightarrow> parse_commands rest time_changes current_time current_changes)"

text \<open>
  Opening the file and parsing the header are inputs, as are the commands that follow.
\<close>

definition parse_vcd ::
  "(string, (string, 'id vcd_header) result \<times> (string, 'id vcd_command) result list) result \<Rightarrow>
   (vcd_error, 'id vcd_analysis) result" where
  "parse_vcd file =
    (case file of
       Inl e \<Rightarrow> Err (VcdFileOpen e)
     | Inr (Inl e, commands) \<Rightarrow> Err (VcdParseError (''Header parse error: '' @ e))
     | Inr (Inr header, commands) \<Rightarrow>
       (let (id_to_name, name_to_id) = extract_signals_from_header header
        in result_bind (parse_commands commands [] 0 [])
             (\<lambda>time_changes. Ok \<lparr>a_header = header, a_id_to_name = id_to_name,
                a_name_to_id = name_to_id, a_time_changes = time_changes\<rparr>)))"

definition starts_with :: "string \<Rightarrow> string \<Rightarrow> bool" where
  "starts_with s prefix \<longleftrightarrow> take (length prefix) s = prefix"

text \<open>The keys of the map come in no particular order; they are distinct and get sorted.\<close>

definition filter_signals_by_scope :: "'id vcd_analysis \<Rightarrow> string option \<Rightarrow> string list" where
  "filter_signals_by_scope a scope_filter =
    (case scope_filter of
       None \<Rightarrow> sorted_list_of_set (dom (a_name_to_id a))
     | Some scope \<Rightarrow>
       sorted_list_of_set {name \<in> dom (a_name_to_id a). starts_with name (scope @ ''.'') \<or> name = scope})"

section \<open>The timeline\<close>

definition timeline :: "'id time_change list \<Rightarrow> (u64 \<times> 'id \<times> vcd_value) list" where
  "timeline tcs = concat (map (\<lambda>(t, changes). map (\<lambda>(i, v). (t, i, v)) changes) tcs)"

definition events_of :: "'id \<Rightarrow> (u64 \<times> 'id \<times> vcd_value) list \<Rightarrow> (u64 \<times> vcd_value) list" where
  "events_of signal_id evs = [(t, v). (t, i, v) \<leftarrow> evs, i = signal_id]"

definition time_ordered :: "'id time_change list \<Rightarrow> bool" where
  "time_ordered tcs \<longleftrightarrow> sorted (map fst tcs)"

definition last_option :: "'a list \<Rightarrow> 'a option" where
  "last_option xs = (if xs = [] then None else Some (last xs))"

lemma timeline_simps [simp]:
  "timeline [] = []"
  "timeline ((t, cs) # tcs) = map (\<lambda>(i, v). (t, i, v)) cs @ timeline tcs"
  "timeline (xs @ ys) = timeline xs @ timeline ys"
  by (simp_all add: timeline_def)

lemma events_of_simps [simp]:
  "events_of s [] = []"
  "events_of s ((t, i, v) # evs) = (if i = s then [(t, v)] else []) @ events_of s evs"
  "events_of s (xs @ ys) = events_of s xs @ events_of s ys"
  by (simp_all add: events_of_def)

lemma time_ordered_simps [simp]:
  "time_ordered []"
  "time_ordered ((t, cs) # tcs) \<longleftrightarrow> (\<forall>x\<in>set tcs. t \<le> fst x) \<and> time_ordered tcs"
  by (auto simp: time_ordered_def)

lemma time_ordered_snoc:
  "time_ordered (tcs @ [(t, cs)]) \<longleftrightarrow> time_ordered tcs \<and> (\<forall>x\<in>set tcs. fst x \<le> t)"
  by (auto simp: time_ordered_def sorted_append)

lemma last_option_snoc [simp]: "last_option [] = None" "last_option (xs @ [x]) = Some x"
  by (simp_all add: last_option_def)

lemma events_of_times: "(t, v) \<in> set (events_of s (timeline tcs)) \<Longrightarrow> \<exists>x\<in>set tcs. t = fst x"
  by (induction tcs) (auto simp: events_of_def split: if_splits)

lemma fold_changes:
  "fold (\<lambda>(i, v) s. if i = sid then f t v s else s) changes s =
   fold (\<lambda>(t, v). f t v) (events_of sid (map (\<lambda>(i, v). (t, i, v)) changes)) s"
  by (induction changes arbitrary: s) auto

text \<open>On an ordered timeline, leaving the loop early leaves out exactly the later changes.\<close>

lemma range_loop_fold:
  "time_ordered tcs \<Longrightarrow> range_loop sid s e before within tcs st =
    fold (\<lambda>(t, v). if t < s then before t v else within t v)
      (filter (\<lambda>(t, v). t < s \<or> t \<le> e) (events_of sid (timeline tcs))) st"
proof (induction sid s e before within tcs st rule: range_loop.induct)
  case (2 sid s e before within t cs rest st)
  let ?evs = "events_of sid (map (\<lambda>(i, v). (t, i, v)) cs)"
  have t: "fst x = t" if "x \<in> set ?evs" for x
    using that by (auto simp: events_of_def split: if_splits)
  show ?case
  proof (cases "t < s \<or> t \<le> e")
    case True
    then have keep: "filter (\<lambda>(t, v). t < s \<or> t \<le> e) ?evs = ?evs"
      unfolding filter_id_conv using t by fastforce
    have "fold (\<lambda>(u, v). if u < s then before u v else within u v) ?evs st =
        fold (\<lambda>(u, v). (if t < s then before else within) u v) ?evs st"
      using t by (intro fold_cong) fastforce+
    then show ?thesis using True 2 keep by (cases "t < s") (auto simp: fold_changes)
  next
    case False
    have "\<not> (u < s \<or> u \<le> e)" if "(u, v) \<in> set (events_of sid (timeline ((t, cs) # rest)))" for u v
    proof -
      from events_of_times [OF that] obtain x where "x \<in> set ((t, cs) # rest)" "u = fst x" by blast
      with 2(3) have "t \<le> u" by auto
      with False show ?thesis by auto
    qed
    then have "filter (\<lambda>(t, v). t < s \<or> t \<le> e) (events_of sid (timeline ((t, cs) # rest))) = []"
      by (fastforce simp: filter_empty_conv simp del: timeline_simps)
    with False show ?thesis by auto
  qed
qed simp

lemma last_of_fold: "last_of sid cs v = fold (\<lambda>(i, x) v. if i = sid then Some x else v) cs v"
  by (induction sid cs v rule: last_of.induct) auto

lemma value_at_loop_range:
  "value_at_loop sid t tcs v = range_loop sid 0 t (\<lambda>_ x _. Some x) (\<lambda>_ x _. Some x) tcs v"
  by (induction sid t tcs v rule: value_at_loop.induct) (auto simp: last_of_fold)

lemma fold_last: "fold (\<lambda>(t, v) _. Some v) evs None = map_option snd (last_option evs)"
  by (induction evs rule: rev_induct) auto

lemma sorted_events: "time_ordered tcs \<Longrightarrow> sorted (map fst (events_of sid (timeline tcs)))"
proof (induction tcs)
  case (Cons x tcs)
  obtain t cs where x: "x = (t, cs)" by (cases x)
  have "fst y = t" if "y \<in> set (events_of sid (map (\<lambda>(i, v). (t, i, v)) cs))" for y
    using that by (auto simp: events_of_def split: if_splits)
  then have "map fst (events_of sid (map (\<lambda>(i, v). (t, i, v)) cs)) =
      replicate (length (events_of sid (map (\<lambda>(i, v). (t, i, v)) cs))) t"
    by (intro nth_equalityI) simp_all
  moreover have "t \<le> fst y" if "y \<in> set (events_of sid (timeline tcs))" for y
    using that Cons.prems events_of_times [of "fst y" "snd y" sid tcs] by (auto simp: x)
  ultimately show ?case using Cons by (auto simp: x sorted_append)
qed simp

section \<open>What the queries compute\<close>

text \<open>The events of one signal decide every query; a query up to \<open>e\<close> sees those at or before \<open>e\<close>.\<close>

definition until :: "u64 \<Rightarrow> (u64 \<times> 'v) list \<Rightarrow> (u64 \<times> 'v) list" where
  "until e evs = filter (\<lambda>(t, v). t \<le> e) evs"

definition within_range :: "u64 \<Rightarrow> u64 \<Rightarrow> (u64 \<times> 'v) list \<Rightarrow> (u64 \<times> 'v) list" where
  "within_range s e evs = filter (\<lambda>(t, v). s \<le> t \<and> t \<le> e) evs"

lemma range_until: "s \<le> e \<Longrightarrow> filter (\<lambda>(t, v). t < s \<or> t \<le> e) evs = until e evs"
  by (auto simp: until_def intro!: filter_cong)

definition value_at_spec :: "u64 \<Rightarrow> (u64 \<times> vcd_value) list \<Rightarrow> vcd_value option" where
  "value_at_spec t evs = map_option snd (last_option (until t evs))"

definition changes_spec :: "u64 \<Rightarrow> u64 \<Rightarrow> (u64 \<times> vcd_value) list \<Rightarrow> (u64 \<times> vcd_value) list" where
  "changes_spec s e evs =
    (if within_range s e evs \<noteq> [] then within_range s e evs
     else case last_option (until e evs) of Some x \<Rightarrow> [x] | None \<Rightarrow> [])"

definition summary_spec :: "u64 \<Rightarrow> u64 \<Rightarrow> (u64 \<times> vcd_value) list \<Rightarrow> signal_summary option" where
  "summary_spec s e evs =
    (if until e evs = [] then None
     else Some \<lparr>change_count = word_of_nat (length (within_range s e evs)),
       first_change_time = (if within_range s e evs = [] then None else Some (fst (hd (within_range s e evs)))),
       last_change_time = map_option fst (last_option (within_range s e evs)),
       last_value = value_at_spec e evs,
       sum_bit_width = bit_width (snd (hd (until e evs)))\<rparr>)"

lemma value_at_correct:
  "time_ordered (a_time_changes a) \<Longrightarrow>
    get_signal_value_at a sid t = value_at_spec t (events_of sid (timeline (a_time_changes a)))"
  by (simp add: get_signal_value_at_def value_at_loop_range range_loop_fold range_until value_at_spec_def)
    (simp add: fold_last until_def)

lemma within_until: "within_range s e evs = filter (\<lambda>(t, v). \<not> t < s) (until e evs)"
  by (auto simp: within_range_def until_def intro!: filter_cong)

lemma fold_changes_spec:
  "fold (\<lambda>(t, v). if t < s then (\<lambda>(c, l). (c, Some (t, v))) else (\<lambda>(c, l). (c @ [(t, v)], Some (t, v))))
     evs ([], None) = (filter (\<lambda>(t, v). \<not> t < s) evs, last_option evs)"
  by (induction evs rule: rev_induct) auto

lemma changes_correct:
  "time_ordered (a_time_changes a) \<Longrightarrow> s \<le> e \<Longrightarrow>
    get_signal_changes a sid s e = changes_spec s e (events_of sid (timeline (a_time_changes a)))"
  by (simp add: get_signal_changes_def range_loop_fold range_until changes_spec_def fold_changes_spec
      within_until split: option.splits)

lemma fold_summary:
  "fold (\<lambda>(t, v). if t < s then summary_before t v else summary_within t v) evs summary_start =
    (let inside = filter (\<lambda>(t, v). \<not> t < s) evs
     in \<lparr>ss_count = word_of_nat (length inside),
         ss_first = (if inside = [] then None else Some (fst (hd inside))),
         ss_last = map_option fst (last_option inside),
         ss_value = map_option snd (last_option evs),
         ss_width = (if evs = [] then None else Some (bit_width (snd (hd evs))))\<rparr>)"
proof (induction evs rule: rev_induct)
  case (snoc x evs)
  then show ?case
    by (cases x) (auto simp: summary_before_def summary_within_def Let_def hd_append)
qed (simp add: summary_start_def)

lemma summary_correct:
  "time_ordered (a_time_changes a) \<Longrightarrow> s \<le> e \<Longrightarrow>
    get_signal_summary a sid s e = summary_spec s e (events_of sid (timeline (a_time_changes a)))"
  by (auto simp: get_signal_summary_def range_loop_fold range_until summary_spec_def fold_summary
      within_until value_at_spec_def Let_def last_option_def)

section \<open>Edges\<close>

fun adjacent :: "'a list \<Rightarrow> ('a \<times> 'a) list" where
  "adjacent (x # y # zs) = (x, y) # adjacent (y # zs)"
| "adjacent _ = []"

definition edge_pairs ::
  "edge_type \<Rightarrow> nat option \<Rightarrow> u64 \<Rightarrow> u64 \<Rightarrow> (u64 \<times> vcd_value) list \<Rightarrow>
   ((u64 \<times> vcd_value) \<times> (u64 \<times> vcd_value)) list" where
  "edge_pairs et b s e evs =
    filter (\<lambda>((_, p), (t, c)). s \<le> t \<and> t \<le> e \<and> is_edge et (edge_bit b p) (edge_bit b c)) (adjacent evs)"

lemma adjacent_snoc [simp]:
  "adjacent (xs @ [x]) = adjacent xs @ (if xs = [] then [] else [(last xs, x)])"
  by (induction xs rule: adjacent.induct) auto

lemma adjacent_snd: "(p, q) \<in> set (adjacent (x # xs)) \<Longrightarrow> q \<in> set xs"
  by (induction xs arbitrary: x) (auto elim: adjacent.elims)

lemma adjacent_until:
  "sorted (map fst evs) \<Longrightarrow> adjacent (until e evs) = filter (\<lambda>(_, (t, c)). t \<le> e) (adjacent evs)"
proof (induction evs rule: adjacent.induct)
  case (1 x y zs)
  show ?case
  proof (cases "fst y \<le> e")
    case True
    then have "fst x \<le> e" using 1(2) by auto
    with True 1 show ?thesis by (auto simp: until_def split: prod.splits)
  next
    case False
    then have none: "until e (y # zs) = []" using 1(2) by (fastforce simp: until_def filter_empty_conv)
    then have "adjacent (until e (x # y # zs)) = []" by (simp add: until_def split: prod.splits)
    moreover have "filter (\<lambda>(_, (t, c)). t \<le> e) (adjacent (y # zs)) = []"
      using 1 none by (simp flip: 1(1))
    ultimately show ?thesis using False by (auto split: prod.splits)
  qed
qed (auto simp: until_def)

lemma fold_edges:
  "fold (\<lambda>(t, v). if t < s then (\<lambda>(n, l). (n, edge_bit b v)) else edge_within et b t v) evs (0, None) =
    (word_of_nat (length (filter (\<lambda>((_, p), (t, c)). s \<le> t \<and> is_edge et (edge_bit b p) (edge_bit b c)) (adjacent evs))),
     case last_option evs of Some (t, v) \<Rightarrow> edge_bit b v | None \<Rightarrow> None)"
proof (induction evs rule: rev_induct)
  case (snoc x evs)
  then show ?case
    by (cases x; cases "last evs") (auto simp: edge_within_def last_option_def linorder_not_less)
qed simp

lemma edges_correct:
  assumes "time_ordered (a_time_changes a)" "s \<le> e"
  shows "count_signal_edges a sid et b s e =
    word_of_nat (length (edge_pairs et b s e (events_of sid (timeline (a_time_changes a)))))"
  using assms(2)
  by (simp add: count_signal_edges_def range_loop_fold [OF assms(1)] range_until fold_edges
      adjacent_until [OF sorted_events [OF assms(1)]] edge_pairs_def)
    (rule arg_cong [where f = "\<lambda>xs. word_of_nat (length xs)"], rule filter_cong, auto)

end
