(* ===== verification/Vcd_Queries.thy ===== *)
theory Vcd_Queries
  imports Vcd_Analysis
begin

text \<open>
  What the queries of \<open>vcd-mcp/src/domain.rs\<close> answer about a file: from the commands of the file
  to the answers.  The parse loop keeps every change with its time; on a file whose time stamps do
  not decrease, the queries are the plain list functions of the changes of the signal.
\<close>

section \<open>The changes in a command stream\<close>

fun change_of :: "'id vcd_command \<Rightarrow> ('id \<times> vcd_value) option" where
  "change_of (ChangeScalar i v) = Some (i, VScalar v)"
| "change_of (ChangeVector i v) = Some (i, VVector v)"
| "change_of (ChangeReal i v) = Some (i, VReal v)"
| "change_of (ChangeString i v) = Some (i, VString v)"
| "change_of _ = None"

fun command_changes :: "u64 \<Rightarrow> 'id vcd_command list \<Rightarrow> (u64 \<times> 'id \<times> vcd_value) list" where
  "command_changes t [] = []"
| "command_changes t (CmdTimestamp ts # cmds) = command_changes ts cmds"
| "command_changes t (c # cmds) =
     (case change_of c of Some (i, v) \<Rightarrow> [(t, i, v)] | None \<Rightarrow> []) @ command_changes t cmds"

fun timestamps :: "'id vcd_command list \<Rightarrow> u64 list" where
  "timestamps [] = []"
| "timestamps (CmdTimestamp ts # cmds) = ts # timestamps cmds"
| "timestamps (c # cmds) = timestamps cmds"

text \<open>The changes of one signal, in the order of the file.\<close>

definition signal_changes :: "'id \<Rightarrow> 'id vcd_command list \<Rightarrow> (u64 \<times> vcd_value) list" where
  "signal_changes sid cmds = events_of sid (command_changes 0 cmds)"

definition new_change :: "'id vcd_command \<Rightarrow> ('id \<times> vcd_value) list" where
  "new_change c = (case change_of c of Some x \<Rightarrow> [x] | None \<Rightarrow> [])"

lemma other_command:
  assumes "\<forall>ts. c \<noteq> CmdTimestamp ts"
  shows "parse_commands (Inr c # cmds) tcs t cs = parse_commands cmds tcs t (cs @ new_change c)"
    and "command_changes t (c # cs') = map (\<lambda>(i, v). (t, i, v)) (new_change c) @ command_changes t cs'"
    and "timestamps (c # cs') = timestamps cs'"
  using assms by (cases c; simp add: new_change_def)+

lemma parse_commands_timeline:
  "\<exists>tcs'. parse_commands (map Inr cmds) tcs t cs = Ok tcs' \<and>
    timeline tcs' = timeline tcs @ map (\<lambda>(i, v). (t, i, v)) cs @ command_changes t cmds \<and>
    ((\<forall>x\<in>set tcs. snd x \<noteq> []) \<longrightarrow> (\<forall>x\<in>set tcs'. snd x \<noteq> [])) \<and>
    (time_ordered tcs \<longrightarrow> (\<forall>x\<in>set tcs. fst x \<le> t) \<longrightarrow> sorted (t # timestamps cmds) \<longrightarrow> time_ordered tcs')"
proof (induction cmds arbitrary: tcs t cs)
  case Nil
  show ?case by (auto simp: time_ordered_snoc)
next
  case (Cons c cmds)
  show ?case
  proof (cases "\<exists>ts. c = CmdTimestamp ts")
    case True
    then obtain ts where c: "c = CmdTimestamp ts" ..
    define tcs1 where "tcs1 = (if cs \<noteq> [] then tcs @ [(t, cs)] else tcs)"
    have tl: "timeline tcs1 = timeline tcs @ map (\<lambda>(i, v). (t, i, v)) cs"
      and ne: "(\<forall>x\<in>set tcs. snd x \<noteq> []) \<Longrightarrow> \<forall>x\<in>set tcs1. snd x \<noteq> []"
      by (auto simp: tcs1_def)
    have ord: "time_ordered tcs1 \<and> (\<forall>x\<in>set tcs1. fst x \<le> ts)"
      if "time_ordered tcs" "\<forall>x\<in>set tcs. fst x \<le> t" "t \<le> ts"
      using that by (auto simp: tcs1_def time_ordered_snoc intro: order_trans)
    have step: "parse_commands (map Inr (c # cmds)) tcs t cs = parse_commands (map Inr cmds) tcs1 ts []"
      by (simp add: c tcs1_def)
    obtain tcs' where tcs': "parse_commands (map Inr cmds) tcs1 ts [] = Ok tcs'"
      "timeline tcs' = timeline tcs1 @ command_changes ts cmds"
      "(\<forall>x\<in>set tcs1. snd x \<noteq> []) \<longrightarrow> (\<forall>x\<in>set tcs'. snd x \<noteq> [])"
      "time_ordered tcs1 \<longrightarrow> (\<forall>x\<in>set tcs1. fst x \<le> ts) \<longrightarrow> sorted (ts # timestamps cmds) \<longrightarrow> time_ordered tcs'"
      using Cons.IH [of tcs1 ts "[]"] by auto
    have "sorted (t # timestamps (c # cmds)) \<Longrightarrow> t \<le> ts \<and> sorted (ts # timestamps cmds)"
      by (simp add: c)
    with tcs'(4) ord
    have "time_ordered tcs \<longrightarrow> (\<forall>x\<in>set tcs. fst x \<le> t) \<longrightarrow> sorted (t # timestamps (c # cmds)) \<longrightarrow> time_ordered tcs'"
      by blast
    moreover have "(\<forall>x\<in>set tcs. snd x \<noteq> []) \<longrightarrow> (\<forall>x\<in>set tcs'. snd x \<noteq> [])"
      using tcs'(3) ne by blast
    moreover have "timeline tcs' = timeline tcs @ map (\<lambda>(i, v). (t, i, v)) cs @ command_changes t (c # cmds)"
      unfolding tcs'(2) tl c by simp
    ultimately show ?thesis unfolding step tcs'(1) by blast
  next
    case False
    then have c: "\<forall>ts. c \<noteq> CmdTimestamp ts" by blast
    show ?thesis
      using Cons.IH [of tcs t "cs @ new_change c"] unfolding list.map other_command [OF c] by simp
  qed
qed

lemma parse_commands_error:
  "parse_commands (map Inr cmds @ Inl e # rest) tcs t cs =
    Err (VcdParseError (''Command parse error: '' @ e))"
  by (induction cmds arbitrary: tcs t cs) (auto split: vcd_command.split)

lemma parse_vcd_ok:
  fixes header :: "'id vcd_header"
  obtains a where "parse_vcd (Ok (Ok header, map Inr cmds)) = Ok a" "a_header a = header"
    "(a_id_to_name a, a_name_to_id a) = extract_signals_from_header header"
    "timeline (a_time_changes a) = command_changes 0 cmds"
    "\<forall>x\<in>set (a_time_changes a). snd x \<noteq> []"
    "sorted (timestamps cmds) \<Longrightarrow> time_ordered (a_time_changes a)"
proof -
  obtain tcs where "parse_commands (map Inr cmds) [] 0 [] = Ok tcs"
    "timeline tcs = command_changes 0 cmds" "\<forall>x\<in>set tcs. snd x \<noteq> []"
    "sorted (timestamps cmds) \<longrightarrow> time_ordered tcs"
    using parse_commands_timeline [of cmds "[]" 0 "[]"] by auto
  then show ?thesis
    by (intro that [of "\<lparr>a_header = header, a_id_to_name = fst (extract_signals_from_header header),
        a_name_to_id = snd (extract_signals_from_header header), a_time_changes = tcs\<rparr>"])
      (auto simp: parse_vcd_def split: prod.splits)
qed

section \<open>The names of the signals\<close>

fun signal_entries :: "'id scope_item list \<Rightarrow> string list \<Rightarrow> (string \<times> 'id) list" where
  "signal_entries [] stack = []"
| "signal_entries (ScopeItemScope ident ty items # rest) stack =
     signal_entries items (stack @ [ident]) @ signal_entries rest stack"
| "signal_entries (ScopeItemVar code reference # rest) stack =
     (full_name stack reference, code) # signal_entries rest stack"
| "signal_entries (ScopeItemOther # rest) stack = signal_entries rest stack"

lemma traverse_entries:
  "traverse_scope_items items stack (ids, names) =
    (ids ++ map_of (rev (map prod.swap (signal_entries items stack))),
     names ++ map_of (rev (signal_entries items stack)))"
proof (induction items stack arbitrary: ids names rule: signal_entries.induct)
  case (2 ident ty items rest stack)
  show ?case by (simp add: 2 map_add_assoc [symmetric] del: map_add_assoc)
next
  case (3 code reference rest stack)
  then show ?case by (simp add: fun_eq_iff map_add_def split: option.split)
qed simp_all

lemma signals_of_header:
  "extract_signals_from_header header =
    (map_of (rev (map prod.swap (signal_entries (h_items header) []))),
     map_of (rev (signal_entries (h_items header) [])))"
  by (simp add: extract_signals_from_header_def traverse_entries)

lemma distinct_map_of_rev:
  "distinct (map fst xs) \<Longrightarrow> map_of (rev xs) k = Some v \<longleftrightarrow> (k, v) \<in> set xs"
  by (simp flip: rev_map add: map_of_eq_Some_iff rev_map [symmetric])

lemma swapped_entry: "map_of (rev (map prod.swap xs)) i = Some n \<Longrightarrow> (n, i) \<in> set xs"
  by (auto dest: map_of_SomeD)

lemma length_filter_disj:
  "(\<And>x. P x \<longleftrightarrow> Q x \<or> R x) \<Longrightarrow> (\<And>x. \<not> (Q x \<and> R x)) \<Longrightarrow>
    length (filter P xs) = length (filter Q xs) + length (filter R xs)"
  by (induction xs) auto

lemma is_edge_both:
  "is_edge Both p c \<longleftrightarrow> is_edge Rising p c \<or> is_edge Falling p c" "\<not> (is_edge Rising p c \<and> is_edge Falling p c)"
  by (cases p; cases c; simp; blast)+

lemma edge_pairs_both:
  "length (edge_pairs Both b s e evs) =
    length (edge_pairs Rising b s e evs) + length (edge_pairs Falling b s e evs)"
  unfolding edge_pairs_def
  by (rule length_filter_disj) (use is_edge_both in \<open>auto split: prod.splits\<close>)

lemma edge_pairs_split:
  assumes "s \<le> m" "m < e"
  shows "length (edge_pairs et b s e evs) =
    length (edge_pairs et b s m evs) + length (edge_pairs et b (m + 1) e evs)"
proof -
  have m: "m + 1 \<le> t \<longleftrightarrow> m < t" for t
  proof -
    have "unat m < unat e" using assms(2) by (simp add: word_less_nat_alt)
    then have "unat (m + 1) = unat m + 1" using unat_lt2p [of e] by (simp add: unat_plus_nowrap)
    then show ?thesis by (simp add: word_less_nat_alt word_le_nat_alt Suc_le_eq)
  qed
  show ?thesis
    unfolding edge_pairs_def m by (rule length_filter_disj) (use assms in \<open>auto split: prod.splits\<close>)
qed

section \<open>The properties\<close>

text \<open>
  C24: Parsing keeps every change of the file, in order and with the time stamp that precedes it,
  and stores no time without changes; a name maps to the last variable of that full hierarchical
  name, and back when the names are distinct.  The first malformed command makes the whole parse
  fail with its message.
\<close>

theorem vcd_parse_faithful:
  fixes header :: "'id vcd_header"
  shows "(\<exists>a. parse_vcd (Ok (Ok header, map Ok cmds)) = Ok a \<and>
      timeline (a_time_changes a) = command_changes 0 cmds \<and>
      (\<forall>x\<in>set (a_time_changes a). snd x \<noteq> []) \<and>
      a_name_to_id a = map_of (rev (signal_entries (h_items header) [])) \<and>
      (distinct (map fst (signal_entries (h_items header) [])) \<longrightarrow>
        (\<forall>i n. a_id_to_name a i = Some n \<longrightarrow> a_name_to_id a n = Some i))) \<and>
    parse_vcd (Ok (Ok header, map Ok cmds @ Err e # rest)) =
      Err (VcdParseError (''Command parse error: '' @ e))"
proof (rule conjI)
  obtain a where a: "parse_vcd (Ok (Ok header, map Ok cmds)) = Ok a"
    "(a_id_to_name a, a_name_to_id a) = extract_signals_from_header header"
    "timeline (a_time_changes a) = command_changes 0 cmds"
    "\<forall>x\<in>set (a_time_changes a). snd x \<noteq> []"
    using parse_vcd_ok [of header cmds] by metis
  then show "\<exists>a. parse_vcd (Ok (Ok header, map Ok cmds)) = Ok a \<and>
      timeline (a_time_changes a) = command_changes 0 cmds \<and>
      (\<forall>x\<in>set (a_time_changes a). snd x \<noteq> []) \<and>
      a_name_to_id a = map_of (rev (signal_entries (h_items header) [])) \<and>
      (distinct (map fst (signal_entries (h_items header) [])) \<longrightarrow>
        (\<forall>i n. a_id_to_name a i = Some n \<longrightarrow> a_name_to_id a n = Some i))"
    by (intro exI [of _ a])
      (auto simp: signals_of_header distinct_map_of_rev dest: swapped_entry)
qed (simp add: parse_vcd_def parse_commands_error split: prod.splits)

definition example_header :: "nat vcd_header" where
  "example_header = \<lparr>h_timescale = None, h_date = None, h_version = None, h_items =
     [ScopeItemScope ''top'' ''Module'' [ScopeItemVar 3 ''clk'', ScopeItemScope ''cpu'' ''Module''
        [ScopeItemVar 4 ''pc'']], ScopeItemOther]\<rparr>"

text \<open>A clock that rises at 5 and 15 and falls at 10, and a two-bit signal that becomes known at 5.\<close>

definition example_commands :: "nat vcd_command list" where
  "example_commands =
    [ChangeScalar 3 V0, ChangeVector 4 [VX, VX], CmdTimestamp 5, ChangeScalar 3 V1, ChangeVector 4 [V0, V1],
     CmdTimestamp 10, ChangeScalar 3 V0, CmdTimestamp 15, CmdTimestamp 15, ChangeScalar 3 V1]"

lemma vcd_parse_faithful_witness:
  "\<exists>a. parse_vcd (Ok (Ok example_header, map Ok example_commands)) = Ok a \<and>
    (\<forall>i n. a_id_to_name a i = Some n \<longrightarrow> a_name_to_id a n = Some i) \<and>
    a_name_to_id a ''top.cpu.pc'' = Some 4"
proof -
  have "signal_entries (h_items example_header) [] = [(''top.clk'', 3), (''top.cpu.pc'', 4)]"
    by (simp add: example_header_def full_name_def)
  with vcd_parse_faithful [of example_header example_commands "[]" "[]"] show ?thesis by auto
qed

text \<open>
  C25: On a file whose time stamps do not decrease, the queries answer from the changes of the
  signal alone: its value at a time is the last one assigned at or before it; the changes of a range
  are those with a time in the range, or else the last one before it; the summary counts them and
  names the first and last of them, the value at the end of the range and the width.
\<close>

theorem vcd_queries_correct:
  assumes "parse_vcd (Ok (Ok header, map Ok cmds)) = Ok a" "sorted (timestamps cmds)" "s \<le> e"
  shows "get_signal_value_at a sid t = value_at_spec t (signal_changes sid cmds) \<and>
    get_signal_changes a sid s e = changes_spec s e (signal_changes sid cmds) \<and>
    get_signal_summary a sid s e = summary_spec s e (signal_changes sid cmds)"
proof -
  from assms(1,2) have "time_ordered (a_time_changes a)" "timeline (a_time_changes a) = command_changes 0 cmds"
    using parse_vcd_ok [of header cmds] by (metis sum.inject(2))+
  then show ?thesis
    using assms(3) by (simp add: value_at_correct changes_correct summary_correct signal_changes_def)
qed

lemma example_parse:
  "parse_vcd (Ok (Ok example_header, map Ok example_commands)) =
    Ok \<lparr>a_header = example_header, a_id_to_name = fst (extract_signals_from_header example_header),
      a_name_to_id = snd (extract_signals_from_header example_header),
      a_time_changes = [(0, [(3, VScalar V0), (4, VVector [VX, VX])]), (5, [(3, VScalar V1), (4, VVector [V0, V1])]),
        (10, [(3, VScalar V0)]), (15, [(3, VScalar V1)])]\<rparr>"
  by (simp add: parse_vcd_def example_commands_def split: prod.split)

lemma example_sorted: "sorted (timestamps example_commands)"
  by (simp add: example_commands_def)

lemma example_changes:
  "signal_changes 3 example_commands = [(0, VScalar V0), (5, VScalar V1), (10, VScalar V0), (15, VScalar V1)]"
  by (simp add: example_commands_def signal_changes_def)

lemma vcd_queries_correct_witness:
  "\<exists>a. parse_vcd (Ok (Ok example_header, map Ok example_commands)) = Ok a \<and>
    get_signal_value_at a 3 12 = Some (VScalar V0) \<and>
    get_signal_changes a 3 5 11 = [(5, VScalar V1), (10, VScalar V0)]"
proof (intro exI conjI, rule example_parse)
qed (simp_all add: vcd_queries_correct [OF example_parse example_sorted, of 5 11] example_changes
    value_at_spec_def changes_spec_def within_range_def until_def last_option_def)

text \<open>
  C26: The edge counter counts exactly the neighbouring changes of the signal whose later one lies in
  the range and whose selected bits are both known and differ in the asked direction.  So both edges
  are the rising and the falling ones, and a range can be split at any time.
\<close>

theorem vcd_edges_correct:
  assumes "parse_vcd (Ok (Ok header, map Ok cmds)) = Ok a" "sorted (timestamps cmds)" "s \<le> e"
  shows "count_signal_edges a sid et b s e =
      word_of_nat (length (edge_pairs et b s e (signal_changes sid cmds))) \<and>
    count_signal_edges a sid Both b s e =
      count_signal_edges a sid Rising b s e + count_signal_edges a sid Falling b s e \<and>
    (s \<le> m \<longrightarrow> m < e \<longrightarrow> count_signal_edges a sid et b s e =
      count_signal_edges a sid et b s m + count_signal_edges a sid et b (m + 1) e)"
proof -
  let ?evs = "signal_changes sid cmds"
  from assms(1,2) have a: "time_ordered (a_time_changes a)" "timeline (a_time_changes a) = command_changes 0 cmds"
    using parse_vcd_ok [of header cmds] by (metis sum.inject(2))+
  have count: "count_signal_edges a sid et b s e = word_of_nat (length (edge_pairs et b s e ?evs))"
    if "s \<le> e" for et s e
    using edges_correct [OF a(1) that] by (simp add: a(2) signal_changes_def)
  have "m + 1 \<le> e" if "m < e" using that by (rule inc_le)
  then show ?thesis
    using assms(3) by (auto simp: count edge_pairs_both [of b s e ?evs] edge_pairs_split)
qed

lemma vcd_edges_correct_witness:
  "\<exists>a. parse_vcd (Ok (Ok example_header, map Ok example_commands)) = Ok a \<and>
    count_signal_edges a 3 Rising None 0 20 = 2 \<and> count_signal_edges a 3 Falling None 6 20 = 1 \<and>
    count_signal_edges a 3 Both None 0 20 = 3"
proof (intro exI conjI, rule example_parse)
qed (simp_all add: vcd_edges_correct [OF example_parse example_sorted] example_changes edge_pairs_def
    edge_bit_def)

end
