(* ===== verification/Vcd_Cache.thy ===== *)
theory Vcd_Cache
  imports Hw_Prelude
begin

text \<open>
  The cache of parsed files of the waveform server (\<open>get_or_parse\<close> of \<open>vcd-mcp/src/handlers.rs\<close>,
  \<open>vcd-mcp/src/state.rs\<close>): concurrent tasks check the cache, get a lock for the file, check again,
  parse, store and remove the lock.  A task is a program counter; one step of a task is the code
  between two points at which another task can run, and the tasks interleave in any way.  The
  result of a parse is an input of its step.  The invariant gives: no file is parsed successfully
  twice, no two tasks parse a file at the same time, and the tasks do not deadlock.
\<close>

section \<open>Tasks\<close>

type_synonym file_path = string
type_synonym lock_id = nat

datatype 'a task_pc =
    Start file_path
  | AskLock file_path
  | WaitLock file_path lock_id
  | Locked file_path lock_id
  | Parsing file_path lock_id
  | Parsed file_path lock_id 'a
  | Stored file_path lock_id 'a
  | Returning file_path lock_id "(string, 'a) result"
  | Finished file_path "(string, 'a) result"

text \<open>
  \<open>PARSE_LOCKS\<close> maps a path to the lock (an \<open>Arc\<close>) of its file; \<open>lock_owner\<close> is the task that holds
  a lock.  \<open>parses\<close> logs the completed parses.
\<close>

record 'a vcd_server =
  cache :: "file_path \<rightharpoonup> 'a"
  parse_locks :: "file_path \<rightharpoonup> lock_id"
  lock_owner :: "lock_id \<rightharpoonup> nat"
  next_lock :: lock_id
  tasks :: "nat \<rightharpoonup> 'a task_pc"
  parses :: "(file_path \<times> (string, 'a) result) list"

definition vcd_server_new :: "'a vcd_server" where
  "vcd_server_new = \<lparr>cache = Map.empty, parse_locks = Map.empty, lock_owner = Map.empty,
     next_lock = 0, tasks = Map.empty, parses = []\<rparr>"

definition set_pc :: "nat \<Rightarrow> 'a task_pc \<Rightarrow> 'a vcd_server \<Rightarrow> 'a vcd_server" where
  "set_pc i pc st = st\<lparr>tasks := (tasks st)(i \<mapsto> pc)\<rparr>"

text \<open>A new call of \<open>get_or_parse\<close>.\<close>

definition new_call :: "nat \<Rightarrow> file_path \<Rightarrow> 'a vcd_server \<Rightarrow> 'a vcd_server option" where
  "new_call i p st = (if tasks st i = None then Some (set_pc i (Start p) st) else None)"

text \<open>
  One step of task \<open>i\<close>; \<open>outcome\<close> is what \<open>parse_vcd\<close> returns if the task is parsing.
  \<^term>\<open>None\<close>: the task waits, has finished, or does not exist.
\<close>

definition task_step ::
  "nat \<Rightarrow> (string, 'a) result \<Rightarrow> 'a vcd_server \<Rightarrow> 'a vcd_server option" where
  "task_step i outcome st =
    (case tasks st i of
       None \<Rightarrow> None
     | Some (Start p) \<Rightarrow>
         Some (case cache st p of
                 Some a \<Rightarrow> set_pc i (Finished p (Ok a)) st
               | None \<Rightarrow> set_pc i (AskLock p) st)
     | Some (AskLock p) \<Rightarrow>
         Some (case parse_locks st p of
                 Some l \<Rightarrow> set_pc i (WaitLock p l) st
               | None \<Rightarrow> set_pc i (WaitLock p (next_lock st))
                   (st\<lparr>parse_locks := (parse_locks st)(p \<mapsto> next_lock st), next_lock := next_lock st + 1\<rparr>))
     | Some (WaitLock p l) \<Rightarrow>
         (if lock_owner st l = None
          then Some (set_pc i (Locked p l) (st\<lparr>lock_owner := (lock_owner st)(l \<mapsto> i)\<rparr>))
          else None)
     | Some (Locked p l) \<Rightarrow>
         Some (case cache st p of
                 Some a \<Rightarrow> set_pc i (Returning p l (Ok a)) st
               | None \<Rightarrow> set_pc i (Parsing p l) st)
     | Some (Parsing p l) \<Rightarrow>
         Some (set_pc i (case outcome of Inl e \<Rightarrow> Returning p l (Err e) | Inr a \<Rightarrow> Parsed p l a)
                 (st\<lparr>parses := parses st @ [(p, outcome)]\<rparr>))
     | Some (Parsed p l a) \<Rightarrow>
         Some (set_pc i (Stored p l a) (st\<lparr>cache := (cache st)(p \<mapsto> a)\<rparr>))
     | Some (Stored p l a) \<Rightarrow>
         Some (set_pc i (Returning p l (Ok a)) (st\<lparr>parse_locks := (parse_locks st)(p := None)\<rparr>))
     | Some (Returning p l r) \<Rightarrow>
         Some (set_pc i (Finished p r) (st\<lparr>lock_owner := (lock_owner st)(l := None)\<rparr>))
     | Some (Finished p r) \<Rightarrow> None)"

inductive vcd_reachable :: "'a vcd_server \<Rightarrow> bool" where
  vcd_start: "vcd_reachable vcd_server_new"
| vcd_call: "vcd_reachable st \<Longrightarrow> new_call i p st = Some st' \<Longrightarrow> vcd_reachable st'"
| vcd_step: "vcd_reachable st \<Longrightarrow> task_step i outcome st = Some st' \<Longrightarrow> vcd_reachable st'"

section \<open>The invariant\<close>

fun holds_lock :: "'a task_pc \<Rightarrow> lock_id option" where
  "holds_lock (Locked p l) = Some l"
| "holds_lock (Parsing p l) = Some l"
| "holds_lock (Parsed p l a) = Some l"
| "holds_lock (Stored p l a) = Some l"
| "holds_lock (Returning p l r) = Some l"
| "holds_lock _ = None"

text \<open>The file and the lock of a task that has not parsed its file or not stored it yet.\<close>

fun wants_lock :: "'a task_pc \<Rightarrow> (file_path \<times> lock_id) option" where
  "wants_lock (WaitLock p l) = Some (p, l)"
| "wants_lock (Locked p l) = Some (p, l)"
| "wants_lock (Parsing p l) = Some (p, l)"
| "wants_lock (Parsed p l a) = Some (p, l)"
| "wants_lock _ = None"

fun is_parsing :: "'a task_pc \<Rightarrow> file_path option" where
  "is_parsing (Parsing p l) = Some p"
| "is_parsing (Parsed p l a) = Some p"
| "is_parsing _ = None"

fun has_result :: "'a task_pc \<Rightarrow> (file_path \<times> 'a) option" where
  "has_result (Stored p l a) = Some (p, a)"
| "has_result (Returning p l (Inr a)) = Some (p, a)"
| "has_result (Finished p (Inr a)) = Some (p, a)"
| "has_result _ = None"

definition successes :: "file_path \<Rightarrow> (file_path \<times> (string, 'a) result) list \<Rightarrow> 'a list" where
  "successes p log = [a. (q, Inr a) \<leftarrow> log, q = p]"

lemma successes_simps [simp]:
  "successes p [] = []"
  "successes p (log @ [(q, Inr a)]) = successes p log @ (if q = p then [a] else [])"
  "successes p (log @ [(q, Inl e)]) = successes p log"
  by (simp_all add: successes_def)

definition lock_inv :: "'a vcd_server \<Rightarrow> bool" where
  "lock_inv st \<longleftrightarrow>
    (\<forall>l i. lock_owner st l = Some i \<longleftrightarrow> (\<exists>pc. tasks st i = Some pc \<and> holds_lock pc = Some l))"

definition wait_inv :: "'a vcd_server \<Rightarrow> bool" where
  "wait_inv st \<longleftrightarrow>
    (\<forall>i pc p l. tasks st i = Some pc \<longrightarrow> wants_lock pc = Some (p, l) \<longrightarrow> cache st p = None \<longrightarrow>
       parse_locks st p = Some l)"

definition parse_inv :: "'a vcd_server \<Rightarrow> bool" where
  "parse_inv st \<longleftrightarrow>
    (\<forall>i pc p. tasks st i = Some pc \<longrightarrow> is_parsing pc = Some p \<longrightarrow> cache st p = None)"

definition result_inv :: "'a vcd_server \<Rightarrow> bool" where
  "result_inv st \<longleftrightarrow>
    (\<forall>i pc p a. tasks st i = Some pc \<longrightarrow> has_result pc = Some (p, a) \<longrightarrow> cache st p = Some a)"

definition success_inv :: "'a vcd_server \<Rightarrow> bool" where
  "success_inv st \<longleftrightarrow>
    (\<forall>p. successes p (parses st) = [] \<and> cache st p = None \<and> (\<forall>i l a. tasks st i \<noteq> Some (Parsed p l a)) \<or>
       (\<exists>a. successes p (parses st) = [a] \<and>
         (cache st p = Some a \<or> cache st p = None \<and> (\<exists>i l. tasks st i = Some (Parsed p l a)))))"

definition vcd_inv :: "'a vcd_server \<Rightarrow> bool" where
  "vcd_inv st \<longleftrightarrow> lock_inv st \<and> wait_inv st \<and> parse_inv st \<and> result_inv st \<and> success_inv st"

section \<open>Every step keeps the invariant\<close>

lemma set_pc_simps [simp]:
  "cache (set_pc i pc st) = cache st" "parse_locks (set_pc i pc st) = parse_locks st"
  "lock_owner (set_pc i pc st) = lock_owner st" "parses (set_pc i pc st) = parses st"
  "tasks (set_pc i pc st) = (tasks st)(i \<mapsto> pc)"
  by (simp_all add: set_pc_def)

text \<open>The steps, with the state after each.\<close>

lemma task_step_cases [consumes 1, case_names
    hit miss join create acquire found absent failed parsed store remove release]:
  assumes "task_step i r st = Some st'"
  obtains p a where "tasks st i = Some (Start p)" "cache st p = Some a"
      "st' = set_pc i (Finished p (Ok a)) st"
  | p where "tasks st i = Some (Start p)" "cache st p = None" "st' = set_pc i (AskLock p) st"
  | p l where "tasks st i = Some (AskLock p)" "parse_locks st p = Some l"
      "st' = set_pc i (WaitLock p l) st"
  | p where "tasks st i = Some (AskLock p)" "parse_locks st p = None"
      "st' = set_pc i (WaitLock p (next_lock st))
        (st\<lparr>parse_locks := (parse_locks st)(p \<mapsto> next_lock st), next_lock := next_lock st + 1\<rparr>)"
  | p l where "tasks st i = Some (WaitLock p l)" "lock_owner st l = None"
      "st' = set_pc i (Locked p l) (st\<lparr>lock_owner := (lock_owner st)(l \<mapsto> i)\<rparr>)"
  | p l a where "tasks st i = Some (Locked p l)" "cache st p = Some a"
      "st' = set_pc i (Returning p l (Ok a)) st"
  | p l where "tasks st i = Some (Locked p l)" "cache st p = None" "st' = set_pc i (Parsing p l) st"
  | p l e where "tasks st i = Some (Parsing p l)" "r = Err e"
      "st' = set_pc i (Returning p l (Err e)) (st\<lparr>parses := parses st @ [(p, Err e)]\<rparr>)"
  | p l a where "tasks st i = Some (Parsing p l)" "r = Ok a"
      "st' = set_pc i (Parsed p l a) (st\<lparr>parses := parses st @ [(p, Ok a)]\<rparr>)"
  | p l a where "tasks st i = Some (Parsed p l a)"
      "st' = set_pc i (Stored p l a) (st\<lparr>cache := (cache st)(p \<mapsto> a)\<rparr>)"
  | p l a where "tasks st i = Some (Stored p l a)"
      "st' = set_pc i (Returning p l (Ok a)) (st\<lparr>parse_locks := (parse_locks st)(p := None)\<rparr>)"
  | p l r' where "tasks st i = Some (Returning p l r')"
      "st' = set_pc i (Finished p r') (st\<lparr>lock_owner := (lock_owner st)(l := None)\<rparr>)"
  using assms
  by (cases "tasks st i")
    (fastforce simp: task_step_def split: task_pc.splits option.splits sum.splits if_splits)+

lemma unique_holder:
  assumes "lock_inv st" "tasks st i = Some pc" "holds_lock pc = Some l"
    "tasks st j = Some pc'" "holds_lock pc' = Some l"
  shows "i = j"
proof -
  have "lock_owner st l = Some i" "lock_owner st l = Some j"
    using assms unfolding lock_inv_def by blast+
  then show ?thesis by simp
qed

lemma is_parsing_wants: "is_parsing pc = Some p \<Longrightarrow> \<exists>l. wants_lock pc = Some (p, l) \<and> holds_lock pc = Some l"
  by (cases pc) auto

lemma unique_parser:
  assumes "vcd_inv st" "tasks st i = Some pc" "is_parsing pc = Some p"
    "tasks st j = Some pc'" "is_parsing pc' = Some p"
  shows "i = j"
proof -
  from is_parsing_wants [OF assms(3)]
  obtain l where l: "wants_lock pc = Some (p, l)" "holds_lock pc = Some l" by blast
  from is_parsing_wants [OF assms(5)]
  obtain l' where l': "wants_lock pc' = Some (p, l')" "holds_lock pc' = Some l'" by blast
  have "cache st p = None" using assms by (auto simp: vcd_inv_def parse_inv_def)
  then have "l = l'" using assms(1,2,4) l l' unfolding vcd_inv_def wait_inv_def by (metis option.inject)
  then show ?thesis using unique_holder [OF _ assms(2) l(2) assms(4)] l'(2) assms(1) by (simp add: vcd_inv_def)
qed

lemma lock_inv_step:
  assumes "task_step i r st = Some st'" "lock_inv st"
  shows "lock_inv st'"
  using assms(1)
proof (cases rule: task_step_cases)
  case (acquire p l)
  then have "holds_lock pc \<noteq> Some l" if "tasks st j = Some pc" for j pc
    using assms(2) that unfolding lock_inv_def by (metis option.distinct(1))
  with acquire assms(2) show ?thesis by (auto simp: lock_inv_def)
next
  case (release p l r')
  then have "holds_lock pc \<noteq> Some l" if "tasks st j = Some pc" "j \<noteq> i" for j pc
    using unique_holder [OF assms(2) release(1) _ that(1), of l] that(2) by auto
  with release assms(2) show ?thesis by (auto simp: lock_inv_def)
qed (use assms(2) in \<open>auto simp: lock_inv_def\<close>)

lemma wait_inv_step:
  assumes "task_step i r st = Some st'" "vcd_inv st"
  shows "wait_inv st'"
  using assms(1)
proof (cases rule: task_step_cases)
  case (remove p l a)
  then have "cache st p = Some a" using assms(2) by (auto simp: vcd_inv_def result_inv_def)
  with remove assms(2) show ?thesis by (auto simp: wait_inv_def vcd_inv_def)
next
  case (create p)
  then have "\<not> (wants_lock pc = Some (p, l) \<and> cache st p = None)" if "tasks st j = Some pc" for j pc l
    using assms(2) that unfolding wait_inv_def vcd_inv_def by (metis option.distinct(1))
  with create assms(2) show ?thesis by (auto simp: wait_inv_def vcd_inv_def)
qed (use assms(2) in \<open>auto simp: wait_inv_def vcd_inv_def\<close>)

lemma parse_inv_step:
  assumes "task_step i r st = Some st'" "vcd_inv st"
  shows "parse_inv st'"
  using assms(1)
proof (cases rule: task_step_cases)
  case (store p l a)
  then have "is_parsing pc \<noteq> Some p" if "tasks st j = Some pc" "j \<noteq> i" for j pc
    using unique_parser [OF assms(2) store(1) _ that(1), of p] that(2) by auto
  with store assms(2) show ?thesis by (auto simp: parse_inv_def vcd_inv_def)
qed (use assms(2) in \<open>auto simp: parse_inv_def vcd_inv_def\<close>)

lemma result_inv_step:
  assumes "task_step i r st = Some st'" "vcd_inv st"
  shows "result_inv st'"
  using assms(1)
proof (cases rule: task_step_cases)
  case (store p l a)
  then have "cache st p = None" using assms(2) by (auto simp: vcd_inv_def parse_inv_def)
  with store assms(2) show ?thesis by (auto simp: result_inv_def vcd_inv_def)
next
  case (release p l r')
  with assms(2) show ?thesis by (cases r') (auto simp: result_inv_def vcd_inv_def)
qed (use assms(2) in \<open>auto simp: result_inv_def vcd_inv_def\<close>)

text \<open>What \<open>success_inv\<close> reads of the program counters.\<close>

definition parsed_of :: "file_path \<Rightarrow> 'a vcd_server \<Rightarrow> 'a \<Rightarrow> bool" where
  "parsed_of p st a \<longleftrightarrow> (\<exists>i l. tasks st i = Some (Parsed p l a))"

definition success_at :: "'a vcd_server \<Rightarrow> file_path \<Rightarrow> bool" where
  "success_at st p \<longleftrightarrow>
    successes p (parses st) = [] \<and> cache st p = None \<and> (\<forall>a. \<not> parsed_of p st a) \<or>
    (\<exists>a. successes p (parses st) = [a] \<and> (cache st p = Some a \<or> cache st p = None \<and> parsed_of p st a))"

lemma success_inv_at: "success_inv st \<longleftrightarrow> (\<forall>p. success_at st p)"
  by (auto simp: success_inv_def success_at_def parsed_of_def)

lemma parsed_of_unchanged:
  assumes "\<And>l a. tasks st i \<noteq> Some (Parsed p l a)" "\<And>l a. tasks st' i \<noteq> Some (Parsed p l a)"
    "\<And>j. j \<noteq> i \<Longrightarrow> tasks st' j = tasks st j"
  shows "parsed_of p st' = parsed_of p st"
  using assms unfolding parsed_of_def by metis

lemma success_at_unchanged:
  assumes "success_at st q" "successes q (parses st') = successes q (parses st)"
    "cache st' q = cache st q" "parsed_of q st' = parsed_of q st"
  shows "success_at st' q"
  using assms by (simp add: success_at_def)

lemma success_inv_step:
  assumes "task_step i r st = Some st'" "vcd_inv st"
  shows "success_inv st'"
  unfolding success_inv_at
proof
  fix q
  have q: "success_at st q" using assms(2) by (simp add: vcd_inv_def success_inv_at)
  show "success_at st' q"
    using assms(1)
  proof (cases rule: task_step_cases)
    case (parsed p l a)
    show ?thesis
    proof (cases "q = p")
      case True
      have none: "cache st p = None" using parsed assms(2) by (auto simp: vcd_inv_def parse_inv_def)
      have "\<not> parsed_of p st b" for b
        using unique_parser [OF assms(2) parsed(1), of p] parsed(1) by (force simp: parsed_of_def)
      with q none True have "successes p (parses st) = []" by (auto simp: success_at_def)
      then show ?thesis using parsed none True by (auto simp: success_at_def parsed_of_def)
    next
      case False
      with parsed show ?thesis
        by (intro success_at_unchanged [OF q] parsed_of_unchanged [where i = i]) auto
    qed
  next
    case (store p l a)
    show ?thesis
    proof (cases "q = p")
      case True
      have none: "cache st p = None" using store assms(2) by (auto simp: vcd_inv_def parse_inv_def)
      have "b = a" if b: "parsed_of p st b" for b
      proof -
        from b obtain j l' where j: "tasks st j = Some (Parsed p l' b)" by (auto simp: parsed_of_def)
        with unique_parser [OF assms(2) store(1) _ j, of p] store(1) show ?thesis by simp
      qed
      moreover have "parsed_of p st a" using store by (auto simp: parsed_of_def)
      moreover from q none True obtain b where "successes p (parses st) = [b]" "parsed_of p st b"
        using \<open>parsed_of p st a\<close> unfolding success_at_def by auto
      ultimately have "successes p (parses st) = [a]" by metis
      then have "successes p (parses st') = [a]" "cache st' p = Some a" by (simp_all add: store(2))
      then show ?thesis by (simp add: success_at_def True)
    next
      case False
      with store show ?thesis
        by (intro success_at_unchanged [OF q] parsed_of_unchanged [where i = i]) auto
    qed
  qed (intro success_at_unchanged [OF q] parsed_of_unchanged [where i = i]; simp)+
qed

lemma vcd_inv_reachable: "vcd_reachable st \<Longrightarrow> vcd_inv st"
proof (induction rule: vcd_reachable.induct)
  case vcd_start
  show ?case
    by (auto simp: vcd_inv_def vcd_server_new_def lock_inv_def wait_inv_def parse_inv_def result_inv_def
        success_inv_def)
next
  case (vcd_call st i p st')
  then have st': "tasks st i = None" "st' = set_pc i (Start p) st"
    by (auto simp: new_call_def split: if_splits)
  have "parsed_of q st' = parsed_of q st" for q
    by (rule parsed_of_unchanged [where i = i]) (simp_all add: st')
  then have "success_at st' q" for q
    using vcd_call.IH by - (rule success_at_unchanged [of st], simp_all add: st' vcd_inv_def success_inv_at)
  moreover have "lock_inv st'" "wait_inv st'" "parse_inv st'" "result_inv st'"
    using vcd_call.IH st'(1) unfolding vcd_inv_def st'(2) lock_inv_def wait_inv_def parse_inv_def result_inv_def
    by (simp_all; blast)+
  ultimately show ?case by (simp add: vcd_inv_def success_inv_at)
next
  case (vcd_step st i outcome st')
  then show ?case
    using lock_inv_step wait_inv_step parse_inv_step result_inv_step success_inv_step
    unfolding vcd_inv_def by blast
qed

section \<open>The properties\<close>

definition unfinished :: "'a task_pc \<Rightarrow> bool" where
  "unfinished pc \<longleftrightarrow> (\<forall>p r. pc \<noteq> Finished p r)"

lemma holder_can_step:
  "tasks st i = Some pc \<Longrightarrow> holds_lock pc = Some l \<Longrightarrow> task_step i r st \<noteq> None"
  by (cases pc) (simp_all add: task_step_def)

lemma waiter_can_step:
  assumes "tasks st i = Some pc" "unfinished pc" "holds_lock pc = None"
  shows "task_step i r st \<noteq> None \<or> (\<exists>p l. pc = WaitLock p l \<and> lock_owner st l \<noteq> None)"
  using assms by (cases pc) (auto simp: task_step_def unfinished_def)

text \<open>
  C27: However the tasks interleave, a file is parsed successfully at most once and by one task at a
  time, every task that returns an analysis returns the one that was parsed, and while a task has
  not finished, some task can run.
\<close>

theorem vcd_cache_safe:
  assumes "vcd_reachable st"
  shows "length (successes p (parses st)) \<le> 1 \<and>
    (\<forall>i j l l'. tasks st i = Some (Parsing p l) \<longrightarrow> tasks st j = Some (Parsing p l') \<longrightarrow> i = j) \<and>
    (\<forall>i a. tasks st i = Some (Finished p (Ok a)) \<longrightarrow> cache st p = Some a \<and> successes p (parses st) = [a]) \<and>
    ((\<exists>i pc. tasks st i = Some pc \<and> unfinished pc) \<longrightarrow> (\<exists>i. task_step i outcome st \<noteq> None))"
proof (intro conjI allI impI)
  note inv = vcd_inv_reachable [OF assms]
  have at: "success_at st p" using inv by (simp add: vcd_inv_def success_inv_at)
  then show "length (successes p (parses st)) \<le> 1" by (auto simp: success_at_def)
  show "i = j" if "tasks st i = Some (Parsing p l)" "tasks st j = Some (Parsing p l')" for i j l l'
    using unique_parser [OF inv that(1) _ that(2), of p] by simp
  show c: "cache st p = Some a" if "tasks st i = Some (Finished p (Ok a))" for i a
    using inv that by (auto simp: vcd_inv_def result_inv_def)
  show "successes p (parses st) = [a]" if "tasks st i = Some (Finished p (Ok a))" for i a
    using at c [OF that] by (auto simp: success_at_def)
  assume "\<exists>i pc. tasks st i = Some pc \<and> unfinished pc"
  then obtain i pc where i: "tasks st i = Some pc" "unfinished pc" by blast
  show "\<exists>i. task_step i outcome st \<noteq> None"
  proof (cases "holds_lock pc = None \<and> task_step i outcome st = None")
    case True
    with waiter_can_step [OF i, of outcome] obtain l where "lock_owner st l \<noteq> None" by auto
    then obtain j where "lock_owner st l = Some j" by auto
    then obtain pc' where "tasks st j = Some pc'" "holds_lock pc' = Some l"
      using inv unfolding vcd_inv_def lock_inv_def by blast
    then show ?thesis using holder_can_step by blast
  next
    case False
    then show ?thesis using holder_can_step [OF i(1)] by (cases "holds_lock pc") blast+
  qed
qed

text \<open>Two tasks ask for the same file at the same time: one parses, the other takes its result.\<close>

fun run_calls :: "(nat \<times> file_path option) list \<Rightarrow> 'a \<Rightarrow> 'a vcd_server \<Rightarrow> 'a vcd_server option" where
  "run_calls [] a st = Some st"
| "run_calls ((i, c) # cs) a st =
     (case (case c of Some p \<Rightarrow> new_call i p st | None \<Rightarrow> task_step i (Ok a) st) of
        None \<Rightarrow> None
      | Some st \<Rightarrow> run_calls cs a st)"

lemma run_calls_reachable: "run_calls cs a st = Some st' \<Longrightarrow> vcd_reachable st \<Longrightarrow> vcd_reachable st'"
  by (induction cs a st rule: run_calls.induct) (auto split: option.splits intro: vcd_reachable.intros)

lemma vcd_cache_safe_witness:
  "\<exists>st. run_calls [(0, Some ''a.vcd''), (1, Some ''a.vcd''), (0, None), (1, None), (0, None), (1, None),
      (0, None), (0, None), (0, None), (0, None), (0, None), (0, None), (1, None), (1, None), (1, None)]
      (7 :: nat) vcd_server_new = Some st \<and>
    tasks st 1 = Some (Finished ''a.vcd'' (Ok 7)) \<and> successes ''a.vcd'' (parses st) = [7]"
proof -
  let ?cs = "[(0, Some ''a.vcd''), (1, Some ''a.vcd''), (0, None), (1, None), (0, None), (1, None),
      (0, None), (0, None), (0, None), (0, None), (0, None), (0, None), (1, None), (1, None), (1, None)]"
  obtain st where st: "run_calls ?cs (7 :: nat) vcd_server_new = Some st" "tasks st 1 = Some (Finished ''a.vcd'' (Ok 7))"
    by (simp add: vcd_server_new_def new_call_def task_step_def set_pc_def)
  with vcd_cache_safe [OF run_calls_reachable [OF st(1) vcd_start], of "''a.vcd''"] show ?thesis by blast
qed

end
