(* ===== verification/Vcd_Handlers.thy ===== *)
theory Vcd_Handlers
  imports Vcd_Queries Vcd_Cache
begin

text \<open>
  The tools of the waveform server (\<open>vcd-mcp/src/tools.rs\<close> and the handlers of
  \<open>vcd-mcp/src/handlers.rs\<close>).  A handler validates its arguments, gets the analysis of the file
  (\<open>analysis\<close>: what \<open>get_or_parse\<close> returned to it, see \<open>Vcd_Cache\<close>) and answers.  An answer is a
  record with one field per field of the JSON object; an absent field is \<^term>\<open>None\<close>.  Printing values
  and quoting a list of names (\<open>{:?}\<close>) are parameters.
\<close>

section \<open>Arguments\<close>

definition ends_with :: "string \<Rightarrow> string \<Rightarrow> bool" where
  "ends_with s suffix \<longleftrightarrow> starts_with (rev s) (rev suffix)"

definition validate_vcd_path :: "string \<Rightarrow> (string, unit) result" where
  "validate_vcd_path path =
    (if \<not> ends_with path ''.vcd'' then
       Err (''File path must have a .vcd extension, got: '' @ path)
     else Ok ())"

record get_values_args =
  gv_file_path :: string
  gv_signal_names :: "string list"
  gv_start_time :: u64
  gv_end_time :: "u64 option"
  gv_only_changes :: bool
  gv_limit :: "nat option"

record get_signal_summary_args =
  gs_file_path :: string
  gs_signal_names :: "string list"
  gs_start_time :: u64
  gs_end_time :: "u64 option"

record count_edges_args =
  ce_file_path :: string
  ce_signal_name :: string
  ce_edge_type :: string
  ce_bit_index :: "nat option"
  ce_start_time :: u64
  ce_end_time :: "u64 option"

definition validate_summary_args :: "get_signal_summary_args \<Rightarrow> (string, unit) result" where
  "validate_summary_args args =
    result_bind (validate_vcd_path (gs_file_path args))
      (\<lambda>_. if gs_signal_names args = [] then Err ''At least one signal name must be provided''
           else Ok ())"

definition default_edge_type :: string where "default_edge_type = ''rising''"

definition parse_edge_type :: "string \<Rightarrow> edge_type option" where
  "parse_edge_type s =
    (if s = ''rising'' then Some Rising else if s = ''falling'' then Some Falling
     else if s = ''both'' then Some Both else None)"

definition validate_edges_args :: "count_edges_args \<Rightarrow> (string, unit) result" where
  "validate_edges_args args =
    result_bind (validate_vcd_path (ce_file_path args))
      (\<lambda>_. if parse_edge_type (ce_edge_type args) = None then
             Err (''Invalid edge_type '' @ [CHR 0x27] @ ce_edge_type args @ [CHR 0x27] @ ''. Must be '' @
               [CHR 0x27] @ ''rising'' @ [CHR 0x27] @ '', '' @ [CHR 0x27] @ ''falling'' @ [CHR 0x27] @
               '', or '' @ [CHR 0x27] @ ''both'' @ [CHR 0x27])
           else Ok ())"

definition invalid_path :: "(string, unit) result \<Rightarrow> (string, unit) result" where
  "invalid_path r = (case r of Inl e \<Rightarrow> Err (''Invalid file path: '' @ e) | Inr u \<Rightarrow> Ok u)"

definition invalid_arguments :: "(string, unit) result \<Rightarrow> (string, unit) result" where
  "invalid_arguments r = (case r of Inl e \<Rightarrow> Err (''Invalid arguments: '' @ e) | Inr u \<Rightarrow> Ok u)"

text \<open>The end of a range defaults to the last time of the file; a range must not end before its start.\<close>

definition default_end :: "'id vcd_analysis \<Rightarrow> u64 option \<Rightarrow> u64" where
  "default_end a end_time =
    (case end_time of Some e \<Rightarrow> e
     | None \<Rightarrow> (if a_time_changes a = [] then - 1 else fst (last (a_time_changes a))))"

definition check_range :: "u64 \<Rightarrow> u64 \<Rightarrow> (string, unit) result" where
  "check_range start_time end_time =
    (if end_time < start_time then
       Err (''end_time ('' @ fmt_dec_word end_time @ '') must be greater than or equal to start_time ('' @
         fmt_dec_word start_time @ '')'')
     else Ok ())"

section \<open>Header, signals and file information\<close>

record header_response =
  hr_timescale :: string
  hr_date :: string
  hr_version :: string
  hr_top_level_scopes :: "string list"
  hr_total_signals :: nat

fun top_scopes :: "'id scope_item list \<Rightarrow> (string \<times> string) list" where
  "top_scopes [] = []"
| "top_scopes (ScopeItemScope identifier scope_type items # rest) = (identifier, scope_type) # top_scopes rest"
| "top_scopes (item # rest) = top_scopes rest"

definition unwrap_or :: "'a option \<Rightarrow> 'a \<Rightarrow> 'a" where
  "unwrap_or x d = (case x of Some a \<Rightarrow> a | None \<Rightarrow> d)"

definition handle_inspect_header ::
  "(string, 'id vcd_analysis) result \<Rightarrow> string \<Rightarrow> (string, header_response) result" where
  "handle_inspect_header analysis file_path =
    result_bind (invalid_path (validate_vcd_path file_path))
      (\<lambda>_. result_bind analysis (\<lambda>a. Ok
        \<lparr>hr_timescale = unwrap_or (map_option fmt_timescale (h_timescale (a_header a))) ''Not specified'',
         hr_date = unwrap_or (h_date (a_header a)) ''Not specified'',
         hr_version = unwrap_or (h_version (a_header a)) ''Not specified'',
         hr_top_level_scopes = map (\<lambda>(i, ty). i @ '' ('' @ ty @ '')'') (top_scopes (h_items (a_header a))),
         hr_total_signals = card (dom (a_id_to_name a))\<rparr>))"

definition handle_list_signals ::
  "(string, 'id vcd_analysis) result \<Rightarrow> string \<Rightarrow> string option \<Rightarrow> (string, string list \<times> nat) result" where
  "handle_list_signals analysis file_path scope_filter =
    result_bind (invalid_path (validate_vcd_path file_path))
      (\<lambda>_. result_bind analysis (\<lambda>a.
        let signals = filter_signals_by_scope a scope_filter in Ok (signals, length signals)))"

record file_info =
  fi_metadata :: file_metadata
  fi_top_scopes :: "string list"
  fi_size_bytes :: "u64 option"

text \<open>The size of the file on disk is an input.\<close>

definition handle_get_file_info ::
  "(string, 'id vcd_analysis) result \<Rightarrow> u64 option \<Rightarrow> string \<Rightarrow> (string, file_info) result" where
  "handle_get_file_info analysis file_size file_path =
    result_bind (invalid_path (validate_vcd_path file_path))
      (\<lambda>_. result_bind analysis (\<lambda>a. Ok
        \<lparr>fi_metadata = get_file_metadata a,
         fi_top_scopes = map fst (top_scopes (h_items (a_header a))), fi_size_bytes = file_size\<rparr>))"

section \<open>Summaries, edges and values\<close>

definition missing_warning :: "(string list \<Rightarrow> string) \<Rightarrow> string list \<Rightarrow> (string list \<times> string) option" where
  "missing_warning debug_names missing =
    (if missing \<noteq> [] then Some (missing, ''Some signals were not found: '' @ debug_names missing) else None)"

record summary_view =
  sv_change_count :: u64
  sv_bit_width :: nat
  sv_first_change_time :: "u64 option"
  sv_last_change_time :: "u64 option"
  sv_last_value :: "string option"

definition view_summary :: "(vcd_value \<Rightarrow> string) \<Rightarrow> signal_summary \<Rightarrow> summary_view" where
  "view_summary fmt s =
    \<lparr>sv_change_count = change_count s, sv_bit_width = sum_bit_width s,
     sv_first_change_time = first_change_time s, sv_last_change_time = last_change_time s,
     sv_last_value = map_option fmt (last_value s)\<rparr>"

fun summaries_loop ::
  "(vcd_value \<Rightarrow> string) \<Rightarrow> 'id vcd_analysis \<Rightarrow> u64 \<Rightarrow> u64 \<Rightarrow> string list \<Rightarrow>
   (string \<rightharpoonup> summary_view) \<times> string list \<Rightarrow> (string \<rightharpoonup> summary_view) \<times> string list" where
  "summaries_loop fmt a start_time end_time [] (summaries, missing) = (summaries, missing)"
| "summaries_loop fmt a start_time end_time (name # names) (summaries, missing) =
     (case a_name_to_id a name of
        None \<Rightarrow> summaries_loop fmt a start_time end_time names (summaries, missing @ [name])
      | Some sid \<Rightarrow>
        (case get_signal_summary a sid start_time end_time of
           Some s \<Rightarrow> summaries_loop fmt a start_time end_time names
             (summaries(name \<mapsto> view_summary fmt s), missing)
         | None \<Rightarrow> summaries_loop fmt a start_time end_time names (summaries, missing)))"

definition handle_get_signal_summary ::
  "(vcd_value \<Rightarrow> string) \<Rightarrow> (string list \<Rightarrow> string) \<Rightarrow> (string, 'id vcd_analysis) result \<Rightarrow>
   get_signal_summary_args \<Rightarrow>
   (string, (string \<rightharpoonup> summary_view) \<times> (string list \<times> string) option) result" where
  "handle_get_signal_summary fmt debug_names analysis args =
    result_bind (invalid_arguments (validate_summary_args args))
      (\<lambda>_. result_bind analysis (\<lambda>a.
        let end_time = default_end a (gs_end_time args)
        in result_bind (check_range (gs_start_time args) end_time) (\<lambda>_.
          let (summaries, missing) =
            summaries_loop fmt a (gs_start_time args) end_time (gs_signal_names args) (Map.empty, [])
          in Ok (summaries, missing_warning debug_names missing))))"

record edges_response =
  er_signal :: string
  er_edge_type :: string
  er_bit_index :: "nat option"
  er_start_time :: u64
  er_end_time :: u64
  er_count :: u64

definition handle_count_edges ::
  "(string, 'id vcd_analysis) result \<Rightarrow> count_edges_args \<Rightarrow> (string, edges_response) result" where
  "handle_count_edges analysis args =
    result_bind (invalid_arguments (validate_edges_args args))
      (\<lambda>_. result_bind analysis (\<lambda>a.
        case a_name_to_id a (ce_signal_name args) of
          None \<Rightarrow> Err (''Signal not found: '' @ ce_signal_name args)
        | Some sid \<Rightarrow>
          (case parse_edge_type (ce_edge_type args) of
             None \<Rightarrow> Err (''Invalid edge type: '' @ ce_edge_type args)
           | Some et \<Rightarrow>
             (let end_time = default_end a (ce_end_time args)
              in result_bind (check_range (ce_start_time args) end_time) (\<lambda>_. Ok
                \<lparr>er_signal = ce_signal_name args, er_edge_type = ce_edge_type args,
                 er_bit_index = ce_bit_index args, er_start_time = ce_start_time args,
                 er_end_time = end_time,
                 er_count = count_signal_edges a sid et (ce_bit_index args) (ce_start_time args) end_time\<rparr>)))))"

text \<open>The rows of one signal over a range, and whether the limit cut them.\<close>

definition range_rows ::
  "'id vcd_analysis \<Rightarrow> get_values_args \<Rightarrow> u64 \<Rightarrow> 'id \<Rightarrow> (u64 \<times> vcd_value) list \<times> bool" where
  "range_rows a args end_time sid =
    (let changes = get_signal_changes a sid (gv_start_time args) end_time;
         changes = (if gv_only_changes args then filter (\<lambda>(t, v). t \<ge> gv_start_time args) changes
                    else changes)
     in case gv_limit args of
          Some limit \<Rightarrow> (if length changes > limit then (take limit changes, True) else (changes, False))
        | None \<Rightarrow> (changes, False))"

type_synonym value_row = "string \<times> u64 \<times> string"

fun values_loop ::
  "(vcd_value \<Rightarrow> string) \<Rightarrow> 'id vcd_analysis \<Rightarrow> get_values_args \<Rightarrow> string list \<Rightarrow>
   value_row list \<Rightarrow> string list \<Rightarrow> bool \<Rightarrow> value_row list \<times> string list \<times> bool" where
  "values_loop fmt a args [] results missing truncated = (results, missing, truncated)"
| "values_loop fmt a args (name # names) results missing truncated =
     (case a_name_to_id a name of
        None \<Rightarrow> values_loop fmt a args names results (missing @ [name]) truncated
      | Some sid \<Rightarrow>
        (case gv_end_time args of
           Some end_time \<Rightarrow>
             (let (rows, cut) = range_rows a args end_time sid
              in values_loop fmt a args names (results @ map (\<lambda>(t, v). (name, t, fmt v)) rows) missing
                   (truncated \<or> cut))
         | None \<Rightarrow>
             (case get_signal_value_at a sid (gv_start_time args) of
                Some v \<Rightarrow> values_loop fmt a args names (results @ [(name, gv_start_time args, fmt v)])
                  missing truncated
              | None \<Rightarrow> values_loop fmt a args names results missing truncated)))"

record values_response =
  vr_values :: "value_row list"
  vr_info :: "string option"
  vr_missing :: "(string list \<times> string) option"

definition handle_get_values ::
  "(vcd_value \<Rightarrow> string) \<Rightarrow> (string list \<Rightarrow> string) \<Rightarrow> (string, 'id vcd_analysis) result \<Rightarrow>
   get_values_args \<Rightarrow> (string, values_response) result" where
  "handle_get_values fmt debug_names analysis args =
    result_bind (invalid_path (validate_vcd_path (gv_file_path args)))
      (\<lambda>_. result_bind
        (case gv_end_time args of Some e \<Rightarrow> check_range (gv_start_time args) e | None \<Rightarrow> Ok ())
        (\<lambda>_. result_bind analysis (\<lambda>a.
          let (results, missing, truncated) = values_loop fmt a args (gv_signal_names args) [] [] False
          in Ok \<lparr>vr_values = results,
                 vr_info = (if truncated then Some (''Results were limited to '' @
                    fmt_dec (unwrap_or (gv_limit args) 0) @
                    '' values per signal. Use '' @ [CHR 0x27] @ ''limit'' @ [CHR 0x27] @
                    '' parameter to control this.'')
                  else None),
                 vr_missing = missing_warning debug_names missing\<rparr>)))"

section \<open>What the values tool answers\<close>

definition limited :: "nat option \<Rightarrow> 'a list \<Rightarrow> 'a list" where
  "limited lim xs = (case lim of Some n \<Rightarrow> take n xs | None \<Rightarrow> xs)"

definition cut_by :: "nat option \<Rightarrow> 'a list \<Rightarrow> bool" where
  "cut_by lim xs \<longleftrightarrow> (case lim of Some n \<Rightarrow> length xs > n | None \<Rightarrow> False)"

text \<open>The changes that a request asks for, from the changes of the signal in the file.\<close>

definition asked_changes :: "get_values_args \<Rightarrow> u64 \<Rightarrow> (u64 \<times> vcd_value) list \<Rightarrow> (u64 \<times> vcd_value) list" where
  "asked_changes args e evs =
    (if gv_only_changes args then within_range (gv_start_time args) e evs
     else changes_spec (gv_start_time args) e evs)"

definition answer_rows ::
  "(vcd_value \<Rightarrow> string) \<Rightarrow> (string \<rightharpoonup> 'id) \<Rightarrow> 'id vcd_command list \<Rightarrow> get_values_args \<Rightarrow> u64 \<Rightarrow>
   string \<Rightarrow> value_row list" where
  "answer_rows fmt ids cmds args e name =
    (case ids name of None \<Rightarrow> []
     | Some sid \<Rightarrow> map (\<lambda>(t, v). (name, t, fmt v))
         (limited (gv_limit args) (asked_changes args e (signal_changes sid cmds))))"

lemma only_changes_filter:
  "filter (\<lambda>(t, v). s \<le> t) (changes_spec s e evs) = within_range s e evs"
proof (cases "within_range s e evs = []")
  case False
  have "filter (\<lambda>(t, v). s \<le> t) (within_range s e evs) = within_range s e evs"
    by (auto simp: within_range_def intro!: filter_cong)
  with False show ?thesis by (simp add: changes_spec_def)
next
  case True
  have "\<not> s \<le> fst x" if "x \<in> set (until e evs)" for x
    using that True by (fastforce simp: until_def within_range_def filter_empty_conv)
  then have "until e evs = [] \<or> \<not> s \<le> fst (last (until e evs))" using last_in_set by blast
  with True show ?thesis
    by (auto simp: changes_spec_def last_option_def split: option.split)
qed

lemma range_rows_spec:
  assumes "get_signal_changes a sid (gv_start_time args) e = changes_spec (gv_start_time args) e evs"
  shows "range_rows a args e sid =
    (limited (gv_limit args) (asked_changes args e evs), cut_by (gv_limit args) (asked_changes args e evs))"
  using assms
  by (auto simp: range_rows_def Let_def limited_def cut_by_def asked_changes_def only_changes_filter
      split: option.split)

lemma values_loop_spec:
  assumes "gv_end_time args = Some e"
    and "\<And>sid. get_signal_changes a sid (gv_start_time args) e = changes_spec (gv_start_time args) e (signal_changes sid cmds)"
  shows "values_loop fmt a args names rows missing truncated =
    (rows @ concat (map (answer_rows fmt (a_name_to_id a) cmds args e) names),
     missing @ filter (\<lambda>n. a_name_to_id a n = None) names,
     truncated \<or> (\<exists>n\<in>set names. \<exists>sid. a_name_to_id a n = Some sid \<and>
       cut_by (gv_limit args) (asked_changes args e (signal_changes sid cmds))))"
proof (induction names arbitrary: rows missing truncated)
  case (Cons n names)
  show ?case
  proof (cases "a_name_to_id a n")
    case None
    then show ?thesis by (simp add: Cons.IH answer_rows_def)
  next
    case (Some sid)
    then show ?thesis
      by (simp add: Cons.IH assms(1) range_rows_spec [OF assms(2)] answer_rows_def)
  qed
qed simp

text \<open>
  C28: The values tool answers a range query on a file with ordered time stamps, signal by signal in
  the order of the request, with the changes in the range (unless only changes are asked for, the
  value before the range stands for a range without changes), at most \<open>limit\<close> of them, says so when
  it left some out, and names the unknown signals.
\<close>

theorem vcd_values_answered:
  assumes "parse_vcd (Ok (Ok header, map Ok cmds)) = Ok a" "sorted (timestamps cmds)"
    and "ends_with (gv_file_path args) ''.vcd''" "gv_end_time args = Some e" "gv_start_time args \<le> e"
  shows "\<exists>resp. handle_get_values fmt debug_names (Ok a) args = Ok resp \<and>
    vr_values resp = concat (map (answer_rows fmt (a_name_to_id a) cmds args e) (gv_signal_names args)) \<and>
    (vr_info resp \<noteq> None \<longleftrightarrow> (\<exists>n\<in>set (gv_signal_names args). \<exists>sid. a_name_to_id a n = Some sid \<and>
      cut_by (gv_limit args) (asked_changes args e (signal_changes sid cmds)))) \<and>
    vr_missing resp = missing_warning debug_names
      (filter (\<lambda>n. a_name_to_id a n = None) (gv_signal_names args))"
proof -
  from assms(1,2) have a: "time_ordered (a_time_changes a)" "timeline (a_time_changes a) = command_changes 0 cmds"
    using parse_vcd_ok [of header cmds] by (metis sum.inject(2))+
  have "get_signal_changes a sid (gv_start_time args) e =
      changes_spec (gv_start_time args) e (signal_changes sid cmds)" for sid
    using changes_correct [OF a(1) assms(5), of sid] by (simp add: a(2) signal_changes_def)
  from values_loop_spec [OF assms(4) this] show ?thesis
    using assms(3-5)
    by (simp add: handle_get_values_def validate_vcd_path_def invalid_path_def check_range_def linorder_not_less)
qed

definition example_args :: get_values_args where
  "example_args = \<lparr>gv_file_path = ''/tmp/a.vcd'', gv_signal_names = [''top.clk'', ''nope''],
     gv_start_time = 6, gv_end_time = Some 20, gv_only_changes = True, gv_limit = Some 1\<rparr>"

lemma vcd_values_answered_witness:
  "\<exists>a resp. parse_vcd (Ok (Ok example_header, map Ok example_commands)) = Ok a \<and>
    handle_get_values (vcd_format (\<lambda>b. if b = V1 then ''1'' else ''0'') (\<lambda>_. [])) concat (Ok a) example_args = Ok resp \<and>
    vr_values resp = [(''top.clk'', 10, ''0'')] \<and> vr_info resp \<noteq> None \<and>
    vr_missing resp = Some ([''nope''], ''Some signals were not found: nope'')"
proof -
  define a where "a = \<lparr>a_header = example_header, a_id_to_name = fst (extract_signals_from_header example_header),
      a_name_to_id = snd (extract_signals_from_header example_header),
      a_time_changes = [(0, [(3, VScalar V0), (4, VVector [VX, VX])]), (5, [(3, VScalar V1), (4, VVector [V0, V1])]),
        (10, [(3, VScalar V0)]), (15, [(3, VScalar V1)])]\<rparr>"
  have p: "parse_vcd (Ok (Ok example_header, map Ok example_commands)) = Ok a"
    unfolding a_def by (rule example_parse)
  have ids: "a_name_to_id a ''top.clk'' = Some 3" "a_name_to_id a ''nope'' = None"
    by (simp_all add: a_def extract_signals_from_header_def example_header_def full_name_def)
  have "\<exists>e. gv_end_time example_args = Some e \<and> gv_start_time example_args \<le> e" and
    v: "ends_with (gv_file_path example_args) ''.vcd''"
    by (simp_all add: example_args_def ends_with_def starts_with_def)
  then obtain resp where "handle_get_values (vcd_format (\<lambda>b. if b = V1 then ''1'' else ''0'') (\<lambda>_. [])) concat
      (Ok a) example_args = Ok resp"
    "vr_values resp = [(''top.clk'', 10, ''0'')]" "vr_info resp \<noteq> None"
    "vr_missing resp = Some ([''nope''], ''Some signals were not found: nope'')"
    using vcd_values_answered [OF p example_sorted v, of 20
      "vcd_format (\<lambda>b. if b = V1 then ''1'' else ''0'') (\<lambda>_. [])" concat]
    by (auto simp: example_args_def ids answer_rows_def asked_changes_def limited_def cut_by_def
        example_changes within_range_def missing_warning_def)
  with p show ?thesis by blast
qed

end
