(* ===== verification/Runtime_Requests.thy ===== *)
theory Runtime_Requests
  imports System_Bus Host_Bus
begin

text \<open>
  The shared part of the two device runtimes (\<open>device-runtime/src/lib.rs\<close>): errors, events and the
  routing of a host request, and the processing of one request on the system bus as both backends
  do it (\<open>process_system_bus_request\<close> and \<open>process_cpu_request\<close> of \<open>fpga.rs\<close>, the direct path of
  \<open>send_bus_request\<close> of \<open>sim/sim_core.rs\<close>).  The lemmas show that a burst on DRAM is one block
  access and that the two backends answer a request alike.
\<close>

section \<open>Errors, events and routing\<close>

text \<open>The kinds of \<open>std::io::Error\<close> that the sources name; every other kind is \<open>OtherKind\<close>.\<close>

datatype io_error_kind =
    BrokenPipe | ConnectionReset | ConnectionAborted | NotConnected | PermissionDenied
  | TimedOut | WouldBlock | InvalidInput | InvalidData | OtherKind

datatype device_error =
    OpenFailed string
  | IoError io_error_kind string
  | HandlerFailed handler_error

fun is_fatal :: "device_error \<Rightarrow> bool" where
  "is_fatal (IoError k s) =
     (k \<in> {BrokenPipe, ConnectionReset, ConnectionAborted, NotConnected, PermissionDenied})"
| "is_fatal (OpenFailed s) = True"
| "is_fatal (HandlerFailed e) = False"

fun handler_error_debug :: "handler_error \<Rightarrow> string" where
  "handler_error_debug BufferFull = ''BufferFull''"
| "handler_error_debug RequestPending = ''RequestPending''"
| "handler_error_debug NoDataAvailable = ''NoDataAvailable''"
| "handler_error_debug NoRequestAvailable = ''NoRequestAvailable''"
| "handler_error_debug NoOutstandingRequest = ''NoOutstandingRequest''"
| "handler_error_debug InvalidAddressRange = ''InvalidAddressRange''"
| "handler_error_debug InvalidBurstConfig = ''InvalidBurstConfig''"

fun device_error_message :: "device_error \<Rightarrow> string" where
  "device_error_message (OpenFailed e) = ''Failed to open device: '' @ e"
| "device_error_message (IoError k e) = ''I/O error: '' @ e"
| "device_error_message (HandlerFailed e) = ''Handler error: '' @ handler_error_debug e"

datatype reset_kind = ResetCpu | ResetSystem

datatype startup_reset = StartupNone | StartupCpu | StartupSystem

text \<open>Durations are in milliseconds.\<close>

datatype bus_event =
    EvRead u32 u8 u32 bool
  | EvWrite u32 u8 u32 bool
  | HostReadResponse u32 u32 access_size "u8 list"
  | HostWriteResponse u32 u32 access_size
  | HostRequestTimeout u32 nat
  | TohostTermination u32

record pending_host_request =
  ph_addr :: u32
  ph_wdata :: u32
  ph_sent_at :: nat
  ph_timeout :: nat

text \<open>\<open>p.sent_at.elapsed() > p.timeout\<close>.\<close>

definition timed_out :: "nat \<Rightarrow> pending_host_request \<Rightarrow> bool" where
  "timed_out now p \<longleftrightarrow> now - ph_sent_at p > ph_timeout p"

definition size_name :: "u8 \<Rightarrow> string" where
  "size_name sz = (if sz = 0 then ''byte'' else if sz = 1 then ''halfword'' else ''word'')"

fun access_size_name :: "access_size \<Rightarrow> string" where
  "access_size_name Byte = ''byte''"
| "access_size_name Halfword = ''halfword''"
| "access_size_name Word = ''word''"

datatype host_request_route = RouteHostBusHandler | RouteSystemBus | InvalidSpanningRegion

definition classify_host_request_route :: "bus_request \<Rightarrow> host_request_route" where
  "classify_host_request_route r =
    (if request_end_addr r = None then InvalidSpanningRegion
     else case classify_request_region r of
       RtlPeripheral \<Rightarrow> RouteHostBusHandler
     | NonRtl \<Rightarrow> RouteSystemBus
     | SpansRtlBoundary \<Rightarrow> InvalidSpanningRegion)"

section \<open>One request on the system bus\<close>

text \<open>\<open>as u8\<close>, \<open>as u16\<close> and the widening of the read values are \<open>ucast\<close>.\<close>

fun perform_read :: "system_bus \<Rightarrow> u32 \<Rightarrow> access_size \<Rightarrow> (u32 \<times> system_bus) option" where
  "perform_read b addr Byte = map_option (map_prod ucast id) (bus_read_byte b addr)"
| "perform_read b addr Halfword = map_option (map_prod ucast id) (bus_read_halfword b addr)"
| "perform_read b addr Word = bus_read_word b addr"

fun perform_write :: "system_bus \<Rightarrow> u32 \<Rightarrow> u32 \<Rightarrow> access_size \<Rightarrow> system_bus option" where
  "perform_write b addr v Byte = bus_write_byte b addr (ucast v)"
| "perform_write b addr v Halfword = bus_write_halfword b addr (ucast v)"
| "perform_write b addr v Word = bus_write_word b addr v"

definition beat_bytes :: "bus_request \<Rightarrow> nat" where
  "beat_bytes r = unat (byte_count (br_size r))"

text \<open>The address of a beat; \<^term>\<open>None\<close> when the product or the sum overflows.\<close>

definition beat_addr :: "bool \<Rightarrow> bus_request \<Rightarrow> u32 \<Rightarrow> u32 option" where
  "beat_addr fixed r beat_idx =
    (if fixed then Some (br_addr r)
     else case checked_mul beat_idx (ucast (byte_count (br_size r))) of
       None \<Rightarrow> None
     | Some offset \<Rightarrow> checked_add (br_addr r) offset)"

definition beat_wdata :: "bus_request \<Rightarrow> u32 \<Rightarrow> u32" where
  "beat_wdata r beat_idx =
    (let byte_offset = unat beat_idx * beat_bytes r;
         beat_buf = (if length (br_data r) \<ge> byte_offset + beat_bytes r
           then take (beat_bytes r) (drop byte_offset (br_data r)) @ replicate (4 - beat_bytes r) 0
           else if beat_idx = 0 then le_bytes32 (br_wdata r)
           else replicate 4 0)
     in of_le32_list beat_buf)"

fun write_beats :: "bus_request \<Rightarrow> u32 \<Rightarrow> nat \<Rightarrow> system_bus \<Rightarrow> system_bus option" where
  "write_beats r i 0 b = Some b"
| "write_beats r i (Suc n) b =
    (case beat_addr (br_dst_fixed r) r i of
       None \<Rightarrow> None
     | Some addr \<Rightarrow>
       (case perform_write b addr (beat_wdata r i) (br_size r) of
          None \<Rightarrow> None
        | Some b \<Rightarrow> write_beats r (i + 1) n b))"

fun read_beats :: "bus_request \<Rightarrow> u32 \<Rightarrow> nat \<Rightarrow> system_bus \<Rightarrow> (u8 list \<times> system_bus) option" where
  "read_beats r i 0 b = Some ([], b)"
| "read_beats r i (Suc n) b =
    (case beat_addr (br_src_fixed r) r i of
       None \<Rightarrow> None
     | Some addr \<Rightarrow>
       (case perform_read b addr (br_size r) of
          None \<Rightarrow> None
        | Some (rdata, b) \<Rightarrow>
          map_option (map_prod ((@) (take (beat_bytes r) (le_bytes32 rdata))) id)
            (read_beats r (i + 1) n b)))"

definition beats :: "bus_request \<Rightarrow> nat" where
  "beats r = unat (max (br_burst_len r) 1)"

text \<open>\<^term>\<open>None\<close>: the bus panics, or the address of a beat overflows.\<close>

definition process_system_bus_request ::
  "bus_request \<Rightarrow> system_bus \<Rightarrow> (bus_event \<times> system_bus) option" where
  "process_system_bus_request r b =
    (if br_we r then
       (case write_beats r 0 (beats r) b of
          None \<Rightarrow> None
        | Some b \<Rightarrow> Some (HostWriteResponse (br_addr r) (br_wdata r) (br_size r), b))
     else
       (case read_beats r 0 (beats r) b of
          None \<Rightarrow> None
        | Some (burst_data, b) \<Rightarrow>
          (let first = take (beat_bytes r) burst_data @ replicate (4 - beat_bytes r) 0
           in Some (HostReadResponse (br_addr r) (of_le32_list first) (br_size r) burst_data, b))))"

text \<open>
  The same request in the simulator, whose loops over the beats are those of the FPGA runtime: the
  response that \<open>send_bus_request\<close> stores, and the event that the runtime makes of it.
\<close>

definition sim_direct_response ::
  "bus_request \<Rightarrow> system_bus \<Rightarrow> (bus_response \<times> system_bus) option" where
  "sim_direct_response r b =
    (if br_we r then
       (case write_beats r 0 (beats r) b of
          None \<Rightarrow> None
        | Some b \<Rightarrow> Some ((response_write_ack (br_size r))\<lparr>bp_addr := br_addr r,
            bp_burst_len := br_burst_len r, bp_src_fixed := br_src_fixed r,
            bp_dst_fixed := br_dst_fixed r\<rparr>, b))
     else
       (case read_beats r 0 (beats r) b of
          None \<Rightarrow> None
        | Some (burst_data, b) \<Rightarrow>
          Some (response_burst_read_data (br_addr r) (br_size r) (br_burst_len r) (br_src_fixed r)
            (br_dst_fixed r) burst_data, b)))"

definition response_event :: "pending_host_request \<Rightarrow> bus_response \<Rightarrow> bus_event" where
  "response_event p resp =
    (if bp_we resp then HostWriteResponse (ph_addr p) (ph_wdata p) (bp_size resp)
     else HostReadResponse (ph_addr p) (bp_rdata resp) (bp_size resp) (bp_data resp))"

text \<open>A CPU-initiated request; an error of \<open>complete_request\<close> is only logged.\<close>

definition process_cpu_request ::
  "host_bus_handler \<Rightarrow> bus_request \<Rightarrow> system_bus \<Rightarrow>
   (bus_event \<times> host_bus_handler \<times> system_bus) option" where
  "process_cpu_request h r b =
    (let sz = to_size_code (br_size r);
         is_dram = is_valid_dram_range (br_addr r) (ucast (byte_count (br_size r)))
     in if br_we r then
          (case perform_write b (br_addr r) (br_wdata r) (br_size r) of
             None \<Rightarrow> None
           | Some b \<Rightarrow>
             Some (EvWrite (br_addr r) sz (br_wdata r) is_dram,
               snd (complete_request h (response_write_ack (br_size r))), b))
        else
          (case perform_read b (br_addr r) (br_size r) of
             None \<Rightarrow> None
           | Some (rdata, b) \<Rightarrow>
             Some (EvRead (br_addr r) sz rdata is_dram,
               snd (complete_request h (response_read_data rdata (br_size r))), b)))"

section \<open>Bursts on DRAM\<close>

lemma beat_bytes_cases: "beat_bytes r \<in> {1, 2, 4}"
  by (cases "br_size r") (simp_all add: beat_bytes_def)

lemma byte_count_u32: "unat (ucast (byte_count sz) :: u32) = unat (byte_count sz)"
  by (cases sz) simp_all

lemma of_le32_low: "(ucast (of_le32 x y z w) :: u8) = x" "(ucast (of_le32 x y z w) :: u16) = of_le16 x y"
  unfolding of_le32_def of_le16_def
  by (rule bit_word_eqI; auto simp: bit_simps)+

lemma perform_write_dram:
  assumes "bus_inv b" "is_valid_dram_range a (ucast (byte_count sz))" "length bs = unat (byte_count sz)"
  shows "perform_write b a (of_le32_list (bs @ replicate (4 - length bs) 0)) sz =
    Some (b\<lparr>sb_memory := write_block mem_write_byte (sb_memory b) a bs\<rparr>)"
proof (cases sz)
  case Byte
  then obtain x where "bs = [x]" using assms(3) by (cases bs) auto
  then show ?thesis
    using Byte assms bus_dram_byte(2) [OF assms(1)] by (simp add: in_dram_def numeral_eq_Suc of_le32_low)
next
  case Halfword
  then obtain x y where "bs = [x, y]" using assms(3) by (cases bs; cases "tl bs") auto
  then show ?thesis
    using Halfword assms bus_dram_halfword(2) [OF assms(1)]
    by (simp add: numeral_eq_Suc of_le32_low mem_write_halfword_block)
next
  case Word
  then have "length bs = 4" using assms(3) by simp
  then obtain x y z w where "bs = [x, y, z, w]"
    by (auto simp: numeral_eq_Suc length_Suc_conv)
  then show ?thesis
    using Word assms bus_dram_word(2) [OF assms(1)] by (simp add: mem_write_word_block)
qed

lemma perform_read_dram:
  assumes "bus_inv b" "is_valid_dram_range a (ucast (byte_count sz))"
  shows "\<exists>v. perform_read b a sz = Some (v, b) \<and>
    take (unat (byte_count sz)) (le_bytes32 v) = read_block mem_read_byte (sb_memory b) a (unat (byte_count sz))"
proof (cases sz)
  case Byte
  then show ?thesis
    using assms bus_dram_byte(1) [OF assms(1)]
    by (auto simp: in_dram_def le_bytes32_def ucast_widen)
next
  case Halfword
  have "take 2 (le_bytes32 (ucast h)) = le_bytes16 h" for h :: u16
    by (auto simp: le_bytes32_def le_bytes16_def intro!: bit_word_eqI simp: bit_simps)
  with Halfword show ?thesis
    using assms bus_dram_halfword(1) [OF assms(1)] by (simp add: mem_read_halfword_block)
next
  case Word
  then show ?thesis
    using assms bus_dram_word(1) [OF assms(1)] by (simp add: mem_read_word_block)
qed

text \<open>The request lies within DRAM and moves to the next beat.\<close>

definition dram_burst :: "bus_request \<Rightarrow> bool" where
  "dram_burst r \<longleftrightarrow> 0 < br_burst_len r \<and> \<not> br_src_fixed r \<and> \<not> br_dst_fixed r \<and>
     0x80000000 \<le> unat (br_addr r) \<and>
     unat (br_addr r) + unat (br_burst_len r) * beat_bytes r \<le> 0x90000000 \<and>
     (br_we r \<longrightarrow> length (br_data r) = unat (br_burst_len r) * beat_bytes r)"

lemma dram_burst_beats: "dram_burst r \<Longrightarrow> beats r = unat (br_burst_len r)"
  by (auto simp: dram_burst_def beats_def max_def word_le_nat_alt word_less_nat_alt)

lemma dram_beat:
  assumes "dram_burst r" "i < unat (br_burst_len r)"
  shows "beat_addr False r (word_of_nat i) = Some (br_addr r + word_of_nat (i * beat_bytes r))"
    and "is_valid_dram_range (br_addr r + word_of_nat (i * beat_bytes r)) (ucast (byte_count (br_size r)))"
    and "unat (word_of_nat i :: u32) = i"
    and "(word_of_nat i :: u32) + 1 = word_of_nat (i + 1)"
proof -
  have bb: "unat (ucast (byte_count (br_size r)) :: u32) = beat_bytes r" "0 < beat_bytes r"
    using beat_bytes_cases [of r] by (auto simp: beat_bytes_def byte_count_u32)
  have le: "(i + 1) * beat_bytes r \<le> unat (br_burst_len r) * beat_bytes r"
    using assms(2) by (intro mult_le_mono1) simp
  have r: "0x80000000 \<le> unat (br_addr r)" "unat (br_addr r) + (i + 1) * beat_bytes r \<le> 0x90000000"
    using assms(1) le by (simp_all add: dram_burst_def)
  have i: "i < 4294967296" using assms(2) u32_bound [of "br_burst_len r"] by simp
  then show ui: "unat (word_of_nat i :: u32) = i" by (simp add: unat_of_nat)
  have off: "unat (word_of_nat (i * beat_bytes r) :: u32) = i * beat_bytes r"
    using r by (simp add: unat_of_nat del: of_nat_mult)
  have mul: "checked_mul (word_of_nat i) (ucast (byte_count (br_size r))) = Some (word_of_nat (i * beat_bytes r) :: u32)"
  proof -
    have lt: "unat (word_of_nat i :: u32) * unat (ucast (byte_count (br_size r)) :: u32) < 2 ^ LENGTH(32)"
      unfolding ui bb(1) using r by simp
    have "word_of_nat i * ucast (byte_count (br_size r)) = (word_of_nat (i * beat_bytes r) :: u32)"
      by (subst word_unat_eq_iff) (simp only: unat_mult_nowrap [OF lt] off, simp only: ui bb(1))
    with checked_mul_nowrap [OF lt] show ?thesis by simp
  qed
  show "beat_addr False r (word_of_nat i) = Some (br_addr r + word_of_nat (i * beat_bytes r))"
    using r off by (simp add: beat_addr_def mul checked_add_nowrap del: of_nat_mult)
  have "unat (br_addr r + word_of_nat (i * beat_bytes r)) = unat (br_addr r) + i * beat_bytes r"
    using r off by (simp add: unat_plus_nowrap del: of_nat_mult)
  then show "is_valid_dram_range (br_addr r + word_of_nat (i * beat_bytes r)) (ucast (byte_count (br_size r)))"
    using r bb unat_gt_0 [of "ucast (byte_count (br_size r)) :: u32"]
    by (auto simp: valid_dram_range algebra_simps simp del: of_nat_mult)
  show "(word_of_nat i :: u32) + 1 = word_of_nat (i + 1)" by simp
qed

lemma perform_write_inv: "bus_inv b \<Longrightarrow> perform_write b a v sz = Some b' \<Longrightarrow> bus_inv b'"
  using bus_exec_inv [of b "OpWriteByte a (ucast v)" b'] bus_exec_inv [of b "OpWriteHalfword a (ucast v)" b']
    bus_exec_inv [of b "OpWriteWord a v" b']
  by (cases sz) simp_all

lemma dram_beat_wdata:
  assumes "dram_burst r" "br_we r" "i < unat (br_burst_len r)"
  defines "bs \<equiv> take (beat_bytes r) (drop (i * beat_bytes r) (br_data r))"
  shows "beat_wdata r (word_of_nat i) = of_le32_list (bs @ replicate (4 - length bs) 0)"
    and "length bs = unat (byte_count (br_size r))"
proof -
  have "(i + 1) * beat_bytes r \<le> unat (br_burst_len r) * beat_bytes r"
    using assms(3) by (intro mult_le_mono1) simp
  then have l: "i * beat_bytes r + beat_bytes r \<le> length (br_data r)"
    using assms(1,2) by (simp add: dram_burst_def)
  then have len: "length bs = beat_bytes r" by (simp add: bs_def)
  then show "length bs = unat (byte_count (br_size r))" by (simp add: beat_bytes_def)
  show "beat_wdata r (word_of_nat i) = of_le32_list (bs @ replicate (4 - length bs) 0)"
    unfolding beat_wdata_def Let_def dram_beat(3) [OF assms(1,3)] len
    using l by (simp add: bs_def)
qed

lemma write_beats_dram:
  assumes "dram_burst r" "br_we r"
  shows "bus_inv b \<Longrightarrow> i + n = unat (br_burst_len r) \<Longrightarrow>
    write_beats r (word_of_nat i) n b =
      Some (b\<lparr>sb_memory := write_block mem_write_byte (sb_memory b)
        (br_addr r + word_of_nat (i * beat_bytes r)) (drop (i * beat_bytes r) (br_data r))\<rparr>)"
proof (induction n arbitrary: i b)
  case 0
  then have "length (br_data r) \<le> i * beat_bytes r" using assms by (simp add: dram_burst_def)
  then show ?case by simp
next
  case (Suc n)
  then have i: "i < unat (br_burst_len r)" by simp
  let ?a = "br_addr r + word_of_nat (i * beat_bytes r)"
  let ?d = "drop (i * beat_bytes r) (br_data r)"
  let ?bs = "take (beat_bytes r) ?d"
  let ?b = "b\<lparr>sb_memory := write_block mem_write_byte (sb_memory b) ?a ?bs\<rparr>"
  have nf: "br_dst_fixed r = False" using assms(1) by (simp add: dram_burst_def)
  note w = dram_beat_wdata [OF assms i]
  have s: "perform_write b ?a (beat_wdata r (word_of_nat i)) (br_size r) = Some ?b"
    unfolding w(1) by (rule perform_write_dram [OF Suc.prems(1) dram_beat(2) [OF assms(1) i] w(2)])
  have len: "length ?bs = beat_bytes r" using w(2) by (simp add: beat_bytes_def)
  have d: "drop ((i + 1) * beat_bytes r) (br_data r) = drop (beat_bytes r) ?d"
    by (simp add: add.commute)
  have a: "br_addr r + word_of_nat ((i + 1) * beat_bytes r) = ?a + word_of_nat (length ?bs)"
    by (simp only: len) (simp add: algebra_simps)
  have "write_beats r (word_of_nat i) (Suc n) b = write_beats r (word_of_nat (i + 1)) n ?b"
    by (simp only: write_beats.simps nf dram_beat(1) [OF assms(1) i] option.case s
        dram_beat(4) [OF assms(1) i])
  also have "\<dots> = Some (?b\<lparr>sb_memory := write_block mem_write_byte (sb_memory ?b)
      (?a + word_of_nat (length ?bs)) (drop (beat_bytes r) ?d)\<rparr>)"
    unfolding a [symmetric] d [symmetric]
    by (rule Suc.IH [OF perform_write_inv [OF Suc.prems(1) s]]) (use Suc.prems(2) in simp)
  also have "\<dots> = Some (b\<lparr>sb_memory := write_block mem_write_byte (sb_memory b) ?a (?bs @ drop (beat_bytes r) ?d)\<rparr>)"
    unfolding write_block_append by simp
  finally show ?case by (simp only: append_take_drop_id)
qed

lemma read_beats_dram:
  assumes "dram_burst r"
  shows "bus_inv b \<Longrightarrow> i + n = unat (br_burst_len r) \<Longrightarrow>
    read_beats r (word_of_nat i) n b =
      Some (read_block mem_read_byte (sb_memory b) (br_addr r + word_of_nat (i * beat_bytes r)) (n * beat_bytes r), b)"
proof (induction n arbitrary: i)
  case (Suc n)
  then have i: "i < unat (br_burst_len r)" by simp
  let ?a = "br_addr r + word_of_nat (i * beat_bytes r)"
  have nf: "br_src_fixed r = False" using assms(1) by (simp add: dram_burst_def)
  from perform_read_dram [OF Suc.prems(1) dram_beat(2) [OF assms(1) i]] obtain v where
    v: "perform_read b ?a (br_size r) = Some (v, b)"
    "take (beat_bytes r) (le_bytes32 v) = read_block mem_read_byte (sb_memory b) ?a (beat_bytes r)"
    by (auto simp: beat_bytes_def)
  have a: "br_addr r + word_of_nat ((i + 1) * beat_bytes r) = ?a + word_of_nat (beat_bytes r)"
    by (simp add: algebra_simps)
  have "read_beats r (word_of_nat (i + 1)) n b =
      Some (read_block mem_read_byte (sb_memory b) (?a + word_of_nat (beat_bytes r)) (n * beat_bytes r), b)"
    unfolding a [symmetric] by (rule Suc.IH [OF Suc.prems(1)]) (use Suc.prems(2) in simp)
  then have "read_beats r (word_of_nat i) (Suc n) b =
      Some (read_block mem_read_byte (sb_memory b) ?a (beat_bytes r) @
        read_block mem_read_byte (sb_memory b) (?a + word_of_nat (beat_bytes r)) (n * beat_bytes r), b)"
    by (simp only: read_beats.simps nf dram_beat(1) [OF assms(1) i] option.case v
        dram_beat(4) [OF assms(1) i] prod.case option.map map_prod_simp id_def)
  then show ?case by (simp only: read_block_add [symmetric] mult_Suc)
qed simp

text \<open>
  a burst on DRAM is one block access.  On a reachable bus a request that lies within DRAM is
  answered by both backends: a write stores exactly its bytes at its address and changes nothing
  else, a read returns exactly the bytes of memory and changes nothing; and the event that the
  simulator makes of its response is the one that the FPGA runtime makes.
\<close>

theorem dram_request_correct:
  assumes "bus_reachable b" "dram_burst r" "ph_addr p = br_addr r" "ph_wdata p = br_wdata r"
  defines "bs \<equiv> read_block mem_read_byte (sb_memory b) (br_addr r) (unat (br_burst_len r) * beat_bytes r)"
  shows "process_system_bus_request r b =
      (if br_we r then Some (HostWriteResponse (br_addr r) (br_wdata r) (br_size r),
         b\<lparr>sb_memory := write_block mem_write_byte (sb_memory b) (br_addr r) (br_data r)\<rparr>)
       else Some (HostReadResponse (br_addr r) (first_beat (br_size r) bs) (br_size r) bs, b)) \<and>
    map_option (map_prod (response_event p) id) (sim_direct_response r b) =
      process_system_bus_request r b"
proof -
  note inv = bus_reachable_invariant [OF assms(1)]
  note beats = dram_burst_beats [OF assms(2)]
  have l: "beat_bytes r \<le> length bs"
    using assms(2) by (auto simp: bs_def dram_burst_def word_less_nat_alt)
  show ?thesis
  proof (cases "br_we r")
    case True
    with write_beats_dram [OF assms(2) True inv, of 0] show ?thesis
      by (simp add: process_system_bus_request_def sim_direct_response_def beats
          response_event_def response_write_ack_def assms(3,4))
  next
    case False
    with read_beats_dram [OF assms(2) inv, of 0] l show ?thesis
      by (simp add: process_system_bus_request_def sim_direct_response_def beats
          response_event_def response_burst_read_data_def assms(3,4) first_beat_def Let_def
          flip: bs_def) (simp add: beat_bytes_def min_def)
  qed
qed

lemma dram_request_correct_witness:
  "process_system_bus_request (request_burst_write 0x80000000 Word 1 False False [1, 2, 3, 4]) system_bus_new =
     Some (HostWriteResponse 0x80000000 0x04030201 Word,
       system_bus_new\<lparr>sb_memory := write_block mem_write_byte (sb_memory system_bus_new) 0x80000000 [1, 2, 3, 4]\<rparr>)"
  using dram_request_correct [OF bus_reachable.init, of "request_burst_write 0x80000000 Word 1 False False [1, 2, 3, 4]"
      "\<lparr>ph_addr = 0x80000000, ph_wdata = 0x04030201, ph_sent_at = 0, ph_timeout = 1000\<rparr>"]
  by (simp add: request_burst_write_def dram_burst_def beat_bytes_def first_beat_def of_le32_def)

lemma perform_total:
  assumes "bus_inv b" "0x80000000 \<le> unat a"
  shows "\<exists>v b'. perform_read b a sz = Some (v, b')" "\<exists>b'. perform_write b a v sz = Some b'"
proof -
  have n: "\<not> is_rtl_peripheral_addr a" using assms(2) by simp
  have e: "bus_exec b op \<noteq> None" if "bus_op_addr op = Some a" for op
    using n that bus_exec_None [OF assms(1), of op] by (cases op) auto
  from e [of "OpReadByte a"] e [of "OpReadHalfword a"] e [of "OpReadWord a"]
  have "perform_read b a sz \<noteq> None" by (cases sz) auto
  then show "\<exists>v b'. perform_read b a sz = Some (v, b')" by (cases "perform_read b a sz") auto
  from e [of "OpWriteByte a (ucast v)"] e [of "OpWriteHalfword a (ucast v)"] e [of "OpWriteWord a v"]
  have "perform_write b a v sz \<noteq> None" by (cases sz) auto
  then show "\<exists>b'. perform_write b a v sz = Some b'" by (cases "perform_write b a v sz") auto
qed

text \<open>
  C18: every request of the target is answered.  A single-beat request at a host address that the
  handler has accepted is performed on the bus, never panics, and leaves in the handler a response
  with the request's metadata and, for a read, exactly the bytes that the bus returned.
\<close>

theorem cpu_request_answered:
  assumes "bus_reachable b" "hb_accepted_request h = Some r" "br_burst_len r = 1"
    and "0x80000000 \<le> unat (br_addr r)"
  shows "\<exists>ev b' resp. process_cpu_request h r b = Some (ev, h\<lparr>hb_pending_response := Some resp\<rparr>, b') \<and>
    bp_we resp = br_we r \<and> bp_size resp = br_size r \<and> bp_addr resp = br_addr r \<and>
    bp_burst_len resp = 1 \<and> bp_src_fixed resp = br_src_fixed r \<and> bp_dst_fixed resp = br_dst_fixed r \<and>
    (if br_we r then perform_write b (br_addr r) (br_wdata r) (br_size r) = Some b' \<and> bp_data resp = []
     else \<exists>v. perform_read b (br_addr r) (br_size r) = Some (v, b') \<and> bp_rdata resp = v \<and>
       bp_data resp = take (beat_bytes r) (le_bytes32 v))"
proof -
  note inv = bus_reachable_invariant [OF assms(1)]
  have a: "br_addr r \<noteq> 0" using assms(4) by auto
  have bb: "min 4 (unat (byte_count (br_size r))) = unat (byte_count (br_size r))"
    by (cases "br_size r") simp_all
  show ?thesis
  proof (cases "br_we r")
    case True
    obtain b' where b': "perform_write b (br_addr r) (br_wdata r) (br_size r) = Some b'"
      using perform_total(2) [OF inv assms(4)] by blast
    let ?resp = "\<lparr>bp_rdata = 0, bp_size = br_size r, bp_we = True, bp_addr = br_addr r,
      bp_burst_len = 1, bp_src_fixed = br_src_fixed r, bp_dst_fixed = br_dst_fixed r, bp_data = []\<rparr>"
    have "\<exists>ev. process_cpu_request h r b = Some (ev, h\<lparr>hb_pending_response := Some ?resp\<rparr>, b')"
      using b' True assms(2,3)
      by (simp add: process_cpu_request_def complete_request_def Let_def response_write_ack_def)
    then obtain ev where e: "process_cpu_request h r b = Some (ev, h\<lparr>hb_pending_response := Some ?resp\<rparr>, b')" ..
    show ?thesis
      by (rule exI [of _ ev], rule exI [of _ b'], rule exI [of _ ?resp], intro conjI, rule e) (use True b' in simp_all)
  next
    case False
    obtain v b' where b': "perform_read b (br_addr r) (br_size r) = Some (v, b')"
      using perform_total(1) [OF inv assms(4)] by blast
    let ?resp = "\<lparr>bp_rdata = v, bp_size = br_size r, bp_we = False, bp_addr = br_addr r,
      bp_burst_len = 1, bp_src_fixed = br_src_fixed r, bp_dst_fixed = br_dst_fixed r,
      bp_data = take (beat_bytes r) (le_bytes32 v)\<rparr>"
    have "\<exists>ev. process_cpu_request h r b = Some (ev, h\<lparr>hb_pending_response := Some ?resp\<rparr>, b')"
      using b' False assms(2,3) bb
      by (simp add: process_cpu_request_def complete_request_def Let_def response_read_data_def
          beat_bytes_def)
    then obtain ev where e: "process_cpu_request h r b = Some (ev, h\<lparr>hb_pending_response := Some ?resp\<rparr>, b')" ..
    show ?thesis
      by (rule exI [of _ ev], rule exI [of _ b'], rule exI [of _ ?resp], intro conjI, rule e) (use False b' in simp_all)
  qed
qed

lemma cpu_request_answered_witness:
  "\<exists>ev h' b'. process_cpu_request (handler_new\<lparr>hb_accepted_request := Some (request_read 0x80000000 Word)\<rparr>)
     (request_read 0x80000000 Word) system_bus_new = Some (ev, h', b')"
proof -
  let ?r = "request_read 0x80000000 Word"
  have "br_burst_len ?r = 1" "0x80000000 \<le> unat (br_addr ?r)" by (simp_all add: request_read_def)
  from cpu_request_answered [OF bus_reachable.init, of "handler_new\<lparr>hb_accepted_request := Some ?r\<rparr>" ?r, OF _ this]
  show ?thesis by auto
qed

end
