(* ===== verification/Host_App.thy ===== *)
theory Host_App
  imports Runtime_Requests
begin

text \<open>
  The state of the interactive host application and its display side (\<open>fpga-host/src/app.rs\<close>): the
  log ring buffer, the command history, scrolling, the log lines of bus events, and the channel that
  carries the lines printed by the target's program.  The device runtime is a type variable.
  Characters are bytes (the code's strings hold any Unicode text); printing seconds with two
  decimals (\<open>show_secs\<close>) and decoding bytes as UTF-8 (\<open>from_utf8_lossy\<close>) are parameters.
\<close>

section \<open>The application\<close>

definition MAX_FIFO_LINES_PER_TICK :: nat where "MAX_FIFO_LINES_PER_TICK = 64"

definition FIFO_CHANNEL_CAPACITY :: nat where "FIFO_CHANNEL_CAPACITY = 256"

definition MAX_LOG_LINES :: nat where "MAX_LOG_LINES = 1000"

definition MAX_HISTORY_ENTRIES :: nat where "MAX_HISTORY_ENTRIES = 500"

datatype log_level = LError | LWarn | LInfo | LDebug | LTrace

record log_line =
  ll_level :: log_level
  ll_message :: string

text \<open>The receiving end of the line channel: the queued lines, and whether the sender is gone.\<close>

record fifo_receiver =
  fx_lines :: "string list"
  fx_disconnected :: bool

record 'r app =
  device_runtime :: "'r option"
  input_buffer :: string
  command_history :: "string list"
  history_index :: "nat option"
  log_messages :: "log_line list"
  should_quit :: bool
  request_count :: u64
  scroll_offset :: nat
  verbose :: bool
  last_entry_point :: "u32 option"
  fifo_line_rx :: "fifo_receiver option"

definition app_new :: "'r app" where
  "app_new = \<lparr>device_runtime = None, input_buffer = [], command_history = [], history_index = None,
     log_messages = [], should_quit = False, request_count = 0, scroll_offset = 0, verbose = False,
     last_entry_point = None, fifo_line_rx = None\<rparr>"

definition set_verbose :: "bool \<Rightarrow> 'r app \<Rightarrow> 'r app" where
  "set_verbose v app = app\<lparr>verbose := v\<rparr>"

definition is_connected :: "'r app \<Rightarrow> bool" where
  "is_connected app \<longleftrightarrow> device_runtime app \<noteq> None"

section \<open>The log\<close>

definition add_log :: "log_level \<Rightarrow> string \<Rightarrow> 'r app \<Rightarrow> 'r app" where
  "add_log level message app =
    (if \<not> verbose app \<and> level \<in> {LDebug, LTrace} then app
     else
       let kept = (if length (log_messages app) \<ge> MAX_LOG_LINES then tl (log_messages app)
                   else log_messages app)
       in app\<lparr>log_messages := kept @ [\<lparr>ll_level = level, ll_message = message\<rparr>]\<rparr>)"

definition add_logs :: "log_level \<Rightarrow> string list \<Rightarrow> 'r app \<Rightarrow> 'r app" where
  "add_logs level msgs app = fold (add_log level) msgs app"

text \<open>Durations are in milliseconds.\<close>

definition format_timeout_duration :: "(nat \<Rightarrow> string) \<Rightarrow> nat \<Rightarrow> string" where
  "format_timeout_duration show_secs timeout =
    (if timeout \<ge> 1000 then show_secs timeout @ ''s'' else fmt_dec timeout @ ''ms'')"

definition cpu_event_message :: "u64 \<Rightarrow> string \<Rightarrow> string \<Rightarrow> u32 \<Rightarrow> u8 \<Rightarrow> u32 \<Rightarrow> bool \<Rightarrow> string" where
  "cpu_event_message count verb arrow addr sz data is_dram =
    ''['' @ fmt_dec_word (count + 1) @ ''] '' @ verb @ '' '' @ size_name sz @ '' @ 0x'' @ fmt_08x addr @
    '' '' @ arrow @ '' 0x'' @ fmt_0x (unat (bytes_for_size sz * 2)) (unat data) @
    (if is_dram then [] else '' (non-DRAM)'')"

definition host_read_message :: "u32 \<Rightarrow> u32 \<Rightarrow> access_size \<Rightarrow> string" where
  "host_read_message addr data sz =
    ''HOST READ '' @ access_size_name sz @ '' @ 0x'' @ fmt_08x addr @ '' => 0x'' @
    fmt_0x (unat (byte_count sz) * 2) (unat data)"

definition host_write_message :: "u32 \<Rightarrow> u32 \<Rightarrow> access_size \<Rightarrow> string" where
  "host_write_message addr data sz =
    ''HOST WRITE '' @ access_size_name sz @ '' @ 0x'' @ fmt_08x addr @ '' <= 0x'' @
    fmt_0x (unat (byte_count sz) * 2) (unat data) @ '' (acknowledged)''"

fun bus_event_message :: "(nat \<Rightarrow> string) \<Rightarrow> u64 \<Rightarrow> bus_event \<Rightarrow> string" where
  "bus_event_message show_secs count (EvRead addr sz data is_dram) =
     cpu_event_message count ''READ'' ''=>'' addr sz data is_dram"
| "bus_event_message show_secs count (EvWrite addr sz data is_dram) =
     cpu_event_message count ''WRITE'' ''<='' addr sz data is_dram"
| "bus_event_message show_secs count (HostReadResponse addr data sz burst) =
     host_read_message addr data sz"
| "bus_event_message show_secs count (HostWriteResponse addr wdata sz) =
     host_write_message addr wdata sz"
| "bus_event_message show_secs count (HostRequestTimeout addr timeout) =
     ''HOST REQUEST TIMEOUT after '' @ format_timeout_duration show_secs timeout @ '' @ 0x'' @ fmt_08x addr"
| "bus_event_message show_secs count (TohostTermination value) =
     ''TOHOST TERMINATION (value: 0x'' @ fmt_08x value @ '')''"

fun bus_event_level :: "bus_event \<Rightarrow> log_level" where
  "bus_event_level (EvRead _ _ _ _) = LDebug"
| "bus_event_level (EvWrite _ _ _ _) = LDebug"
| "bus_event_level _ = LInfo"

definition log_bus_event :: "(nat \<Rightarrow> string) \<Rightarrow> bus_event \<Rightarrow> 'r app \<Rightarrow> 'r app" where
  "log_bus_event show_secs event app =
    add_log (bus_event_level event) (bus_event_message show_secs (request_count app) event) app"

definition log_host_read_response :: "u32 \<Rightarrow> u32 \<Rightarrow> access_size \<Rightarrow> 'r app \<Rightarrow> 'r app" where
  "log_host_read_response addr data sz app = add_log LInfo (host_read_message addr data sz) app"

definition log_host_write_response :: "u32 \<Rightarrow> u32 \<Rightarrow> access_size \<Rightarrow> 'r app \<Rightarrow> 'r app" where
  "log_host_write_response addr data sz app = add_log LInfo (host_write_message addr data sz) app"

section \<open>History and scrolling\<close>

text \<open>\<^term>\<open>None\<close>: \<open>command_history[idx]\<close> out of range panics.\<close>

definition show_history :: "nat \<Rightarrow> 'r app \<Rightarrow> 'r app option" where
  "show_history idx app =
    (if idx < length (command_history app)
     then Some (app\<lparr>history_index := Some idx, input_buffer := command_history app ! idx\<rparr>)
     else None)"

definition history_prev :: "'r app \<Rightarrow> 'r app option" where
  "history_prev app =
    (if command_history app = [] then Some app
     else case history_index app of
       None \<Rightarrow> show_history (length (command_history app) - 1) app
     | Some idx \<Rightarrow> (if idx > 0 then show_history (idx - 1) app else Some app))"

definition history_next :: "'r app \<Rightarrow> 'r app option" where
  "history_next app =
    (if command_history app = [] then Some app
     else case history_index app of
       Some idx \<Rightarrow>
         (if idx < length (command_history app) - 1 then show_history (idx + 1) app
          else Some (app\<lparr>history_index := None, input_buffer := []\<rparr>))
     | None \<Rightarrow> Some app)"

definition push_history :: "string \<Rightarrow> 'r app \<Rightarrow> 'r app" where
  "push_history cmd app =
    (let kept = (if length (command_history app) \<ge> MAX_HISTORY_ENTRIES then tl (command_history app)
                 else command_history app)
     in app\<lparr>command_history := kept @ [cmd], history_index := None, input_buffer := []\<rparr>)"

definition scroll_up :: "nat \<Rightarrow> 'r app \<Rightarrow> 'r app" where
  "scroll_up n app =
    (if log_messages app = [] then app
     else app\<lparr>scroll_offset := min (scroll_offset app + n) (length (log_messages app) - 1)\<rparr>)"

definition scroll_down :: "nat \<Rightarrow> 'r app \<Rightarrow> 'r app" where
  "scroll_down n app = app\<lparr>scroll_offset := scroll_offset app - n\<rparr>"

section \<open>Lines from the target\<close>

text \<open>
  The callback of the FIFO device: it buffers bytes until a line feed, drops carriage returns and
  what exceeds 4096 bytes of a line, and drops a line when the channel is full or has no receiver.
  Its state is the line buffer; the channel is shared with the application.
\<close>

definition LINE_LIMIT :: nat where "LINE_LIMIT = 4096"

definition try_send :: "string \<Rightarrow> fifo_receiver option \<Rightarrow> fifo_receiver option" where
  "try_send line rx =
    (case rx of
       None \<Rightarrow> None
     | Some c \<Rightarrow> Some (if length (fx_lines c) < FIFO_CHANNEL_CAPACITY
                       then c\<lparr>fx_lines := fx_lines c @ [line]\<rparr> else c))"

definition fifo_callback ::
  "(u8 list \<Rightarrow> string) \<Rightarrow> u8 \<Rightarrow> u8 list \<times> fifo_receiver option \<Rightarrow> u8 list \<times> fifo_receiver option" where
  "fifo_callback from_utf8_lossy byte st =
    (case st of (line_buffer, rx) \<Rightarrow>
       if byte = 10 then ([], try_send (from_utf8_lossy line_buffer) rx)
       else if byte \<noteq> 13 then
         (if length line_buffer < LINE_LIMIT then (line_buffer @ [byte], rx) else (line_buffer, rx))
       else (line_buffer, rx))"

text \<open>A new device: an empty line buffer and a connected channel.\<close>

definition create_fifo_device :: "u8 list \<times> fifo_receiver" where
  "create_fifo_device = ([], \<lparr>fx_lines = [], fx_disconnected = False\<rparr>)"

text \<open>The loop over \<open>try_recv\<close>: the received lines, what is left, and whether the sender is gone.\<close>

fun drain_fifo :: "nat \<Rightarrow> bool \<Rightarrow> string list \<Rightarrow> string list \<times> string list \<times> bool" where
  "drain_fifo 0 gone ls = ([], ls, False)"
| "drain_fifo (Suc n) gone [] = ([], [], gone)"
| "drain_fifo (Suc n) gone (l # ls) =
     (case drain_fifo n gone ls of (got, rest, clear) \<Rightarrow> (l # got, rest, clear))"

definition poll_fifo :: "'r app \<Rightarrow> 'r app" where
  "poll_fifo app =
    (case fifo_line_rx app of
       None \<Rightarrow> app
     | Some rx \<Rightarrow>
       (let (got, rest, clear) = drain_fifo MAX_FIFO_LINES_PER_TICK (fx_disconnected rx) (fx_lines rx)
        in (add_logs LInfo got app)
             \<lparr>fifo_line_rx := (if clear then None else Some (rx\<lparr>fx_lines := rest\<rparr>))\<rparr>))"

end
