(* ===== verification/Runtime_Client.thy ===== *)
theory Runtime_Client
  imports Runtime_Requests
begin

text \<open>
  The operations that \<open>DeviceRuntime\<close> (\<open>device-runtime/src/lib.rs\<close>) builds from the three calls that
  a backend provides: writing and reading a memory region, loading a program or an ELF file,
  booting the CPU.  A backend is a record of these calls; the locale \<open>region_runtime\<close> states what
  the regions rely on, and the lemmas in it show that they then end and are correct.
  \<^term>\<open>None\<close> is a call that does not return: it waits forever, or the backend panics.
\<close>

section \<open>The calls of a backend\<close>

record 'r device_runtime =
  dr_send_host_request :: "bus_request \<Rightarrow> 'r \<Rightarrow> ((device_error, unit) result \<times> 'r) option"
  dr_poll :: "'r \<Rightarrow> ((device_error, bus_event option) result \<times> 'r) option"
  dr_has_pending_host_request :: "'r \<Rightarrow> bool"

section \<open>Waiting for an answer\<close>

text \<open>
  The polling loop of every operation: an accepted event ends it, a timeout of the request fails,
  every other event goes to the callback (the log), and without an event it sleeps.
\<close>

partial_function (option) await_event ::
  "'r device_runtime \<Rightarrow> (bool \<Rightarrow> bus_event \<Rightarrow> 'a option) \<Rightarrow> (bus_event \<Rightarrow> device_error option) \<Rightarrow>
   'r \<Rightarrow> bus_event list \<Rightarrow> ((device_error, 'a) result \<times> bus_event list \<times> 'r) option" where
  "await_event ops accept timeout r log =
    (case dr_poll ops r of
       None \<Rightarrow> None
     | Some (Inl e, r) \<Rightarrow> Some (Err e, log, r)
     | Some (Inr None, r) \<Rightarrow> await_event ops accept timeout r log
     | Some (Inr (Some event), r) \<Rightarrow>
       (case accept (dr_has_pending_host_request ops r) event of
          Some a \<Rightarrow> Some (Ok a, log, r)
        | None \<Rightarrow>
          (case timeout event of
             Some e \<Rightarrow> Some (Err e, log, r)
           | None \<Rightarrow> await_event ops accept timeout r (log @ [event]))))"

fun accept_write :: "u32 \<Rightarrow> access_size \<Rightarrow> bool \<Rightarrow> bus_event \<Rightarrow> unit option" where
  "accept_write addr sz pending (HostWriteResponse a v s) =
     (if a = addr \<and> s = sz \<and> \<not> pending then Some () else None)"
| "accept_write addr sz pending _ = None"

fun accept_read :: "u32 \<Rightarrow> access_size \<Rightarrow> bool \<Rightarrow> bus_event \<Rightarrow> (u32 \<times> u8 list) option" where
  "accept_read addr sz pending (HostReadResponse a v s burst_data) =
     (if a = addr \<and> s = sz \<and> \<not> pending then Some (v, burst_data) else None)"
| "accept_read addr sz pending _ = None"

fun request_timeout :: "u32 \<Rightarrow> string \<Rightarrow> bus_event \<Rightarrow> device_error option" where
  "request_timeout addr msg (HostRequestTimeout a d) =
     (if a = addr then Some (IoError TimedOut msg) else None)"
| "request_timeout addr msg _ = None"

text \<open>\<open>send_host_request(\<dots>)?\<close> and the loop that follows it.\<close>

definition exchange ::
  "'r device_runtime \<Rightarrow> bus_request \<Rightarrow> (bool \<Rightarrow> bus_event \<Rightarrow> 'a option) \<Rightarrow>
   (bus_event \<Rightarrow> device_error option) \<Rightarrow> 'r \<Rightarrow> bus_event list \<Rightarrow>
   ((device_error, 'a) result \<times> bus_event list \<times> 'r) option" where
  "exchange ops req accept timeout r log =
    (case dr_send_host_request ops req r of
       None \<Rightarrow> None
     | Some (Inl e, r) \<Rightarrow> Some (Err e, log, r)
     | Some (Inr _, r) \<Rightarrow> await_event ops accept timeout r log)"

section \<open>Memory regions\<close>

definition region_addr :: "u32 \<Rightarrow> nat \<Rightarrow> u32 option" where
  "region_addr start_addr offset =
    (if offset < 2 ^ 32 then checked_add start_addr (word_of_nat offset) else None)"

definition burst_words :: "nat \<Rightarrow> nat" where
  "burst_words remaining = min (remaining div 4) (unat MAX_BURST_BEATS)"

definition small_access :: "nat \<Rightarrow> u32 \<Rightarrow> access_size \<times> nat" where
  "small_access remaining addr = (if remaining \<ge> 2 \<and> addr AND 1 = 0 then (Halfword, 2) else (Byte, 1))"

text \<open>The request of one round of \<open>write_memory_region\<close> and the message of its timeout.\<close>

definition write_round :: "u32 \<Rightarrow> u8 list \<Rightarrow> nat \<Rightarrow> bus_request \<times> nat \<times> string" where
  "write_round addr bytes offset =
    (let remaining = length bytes - offset
     in if remaining \<ge> 4 \<and> addr AND 3 = 0 then
          (let word_count = burst_words remaining; chunk_len = word_count * 4
           in (request_burst_write addr Word (word_of_nat word_count) False False
                 (take chunk_len (drop offset bytes)), chunk_len,
               ''Timed out writing word burst ('' @ fmt_dec word_count @ '' beats) at address 0x'' @
               fmt_08x addr))
        else
          (let (sz, step) = small_access remaining addr;
               wdata = (if step = 2 then ucast (of_le16 (bytes ! offset) (bytes ! (offset + 1)))
                        else ucast (bytes ! offset))
           in (request_write addr wdata sz, step,
               ''Timed out writing '' @ access_size_name sz @ '' at address 0x'' @ fmt_08x addr)))"

lemma burst_words_pos: "4 \<le> n \<Longrightarrow> 0 < burst_words n"
  by (simp add: burst_words_def MAX_BURST_BEATS_def)

lemma write_round_pos: "fst (snd (write_round addr bytes offset)) > 0"
  by (auto simp: write_round_def Let_def small_access_def burst_words_pos split: prod.splits)

function write_region_loop ::
  "'r device_runtime \<Rightarrow> u32 \<Rightarrow> u8 list \<Rightarrow> nat \<Rightarrow> 'r \<Rightarrow> bus_event list \<Rightarrow>
   ((device_error, unit) result \<times> bus_event list \<times> 'r) option" where
  "write_region_loop ops start_addr bytes offset r log =
    (if offset \<ge> length bytes then Some (Ok (), log, r)
     else case region_addr start_addr offset of
       None \<Rightarrow> None
     | Some addr \<Rightarrow>
       (let (req, step, msg) = write_round addr bytes offset
        in case exchange ops req (accept_write addr (br_size req)) (request_timeout addr msg) r log of
             None \<Rightarrow> None
           | Some (Inl e, log, r) \<Rightarrow> Some (Err e, log, r)
           | Some (Inr _, log, r) \<Rightarrow> write_region_loop ops start_addr bytes (offset + step) r log))"
  by pat_completeness auto

termination
proof (relation "measure (\<lambda>(ops, start_addr, bytes, offset, r, log). length bytes - offset)", goal_cases)
  case 1
  show ?case by simp
next
  case (2 ops start_addr bytes offset r log addr p req p' step msg)
  then have "step > 0"
    using write_round_pos [of addr bytes offset] by (metis fst_conv snd_conv)
  with 2 show ?case by simp
qed

declare write_region_loop.simps [simp del]

definition write_memory_region ::
  "'r device_runtime \<Rightarrow> u32 \<Rightarrow> u8 list \<Rightarrow> 'r \<Rightarrow> bus_event list \<Rightarrow>
   ((device_error, unit) result \<times> bus_event list \<times> 'r) option" where
  "write_memory_region ops start_addr bytes r log =
    (if length bytes \<ge> 2 ^ 32 then
       Some (Err (IoError InvalidInput (''Requested write of '' @ fmt_dec (length bytes) @
         '' bytes at address 0x'' @ fmt_08x start_addr @ '' exceeds 32-bit addressable range'')), log, r)
     else if length bytes > 0 \<and> checked_add start_addr (word_of_nat (length bytes - 1)) = None then
       Some (Err (IoError InvalidInput (''Requested write of '' @ fmt_dec (length bytes) @
         '' bytes at address 0x'' @ fmt_08x start_addr @ '' overflows 32-bit address space'')), log, r)
     else write_region_loop ops start_addr bytes 0 r log)"

text \<open>\<open>read_memory_region\<close>: the request of one round, and what its answer contributes.\<close>

definition read_round :: "u32 \<Rightarrow> nat \<Rightarrow> bus_request \<times> nat \<times> string" where
  "read_round addr remaining =
    (if remaining \<ge> 4 \<and> addr AND 3 = 0 then
       (let word_count = burst_words remaining
        in (request_burst_read addr Word (word_of_nat word_count) False False, word_count * 4,
            ''Timed out reading word burst ('' @ fmt_dec word_count @ '' beats) at address 0x'' @
            fmt_08x addr))
     else
       (let (sz, step) = small_access remaining addr
        in (request_read addr sz, step,
            ''Timed out reading '' @ access_size_name sz @ '' at address 0x'' @ fmt_08x addr)))"

definition read_answer ::
  "u32 \<Rightarrow> bus_request \<Rightarrow> nat \<Rightarrow> u32 \<times> u8 list \<Rightarrow> (device_error, u8 list) result" where
  "read_answer addr req step a =
    (case a of (v, burst_bytes) \<Rightarrow>
       if br_size req = Word then
         (if length burst_bytes \<noteq> step then
            Err (IoError InvalidData (''Read burst payload size mismatch at 0x'' @ fmt_08x addr @
              '' ('' @ fmt_dec_word (br_burst_len req) @ '' beats): expected '' @ fmt_dec step @
              '' bytes, got '' @ fmt_dec (length burst_bytes) @ '' bytes''))
          else Ok burst_bytes)
       else Ok (take step (le_bytes32 v)))"

lemma read_round_pos: "fst (snd (read_round addr remaining)) > 0"
  by (auto simp: read_round_def Let_def small_access_def burst_words_pos split: prod.splits)

function read_region_loop ::
  "'r device_runtime \<Rightarrow> u32 \<Rightarrow> nat \<Rightarrow> nat \<Rightarrow> u8 list \<Rightarrow> 'r \<Rightarrow> bus_event list \<Rightarrow>
   ((device_error, u8 list) result \<times> bus_event list \<times> 'r) option" where
  "read_region_loop ops start_addr sz offset acc r log =
    (if offset \<ge> sz then Some (Ok acc, log, r)
     else case region_addr start_addr offset of
       None \<Rightarrow> None
     | Some addr \<Rightarrow>
       (let (req, step, msg) = read_round addr (sz - offset)
        in case exchange ops req (accept_read addr (br_size req)) (request_timeout addr msg) r log of
             None \<Rightarrow> None
           | Some (Inl e, log, r) \<Rightarrow> Some (Err e, log, r)
           | Some (Inr a, log, r) \<Rightarrow>
             (case read_answer addr req step a of
                Inl e \<Rightarrow> Some (Err e, log, r)
              | Inr bs \<Rightarrow> read_region_loop ops start_addr sz (offset + step) (acc @ bs) r log)))"
  by pat_completeness auto

termination
proof (relation "measure (\<lambda>(ops, start_addr, sz, offset, acc, r, log). sz - offset)", goal_cases)
  case 1
  show ?case by simp
next
  case (2 ops start_addr sz offset acc r log addr p req p' step msg)
  then have "step > 0"
    using read_round_pos [of addr "sz - offset"] by (metis fst_conv snd_conv)
  with 2 show ?case by simp
qed

declare read_region_loop.simps [simp del]

definition read_memory_region ::
  "'r device_runtime \<Rightarrow> u32 \<Rightarrow> u32 \<Rightarrow> 'r \<Rightarrow> bus_event list \<Rightarrow>
   ((device_error, u8 list) result \<times> bus_event list \<times> 'r) option" where
  "read_memory_region ops start_addr sz r log =
    (if sz > 0 \<and> checked_add start_addr (sz - 1) = None then
       Some (Err (IoError InvalidInput (''Requested read of '' @ fmt_dec_word sz @
         '' bytes at address 0x'' @ fmt_08x start_addr @ '' overflows 32-bit address space'')), log, r)
     else read_region_loop ops start_addr (unat sz) 0 [] r log)"

section \<open>Programs\<close>

definition load_program ::
  "'r device_runtime \<Rightarrow> u32 \<Rightarrow> u8 list \<Rightarrow> 'r \<Rightarrow> ((device_error, unit) result \<times> 'r) option" where
  "load_program ops boot_pc bytes r =
    map_option (\<lambda>(res, log, r). (res, r)) (write_memory_region ops boot_pc bytes r [])"

text \<open>
  Reading the file and parsing the ELF header and program headers are calls of libraries: their
  results are arguments.  \<open>usize\<close> has 64 bits.
\<close>

record program_header =
  p_type :: u32
  p_vaddr :: u64
  p_filesz :: u64
  p_offset :: u64

record elf_file =
  e_entry :: u64
  e_segments :: "program_header list option"

definition PT_LOAD :: u32 where "PT_LOAD = 1"

definition invalid_data :: "string \<Rightarrow> (device_error, 'a) result" where
  "invalid_data s = Err (IoError InvalidData s)"

definition u32_try_from :: "u64 \<Rightarrow> u32 option" where
  "u32_try_from w = (if unat w < 2 ^ 32 then Some (ucast w) else None)"

text \<open>The bytes of one loadable segment and its address; \<^term>\<open>None\<close> for an empty one.\<close>

definition segment_data ::
  "u8 list \<Rightarrow> program_header \<Rightarrow> (device_error, (u32 \<times> u8 list) option) result" where
  "segment_data file_data phdr =
    (case u32_try_from (p_vaddr phdr) of
       None \<Rightarrow> invalid_data (''Segment vaddr 0x'' @ fmt_x_word (p_vaddr phdr) @ '' does not fit in u32'')
     | Some vaddr \<Rightarrow>
       if p_filesz phdr = 0 then Ok None
       else case checked_add (p_offset phdr) (p_filesz phdr) of
         None \<Rightarrow> invalid_data (''Segment range overflow: offset=0x'' @ fmt_x_word (p_offset phdr) @
           '', size=0x'' @ fmt_x_word (p_filesz phdr))
       | Some seg_end \<Rightarrow>
         if unat seg_end \<le> length file_data
         then Ok (Some (vaddr, take (unat (p_filesz phdr)) (drop (unat (p_offset phdr)) file_data)))
         else invalid_data (''Segment out of bounds: offset=0x'' @ fmt_x_word (p_offset phdr) @
           '', size=0x'' @ fmt_x_word (p_filesz phdr) @ '', file_len=0x'' @ fmt_x (length file_data)))"

fun load_segments ::
  "'r device_runtime \<Rightarrow> u8 list \<Rightarrow> program_header list \<Rightarrow> 'r \<Rightarrow>
   ((device_error, unit) result \<times> 'r) option" where
  "load_segments ops file_data [] r = Some (Ok (), r)"
| "load_segments ops file_data (phdr # phdrs) r =
    (if p_type phdr \<noteq> PT_LOAD then load_segments ops file_data phdrs r
     else case segment_data file_data phdr of
       Inl e \<Rightarrow> Some (Err e, r)
     | Inr None \<Rightarrow> load_segments ops file_data phdrs r
     | Inr (Some (vaddr, bytes)) \<Rightarrow>
       (case write_memory_region ops vaddr bytes r [] of
          None \<Rightarrow> None
        | Some (Inl e, log, r) \<Rightarrow> Some (Err e, r)
        | Some (Inr _, log, r) \<Rightarrow> load_segments ops file_data phdrs r))"

definition load_elf ::
  "'r device_runtime \<Rightarrow> (io_error_kind \<times> string, u8 list) result \<Rightarrow> (u8 list \<Rightarrow> (string, elf_file) result) \<Rightarrow>
   'r \<Rightarrow> ((device_error, u32) result \<times> 'r) option" where
  "load_elf ops file minimal_parse r =
    (case file of
       Inl (k, s) \<Rightarrow> Some (Err (IoError k s), r)
     | Inr file_data \<Rightarrow>
       (case minimal_parse file_data of
          Inl e \<Rightarrow> Some (invalid_data (''Failed to parse ELF: '' @ e), r)
        | Inr elf \<Rightarrow>
          (case u32_try_from (e_entry elf) of
             None \<Rightarrow> Some (invalid_data (''ELF entry point 0x'' @ fmt_x_word (e_entry elf) @
               '' does not fit in u32''), r)
           | Some entry_point \<Rightarrow>
             (case e_segments elf of
                None \<Rightarrow> Some (Ok entry_point, r)
              | Some phdrs \<Rightarrow>
                map_option (map_prod (map_sum id (\<lambda>_. entry_point)) id)
                  (load_segments ops file_data phdrs r)))))"

section \<open>Booting the CPU\<close>

fun accept_read_at :: "u32 \<Rightarrow> bool \<Rightarrow> bus_event \<Rightarrow> u32 option" where
  "accept_read_at addr pending (HostReadResponse a v s burst_data) =
     (if a = addr \<and> \<not> pending then Some v else None)"
| "accept_read_at addr pending _ = None"

fun accept_write_at :: "u32 \<Rightarrow> bool \<Rightarrow> bus_event \<Rightarrow> unit option" where
  "accept_write_at addr pending (HostWriteResponse a v s) =
     (if a = addr \<and> \<not> pending then Some () else None)"
| "accept_write_at addr pending _ = None"

text \<open>Other events are ignored: the log of the loops is dropped.\<close>

definition boot_cpu ::
  "'r device_runtime \<Rightarrow> u32 \<Rightarrow> 'r \<Rightarrow> ((device_error, unit) result \<times> 'r) option" where
  "boot_cpu ops boot_addr r =
    (case exchange ops (request_read sysctrl_status_addr Word) (accept_read_at sysctrl_status_addr)
        (request_timeout sysctrl_status_addr
          (''Timed out reading STATUS register at 0x'' @ fmt_08x sysctrl_status_addr)) r [] of
       None \<Rightarrow> None
     | Some (Inl e, _, r) \<Rightarrow> Some (Err e, r)
     | Some (Inr status_val, _, r) \<Rightarrow>
       (if status_val AND SYSCTRL_STATUS_CPU_BOOTING = 0
        then Some (invalid_data (''Boot failed: cpu_booting bit not set (STATUS=0x'' @
          fmt_08x status_val @ '')''), r)
        else map_option (\<lambda>(res, log, r). (res, r))
          (exchange ops (request_write sysctrl_boot_addr boot_addr Word)
            (accept_write_at sysctrl_boot_addr)
            (request_timeout sysctrl_boot_addr
              (''Timed out writing boot address to BOOT register at 0x'' @ fmt_08x sysctrl_boot_addr))
            r [])))"

section \<open>What a backend promises\<close>

text \<open>
  The polls from \<open>r\<close> give the target's events \<open>evs\<close>, with any number of empty polls between them,
  and then the event \<open>ev\<close>.
\<close>

fun target_event :: "bus_event \<Rightarrow> bool" where
  "target_event (EvRead a s v d) = True"
| "target_event (EvWrite a s v d) = True"
| "target_event (TohostTermination v) = True"
| "target_event _ = False"

inductive yields ::
  "'r device_runtime \<Rightarrow> 'r \<Rightarrow> bus_event list \<Rightarrow> bus_event \<Rightarrow> 'r \<Rightarrow> bool" for ops where
  yields_now: "dr_poll ops r = Some (Inr (Some ev), r') \<Longrightarrow> yields ops r [] ev r'"
| yields_empty: "dr_poll ops r = Some (Inr None, r1) \<Longrightarrow> yields ops r1 evs ev r' \<Longrightarrow> yields ops r evs ev r'"
| yields_target: "dr_poll ops r = Some (Inr (Some e), r1) \<Longrightarrow> target_event e \<Longrightarrow>
    yields ops r1 evs ev r' \<Longrightarrow> yields ops r (e # evs) ev r'"

lemma target_event_ignored:
  "target_event e \<Longrightarrow> accept_write a sz p e = None \<and> accept_read a sz p e = None \<and>
    accept_read_at a p e = None \<and> accept_write_at a p e = None \<and> request_timeout a msg e = None"
  by (cases e) auto

lemma await_event_yields:
  assumes "yields ops r evs ev r'"
    and "accept (dr_has_pending_host_request ops r') ev = Some a"
    and "\<And>e p. target_event e \<Longrightarrow> accept p e = None \<and> timeout e = None"
  shows "await_event ops accept timeout r log = Some (Ok a, log @ evs, r')"
  using assms(1,2)
proof (induction arbitrary: log)
  case (yields_now r ev r')
  then show ?case by (subst await_event.simps) simp
next
  case (yields_empty r r1 evs ev r')
  then show ?case by (subst await_event.simps) simp
next
  case (yields_target r e r1 evs ev r')
  then show ?case using assms(3) by (subst await_event.simps) simp
qed

text \<open>
  The contract: between its requests the runtime is \<open>ready\<close>; a request that lies within DRAM is
  accepted and after finitely many polls answered with the addresses and the bytes of one block
  access to the memory.
\<close>

locale region_runtime =
  fixes ops :: "'r device_runtime" and ready :: "'r \<Rightarrow> bool" and mem_of :: "'r \<Rightarrow> memory"
  assumes idle: "ready r \<Longrightarrow> \<not> dr_has_pending_host_request ops r"
    and write_answered: "ready r \<Longrightarrow> dram_burst q \<Longrightarrow> br_we q \<Longrightarrow>
      \<exists>r1 evs r'. dr_send_host_request ops q r = Some (Ok (), r1) \<and>
        yields ops r1 evs (HostWriteResponse (br_addr q) (br_wdata q) (br_size q)) r' \<and> ready r' \<and>
        mem_of r' = write_block mem_write_byte (mem_of r) (br_addr q) (br_data q)"
    and read_answered: "ready r \<Longrightarrow> dram_burst q \<Longrightarrow> \<not> br_we q \<Longrightarrow>
      \<exists>r1 evs r'. dr_send_host_request ops q r = Some (Ok (), r1) \<and>
        yields ops r1 evs (HostReadResponse (br_addr q)
          (first_beat (br_size q) (read_block mem_read_byte (mem_of r) (br_addr q) (unat (br_burst_len q) * beat_bytes q)))
          (br_size q)
          (read_block mem_read_byte (mem_of r) (br_addr q) (unat (br_burst_len q) * beat_bytes q))) r' \<and>
        ready r' \<and> mem_of r' = mem_of r"
begin

lemma exchange_write:
  assumes "ready r" "dram_burst q" "br_we q"
  shows "\<exists>evs r'. exchange ops q (accept_write (br_addr q) (br_size q)) (request_timeout (br_addr q) msg) r log =
      Some (Ok (), log @ evs, r') \<and> ready r' \<and>
      mem_of r' = write_block mem_write_byte (mem_of r) (br_addr q) (br_data q)"
proof -
  obtain r1 evs r' where w: "dr_send_host_request ops q r = Some (Ok (), r1)"
    "yields ops r1 evs (HostWriteResponse (br_addr q) (br_wdata q) (br_size q)) r'" "ready r'"
    "mem_of r' = write_block mem_write_byte (mem_of r) (br_addr q) (br_data q)"
    using write_answered [OF assms] by blast
  have "await_event ops (accept_write (br_addr q) (br_size q)) (request_timeout (br_addr q) msg) r1 log =
      Some (Ok (), log @ evs, r')"
    by (rule await_event_yields [OF w(2)]) (use idle [OF w(3)] target_event_ignored in auto)
  with w show ?thesis by (auto simp: exchange_def)
qed

lemma exchange_read:
  assumes "ready r" "dram_burst q" "\<not> br_we q"
  defines "bs \<equiv> read_block mem_read_byte (mem_of r) (br_addr q) (unat (br_burst_len q) * beat_bytes q)"
  shows "\<exists>evs r'. exchange ops q (accept_read (br_addr q) (br_size q)) (request_timeout (br_addr q) msg) r log =
      Some (Ok (first_beat (br_size q) bs, bs), log @ evs, r') \<and> ready r' \<and> mem_of r' = mem_of r"
proof -
  obtain r1 evs r' where w: "dr_send_host_request ops q r = Some (Ok (), r1)"
    "yields ops r1 evs (HostReadResponse (br_addr q) (first_beat (br_size q) bs) (br_size q) bs) r'" "ready r'"
    "mem_of r' = mem_of r"
    using read_answered [OF assms(1-3)] unfolding bs_def by blast
  have "await_event ops (accept_read (br_addr q) (br_size q)) (request_timeout (br_addr q) msg) r1 log =
      Some (Ok (first_beat (br_size q) bs, bs), log @ evs, r')"
    by (rule await_event_yields [OF w(2)]) (use idle [OF w(3)] target_event_ignored in auto)
  with w show ?thesis by (auto simp: exchange_def)
qed

end

section \<open>The rounds of a region are DRAM requests\<close>

lemma region_addr_dram:
  assumes "unat start + n \<le> 0x90000000" "i \<le> n"
  shows "region_addr start i = Some (start + word_of_nat i)" "unat (start + word_of_nat i) = unat start + i"
  using assms by (simp_all add: region_addr_def checked_add_nowrap unat_of_nat unat_plus_nowrap)

lemma burst_words_bounds: "burst_words n * 4 \<le> n" "burst_words n \<le> 65536"
  by (auto simp: burst_words_def MAX_BURST_BEATS_def min_def)

lemma unat_burst_words: "unat (word_of_nat (burst_words n) :: u32) = burst_words n"
  using burst_words_bounds(2) [of n] by (simp add: unat_of_nat)

lemma small_access_cases:
  assumes "small_access n a = (sz, step)" "0 < n"
  obtains "sz = Halfword" "step = 2" "2 \<le> n" | "sz = Byte" "step = 1"
  using assms by (auto simp: small_access_def split: if_splits)

lemma le_bytes16_of_le16: "le_bytes16 (of_le16 a b) = [a, b]"
  by (simp add: le_bytes16_def of_le16_def) (auto intro!: bit_word_eqI simp: bit_simps)

lemma take_2_le_bytes32: "take 2 (le_bytes32 (ucast (of_le16 a b))) = [a, b]"
proof -
  have "take 2 (le_bytes32 (ucast h)) = le_bytes16 h" for h :: u16
    by (auto simp: le_bytes32_def le_bytes16_def intro!: bit_word_eqI simp: bit_simps)
  then show ?thesis by (simp add: le_bytes16_of_le16)
qed

lemma take_1_le_bytes32: "take (Suc 0) (le_bytes32 (ucast (b :: u8))) = [b]"
  by (simp add: le_bytes32_def ucast_widen)

lemma two_simps: "take 2 (x # y # zs) = [x, y]" "replicate 2 z = [z, z]" "replicate 3 z = [z, z, z]"
  by (simp_all add: numeral_eq_Suc)

lemma write_round_dram:
  assumes "write_round addr bytes offset = (q, step, msg)" "offset < length bytes"
    and "0x80000000 \<le> unat addr" "unat addr + (length bytes - offset) \<le> 0x90000000"
  shows "dram_burst q \<and> br_we q \<and> br_addr q = addr \<and> br_data q = take step (drop offset bytes) \<and>
    0 < step \<and> offset + step \<le> length bytes"
proof (cases "length bytes - offset \<ge> 4 \<and> addr AND 3 = 0")
  case True
  let ?n = "length bytes - offset"
  have "q = request_burst_write addr Word (word_of_nat (burst_words ?n)) False False
      (take (burst_words ?n * 4) (drop offset bytes))" "step = burst_words ?n * 4"
    using assms(1) True by (auto simp: write_round_def Let_def)
  then show ?thesis
    using burst_words_bounds [of ?n] burst_words_pos [of ?n] True assms(2-4)
    by (simp add: dram_burst_def request_burst_write_def beat_bytes_def unat_burst_words
        word_less_nat_alt min_def) linarith
next
  case False
  let ?n = "length bytes - offset"
  obtain sz st where s: "small_access ?n addr = (sz, st)" by fastforce
  then have q: "st = step" "q = request_write addr (if step = 2 then ucast (of_le16 (bytes ! offset) (bytes ! (offset + 1)))
      else ucast (bytes ! offset)) sz"
    using assms(1) False by (auto simp: write_round_def Let_def)
  from s have "0 < ?n" using assms(2) by simp
  with s show ?thesis
  proof (cases rule: small_access_cases)
    case 1
    then have "drop offset bytes = bytes ! offset # bytes ! (offset + 1) # drop (offset + 2) bytes"
      using assms(2) by (simp add: Cons_nth_drop_Suc)
    with 1 show ?thesis
      using q assms by (simp add: dram_burst_def request_write_def beat_bytes_def take_2_le_bytes32
          two_simps) linarith
  next
    case 2
    have "drop offset bytes = bytes ! offset # drop (offset + 1) bytes"
      using assms(2) by (simp add: Cons_nth_drop_Suc)
    with 2 show ?thesis
      using q assms by (simp add: dram_burst_def request_write_def beat_bytes_def take_1_le_bytes32)
  qed
qed

lemma read_round_dram:
  assumes "read_round addr n = (q, step, msg)" "0 < n"
    and "0x80000000 \<le> unat addr" "unat addr + n \<le> 0x90000000"
  shows "dram_burst q \<and> \<not> br_we q \<and> br_addr q = addr \<and> 0 < step \<and> step \<le> n \<and>
    step = unat (br_burst_len q) * beat_bytes q"
proof (cases "n \<ge> 4 \<and> addr AND 3 = 0")
  case True
  have "q = request_burst_read addr Word (word_of_nat (burst_words n)) False False" "step = burst_words n * 4"
    using assms(1) True by (auto simp: read_round_def Let_def)
  then show ?thesis
    using burst_words_bounds [of n] burst_words_pos [of n] True assms(2-4)
    by (simp add: dram_burst_def request_burst_read_def beat_bytes_def unat_burst_words
        word_less_nat_alt)
next
  case False
  obtain sz st where s: "small_access n addr = (sz, st)" by fastforce
  then have q: "st = step" "q = request_read addr sz"
    using assms(1) False by (auto simp: read_round_def Let_def)
  from s assms(2) show ?thesis
    using q assms by (cases rule: small_access_cases)
      (auto simp: dram_burst_def request_read_def beat_bytes_def)
qed

lemma read_answer_dram:
  assumes "read_round addr n = (q, step, msg)" "0 < n" "length bs = step"
  shows "read_answer addr q step (first_beat (br_size q) bs, bs) = Ok bs"
proof (cases "n \<ge> 4 \<and> addr AND 3 = 0")
  case True
  then have "br_size q = Word" using assms(1) by (auto simp: read_round_def Let_def request_burst_read_def)
  then show ?thesis using assms(3) by (simp add: read_answer_def)
next
  case False
  obtain sz st where s: "small_access n addr = (sz, st)" by fastforce
  then have q: "st = step" "br_size q = sz"
    using assms(1) False by (auto simp: read_round_def Let_def request_read_def)
  from s assms(2) show ?thesis
  proof (cases rule: small_access_cases)
    case 1
    then obtain x y where "bs = [x, y]" using assms(3) q by (cases bs; cases "tl bs") auto
    then show ?thesis
      using 1 q take_2_le_bytes32 [of x y] of_le32_low
      by (simp add: read_answer_def first_beat_def two_simps)
  next
    case 2
    then obtain x where "bs = [x]" using assms(3) q by (cases bs) auto
    then show ?thesis
      using 2 q by (simp add: read_answer_def first_beat_def two_simps)
  qed
qed

section \<open>The image of an ELF file\<close>

definition loadable :: "program_header \<Rightarrow> bool" where
  "loadable p \<longleftrightarrow> p_type p = PT_LOAD \<and> p_filesz p \<noteq> 0"

definition segment_bytes :: "u8 list \<Rightarrow> program_header \<Rightarrow> u8 list" where
  "segment_bytes file_data p = take (unat (p_filesz p)) (drop (unat (p_offset p)) file_data)"

text \<open>A loadable segment lies within the file and, loaded, within DRAM.\<close>

definition segment_ok :: "u8 list \<Rightarrow> program_header \<Rightarrow> bool" where
  "segment_ok file_data p \<longleftrightarrow> (p_type p = PT_LOAD \<longrightarrow> unat (p_vaddr p) < 2 ^ 32) \<and>
     (loadable p \<longrightarrow> unat (p_offset p) + unat (p_filesz p) \<le> length file_data \<and>
       unat (p_offset p) + unat (p_filesz p) < 2 ^ 64 \<and>
       0x80000000 \<le> unat (p_vaddr p) \<and> unat (p_vaddr p) + unat (p_filesz p) \<le> 0x90000000)"

definition elf_image :: "u8 list \<Rightarrow> program_header list \<Rightarrow> memory \<Rightarrow> memory" where
  "elf_image file_data ps m =
    fold (\<lambda>p m. write_block mem_write_byte m (ucast (p_vaddr p)) (segment_bytes file_data p)) ps m"

lemma unat_ucast_segment: "unat (w :: u64) < 4294967296 \<Longrightarrow> unat (ucast w :: u32) = unat w"
  by (simp add: unsigned_ucast_eq take_bit_nat_eq_self)

lemma segment_data_ok:
  assumes "loadable p" "segment_ok file_data p"
  shows "segment_data file_data p = Ok (Some (ucast (p_vaddr p), segment_bytes file_data p))"
  using assms
  by (simp add: segment_data_def u32_try_from_def segment_ok_def loadable_def segment_bytes_def
      checked_add_nowrap unat_plus_nowrap)

context region_runtime begin

lemma write_region_loop_correct:
  assumes "0x80000000 \<le> unat start" "unat start + length bytes \<le> 0x90000000"
  shows "ready r \<Longrightarrow> \<exists>evs r'. write_region_loop ops start bytes offset r log = Some (Ok (), log @ evs, r') \<and>
    ready r' \<and> mem_of r' = write_block mem_write_byte (mem_of r) (start + word_of_nat offset) (drop offset bytes)"
proof (induction "length bytes - offset" arbitrary: offset r log rule: less_induct)
  case less
  show ?case
  proof (cases "offset < length bytes")
    case False
    then show ?thesis using less.prems by (subst write_region_loop.simps) simp
  next
    case True
    let ?a = "start + word_of_nat offset"
    have a: "region_addr start offset = Some ?a" "unat ?a = unat start + offset"
      using region_addr_dram [OF assms(2), of offset] True by simp_all
    obtain q step msg where w: "write_round ?a bytes offset = (q, step, msg)" by (metis prod_cases3)
    have q: "dram_burst q" "br_we q" "br_addr q = ?a" "br_data q = take step (drop offset bytes)"
      "0 < step" "offset + step \<le> length bytes"
      using write_round_dram [OF w True] assms a(2) True by simp_all
    obtain evs r1 where r1: "exchange ops q (accept_write ?a (br_size q)) (request_timeout ?a msg) r log =
        Some (Ok (), log @ evs, r1)" "ready r1"
      "mem_of r1 = write_block mem_write_byte (mem_of r) ?a (take step (drop offset bytes))"
      using exchange_write [OF less.prems q(1,2), of msg log] q(3,4) by auto
    have "length bytes - (offset + step) < length bytes - offset" using q(5,6) by simp
    from less.hyps [OF this r1(2), of "log @ evs"] obtain evs' r2 where r2:
      "write_region_loop ops start bytes (offset + step) r1 (log @ evs) = Some (Ok (), (log @ evs) @ evs', r2)"
      "ready r2" "mem_of r2 = write_block mem_write_byte (mem_of r1) (start + word_of_nat (offset + step))
        (drop (offset + step) bytes)"
      by blast
    have "write_region_loop ops start bytes offset r log = Some (Ok (), log @ (evs @ evs'), r2)"
      using True r1(1) r2(1) by (subst write_region_loop.simps) (simp add: a(1) w)
    moreover have "mem_of r2 = write_block mem_write_byte (mem_of r) ?a
        (take step (drop offset bytes) @ drop step (drop offset bytes))"
      unfolding write_block_append using q(6) by (simp add: r2(3) r1(3) algebra_simps min_def)
    ultimately show ?thesis using r2(2) by (auto simp only: append_take_drop_id)
  qed
qed

lemma read_region_loop_correct:
  assumes "0x80000000 \<le> unat start" "unat start + sz \<le> 0x90000000"
  shows "ready r \<Longrightarrow> \<exists>evs r'. read_region_loop ops start sz offset acc r log =
      Some (Ok (acc @ read_block mem_read_byte (mem_of r) (start + word_of_nat offset) (sz - offset)), log @ evs, r') \<and>
    ready r' \<and> mem_of r' = mem_of r"
proof (induction "sz - offset" arbitrary: offset acc r log rule: less_induct)
  case less
  show ?case
  proof (cases "offset < sz")
    case False
    then show ?thesis using less.prems by (subst read_region_loop.simps) simp
  next
    case True
    let ?a = "start + word_of_nat offset"
    have a: "region_addr start offset = Some ?a" "unat ?a = unat start + offset"
      using region_addr_dram [OF assms(2), of offset] True by simp_all
    obtain q step msg where w: "read_round ?a (sz - offset) = (q, step, msg)" by (metis prod_cases3)
    have q: "dram_burst q" "\<not> br_we q" "br_addr q = ?a" "0 < step" "step \<le> sz - offset"
      "step = unat (br_burst_len q) * beat_bytes q"
      using read_round_dram [OF w] assms a(2) True by auto
    let ?bs = "read_block mem_read_byte (mem_of r) ?a step"
    obtain evs r1 where r1: "exchange ops q (accept_read ?a (br_size q)) (request_timeout ?a msg) r log =
        Some (Ok (first_beat (br_size q) ?bs, ?bs), log @ evs, r1)" "ready r1" "mem_of r1 = mem_of r"
      using exchange_read [OF less.prems q(1,2), of msg log] q(3,6) by auto
    have ans: "read_answer ?a q step (first_beat (br_size q) ?bs, ?bs) = Ok ?bs"
      by (rule read_answer_dram [OF w]) (use True in simp_all)
    have "sz - (offset + step) < sz - offset" using q(4,5) by simp
    from less.hyps [OF this r1(2), of "acc @ ?bs" "log @ evs"] obtain evs' r2 where r2:
      "read_region_loop ops start sz (offset + step) (acc @ ?bs) r1 (log @ evs) =
        Some (Ok ((acc @ ?bs) @ read_block mem_read_byte (mem_of r1) (start + word_of_nat (offset + step))
          (sz - (offset + step))), (log @ evs) @ evs', r2)"
      "ready r2" "mem_of r2 = mem_of r1"
      by blast
    have n: "sz - offset = step + (sz - (offset + step))" using q(5) True by simp
    then have split: "read_block mem_read_byte (mem_of r) ?a (sz - offset) =
        ?bs @ read_block mem_read_byte (mem_of r) (start + word_of_nat (offset + step)) (sz - (offset + step))"
      by (subst n) (simp only: read_block_add of_nat_add add.assoc)
    have "read_region_loop ops start sz offset acc r log =
        read_region_loop ops start sz (offset + step) (acc @ ?bs) r1 (log @ evs)"
      using True r1(1) by (subst read_region_loop.simps) (simp add: a(1) w ans)
    also have "\<dots> = Some (Ok (acc @ read_block mem_read_byte (mem_of r) ?a (sz - offset)), log @ (evs @ evs'), r2)"
      unfolding r2(1) r1(3) split by (simp only: append_assoc)
    finally show ?thesis using r2(2,3) r1(3) by auto
  qed
qed

lemma dram_region_guard:
  fixes start :: u32
  assumes "unat start + n \<le> 0x90000000" "0 < n"
  shows "checked_add start (word_of_nat (n - 1)) \<noteq> None"
proof -
  have "unat (word_of_nat (n - 1) :: u32) = n - 1" using assms by (simp add: unat_of_nat del: of_nat_diff)
  then have "unat start + unat (word_of_nat (n - 1) :: u32) < 2 ^ LENGTH(32)" using assms by simp
  from checked_add_nowrap [OF this] show ?thesis by simp
qed

lemma write_memory_region_correct:
  assumes "ready r" "0x80000000 \<le> unat start" "unat start + length bytes \<le> 0x90000000"
  shows "\<exists>evs r'. write_memory_region ops start bytes r log = Some (Ok (), log @ evs, r') \<and> ready r' \<and>
    mem_of r' = write_block mem_write_byte (mem_of r) start bytes"
  using write_region_loop_correct [OF assms(2,3,1), of 0 log] dram_region_guard [OF assms(3)] assms(2,3)
  by (auto simp: write_memory_region_def)

lemma read_memory_region_correct:
  assumes "ready r" "0x80000000 \<le> unat start" "unat start + unat n \<le> 0x90000000"
  shows "\<exists>evs r'. read_memory_region ops start n r log =
      Some (Ok (read_block mem_read_byte (mem_of r) start (unat n)), log @ evs, r') \<and> ready r' \<and>
    mem_of r' = mem_of r"
proof -
  have "checked_add start (n - 1) \<noteq> None" if "n > 0"
  proof -
    have "unat (n - 1) = unat n - 1" using that by (intro unat_minus_one) auto
    moreover have "0 < unat n" using that by (simp add: unat_gt_0 word_gt_0)
    ultimately show ?thesis using assms(3) by (simp add: checked_add_nowrap)
  qed
  then show ?thesis
    using read_region_loop_correct [OF assms(2,3,1), of 0 "[]" log] by (auto simp: read_memory_region_def)
qed

lemma load_segments_correct:
  "ready r \<Longrightarrow> list_all (segment_ok file_data) phdrs \<Longrightarrow>
    \<exists>r'. load_segments ops file_data phdrs r = Some (Ok (), r') \<and> ready r' \<and>
      mem_of r' = elf_image file_data (filter loadable phdrs) (mem_of r)"
proof (induction phdrs arbitrary: r)
  case (Cons p ps)
  show ?case
  proof (cases "loadable p")
    case False
    then show ?thesis
      using Cons by (cases "p_type p = PT_LOAD")
        (simp_all add: loadable_def segment_data_def u32_try_from_def segment_ok_def)
  next
    case True
    let ?bs = "segment_bytes file_data p"
    have ok: "segment_ok file_data p" using Cons.prems(2) True by simp
    moreover have "length ?bs \<le> unat (p_filesz p)" by (simp add: segment_bytes_def)
    ultimately have a: "0x80000000 \<le> unat (ucast (p_vaddr p) :: u32)"
      "unat (ucast (p_vaddr p) :: u32) + length ?bs \<le> 0x90000000"
      using True by (simp_all add: segment_ok_def unat_ucast_segment)
    obtain evs r1 where w: "write_memory_region ops (ucast (p_vaddr p)) ?bs r [] = Some (Ok (), evs, r1)"
      "ready r1" "mem_of r1 = write_block mem_write_byte (mem_of r) (ucast (p_vaddr p)) ?bs"
      using write_memory_region_correct [OF Cons.prems(1) a, of "[]"] by auto
    from Cons.IH [OF w(2)] Cons.prems(2) obtain r' where
      "load_segments ops file_data ps r1 = Some (Ok (), r')" "ready r'"
      "mem_of r' = elf_image file_data (filter loadable ps) (mem_of r1)" by auto
    moreover have "p_type p = PT_LOAD" using True by (simp add: loadable_def)
    ultimately show ?thesis
      using True w segment_data_ok [OF True ok] by (simp add: elf_image_def)
  qed
qed (simp add: elf_image_def)

end

end
