(* ===== verification/Host_Shell.thy ===== *)
theory Host_Shell
  imports Host_App Runtime_Client
begin

text \<open>
  The commands of the interactive shell (\<open>fpga-host/src/shell.rs\<close>) and what the application does
  with them (\<open>submit_command\<close> and \<open>handle_key_event\<close> of \<open>app.rs\<close>, one turn of the main loop of
  \<open>main.rs\<close>).  A device runtime is a backend: the calls of \<open>Runtime_Client\<close>, reset, its description
  and its creation.  Files, the clock, splitting a line into words (\<open>shell_words\<close>) and matching the
  words against the commands (\<open>clap\<close>) are the environment.  An operation returns \<^term>\<open>None\<close> when the
  backend does not return or panics.
\<close>

section \<open>Backends and environment\<close>

datatype device_runtime_type =
    RuntimeFpga string u32 startup_reset
  | RuntimeSim bool "string option" u32

record 'r backend =
  be_ops :: "'r device_runtime"
  be_reset :: "reset_kind \<Rightarrow> 'r \<Rightarrow> ((device_error, unit) result \<times> 'r) option"
  be_describe :: "'r \<Rightarrow> string"
  be_create :: "device_runtime_type \<Rightarrow> (device_error, 'r) result option"

record host_env =
  env_exists :: "string \<Rightarrow> bool"
  env_read :: "string \<Rightarrow> (io_error_kind \<times> string, u8 list) result"
  env_write :: "string \<Rightarrow> u8 list \<Rightarrow> (string, unit) result"
  env_parse_elf :: "u8 list \<Rightarrow> (string, elf_file) result"
  env_secs :: u64
  env_nanos :: u32

text \<open>An environment without files, at the epoch.\<close>

definition empty_env :: host_env where
  "empty_env = \<lparr>env_exists = (\<lambda>_. False), env_read = (\<lambda>_. Err (OtherKind, ''not found'')),
     env_write = (\<lambda>_ _. Ok ()), env_parse_elf = (\<lambda>_. Err ''no ELF''), env_secs = 0, env_nanos = 0\<rparr>"

section \<open>Commands and results\<close>

definition DEFAULT_BAUD_RATE :: u32 where "DEFAULT_BAUD_RATE = 1000000"

definition MEMTEST_WORD_BYTES :: u32 where "MEMTEST_WORD_BYTES = 4"

definition MEMTEST_MISMATCH_PREVIEW_LIMIT :: nat where "MEMTEST_MISMATCH_PREVIEW_LIMIT = 8"

datatype size_arg = SizeByte | SizeHalfword | SizeWord

fun to_access_size :: "size_arg \<Rightarrow> access_size" where
  "to_access_size SizeByte = Byte"
| "to_access_size SizeHalfword = Halfword"
| "to_access_size SizeWord = Word"

datatype connect_runtime =
    ConnectFpga string u32
  | ConnectSim bool "string option" u32

datatype shell_command =
    CmdExit
  | CmdStatus
  | CmdConnect connect_runtime
  | CmdDisconnect
  | CmdLoadElf string
  | CmdLoadMem u32 string
  | CmdDumpMem u32 u32 string
  | CmdMemTest u32 u32
  | CmdRead u32 size_arg
  | CmdWrite u32 u32 size_arg
  | CmdReset bool
  | CmdBoot "u32 option"

datatype parse_result = ParsedCommand shell_command | HelpText string

record command_result =
  cr_message :: "string option"
  cr_level :: log_level

definition result_ok :: "string \<Rightarrow> command_result" where
  "result_ok msg = \<lparr>cr_message = Some msg, cr_level = LInfo\<rparr>"

definition result_error :: "string \<Rightarrow> command_result" where
  "result_error msg = \<lparr>cr_message = Some msg, cr_level = LError\<rparr>"

definition result_silent :: command_result where
  "result_silent = \<lparr>cr_message = None, cr_level = LInfo\<rparr>"

definition newline :: string where "newline = [CHR 0x0A]"

definition quoted :: "string \<Rightarrow> string" where
  "quoted s = [CHR 0x27] @ s @ [CHR 0x27]"

section \<open>Numbers on the command line\<close>

text \<open>\<open>char::is_whitespace\<close> on the first 256 code points, and \<open>str::trim\<close>.\<close>

definition is_whitespace :: "char \<Rightarrow> bool" where
  "is_whitespace c \<longleftrightarrow>
    (let n = of_char c :: nat in 9 \<le> n \<and> n \<le> 13 \<or> n = 32 \<or> n = 0x85 \<or> n = 0xA0)"

definition trim :: "string \<Rightarrow> string" where
  "trim s = rev (dropWhile is_whitespace (rev (dropWhile is_whitespace s)))"

text \<open>\<open>u32::from_str_radix\<close> with the messages of its errors.\<close>

datatype int_error = IntEmpty | IntInvalidDigit | IntPosOverflow

fun int_error_message :: "int_error \<Rightarrow> string" where
  "int_error_message IntEmpty = ''cannot parse integer from empty string''"
| "int_error_message IntInvalidDigit = ''invalid digit found in string''"
| "int_error_message IntPosOverflow = ''number too large to fit in target type''"

fun radix_digits :: "nat \<Rightarrow> u32 \<Rightarrow> string \<Rightarrow> (int_error, u32) result" where
  "radix_digits radix acc [] = Ok acc"
| "radix_digits radix acc (c # cs) =
     (case to_digit radix c of
        None \<Rightarrow> Err IntInvalidDigit
      | Some d \<Rightarrow>
        (case checked_mul acc (word_of_nat radix) of
           None \<Rightarrow> Err IntPosOverflow
         | Some m \<Rightarrow>
           (case checked_add m (word_of_nat d) of
              None \<Rightarrow> Err IntPosOverflow
            | Some v \<Rightarrow> radix_digits radix v cs)))"

definition from_str_radix :: "nat \<Rightarrow> string \<Rightarrow> (int_error, u32) result" where
  "from_str_radix radix s =
    (if s = [] then Err IntEmpty
     else if s = ''+'' \<or> s = ''-'' then Err IntInvalidDigit
     else radix_digits radix 0 (if hd s = CHR ''+'' then tl s else s))"

definition strip_prefix :: "string \<Rightarrow> string \<Rightarrow> string option" where
  "strip_prefix s prefix =
    (if take (length prefix) s = prefix then Some (drop (length prefix) s) else None)"

definition parse_hex_or_decimal :: "string \<Rightarrow> (string, u32) result" where
  "parse_hex_or_decimal s =
    (let s = trim s
     in case (case strip_prefix s ''0x'' of Some hex \<Rightarrow> Some hex | None \<Rightarrow> strip_prefix s ''0X'') of
          Some hex \<Rightarrow>
            (case from_str_radix 16 hex of
               Inl e \<Rightarrow> Err (''Invalid hex number: '' @ int_error_message e)
             | Inr v \<Rightarrow> Ok v)
        | None \<Rightarrow>
            (case from_str_radix 10 s of
               Inl e \<Rightarrow> Err (''Invalid decimal number: '' @ int_error_message e)
             | Inr v \<Rightarrow> Ok v))"

section \<open>Parsing a line\<close>

text \<open>
  \<open>shell_words\<close> splits the line or fails with a message; \<open>clap\<close> gives the command, or an error with
  its text and whether it is help or version output.
\<close>

definition shell_parse ::
  "(string \<Rightarrow> (string, string list) result) \<Rightarrow>
   (string list \<Rightarrow> (bool \<times> string, shell_command) result) \<Rightarrow> string \<Rightarrow> (string, parse_result) result" where
  "shell_parse split_words try_parse_from input =
    (let input = trim input
     in if input = [] then Err ''Empty command''
        else case split_words input of
          Inl e \<Rightarrow> Err (''Failed to parse command: '' @ e)
        | Inr args \<Rightarrow>
          (case try_parse_from args of
             Inr cmd \<Rightarrow> Ok (ParsedCommand cmd)
           | Inl (is_help, text) \<Rightarrow> (if is_help then Ok (HelpText text) else Err text)))"

section \<open>Checks\<close>

definition check_alignment :: "u32 \<Rightarrow> size_arg \<Rightarrow> string option" where
  "check_alignment address sz =
    (case sz of
       SizeByte \<Rightarrow> None
     | SizeHalfword \<Rightarrow>
         (if address AND 1 \<noteq> 0 then
            Some (''Address 0x'' @ fmt_08x address @ '' is not halfword-aligned (must be 2-byte aligned)'')
          else None)
     | SizeWord \<Rightarrow>
         (if address AND 3 \<noteq> 0 then
            Some (''Address 0x'' @ fmt_08x address @ '' is not word-aligned (must be 4-byte aligned)'')
          else None))"

definition check_data_size :: "u32 \<Rightarrow> size_arg \<Rightarrow> string option" where
  "check_data_size data sz =
    (case sz of
       SizeByte \<Rightarrow>
         (if data > 0xFF then Some (''Data value 0x'' @ fmt_x_word data @ '' exceeds byte size (max 0xFF)'')
          else None)
     | SizeHalfword \<Rightarrow>
         (if data > 0xFFFF then
            Some (''Data value 0x'' @ fmt_x_word data @ '' exceeds halfword size (max 0xFFFF)'')
          else None)
     | SizeWord \<Rightarrow> None)"

section \<open>The memory test\<close>

definition validate_memtest_range :: "u32 \<Rightarrow> u32 \<Rightarrow> string option" where
  "validate_memtest_range address sz =
    (if sz = 0 then Some ''Memtest size must be greater than zero.''
     else case check_alignment address SizeWord of
       Some err \<Rightarrow> Some err
     | None \<Rightarrow>
       if \<not> is_multiple_of sz MEMTEST_WORD_BYTES then
         Some (''Memtest size 0x'' @ fmt_x_word sz @ '' must be a multiple of '' @
           fmt_dec_word MEMTEST_WORD_BYTES @ '' bytes.'')
       else case checked_sub sz 1 of
         None \<Rightarrow> None
       | Some last_offset \<Rightarrow>
         if checked_add address last_offset = None then
           Some (''Memtest range 0x'' @ fmt_08x address @ ''..0x'' @ fmt_08x address @ ''+0x'' @
             fmt_x_word sz @ '' overflows 32-bit address space.'')
         else None)"

text \<open>The clock since the epoch: seconds and the nanoseconds below a second.\<close>

definition generate_memtest_offset :: "u64 \<Rightarrow> u32 \<Rightarrow> u32" where
  "generate_memtest_offset secs subsec_nanos =
    (let folded_secs = ucast (secs XOR drop_bit 32 secs);
         mixed = word_rotl 13 folded_secs XOR word_rotl 7 subsec_nanos
     in if mixed = 0 then 0xA5A55A5A else mixed)"

text \<open>The loop over the word indices: the words from \<open>word_index\<close> to \<open>word_count\<close>.\<close>

function memtest_words :: "u32 \<Rightarrow> u32 \<Rightarrow> u32 \<Rightarrow> nat \<Rightarrow> nat \<Rightarrow> u8 list \<Rightarrow> (string, u8 list) result" where
  "memtest_words start_addr sz offset word_count word_index pattern =
    (if word_index \<ge> word_count then Ok pattern
     else case checked_mul (word_of_nat word_index) MEMTEST_WORD_BYTES of
       None \<Rightarrow> Err (''Memtest offset overflow for size 0x'' @ fmt_x_word sz @ ''.'')
     | Some byte_offset \<Rightarrow>
       (case checked_add start_addr byte_offset of
          None \<Rightarrow> Err (''Memtest range overflow at word index '' @ fmt_dec word_index @
            '' for start address 0x'' @ fmt_08x start_addr @ ''.'')
        | Some addr \<Rightarrow>
          memtest_words start_addr sz offset word_count (word_index + 1)
            (pattern @ le_bytes32 (addr + offset))))"
  by pat_completeness auto

termination
  by (relation "measure (\<lambda>(start_addr, sz, offset, word_count, word_index, pattern). word_count - word_index)")
    auto

declare memtest_words.simps [simp del]

definition generate_memtest_pattern :: "u32 \<Rightarrow> u32 \<Rightarrow> u32 \<Rightarrow> (string, u8 list) result" where
  "generate_memtest_pattern start_addr sz offset =
    memtest_words start_addr sz offset (unat (sz div MEMTEST_WORD_BYTES)) 0 []"

definition decode_memtest_word :: "u8 list \<Rightarrow> u32" where
  "decode_memtest_word chunk = of_le32_list chunk"

text \<open>The loop over \<open>chunks_exact(4)\<close>: an arithmetic overflow, or the mismatches so far.\<close>

fun memtest_check ::
  "u32 \<Rightarrow> u32 \<Rightarrow> nat \<Rightarrow> u8 list \<Rightarrow> nat \<Rightarrow> string list \<Rightarrow> (string, nat \<times> string list) result" where
  "memtest_check start_addr offset index (b0 # b1 # b2 # b3 # rest) mismatches details =
    (if index \<ge> 2 ^ 32 then Err (''Memtest index '' @ fmt_dec index @ '' does not fit in u32.'')
     else case checked_mul (word_of_nat index) MEMTEST_WORD_BYTES of
       None \<Rightarrow> Err (''Memtest byte offset overflow at word index '' @ fmt_dec index @ ''.'')
     | Some byte_offset \<Rightarrow>
       (case checked_add start_addr byte_offset of
          None \<Rightarrow> Err (''Memtest address overflow while validating word index '' @ fmt_dec index @
            '' from 0x'' @ fmt_08x start_addr @ ''.'')
        | Some addr \<Rightarrow>
          (let expected = addr + offset; observed = decode_memtest_word [b0, b1, b2, b3]
           in if observed \<noteq> expected then
                memtest_check start_addr offset (index + 1) rest (mismatches + 1)
                  (if length details < MEMTEST_MISMATCH_PREVIEW_LIMIT
                   then details @ [''0x'' @ fmt_08x addr @ '': expected 0x'' @ fmt_08x expected @
                     '', got 0x'' @ fmt_08x observed]
                   else details)
              else memtest_check start_addr offset (index + 1) rest mismatches details)))"
| "memtest_check start_addr offset index _ mismatches details = Ok (mismatches, details)"

definition memtest_report :: "nat \<Rightarrow> string list \<Rightarrow> string" where
  "memtest_report mismatches details =
    ''Memtest failed with '' @ fmt_dec mismatches @ '' mismatched word(s).'' @
    concat (map (\<lambda>d. newline @ ''  '' @ d) details) @
    (if mismatches > MEMTEST_MISMATCH_PREVIEW_LIMIT
     then newline @ ''  ... '' @ fmt_dec (mismatches - MEMTEST_MISMATCH_PREVIEW_LIMIT) @
       '' additional mismatch(es) not shown''
     else [])"

definition validate_memtest_data :: "u32 \<Rightarrow> u32 \<Rightarrow> u8 list \<Rightarrow> (string, unit) result" where
  "validate_memtest_data start_addr offset actual =
    (if length actual mod unat MEMTEST_WORD_BYTES \<noteq> 0 then
       Err (''Memtest read-back size '' @ fmt_dec (length actual) @ '' is not a multiple of '' @
         fmt_dec_word MEMTEST_WORD_BYTES @ '' bytes.'')
     else case memtest_check start_addr offset 0 actual 0 [] of
       Inl e \<Rightarrow> Err e
     | Inr (mismatches, details) \<Rightarrow>
       if mismatches = 0 then Ok () else Err (memtest_report mismatches details))"

section \<open>The commands\<close>

text \<open>
  A command gives its result, the new application, and the files it wrote.
\<close>

type_synonym 'r outcome = "(command_result \<times> 'r app \<times> (string \<times> u8 list) list) option"

definition answer :: "command_result \<Rightarrow> 'r app \<Rightarrow> 'r outcome" where
  "answer res app = Some (res, app, [])"

definition not_connected :: command_result where
  "not_connected = result_error (''Not connected. Use '' @ quoted ''connect'' @ '' first.'')"

definition request_already_pending :: command_result where
  "request_already_pending = result_error ''A host request is already pending. Wait for response.''"

definition set_runtime :: "'r \<Rightarrow> 'r app \<Rightarrow> 'r app" where
  "set_runtime r app = app\<lparr>device_runtime := Some r\<rparr>"

text \<open>The guard of most commands: connected, and no pending request.\<close>

definition with_idle_runtime :: "'r backend \<Rightarrow> 'r app \<Rightarrow> ('r \<Rightarrow> 'r outcome) \<Rightarrow> 'r outcome" where
  "with_idle_runtime be app f =
    (case device_runtime app of
       None \<Rightarrow> answer not_connected app
     | Some r \<Rightarrow>
       if dr_has_pending_host_request (be_ops be) r then answer request_already_pending app else f r)"

definition execute_status :: "'r backend \<Rightarrow> 'r app \<Rightarrow> 'r outcome" where
  "execute_status be app =
    answer (result_ok
      (case device_runtime app of
         Some r \<Rightarrow> ''Connected to '' @ be_describe be r @ newline @ ''Total bus requests: '' @
           fmt_dec_word (request_count app) @
           (if dr_has_pending_host_request (be_ops be) r then newline @ ''Pending host request: YES'' else [])
       | None \<Rightarrow> ''Not connected. Use '' @ quoted ''connect fpga <device> [baud]'' @ '' to connect.'')) app"

definition execute_connect :: "'r backend \<Rightarrow> device_runtime_type \<Rightarrow> string \<Rightarrow> string \<Rightarrow> 'r app \<Rightarrow> 'r outcome" where
  "execute_connect be runtime_type success failure app =
    (if device_runtime app \<noteq> None then
       answer (result_error ''Already connected. Disconnect first.'') app
     else case be_create be runtime_type of
       None \<Rightarrow> None
     | Some (Inr r) \<Rightarrow>
         answer (result_ok success)
           (app\<lparr>fifo_line_rx := Some (snd create_fifo_device), device_runtime := Some r\<rparr>)
     | Some (Inl e) \<Rightarrow> answer (result_error (failure @ device_error_message e)) app)"

definition execute_connect_fpga :: "'r backend \<Rightarrow> string \<Rightarrow> u32 \<Rightarrow> 'r app \<Rightarrow> 'r outcome" where
  "execute_connect_fpga be device baud app =
    execute_connect be (RuntimeFpga device baud StartupNone)
      (''Connected to '' @ device @ '' at '' @ fmt_dec_word baud @ '' baud'') ''Failed to connect: '' app"

definition execute_connect_sim ::
  "'r backend \<Rightarrow> bool \<Rightarrow> string option \<Rightarrow> u32 \<Rightarrow> 'r app \<Rightarrow> 'r outcome" where
  "execute_connect_sim be trace vcd memory_latency_cycles app =
    execute_connect be (RuntimeSim trace vcd memory_latency_cycles)
      ''Connected to Simulator'' ''Failed to create simulator: '' app"

definition execute_disconnect :: "'r backend \<Rightarrow> 'r app \<Rightarrow> 'r outcome" where
  "execute_disconnect be app =
    (case device_runtime app of
       Some r \<Rightarrow> answer (result_ok (''Disconnected from '' @ be_describe be r))
         (app\<lparr>device_runtime := None, fifo_line_rx := None\<rparr>)
     | None \<Rightarrow> answer (result_ok ''Not connected.'') app)"

definition execute_loadelf :: "'r backend \<Rightarrow> host_env \<Rightarrow> string \<Rightarrow> 'r app \<Rightarrow> 'r outcome" where
  "execute_loadelf be env path app =
    (case device_runtime app of
       None \<Rightarrow> answer not_connected app
     | Some r \<Rightarrow>
       if \<not> env_exists env path then answer (result_error (''File not found: '' @ path)) app
       else case load_elf (be_ops be) (env_read env path) (env_parse_elf env) r of
         None \<Rightarrow> None
       | Some (Inr entry_point, r) \<Rightarrow>
           answer (result_ok (''Loaded '' @ path @ '' successfully'' @ newline @ ''Entry point: 0x'' @
             fmt_08x entry_point)) (set_runtime r app\<lparr>last_entry_point := Some entry_point\<rparr>)
       | Some (Inl e, r) \<Rightarrow>
           answer (result_error (''Failed to load ELF: '' @ device_error_message e)) (set_runtime r app))"

definition execute_loadmem :: "'r backend \<Rightarrow> host_env \<Rightarrow> u32 \<Rightarrow> string \<Rightarrow> 'r app \<Rightarrow> 'r outcome" where
  "execute_loadmem be env address path app =
    with_idle_runtime be app (\<lambda>r.
      if \<not> env_exists env path then answer (result_error (''File not found: '' @ path)) app
      else case env_read env path of
        Inl (k, e) \<Rightarrow> answer (result_error (''Failed to read file '' @ path @ '': '' @ e)) app
      | Inr data \<Rightarrow>
        (case write_memory_region (be_ops be) address data r [] of
           None \<Rightarrow> None
         | Some (Inr _, _, r) \<Rightarrow>
             answer (result_ok (''Loaded '' @ fmt_dec (length data) @ '' bytes from '' @ path @ '' to 0x'' @
               fmt_08x address)) (set_runtime r app)
         | Some (Inl e, _, r) \<Rightarrow>
             answer (result_error (''Failed to load memory: '' @ device_error_message e)) (set_runtime r app)))"

definition execute_dumpmem :: "'r backend \<Rightarrow> host_env \<Rightarrow> u32 \<Rightarrow> u32 \<Rightarrow> string \<Rightarrow> 'r app \<Rightarrow> 'r outcome" where
  "execute_dumpmem be env address sz path app =
    with_idle_runtime be app (\<lambda>r.
      case read_memory_region (be_ops be) address sz r [] of
        None \<Rightarrow> None
      | Some (Inl e, _, r) \<Rightarrow>
          answer (result_error (''Failed to dump memory: '' @ device_error_message e)) (set_runtime r app)
      | Some (Inr data, _, r) \<Rightarrow>
        (case env_write env path data of
           Inr _ \<Rightarrow> Some (result_ok (''Dumped '' @ fmt_dec (length data) @ '' bytes from 0x'' @ fmt_08x address @
             '' to '' @ path), set_runtime r app, [(path, data)])
         | Inl e \<Rightarrow> answer (result_error (''Failed to write file '' @ path @ '': '' @ e)) (set_runtime r app)))"

text \<open>The last address of the message wraps, as in a release build.\<close>

definition memtest_passed :: "u32 \<Rightarrow> u32 \<Rightarrow> u32 \<Rightarrow> command_result" where
  "memtest_passed address sz offset =
    result_ok (''Memtest passed for 0x'' @ fmt_08x address @ ''-0x'' @ fmt_08x (address + sz - 1) @ '' ('' @
      fmt_dec_word sz @ '' bytes, offset 0x'' @ fmt_08x offset @ '').'')"

definition execute_memtest :: "'r backend \<Rightarrow> host_env \<Rightarrow> u32 \<Rightarrow> u32 \<Rightarrow> 'r app \<Rightarrow> 'r outcome" where
  "execute_memtest be env address sz app =
    with_idle_runtime be app (\<lambda>r.
      case validate_memtest_range address sz of
        Some err \<Rightarrow> answer (result_error err) app
      | None \<Rightarrow>
        (let offset = generate_memtest_offset (env_secs env) (env_nanos env)
         in case generate_memtest_pattern address sz offset of
              Inl err \<Rightarrow> answer (result_error err) app
            | Inr pattern \<Rightarrow>
              (case write_memory_region (be_ops be) address pattern r [] of
                 None \<Rightarrow> None
               | Some (Inl e, _, r) \<Rightarrow>
                   answer (result_error (''Memtest write pass failed: '' @ device_error_message e)) (set_runtime r app)
               | Some (Inr _, _, r) \<Rightarrow>
                 (case read_memory_region (be_ops be) address sz r [] of
                    None \<Rightarrow> None
                  | Some (Inl e, _, r) \<Rightarrow>
                      answer (result_error (''Memtest read pass failed: '' @ device_error_message e)) (set_runtime r app)
                  | Some (Inr read_back, _, r) \<Rightarrow>
                      answer
                        (if length read_back \<noteq> length pattern then
                           result_error (''Memtest read pass returned '' @ fmt_dec (length read_back) @
                             '' bytes, expected '' @ fmt_dec (length pattern) @ '' bytes.'')
                         else case validate_memtest_data address offset read_back of
                           Inl err \<Rightarrow> result_error err
                         | Inr _ \<Rightarrow> memtest_passed address sz offset)
                        (set_runtime r app)))))"

text \<open>Sending one request; the answer arrives later, through the main loop.\<close>

definition send_command ::
  "'r backend \<Rightarrow> bus_request \<Rightarrow> string \<Rightarrow> string \<Rightarrow> 'r \<Rightarrow> 'r app \<Rightarrow> 'r outcome" where
  "send_command be request success failure r app =
    (case dr_send_host_request (be_ops be) request r of
       None \<Rightarrow> None
     | Some (Inr _, r) \<Rightarrow> answer (result_ok success) (set_runtime r app)
     | Some (Inl e, r) \<Rightarrow> answer (result_error (failure @ device_error_message e)) (set_runtime r app))"

definition execute_read :: "'r backend \<Rightarrow> u32 \<Rightarrow> size_arg \<Rightarrow> 'r app \<Rightarrow> 'r outcome" where
  "execute_read be address sz app =
    with_idle_runtime be app (\<lambda>r.
      case check_alignment address sz of
        Some err \<Rightarrow> answer (result_error err) app
      | None \<Rightarrow>
        (let access_size = to_access_size sz
         in send_command be (request_read address access_size)
              (''Sent read request for 0x'' @ fmt_08x address @ '' ('' @ access_size_name access_size @ '')'')
              ''Failed to send read request: '' r app))"

definition execute_write :: "'r backend \<Rightarrow> u32 \<Rightarrow> u32 \<Rightarrow> size_arg \<Rightarrow> 'r app \<Rightarrow> 'r outcome" where
  "execute_write be address data sz app =
    with_idle_runtime be app (\<lambda>r.
      case check_alignment address sz of
        Some err \<Rightarrow> answer (result_error err) app
      | None \<Rightarrow>
        (case check_data_size data sz of
           Some err \<Rightarrow> answer (result_error err) app
         | None \<Rightarrow>
           (let access_size = to_access_size sz; width = unat (byte_count access_size) * 2
            in send_command be (request_write address data access_size)
                 (''Sent write request for 0x'' @ fmt_08x address @ '' <= 0x'' @ fmt_0x width (unat data) @
                  '' ('' @ access_size_name access_size @ '')'')
                 ''Failed to send write request: '' r app)))"

definition execute_reset :: "'r backend \<Rightarrow> bool \<Rightarrow> 'r app \<Rightarrow> 'r outcome" where
  "execute_reset be hard app =
    with_idle_runtime be app (\<lambda>r.
      case be_reset be (if hard then ResetSystem else ResetCpu) r of
        None \<Rightarrow> None
      | Some (Inr _, r) \<Rightarrow>
          answer (result_ok (if hard then ''System reset completed.'' else ''CPU reset completed.''))
            (set_runtime r app)
      | Some (Inl e, r) \<Rightarrow>
          answer (result_error (''Failed to reset device: '' @ device_error_message e)) (set_runtime r app))"

definition execute_boot :: "'r backend \<Rightarrow> u32 option \<Rightarrow> 'r app \<Rightarrow> 'r outcome" where
  "execute_boot be address app =
    with_idle_runtime be app (\<lambda>r.
      case (case address of Some addr \<Rightarrow> Some addr | None \<Rightarrow> last_entry_point app) of
        None \<Rightarrow> answer (result_error (''No boot address provided and no ELF file loaded.'' @ newline @
          ''Use '' @ quoted ''boot <address>'' @ '' or load an ELF file first with '' @
          quoted ''loadelf <file>'' @ ''.'')) app
      | Some boot_addr \<Rightarrow>
        (case boot_cpu (be_ops be) boot_addr r of
           None \<Rightarrow> None
         | Some (Inr _, r) \<Rightarrow>
             answer (result_ok (''CPU booted at address 0x'' @ fmt_08x boot_addr)) (set_runtime r app)
         | Some (Inl e, r) \<Rightarrow>
             answer (result_error (''Boot failed: '' @ device_error_message e)) (set_runtime r app)))"

fun execute :: "'r backend \<Rightarrow> host_env \<Rightarrow> shell_command \<Rightarrow> 'r app \<Rightarrow> 'r outcome" where
  "execute be env CmdExit app =
     answer result_silent (add_log LInfo ''Exiting...'' app\<lparr>should_quit := True\<rparr>)"
| "execute be env CmdStatus app = execute_status be app"
| "execute be env (CmdConnect (ConnectFpga device baud)) app = execute_connect_fpga be device baud app"
| "execute be env (CmdConnect (ConnectSim trace vcd latency)) app =
     execute_connect_sim be trace vcd latency app"
| "execute be env CmdDisconnect app = execute_disconnect be app"
| "execute be env (CmdLoadElf path) app = execute_loadelf be env path app"
| "execute be env (CmdLoadMem address path) app = execute_loadmem be env address path app"
| "execute be env (CmdDumpMem address sz path) app = execute_dumpmem be env address sz path app"
| "execute be env (CmdMemTest address sz) app = execute_memtest be env address sz app"
| "execute be env (CmdRead address sz) app = execute_read be address sz app"
| "execute be env (CmdWrite address data sz) app = execute_write be address data sz app"
| "execute be env (CmdReset hard) app = execute_reset be hard app"
| "execute be env (CmdBoot address) app = execute_boot be address app"

section \<open>Keys and the main loop\<close>

text \<open>\<open>str::lines\<close>: a line ends at a line feed, with a carriage return before it, or at the end of the text.\<close>

fun str_lines :: "string \<Rightarrow> string list" where
  "str_lines [] = []"
| "str_lines (c # cs) =
     (if c = CHR 0x0A then [] # str_lines cs
      else if c = CHR 0x0D \<and> cs \<noteq> [] \<and> hd cs = CHR 0x0A then str_lines cs
      else case str_lines cs of [] \<Rightarrow> [[c]] | l # ls \<Rightarrow> (c # l) # ls)"

type_synonym line_parser = "string \<Rightarrow> (string, parse_result) result"

definition submit_command ::
  "'r backend \<Rightarrow> host_env \<Rightarrow> line_parser \<Rightarrow> 'r app \<Rightarrow> ('r app \<times> (string \<times> u8 list) list) option" where
  "submit_command be env parse app =
    (let input = trim (input_buffer app)
     in if input = [] then Some (app, [])
        else
          let app = push_history input app
          in case parse input of
               Inr (ParsedCommand cmd) \<Rightarrow>
                 (case execute be env cmd app of
                    None \<Rightarrow> None
                  | Some (res, app, files) \<Rightarrow>
                    Some (case cr_message res of
                            Some msg \<Rightarrow> add_logs (cr_level res) (str_lines msg) app
                          | None \<Rightarrow> app, files))
             | Inr (HelpText text) \<Rightarrow> Some (add_logs LInfo (str_lines text) app, [])
             | Inl e \<Rightarrow> Some (add_logs LError (str_lines e) app, []))"

datatype key_code =
    KeyChar char | KeyEnter | KeyBackspace | KeyUp | KeyDown | KeyPageUp | KeyPageDown | KeyEsc | KeyOther

text \<open>A key and whether Control is held.\<close>

definition handle_key_event ::
  "'r backend \<Rightarrow> host_env \<Rightarrow> line_parser \<Rightarrow> key_code \<times> bool \<Rightarrow> 'r app \<Rightarrow>
   ('r app \<times> (string \<times> u8 list) list) option" where
  "handle_key_event be env parse key app =
    (case key of
       (KeyChar c, control) \<Rightarrow>
         Some (if c = CHR ''c'' \<and> control then app\<lparr>should_quit := True\<rparr>
               else app\<lparr>input_buffer := input_buffer app @ [c]\<rparr>, [])
     | (KeyEnter, _) \<Rightarrow> submit_command be env parse app
     | (KeyBackspace, _) \<Rightarrow> Some (app\<lparr>input_buffer := butlast (input_buffer app)\<rparr>, [])
     | (KeyUp, _) \<Rightarrow> map_option (\<lambda>app. (app, [])) (history_prev app)
     | (KeyDown, _) \<Rightarrow> map_option (\<lambda>app. (app, [])) (history_next app)
     | (KeyPageUp, _) \<Rightarrow> Some (scroll_up 10 app, [])
     | (KeyPageDown, _) \<Rightarrow> Some (scroll_down 10 app, [])
     | (KeyEsc, _) \<Rightarrow> Some (app\<lparr>scroll_offset := 0\<rparr>, [])
     | (KeyOther, _) \<Rightarrow> Some (app, []))"

text \<open>What the main loop does with an event of the runtime.\<close>

fun show_event :: "(nat \<Rightarrow> string) \<Rightarrow> bus_event \<Rightarrow> 'r app \<Rightarrow> 'r app" where
  "show_event show_secs (HostReadResponse addr data sz _) app = log_host_read_response addr data sz app"
| "show_event show_secs (HostWriteResponse addr wdata sz) app = log_host_write_response addr wdata sz app"
| "show_event show_secs (HostRequestTimeout addr timeout) app =
     add_log LWarn (''Host request timed out after '' @ format_timeout_duration show_secs timeout @
       '' for address 0x'' @ fmt_08x addr @ ''. Resetting host bus handler.'') app"
| "show_event show_secs (TohostTermination value) app =
     add_log LInfo (''Tohost termination detected (value: 0x'' @ fmt_08x value @ '')'') app"
| "show_event show_secs event app =
     (log_bus_event show_secs event app)\<lparr>request_count := request_count app + 1\<rparr>"

definition poll_runtime :: "'r backend \<Rightarrow> (nat \<Rightarrow> string) \<Rightarrow> 'r app \<Rightarrow> 'r app option" where
  "poll_runtime be show_secs app =
    (case device_runtime app of
       None \<Rightarrow> Some app
     | Some r \<Rightarrow>
       (case dr_poll (be_ops be) r of
          None \<Rightarrow> None
        | Some (Inr None, r) \<Rightarrow> Some (set_runtime r app)
        | Some (Inr (Some event), r) \<Rightarrow> Some (show_event show_secs event (set_runtime r app))
        | Some (Inl e, r) \<Rightarrow>
          Some (if is_fatal e then
                  add_log LWarn (''Disconnected from '' @ be_describe be r @ '' due to device error'')
                    ((add_log LError (''Device connection lost: '' @ device_error_message e) (set_runtime r app))
                      \<lparr>device_runtime := None, fifo_line_rx := None\<rparr>)
                else add_log LError (''Device runtime error: '' @ device_error_message e) (set_runtime r app))))"

text \<open>One turn of the main loop after drawing: a key if there is one, the runtime, the lines.\<close>

definition main_turn ::
  "'r backend \<Rightarrow> host_env \<Rightarrow> line_parser \<Rightarrow> (nat \<Rightarrow> string) \<Rightarrow> (key_code \<times> bool) option \<Rightarrow> 'r app \<Rightarrow>
   ('r app \<times> (string \<times> u8 list) list) option" where
  "main_turn be env parse show_secs key app =
    (case (case key of Some k \<Rightarrow> handle_key_event be env parse k app | None \<Rightarrow> Some (app, [])) of
       None \<Rightarrow> None
     | Some (app, files) \<Rightarrow>
       map_option (\<lambda>app. (poll_fifo app, files)) (poll_runtime be show_secs app))"

text \<open>What the application does before the loop: messages, the connection and the ELF file of the command line.\<close>

definition start_connection :: "'r backend \<Rightarrow> connect_runtime \<Rightarrow> 'r app \<Rightarrow> 'r app option" where
  "start_connection be args app =
    (case be_create be
        (case args of
           ConnectFpga device baud \<Rightarrow> RuntimeFpga device baud StartupNone
         | ConnectSim trace vcd latency \<Rightarrow> RuntimeSim trace vcd latency) of
       None \<Rightarrow> None
     | Some (Inr r) \<Rightarrow>
         Some ((add_log LInfo (''Connected to '' @ be_describe be r) app)
           \<lparr>fifo_line_rx := Some (snd create_fifo_device), device_runtime := Some r\<rparr>)
     | Some (Inl e) \<Rightarrow> Some (add_log LError (''Failed to connect: '' @ device_error_message e) app))"

definition start_elf :: "'r backend \<Rightarrow> host_env \<Rightarrow> string \<Rightarrow> 'r app \<Rightarrow> 'r app option" where
  "start_elf be env path app =
    (case device_runtime app of
       None \<Rightarrow> Some (add_log LError
         ''Cannot load ELF: no device connected. Connect first, then load ELF.'' app)
     | Some r \<Rightarrow>
       (case load_elf (be_ops be) (env_read env path) (env_parse_elf env) r of
          None \<Rightarrow> None
        | Some (Inr entry, r) \<Rightarrow>
            Some (add_log LInfo (''Loaded ELF: '' @ path @ '' (entry: 0x'' @ fmt_08x entry @ '')'')
              (set_runtime r app\<lparr>last_entry_point := Some entry\<rparr>))
        | Some (Inl e, r) \<Rightarrow>
            Some (add_log LError (''Failed to load ELF: '' @ device_error_message e) (set_runtime r app))))"

definition run_app_start ::
  "'r backend \<Rightarrow> host_env \<Rightarrow> bool \<Rightarrow> connect_runtime option \<Rightarrow> string option \<Rightarrow> 'r app option" where
  "run_app_start be env verbose_arg runtime elf =
    (let app = set_verbose verbose_arg app_new;
         app = add_log LInfo ''FPGA Host Interface started'' app;
         app = add_log LInfo (''Type '' @ quoted ''help'' @ '' for available commands'') app
     in case (case runtime of Some args \<Rightarrow> start_connection be args app | None \<Rightarrow> Some app) of
          None \<Rightarrow> None
        | Some app \<Rightarrow> (case elf of Some path \<Rightarrow> start_elf be env path app | None \<Rightarrow> Some app))"

end
