(* ===== verification/Host_Console.thy ===== *)
theory Host_Console
  imports Host_Shell
begin

text \<open>
  What the interactive host application keeps, whatever keys are pressed and whatever the backend,
  the target and the user's commands do: the bounds of the log, the history and the line channel,
  the positions that point into them, and the pairing of connection and channel.  The ring buffer
  is the end of the full log, and the lines of the target's program arrive in order.
\<close>

section \<open>The ring buffer\<close>

definition last_n :: "nat \<Rightarrow> 'a list \<Rightarrow> 'a list" where
  "last_n n xs = drop (length xs - n) xs"

lemma last_n_short [simp]: "length xs \<le> n \<Longrightarrow> last_n n xs = xs"
  by (simp add: last_n_def)

lemma length_last_n: "length (last_n n xs) = min (length xs) n"
  by (auto simp: last_n_def)

lemma last_n_append: "last_n n (last_n n xs @ ys) = last_n n (xs @ ys)"
proof -
  have "drop (length (last_n n xs @ ys) - n) (last_n n xs @ ys) = drop (length (xs @ ys) - n) (xs @ ys)"
    by (cases "length xs \<le> n")
      (simp_all add: last_n_def drop_append add.commute)
  then show ?thesis by (simp only: last_n_def)
qed

lemma push_last_n:
  assumes "length xs \<le> n" "0 < n"
  shows "(if length xs \<ge> n then tl xs else xs) @ [x] = last_n n (xs @ [x])"
  using assms by (cases xs) (auto simp: last_n_def)

definition accepted :: "bool \<Rightarrow> log_level \<Rightarrow> string \<Rightarrow> log_line list" where
  "accepted v level message =
    (if \<not> v \<and> level \<in> {LDebug, LTrace} then [] else [\<lparr>ll_level = level, ll_message = message\<rparr>])"

text \<open>\<open>logged\<close>: the second application is the first one with more log lines.\<close>

definition logged :: "log_line list \<Rightarrow> 'r app \<Rightarrow> 'r app \<Rightarrow> bool" where
  "logged new app app' \<longleftrightarrow> app' = app\<lparr>log_messages := last_n MAX_LOG_LINES (log_messages app @ new)\<rparr>"

definition log_ok :: "'r app \<Rightarrow> bool" where
  "log_ok app \<longleftrightarrow> length (log_messages app) \<le> MAX_LOG_LINES"

lemma MAX_pos [simp]: "0 < MAX_LOG_LINES" "0 < MAX_HISTORY_ENTRIES"
  by (simp_all add: MAX_LOG_LINES_def MAX_HISTORY_ENTRIES_def)

lemma add_log_logged: "log_ok app \<Longrightarrow> logged (accepted (verbose app) level m) app (add_log level m app)"
  using push_last_n [of "log_messages app" MAX_LOG_LINES "\<lparr>ll_level = level, ll_message = m\<rparr>"]
  by (simp add: logged_def log_ok_def accepted_def add_log_def Let_def)

lemma logged_trans: "logged xs a b \<Longrightarrow> logged ys b c \<Longrightarrow> logged (xs @ ys) a c"
  by (simp add: logged_def last_n_append del: append_assoc add: append_assoc [symmetric])

lemma logged_ok: "logged xs a b \<Longrightarrow> log_ok b"
  by (simp add: logged_def log_ok_def length_last_n)

lemma logged_fields:
  assumes "logged xs a b"
  shows "verbose b = verbose a" "device_runtime b = device_runtime a" "fifo_line_rx b = fifo_line_rx a"
    "command_history b = command_history a" "history_index b = history_index a"
    "scroll_offset b = scroll_offset a" "log_messages b = last_n MAX_LOG_LINES (log_messages a @ xs)"
  using assms by (simp_all add: logged_def)

lemma add_logs_logged:
  "log_ok app \<Longrightarrow> logged (concat (map (accepted (verbose app) level) ms)) app (add_logs level ms app)"
proof (induction ms arbitrary: app)
  case Nil
  then show ?case by (simp add: add_logs_def logged_def log_ok_def)
next
  case (Cons m ms)
  note l = add_log_logged [OF Cons.prems, of level m]
  from logged_trans [OF l Cons.IH [OF logged_ok [OF l]]] show ?case
    by (simp add: add_logs_def logged_fields(1) [OF l])
qed

section \<open>Lines from the target\<close>

text \<open>The complete lines of a byte stream, and the bytes after the last line feed.\<close>

fun stream_lines :: "u8 list \<Rightarrow> u8 list list \<times> u8 list" where
  "stream_lines [] = ([], [])"
| "stream_lines (b # bs) =
     (case stream_lines bs of (ls, rest) \<Rightarrow>
        if b = 10 then ([] # ls, rest)
        else if b = 13 then (ls, rest)
        else (case ls of [] \<Rightarrow> ([], b # rest) | l # ls \<Rightarrow> ((b # l) # ls, rest)))"

definition run_callback ::
  "(u8 list \<Rightarrow> string) \<Rightarrow> u8 list \<Rightarrow> u8 list \<times> fifo_receiver option \<Rightarrow> u8 list \<times> fifo_receiver option" where
  "run_callback lossy bs st = fold (fifo_callback lossy) bs st"

text \<open>The lines as the callback stores them: cut at the limit, and the first one continues the buffer.\<close>

definition cut_lines :: "u8 list \<Rightarrow> u8 list \<Rightarrow> u8 list list" where
  "cut_lines buf bs =
    (case fst (stream_lines bs) of [] \<Rightarrow> [] | l # ls \<Rightarrow> map (take LINE_LIMIT) ((buf @ l) # ls))"

definition offer :: "string list \<Rightarrow> string list \<Rightarrow> string list" where
  "offer q ls = q @ take (FIFO_CHANNEL_CAPACITY - length q) ls"

lemma offer_offer: "offer (offer q xs) ys = offer q (xs @ ys)"
  by (cases "length xs \<le> FIFO_CHANNEL_CAPACITY - length q") (auto simp: offer_def)

lemma run_callback_lines:
  assumes "length buf \<le> LINE_LIMIT"
  shows "\<exists>buf'. run_callback lossy bs (buf, Some c) =
    (buf', Some (c\<lparr>fx_lines := offer (fx_lines c) (map lossy (cut_lines buf bs))\<rparr>)) \<and> length buf' \<le> LINE_LIMIT"
  using assms
proof (induction bs arbitrary: buf c)
  case Nil
  then show ?case by (auto simp: run_callback_def cut_lines_def offer_def)
next
  case (Cons b bs)
  obtain ls rest where s: "stream_lines bs = (ls, rest)" by fastforce
  consider "b = 10" | "b = 13" | "b \<noteq> 10" "b \<noteq> 13" by blast
  then show ?case
  proof cases
    case 1
    let ?c = "c\<lparr>fx_lines := offer (fx_lines c) [lossy buf]\<rparr>"
    have "fifo_callback lossy b (buf, Some c) = ([], Some ?c)"
      using 1 by (auto simp: fifo_callback_def try_send_def offer_def)
    moreover have "map lossy (cut_lines buf (b # bs)) = [lossy buf] @ map lossy (cut_lines [] bs)"
      using 1 Cons.prems by (simp add: cut_lines_def s split: list.split)
    ultimately show ?thesis
      using Cons.IH [of "[]" ?c] by (auto simp: run_callback_def offer_offer)
  next
    case 2
    then have "cut_lines buf (b # bs) = cut_lines buf bs" by (simp add: cut_lines_def s)
    with 2 Cons.IH [OF Cons.prems, of c] show ?thesis by (simp add: run_callback_def fifo_callback_def)
  next
    case 3
    let ?buf = "if length buf < LINE_LIMIT then buf @ [b] else buf"
    have "cut_lines buf (b # bs) = cut_lines ?buf bs"
      using 3 Cons.prems by (auto simp: cut_lines_def s split: list.split)
    moreover have "length ?buf \<le> LINE_LIMIT" using Cons.prems by simp
    ultimately show ?thesis
      using 3 Cons.IH [of ?buf c] by (auto simp: run_callback_def fifo_callback_def)
  qed
qed

lemma drain_fifo_spec:
  "drain_fifo n gone ls = (take n ls, drop n ls, gone \<and> length ls < n)"
  by (induction n gone ls rule: drain_fifo.induct) auto

lemma poll_fifo_lines:
  assumes "log_ok app" "fifo_line_rx app = Some c" "\<not> fx_disconnected c"
  shows "log_messages (poll_fifo app) = last_n MAX_LOG_LINES (log_messages app @
      map (\<lambda>l. \<lparr>ll_level = LInfo, ll_message = l\<rparr>) (take MAX_FIFO_LINES_PER_TICK (fx_lines c)))" (is ?log)
    and "fifo_line_rx (poll_fifo app) = Some (c\<lparr>fx_lines := drop MAX_FIFO_LINES_PER_TICK (fx_lines c)\<rparr>)"
    and "log_ok (poll_fifo app)"
proof -
  let ?got = "take MAX_FIFO_LINES_PER_TICK (fx_lines c)"
  have "accepted (verbose app) LInfo = (\<lambda>l. [\<lparr>ll_level = LInfo, ll_message = l\<rparr>])"
    by (auto simp: accepted_def)
  then have acc: "concat (map (accepted (verbose app) LInfo) ?got) = map (\<lambda>l. \<lparr>ll_level = LInfo, ll_message = l\<rparr>) ?got"
    by simp
  note l = add_logs_logged [OF assms(1), of LInfo ?got, unfolded acc]
  show ?log using logged_fields(7) [OF l] assms(2,3) by (simp add: poll_fifo_def drain_fifo_spec)
  show "fifo_line_rx (poll_fifo app) = Some (c\<lparr>fx_lines := drop MAX_FIFO_LINES_PER_TICK (fx_lines c)\<rparr>)"
    using assms(2,3) by (simp add: poll_fifo_def drain_fifo_spec)
  show "log_ok (poll_fifo app)"
    using logged_ok [OF l] assms(2,3) by (simp add: poll_fifo_def drain_fifo_spec log_ok_def)
qed

lemma poll_fifo_repeated:
  assumes "log_ok app" "fifo_line_rx app = Some c" "\<not> fx_disconnected c"
  shows "log_messages ((poll_fifo ^^ k) app) = last_n MAX_LOG_LINES (log_messages app @
      map (\<lambda>l. \<lparr>ll_level = LInfo, ll_message = l\<rparr>) (take (MAX_FIFO_LINES_PER_TICK * k) (fx_lines c))) \<and>
    fifo_line_rx ((poll_fifo ^^ k) app) = Some (c\<lparr>fx_lines := drop (MAX_FIFO_LINES_PER_TICK * k) (fx_lines c)\<rparr>) \<and>
    log_ok ((poll_fifo ^^ k) app)"
proof (induction k)
  case 0
  then show ?case using assms by (simp add: log_ok_def)
next
  case (Suc k)
  then obtain ok: "log_ok ((poll_fifo ^^ k) app)"
    and rx: "fifo_line_rx ((poll_fifo ^^ k) app) = Some (c\<lparr>fx_lines := drop (MAX_FIFO_LINES_PER_TICK * k) (fx_lines c)\<rparr>)"
    by blast
  have "\<not> fx_disconnected (c\<lparr>fx_lines := drop (MAX_FIFO_LINES_PER_TICK * k) (fx_lines c)\<rparr>)" using assms(3) by simp
  from poll_fifo_lines [OF ok rx this] Suc show ?case
    by (simp add: last_n_append take_add add.commute [of MAX_FIFO_LINES_PER_TICK] del: append_assoc
        add: append_assoc [symmetric])
qed

section \<open>The invariant of the application\<close>

definition console_inv :: "'r app \<Rightarrow> bool" where
  "console_inv app \<longleftrightarrow>
    length (log_messages app) \<le> MAX_LOG_LINES \<and>
    length (command_history app) \<le> MAX_HISTORY_ENTRIES \<and>
    (\<forall>i. history_index app = Some i \<longrightarrow> i < length (command_history app)) \<and>
    (scroll_offset app = 0 \<or> scroll_offset app < length (log_messages app)) \<and>
    (\<forall>c. fifo_line_rx app = Some c \<longrightarrow> length (fx_lines c) \<le> FIFO_CHANNEL_CAPACITY) \<and>
    (device_runtime app = None \<longrightarrow> fifo_line_rx app = None)"

lemma console_inv_logged: "console_inv a \<Longrightarrow> logged xs a b \<Longrightarrow> console_inv b"
  by (auto simp: console_inv_def logged_def length_last_n)

lemma console_inv_add_log [intro]: "console_inv app \<Longrightarrow> console_inv (add_log level m app)"
  by (rule console_inv_logged [OF _ add_log_logged]) (simp_all add: console_inv_def log_ok_def)

lemma console_inv_add_logs [intro]: "console_inv app \<Longrightarrow> console_inv (add_logs level ms app)"
  by (rule console_inv_logged [OF _ add_logs_logged]) (simp_all add: console_inv_def log_ok_def)

lemma console_inv_updates [intro]:
  assumes "console_inv app"
  shows "console_inv (set_runtime r app)" "console_inv (app\<lparr>last_entry_point := e\<rparr>)"
    "console_inv (app\<lparr>should_quit := q\<rparr>)" "console_inv (app\<lparr>input_buffer := s\<rparr>)"
    "console_inv (app\<lparr>request_count := n\<rparr>)" "console_inv (app\<lparr>scroll_offset := 0\<rparr>)"
    "console_inv (app\<lparr>device_runtime := None, fifo_line_rx := None\<rparr>)"
    "console_inv (app\<lparr>fifo_line_rx := Some (snd create_fifo_device), device_runtime := Some r\<rparr>)"
  using assms by (simp_all add: console_inv_def set_runtime_def create_fifo_device_def)

text \<open>An outcome keeps the invariant when its application, if there is one, has it.\<close>

definition keeps_inv :: "'r outcome \<Rightarrow> bool" where
  "keeps_inv out \<longleftrightarrow> (\<forall>res app files. out = Some (res, app, files) \<longrightarrow> console_inv app)"

lemma keeps_simps [simp]:
  "keeps_inv None" "keeps_inv (answer res app) = console_inv app"
  "keeps_inv (Some (res, app, files)) = console_inv app"
  by (simp_all add: keeps_inv_def answer_def)

lemma keeps_idle: "console_inv app \<Longrightarrow> (\<And>r. keeps_inv (f r)) \<Longrightarrow> keeps_inv (with_idle_runtime be app f)"
  by (simp add: with_idle_runtime_def split: option.split)

lemma keeps_send:
  assumes inv: "console_inv app"
  shows "keeps_inv (send_command be q success failure r app)"
  using inv by (auto simp: send_command_def split: option.split sum.split)

lemma keeps_connect:
  assumes inv: "console_inv app"
  shows "keeps_inv (execute_connect be ty success failure app)"
  using inv by (auto simp: execute_connect_def split: option.split sum.split)

lemma keeps_region:
  assumes inv: "console_inv app"
  shows "keeps_inv (execute_loadmem be env a path app)"
  "keeps_inv (execute_dumpmem be env a n path app)"
  "keeps_inv (execute_memtest be env a n app)"
  using inv
  by (auto simp: execute_loadmem_def execute_dumpmem_def execute_memtest_def Let_def intro!: keeps_idle
      split: option.split sum.split prod.split)

lemma keeps_other:
  assumes inv: "console_inv app"
  shows "keeps_inv (execute_status be app)" "keeps_inv (execute_disconnect be app)"
  "keeps_inv (execute_loadelf be env path app)" "keeps_inv (execute_reset be hard app)"
  "keeps_inv (execute_boot be addr app)"
  using inv
  by (auto simp: execute_status_def execute_disconnect_def execute_loadelf_def execute_reset_def
      execute_boot_def intro!: keeps_idle split: option.split sum.split prod.split)

lemma keeps_access:
  assumes inv: "console_inv app"
  shows "keeps_inv (execute_read be a sz app)" "keeps_inv (execute_write be a v sz app)"
  using inv
  by (auto simp: execute_read_def execute_write_def Let_def intro!: keeps_idle keeps_send split: option.split)

lemma execute_keeps: "console_inv app \<Longrightarrow> keeps_inv (execute be env cmd app)"
proof (cases "(be, env, cmd, app)" rule: execute.cases)
qed (auto simp: execute_connect_fpga_def execute_connect_sim_def
    intro: keeps_connect keeps_region keeps_other keeps_access)

lemma push_history_inv: "console_inv app \<Longrightarrow> console_inv (push_history cmd app)"
  using push_last_n [of "command_history app" MAX_HISTORY_ENTRIES cmd]
  by (simp add: console_inv_def push_history_def Let_def length_last_n)

lemma show_history_inv:
  "console_inv app \<Longrightarrow> i < length (command_history app) \<Longrightarrow>
    \<exists>app'. show_history i app = Some app' \<and> console_inv app'"
  by (auto simp: show_history_def console_inv_def)

lemma history_keys_inv:
  assumes "console_inv app"
  shows "\<exists>app'. history_prev app = Some app' \<and> console_inv app'"
    and "\<exists>app'. history_next app = Some app' \<and> console_inv app'"
proof -
  have i: "i < length (command_history app)" if "history_index app = Some i" for i
    using assms that by (simp add: console_inv_def)
  show "\<exists>app'. history_prev app = Some app' \<and> console_inv app'"
    using assms i show_history_inv [OF assms] by (auto simp: history_prev_def split: option.split)
  show "\<exists>app'. history_next app = Some app' \<and> console_inv app'"
    using assms i show_history_inv [OF assms]
    by (auto simp: history_next_def console_inv_def split: option.split)
qed

lemma scroll_inv:
  assumes "console_inv app"
  shows "console_inv (scroll_up n app)" "console_inv (scroll_down n app)"
  using assms by (auto simp: console_inv_def scroll_up_def scroll_down_def)

lemma submit_command_inv:
  assumes "submit_command be env parse app = Some (app', files)" "console_inv app"
  shows "console_inv app'"
proof -
  let ?app = "push_history (trim (input_buffer app)) app"
  have h: "console_inv ?app" using assms(2) by (rule push_history_inv)
  have ex: "console_inv b" if "execute be env cmd ?app = Some (res, b, fs)" for cmd res b fs
    using execute_keeps [OF h, of be env cmd] that by (simp add: keeps_inv_def)
  then show ?thesis
    using assms h
    by (auto simp: submit_command_def Let_def intro!: console_inv_add_logs intro: ex
        split: if_splits sum.splits parse_result.splits option.splits)
qed

text \<open>Every key but Enter returns; Enter returns when the backend does.\<close>

lemma handle_key_inv:
  assumes "console_inv app"
  shows "fst key \<noteq> KeyEnter \<Longrightarrow> handle_key_event be env parse key app \<noteq> None"
    and "handle_key_event be env parse key app = Some (app', files) \<Longrightarrow> console_inv app'"
  using assms history_keys_inv [OF assms] scroll_inv [OF assms] submit_command_inv [OF _ assms]
  by (auto simp: handle_key_event_def split: prod.splits key_code.splits if_splits)

lemma show_event_inv: "console_inv app \<Longrightarrow> console_inv (show_event show_secs ev app)"
  by (cases ev) (auto simp: log_host_read_response_def log_host_write_response_def log_bus_event_def)

lemma poll_runtime_inv:
  assumes "poll_runtime be show_secs app = Some app'" "console_inv app"
  shows "console_inv app'"
  using assms
  by (auto simp: poll_runtime_def intro!: show_event_inv split: option.splits sum.splits prod.splits if_splits)

lemma console_inv_rx:
  "console_inv a \<Longrightarrow> (\<And>c. rx = Some c \<Longrightarrow> length (fx_lines c) \<le> FIFO_CHANNEL_CAPACITY) \<Longrightarrow>
    (device_runtime a = None \<Longrightarrow> rx = None) \<Longrightarrow> console_inv (a\<lparr>fifo_line_rx := rx\<rparr>)"
  by (simp add: console_inv_def)

lemma poll_fifo_inv:
  assumes "console_inv app"
  shows "console_inv (poll_fifo app)"
proof (cases "fifo_line_rx app")
  case None
  with assms show ?thesis by (simp add: poll_fifo_def)
next
  case (Some rx)
  let ?got = "take MAX_FIFO_LINES_PER_TICK (fx_lines rx)"
  have "log_ok app" using assms by (simp add: console_inv_def log_ok_def)
  note l = add_logs_logged [OF this, of LInfo ?got]
  have "device_runtime app \<noteq> None" "length (fx_lines rx) \<le> FIFO_CHANNEL_CAPACITY"
    using assms Some by (auto simp: console_inv_def)
  then show ?thesis
    using Some console_inv_logged [OF assms l] logged_fields(2) [OF l]
    by (auto simp: poll_fifo_def drain_fifo_spec intro!: console_inv_rx)
qed

text \<open>
  The application with everything around it: start, turns of the main loop with any key, environment
  and line parser, and in between the bus thread, which feeds bytes to the callback or ends.
\<close>

inductive console_reachable :: "'r backend \<Rightarrow> 'r app \<Rightarrow> bool" for be :: "'r backend" where
  console_start: "run_app_start be env v rt elf = Some app \<Longrightarrow> console_reachable be app"
| console_turn: "console_reachable be app \<Longrightarrow>
    main_turn be env parse show_secs key app = Some (app', files) \<Longrightarrow> console_reachable be app'"
| console_byte: "console_reachable be app \<Longrightarrow> length buf \<le> LINE_LIMIT \<Longrightarrow>
    fifo_callback lossy b (buf, fifo_line_rx app) = (buf', rx) \<Longrightarrow>
    console_reachable be (app\<lparr>fifo_line_rx := rx\<rparr>)"
| console_gone: "console_reachable be app \<Longrightarrow> fifo_line_rx app = Some c \<Longrightarrow>
    console_reachable be (app\<lparr>fifo_line_rx := Some (c\<lparr>fx_disconnected := True\<rparr>)\<rparr>)"

lemma start_inv:
  assumes "run_app_start be env v rt elf = Some app"
  shows "console_inv app"
proof -
  have new: "console_inv (set_verbose v app_new)"
    by (simp add: console_inv_def set_verbose_def app_new_def)
  have conn: "console_inv b" if "start_connection be args a = Some b" "console_inv a" for args a b
    using that by (auto simp: start_connection_def split: option.splits sum.splits)
  have elf: "console_inv b" if "start_elf be env path a = Some b" "console_inv a" for path a b
    using that by (auto simp: start_elf_def split: option.splits sum.splits prod.splits)
  show ?thesis
    using assms new
    by (auto simp: run_app_start_def Let_def dest!: conn elf split: option.splits)
qed

lemma fifo_callback_queue:
  "fifo_callback lossy b (buf, rx) = (buf', rx') \<Longrightarrow>
    (rx = None \<longrightarrow> rx' = None) \<and>
    (\<forall>c'. rx' = Some c' \<longrightarrow> (\<exists>c. rx = Some c \<and> (fx_lines c' = fx_lines c \<or>
      length (fx_lines c) < FIFO_CHANNEL_CAPACITY \<and> length (fx_lines c') = length (fx_lines c) + 1)))"
  by (auto simp: fifo_callback_def try_send_def split: if_splits option.splits)

lemma console_reachable_inv: "console_reachable be app \<Longrightarrow> console_inv app"
proof (induction rule: console_reachable.induct)
  case (console_start env v rt elf app)
  then show ?case by (rule start_inv)
next
  case (console_turn app env parse show_secs key app' files)
  then obtain app1 app2 where
    k: "(case key of Some k \<Rightarrow> handle_key_event be env parse k app | None \<Rightarrow> Some (app, [])) = Some (app1, files)"
    and p: "poll_runtime be show_secs app1 = Some app2" "app' = poll_fifo app2"
    by (auto simp: main_turn_def split: option.splits)
  have "console_inv app1"
    using k console_turn.IH handle_key_inv(2) [OF console_turn.IH, of be env parse _ app1 files]
    by (cases key) auto
  with p show ?case using poll_runtime_inv poll_fifo_inv by blast
next
  case (console_byte app buf lossy b buf' rx)
  from fifo_callback_queue [OF console_byte.hyps(3)] console_byte.IH show ?case
    by (intro console_inv_rx) (fastforce simp: console_inv_def)+
next
  case (console_gone app c)
  then show ?case by (intro console_inv_rx) (auto simp: console_inv_def)
qed

section \<open>The properties\<close>

text \<open>
  C22: In every reachable state of the application, for every backend: the log, the history and the
  line channel keep their bounds, the history position and the scroll offset point into them, no
  channel is kept without a connection, and no key but Enter can fail.
\<close>

theorem console_reachable_safe:
  assumes "console_reachable be app"
  shows "length (log_messages app) \<le> 1000 \<and> length (command_history app) \<le> 500 \<and>
    (\<forall>i. history_index app = Some i \<longrightarrow> i < length (command_history app)) \<and>
    (scroll_offset app = 0 \<or> scroll_offset app < length (log_messages app)) \<and>
    (\<forall>c. fifo_line_rx app = Some c \<longrightarrow> length (fx_lines c) \<le> 256 \<and> is_connected app) \<and>
    (fst key \<noteq> KeyEnter \<longrightarrow> handle_key_event be env parse key app \<noteq> None)"
  using console_reachable_inv [OF assms] handle_key_inv(1) [OF console_reachable_inv [OF assms], of key be env parse]
  by (auto simp: console_inv_def MAX_LOG_LINES_def MAX_HISTORY_ENTRIES_def FIFO_CHANNEL_CAPACITY_def is_connected_def)

text \<open>A backend that cannot be created.\<close>

definition offline_backend :: "unit backend" where
  "offline_backend = \<lparr>be_ops = \<lparr>dr_send_host_request = (\<lambda>_ _. None), dr_poll = (\<lambda>_. None),
     dr_has_pending_host_request = (\<lambda>_. False)\<rparr>, be_reset = (\<lambda>_ _. None), be_describe = (\<lambda>_. []),
     be_create = (\<lambda>_. Some (Err (OpenFailed ''no device'')))\<rparr>"

lemma console_reachable_safe_witness:
  "\<exists>app. run_app_start offline_backend empty_env False (Some (ConnectFpga ''tty'' 9600)) None = Some app \<and>
    length (log_messages app) = 3 \<and>
    handle_key_event offline_backend empty_env (\<lambda>_. Err []) (KeyUp, False) app \<noteq> None"
proof -
  obtain app where app: "run_app_start offline_backend empty_env False (Some (ConnectFpga ''tty'' 9600)) None = Some app"
    "length (log_messages app) = 3"
    by (simp add: run_app_start_def start_connection_def offline_backend_def add_log_def set_verbose_def app_new_def
        MAX_LOG_LINES_def)
  have "handle_key_event offline_backend empty_env (\<lambda>_. Err []) (KeyUp, False) app \<noteq> None"
    using console_reachable_safe [OF console_start [OF app(1)], of "(KeyUp, False)"] by simp
  with app show ?thesis by blast
qed

text \<open>
  C23: Whatever bytes the target's program prints, the complete lines (without carriage returns, each
  cut at 4096 bytes) reach the log in order: up to the capacity of the channel, 64 with every poll,
  and the log keeps the last 1000 entries.
\<close>

theorem fifo_lines_shown:
  assumes "length (log_messages app) \<le> 1000"
    and "run_callback lossy bs (fst create_fifo_device, Some (snd create_fifo_device)) = (buf, Some c)"
    and "fifo_line_rx app = Some c"
  shows "log_messages ((poll_fifo ^^ k) app) =
      last_n 1000 (log_messages app @ map (\<lambda>l. \<lparr>ll_level = LInfo, ll_message = l\<rparr>)
        (take (64 * k) (take 256 (map (\<lambda>l. lossy (take 4096 l)) (fst (stream_lines bs)))))) \<and>
    length buf \<le> 4096"
proof -
  let ?c = "snd create_fifo_device"
  have "fst create_fifo_device = []" "fx_lines ?c = []" "\<not> fx_disconnected ?c"
    by (simp_all add: create_fifo_device_def)
  moreover obtain buf' where "run_callback lossy bs ([], Some ?c) =
      (buf', Some (?c\<lparr>fx_lines := offer (fx_lines ?c) (map lossy (cut_lines [] bs))\<rparr>))" "length buf' \<le> LINE_LIMIT"
    using run_callback_lines [of "[]" lossy bs ?c] by auto
  moreover have "cut_lines [] bs = map (take LINE_LIMIT) (fst (stream_lines bs))"
    by (simp add: cut_lines_def split: list.split)
  ultimately have c: "fx_lines c = take 256 (map (\<lambda>l. lossy (take 4096 l)) (fst (stream_lines bs)))"
    "\<not> fx_disconnected c" "length buf \<le> 4096"
    using assms(2) by (auto simp: offer_def FIFO_CHANNEL_CAPACITY_def LINE_LIMIT_def comp_def)
  have "log_ok app" using assms(1) by (simp add: log_ok_def MAX_LOG_LINES_def)
  from poll_fifo_repeated [OF this assms(3) c(2), of k] c(1,3) show ?thesis
    by (simp add: MAX_LOG_LINES_def MAX_FIFO_LINES_PER_TICK_def)
qed

lemma fifo_lines_shown_witness:
  "\<exists>app c. run_callback (map (\<lambda>b. char_of (unat b))) [72, 105, 13, 10, 33] (fst create_fifo_device, Some (snd create_fifo_device)) =
      ([33], Some c) \<and>
    map ll_message (log_messages ((poll_fifo ^^ 1) (app_new\<lparr>device_runtime := Some (), fifo_line_rx := Some c\<rparr>))) = [''Hi'']"
proof -
  let ?bs = "[72, 105, 13, 10, 33] :: u8 list"
  obtain c where c: "run_callback (map (\<lambda>b. char_of (unat b))) ?bs (fst create_fifo_device, Some (snd create_fifo_device)) = ([33], Some c)"
    by (simp add: run_callback_def fifo_callback_def try_send_def create_fifo_device_def LINE_LIMIT_def)
  let ?app = "app_new\<lparr>device_runtime := Some (), fifo_line_rx := Some c\<rparr>"
  have "log_messages ((poll_fifo ^^ 1) ?app) = last_n 1000 (log_messages ?app @ map (\<lambda>l. \<lparr>ll_level = LInfo, ll_message = l\<rparr>)
        (take (64 * 1) (take 256 (map (\<lambda>l. map (\<lambda>b. char_of (unat b)) (take 4096 l)) (fst (stream_lines ?bs))))))"
    using fifo_lines_shown [OF _ c, of ?app 1] by (simp add: app_new_def)
  also have "\<dots> = [\<lparr>ll_level = LInfo, ll_message = ''Hi''\<rparr>]"
    by (simp add: app_new_def char_of_def bit_0)
  finally show ?thesis using c by auto
qed

end
