(* ===== verification/Host_Numbers.thy ===== *)
theory Host_Numbers
  imports Host_Shell
begin

text \<open>
  The numbers of the command line (\<open>parse_hex_or_decimal\<close> of \<open>fpga-host/src/shell.rs\<close>): the digit loop of
  \<open>from_str_radix\<close> with its overflow checks accepts exactly the numbers below \<open>2 ^ 32\<close>, and a number
  that the program prints, in decimal or in hexadecimal, reads back.
\<close>

section \<open>The digit loop\<close>

lemma read_digits_ge: "read_digits r a s = Some n \<Longrightarrow> 0 < r \<Longrightarrow> a \<le> n"
proof (induction r a s rule: read_digits.induct)
  case (2 r a c cs)
  then obtain d where "to_digit r c = Some d" "a * r + d \<le> n" by (auto split: option.splits)
  then have "a * r \<le> n" by simp
  moreover have "a \<le> a * r" using 2 by simp
  ultimately show ?case by (rule order_trans [rotated])
qed simp

lemma read_digits_chars: "read_digits r a s = Some n \<Longrightarrow> c \<in> set s \<Longrightarrow> to_digit r c \<noteq> None"
  by (induction r a s rule: read_digits.induct) (auto split: option.splits)

lemma to_digit_less: "to_digit r c = Some d \<Longrightarrow> d < r"
  by (auto simp: to_digit_def Let_def split: option.splits if_splits)

lemma checked_mul_unat: "checked_mul a b = (if unat a * unat b < 2 ^ LENGTH('a) then Some (a * b) else None)"
  for a b :: "'a::len word"
proof -
  have "int (unat a * unat b) < 2 ^ LENGTH('a) \<longleftrightarrow> unat a * unat b < 2 ^ LENGTH('a)"
    by (metis of_nat_less_iff of_nat_numeral of_nat_power)
  then show ?thesis by (simp add: checked_mul_def)
qed

lemma checked_add_unat: "checked_add a b = (if unat a + unat b < 2 ^ LENGTH('a) then Some (a + b) else None)"
  for a b :: "'a::len word"
proof -
  have "int (unat a + unat b) < 2 ^ LENGTH('a) \<longleftrightarrow> unat a + unat b < 2 ^ LENGTH('a)"
    by (metis of_nat_less_iff of_nat_numeral of_nat_power)
  then show ?thesis by (simp add: checked_add_def)
qed

lemma radix_digits_exact:
  assumes "0 < r" "r \<le> 36"
  shows "radix_digits r acc s = Ok v \<longleftrightarrow> read_digits r (unat acc) s = Some (unat v)"
proof (induction s arbitrary: acc)
  case Nil
  show ?case by (auto simp: word_unat_eq_iff)
next
  case (Cons c cs)
  show ?case
  proof (cases "to_digit r c")
    case (Some d)
    have u: "unat (word_of_nat r :: u32) = r" "unat (word_of_nat d :: u32) = d"
      using assms to_digit_less [OF Some] by (simp_all add: unat_of_nat)
    show ?thesis
    proof (cases "unat acc * r + d < 2 ^ 32")
      case True
      then have m: "unat acc * r < 2 ^ 32" by simp
      then have "unat (acc * word_of_nat r) = unat acc * r" using u by (simp add: unat_mult_nowrap)
      moreover from this True have "unat (acc * word_of_nat r + word_of_nat d) = unat acc * r + d"
        using u by (simp add: unat_plus_nowrap)
      ultimately show ?thesis using True m u Some Cons.IH
        by (simp add: checked_mul_unat checked_add_unat)
    next
      case False
      have "read_digits r (unat acc * r + d) cs \<noteq> Some (unat v)"
        using read_digits_ge [of r "unat acc * r + d" cs] assms(1) False u32_bound [of v] by force
      moreover have "unat (acc * word_of_nat r) = unat acc * r" if "unat acc * r < 2 ^ 32"
        using that u by (simp add: unat_mult_nowrap)
      ultimately show ?thesis using False u Some
        by (auto simp: checked_mul_unat checked_add_unat)
    qed
  qed simp
qed

lemma from_str_radix_exact:
  assumes "0 < r" "r \<le> 36" "s \<noteq> []" "to_digit r (hd s) \<noteq> None"
  shows "from_str_radix r s = Ok v \<longleftrightarrow> read_digits r 0 s = Some (unat v)"
proof -
  have "hd s \<noteq> CHR ''+''" "hd s \<noteq> CHR ''-''" using assms(4) by (auto simp: to_digit_def)
  then have "from_str_radix r s = radix_digits r 0 s" using assms(3) by (auto simp: from_str_radix_def)
  then show ?thesis using radix_digits_exact [OF assms(1,2), of 0 s v] by simp
qed

section \<open>Blanks around a number\<close>

lemma digit_not_whitespace: "to_digit r c \<noteq> None \<Longrightarrow> \<not> is_whitespace c"
  by (auto simp: to_digit_def is_whitespace_def Let_def split: if_splits)

lemma dropWhile_all: "list_all P xs \<Longrightarrow> dropWhile P (xs @ ys) = dropWhile P ys"
  by (induction xs) auto

lemma trim_blanks:
  assumes "list_all is_whitespace ws" "list_all is_whitespace ws'"
    and "t \<noteq> []" "\<not> is_whitespace (hd t)" "\<not> is_whitespace (last t)"
  shows "trim (ws @ t @ ws') = t"
proof -
  have "dropWhile is_whitespace (ws @ t @ ws') = t @ ws'"
    using assms(1,3,4) by (cases t) (simp_all add: dropWhile_all)
  moreover have "dropWhile is_whitespace (rev (t @ ws')) = rev t"
    using assms(2,3,5) by (cases "rev t") (simp_all add: dropWhile_all list_all_rev hd_rev [symmetric])
  ultimately show ?thesis by (simp add: trim_def)
qed

lemma number_ends:
  assumes "read_digits r 0 s = Some n" "s \<noteq> []"
  shows "\<not> is_whitespace (hd s)" "\<not> is_whitespace (last s)" "to_digit r (hd s) \<noteq> None"
  using read_digits_chars [OF assms(1)] hd_in_set [OF assms(2)] last_in_set [OF assms(2)]
    digit_not_whitespace by blast+

section \<open>The property\<close>

text \<open>
  A printed number reads back, with blanks around it, in decimal and in hexadecimal of any width;
  a number that does not fit in 32 bits is refused.
\<close>

theorem number_roundtrip:
  assumes "list_all is_whitespace ws" "list_all is_whitespace ws'"
  shows "(parse_hex_or_decimal (ws @ fmt_dec n @ ws') = Ok v \<longleftrightarrow> n = unat v) \<and>
    (parse_hex_or_decimal (ws @ ''0x'' @ fmt_0x k n @ ws') = Ok v \<longleftrightarrow> n = unat v)"
proof
  have d: "fmt_dec n \<noteq> []" by simp
  note e = number_ends [OF read_digits_fmt_dec d]
  have "c \<noteq> CHR ''x'' \<and> c \<noteq> CHR ''X''" if "c \<in> set (fmt_dec n)" for c
    using read_digits_chars [OF read_digits_fmt_dec that] by (auto simp: to_digit_def)
  then have "strip_prefix (fmt_dec n) ''0x'' = None" "strip_prefix (fmt_dec n) ''0X'' = None"
    by (cases "fmt_dec n"; cases "tl (fmt_dec n)"; auto simp: strip_prefix_def)+
  then show "parse_hex_or_decimal (ws @ fmt_dec n @ ws') = Ok v \<longleftrightarrow> n = unat v"
    using from_str_radix_exact [of 10 "fmt_dec n" v] e(3) trim_blanks [OF assms d e(1,2)]
    by (auto simp: parse_hex_or_decimal_def Let_def split: sum.split)
next
  have x: "fmt_0x k n \<noteq> []" by (simp add: fmt_0x_def)
  note e = number_ends [OF read_digits_fmt_0x x]
  have "trim (ws @ (''0x'' @ fmt_0x k n) @ ws') = ''0x'' @ fmt_0x k n"
    using trim_blanks [OF assms, of "''0x'' @ fmt_0x k n"] x e(2) by (simp add: is_whitespace_def)
  then show "parse_hex_or_decimal (ws @ ''0x'' @ fmt_0x k n @ ws') = Ok v \<longleftrightarrow> n = unat v"
    using from_str_radix_exact [of 16 "fmt_0x k n" v] e(3) x
    by (simp add: parse_hex_or_decimal_def Let_def strip_prefix_def split: sum.split; auto)
qed

lemma number_roundtrip_witness:
  "parse_hex_or_decimal ('' '' @ ''0x'' @ fmt_0x 8 0x80000000 @ '' '') = Ok 0x80000000 \<and>
   (\<exists>e. parse_hex_or_decimal ([] @ fmt_dec 4294967296 @ []) = Err e)"
proof
  have b: "list_all is_whitespace '' ''" by (simp add: is_whitespace_def)
  show "parse_hex_or_decimal ('' '' @ ''0x'' @ fmt_0x 8 0x80000000 @ '' '') = Ok 0x80000000"
    using number_roundtrip [OF b b, of "0x80000000" "0x80000000" 8] by simp
  have "parse_hex_or_decimal ([] @ fmt_dec 4294967296 @ []) \<noteq> Ok v" for v
    using number_roundtrip [of "[]" "[]" 4294967296 v] u32_bound [of v] by simp
  then show "\<exists>e. parse_hex_or_decimal ([] @ fmt_dec 4294967296 @ []) = Err e"
    by (metis sum.exhaust)
qed

end
