(* ===== verification/Hung_Detector.thy ===== *)
theory Hung_Detector
  imports Text_Format
begin

text \<open>
  The hang detector of the simulator (\<open>device-runtime/src/sim/hung_detector.rs\<close>): it watches the
  program counter at every completed instruction and the cycles an instruction takes, and stops
  the simulation with an error.  The detector keeps a bounded amount of state; the abstract
  detector here keeps the whole past and says which observation is a hang.  The refinement lemma
  shows that both report the same first error, and that the counter never overflows.
\<close>

section \<open>Configuration, errors and state\<close>

record hung_detector_config =
  pc_history_size :: nat
  pc_stuck_threshold :: u32
  max_cycles_per_instruction :: u64
  enable_pc_loop_detection :: bool
  enable_long_instruction_detection :: bool

definition hung_detector_config_default :: hung_detector_config where
  "hung_detector_config_default =
    \<lparr>pc_history_size = 100, pc_stuck_threshold = 50, max_cycles_per_instruction = 10000,
     enable_pc_loop_detection = True, enable_long_instruction_detection = True\<rparr>"

datatype hung_state_error =
    PcStuck u32 u32 u32 "u32 list"
  | LongInstruction u32 u32 u64 u8

definition fsm_state_name :: "u8 \<Rightarrow> string" where
  "fsm_state_name state =
    (if state = 0 then ''IDLE'' else if state = 1 then ''FETCH'' else if state = 2 then ''DECODE''
     else if state = 3 then ''EXECUTE'' else if state = 4 then ''MEM_ADDR''
     else if state = 5 then ''MEM_READ'' else if state = 6 then ''MEM_WRITE''
     else if state = 7 then ''WRITEBACK'' else if state = 8 then ''BRANCH''
     else if state = 9 then ''CSR'' else if state = 10 then ''HALT''
     else if state = 11 then ''ATOMIC_RMW'' else ''UNKNOWN'')"

text \<open>\<open>{:?}\<close> of a vector of strings that need no escapes.\<close>

fun fmt_debug_tail :: "string list \<Rightarrow> string" where
  "fmt_debug_tail [] = '']''"
| "fmt_debug_tail (s # ss) = '', '' @ [CHR 0x22] @ s @ [CHR 0x22] @ fmt_debug_tail ss"

fun fmt_debug_strings :: "string list \<Rightarrow> string" where
  "fmt_debug_strings [] = ''[]''"
| "fmt_debug_strings (s # ss) = ''['' @ [CHR 0x22] @ s @ [CHR 0x22] @ fmt_debug_tail ss"

fun hung_state_message :: "hung_state_error \<Rightarrow> string" where
  "hung_state_message (PcStuck pc instruction count history) =
     ''CPU hung: PC stuck at 0x'' @ fmt_08x pc @ '' (instruction: 0x'' @ fmt_08x instruction @
     '') for '' @ fmt_dec_word count @ '' consecutive executions.'' @ [CHR 0x0A] @
     ''Recent PC history (last '' @ fmt_dec (length history) @ '' entries): '' @
     fmt_debug_strings (map (\<lambda>p. ''0x'' @ fmt_08x p) history)"
| "hung_state_message (LongInstruction pc instruction cycle_count fsm_state) =
     ''CPU hung: Instruction at PC 0x'' @ fmt_08x pc @ '' (0x'' @ fmt_08x instruction @
     '') has taken '' @ fmt_dec_word cycle_count @ '' cycles without completing. FSM state: '' @
     fsm_state_name fsm_state @ '' ('' @ fmt_dec_word fsm_state @ '')''"

record hung_detector =
  hd_config :: hung_detector_config
  hd_pc_history :: "u32 list"
  hd_last_pc :: "u32 option"
  hd_pc_stuck_count :: u32
  hd_instr_pc :: "u32 option"
  hd_instr_word :: u32
  hd_instr_start :: u64

definition hung_detector_new :: "hung_detector_config \<Rightarrow> hung_detector" where
  "hung_detector_new c =
    \<lparr>hd_config = c, hd_pc_history = [], hd_last_pc = None, hd_pc_stuck_count = 0,
     hd_instr_pc = None, hd_instr_word = 0, hd_instr_start = 0\<rparr>"

definition hung_detector_reset :: "hung_detector \<Rightarrow> hung_detector" where
  "hung_detector_reset d =
    d\<lparr>hd_pc_history := [], hd_last_pc := None, hd_pc_stuck_count := 0, hd_instr_pc := None,
      hd_instr_word := 0, hd_instr_start := 0\<rparr>"

section \<open>The checks\<close>

text \<open>\<^term>\<open>None\<close>: the increment of the counter overflows.\<close>

definition check_pc_loop ::
  "hung_detector \<Rightarrow> u32 \<Rightarrow> u32 \<Rightarrow> ((hung_state_error, unit) result \<times> hung_detector) option" where
  "check_pc_loop d pc instruction =
    (let h = hd_pc_history d @ [pc];
         h = (if length h > pc_history_size (hd_config d) then tl h else h);
         d = d\<lparr>hd_pc_history := h\<rparr>
     in case hd_last_pc d of
          Some last_pc \<Rightarrow>
            (if last_pc = pc then
               (case checked_add (hd_pc_stuck_count d) 1 of
                  None \<Rightarrow> None
                | Some n \<Rightarrow>
                    (let d = d\<lparr>hd_pc_stuck_count := n\<rparr>
                     in if n \<ge> pc_stuck_threshold (hd_config d)
                        then Some (Err (PcStuck pc instruction n h), d)
                        else Some (Ok (), d\<lparr>hd_last_pc := Some pc\<rparr>)))
             else Some (Ok (), d\<lparr>hd_pc_stuck_count := 1, hd_last_pc := Some pc\<rparr>))
        | None \<Rightarrow> Some (Ok (), d\<lparr>hd_pc_stuck_count := 1, hd_last_pc := Some pc\<rparr>))"

definition check_long_instruction ::
  "hung_detector \<Rightarrow> u64 \<Rightarrow> u32 \<Rightarrow> u32 \<Rightarrow> u8 \<Rightarrow> (hung_state_error, unit) result \<times> hung_detector" where
  "check_long_instruction d cycle_count pc instruction fsm_state =
    (if enable_long_instruction_detection (hd_config d) then
       (case hd_instr_pc d of
          Some instr_pc \<Rightarrow>
            (let cycles = saturating_sub cycle_count (hd_instr_start d)
             in if cycles > max_cycles_per_instruction (hd_config d)
                then (Err (LongInstruction instr_pc (hd_instr_word d) cycles fsm_state), d)
                else (Ok (), d))
        | None \<Rightarrow>
            (Ok (), d\<lparr>hd_instr_pc := Some pc, hd_instr_word := instruction,
              hd_instr_start := cycle_count\<rparr>))
     else (Ok (), d))"

definition check_cycle ::
  "hung_detector \<Rightarrow> u64 \<Rightarrow> u32 \<Rightarrow> u32 \<Rightarrow> u8 \<Rightarrow> bool \<Rightarrow>
   ((hung_state_error, unit) result \<times> hung_detector) option" where
  "check_cycle d cycle_count pc instruction fsm_state instruction_complete =
    (let r = (if instruction_complete then
                (let d = d\<lparr>hd_instr_pc := None, hd_instr_start := cycle_count\<rparr>
                 in if enable_pc_loop_detection (hd_config d) then check_pc_loop d pc instruction
                    else Some (Ok (), d))
              else Some (Ok (), d))
     in case r of
          None \<Rightarrow> None
        | Some (Inl e, d) \<Rightarrow> Some (Inl e, d)
        | Some (Inr _, d) \<Rightarrow>
            Some (check_long_instruction d cycle_count pc instruction fsm_state))"

section \<open>What a hang is\<close>

record observation =
  ob_cycle :: u64
  ob_pc :: u32
  ob_instruction :: u32
  ob_fsm :: u8
  ob_complete :: bool

definition check_observation ::
  "hung_detector \<Rightarrow> observation \<Rightarrow> ((hung_state_error, unit) result \<times> hung_detector) option" where
  "check_observation d x =
    check_cycle d (ob_cycle x) (ob_pc x) (ob_instruction x) (ob_fsm x) (ob_complete x)"

text \<open>A simulation observed until the first error.\<close>

fun hd_run :: "hung_detector \<Rightarrow> observation list \<Rightarrow> (hung_state_error, hung_detector) result option" where
  "hd_run d [] = Some (Ok d)"
| "hd_run d (x # xs) =
    (case check_observation d x of
       None \<Rightarrow> None
     | Some (Inl e, d') \<Rightarrow> Some (Err e)
     | Some (Inr _, d') \<Rightarrow> hd_run d' xs)"

definition completed_pcs :: "observation list \<Rightarrow> u32 list" where
  "completed_pcs xs = map ob_pc (filter ob_complete xs)"

text \<open>How many elements at the tail of the list are the same.\<close>

definition tail_run :: "'a list \<Rightarrow> nat" where
  "tail_run xs = length (takeWhile (\<lambda>x. x = last xs) (rev xs))"

text \<open>The observation from which the running instruction is timed.\<close>

definition start_obs :: "observation list \<Rightarrow> observation" where
  "start_obs xs = (case filter ob_complete xs of [] \<Rightarrow> hd xs | ys \<Rightarrow> last ys)"

definition last_pcs :: "nat \<Rightarrow> u32 list \<Rightarrow> u32 list" where
  "last_pcs n xs = drop (length xs - n) xs"

definition hang_at ::
  "hung_detector_config \<Rightarrow> observation list \<Rightarrow> observation \<Rightarrow> hung_state_error option" where
  "hang_at c past x =
    (let pcs = completed_pcs past @ [ob_pc x];
         run = tail_run pcs;
         cycles = saturating_sub (ob_cycle x) (ob_cycle (start_obs past))
     in if ob_complete x then
          (if enable_pc_loop_detection c \<and> 2 \<le> run \<and> unat (pc_stuck_threshold c) \<le> run
           then Some (PcStuck (ob_pc x) (ob_instruction x) (word_of_nat run)
             (last_pcs (pc_history_size c) pcs))
           else None)
        else if enable_long_instruction_detection c \<and> past \<noteq> [] \<and>
          cycles > max_cycles_per_instruction c
        then Some (LongInstruction (ob_pc (start_obs past)) (ob_instruction (start_obs past)) cycles
          (ob_fsm x))
        else None)"

fun first_hang ::
  "hung_detector_config \<Rightarrow> observation list \<Rightarrow> observation list \<Rightarrow> hung_state_error option" where
  "first_hang c past [] = None"
| "first_hang c past (x # xs) =
    (case hang_at c past x of Some e \<Rightarrow> Some e | None \<Rightarrow> first_hang c (past @ [x]) xs)"

section \<open>The detector refines the abstract one\<close>

lemma tail_run_Nil [simp]: "tail_run [] = 0"
  by (simp add: tail_run_def)

lemma tail_run_snoc:
  "tail_run (xs @ [x]) = (if xs \<noteq> [] \<and> last xs = x then tail_run xs + 1 else 1)"
  by (cases xs rule: rev_cases) (auto simp: tail_run_def)

lemma completed_pcs_snoc [simp]:
  "completed_pcs (xs @ [x]) = completed_pcs xs @ (if ob_complete x then [ob_pc x] else [])"
  by (simp add: completed_pcs_def)

lemma completed_pcs_Nil [simp]: "completed_pcs [] = []"
  by (simp add: completed_pcs_def)

lemma start_obs_snoc:
  "start_obs (xs @ [x]) = (if ob_complete x \<or> xs = [] then x else start_obs xs)"
  by (cases "filter ob_complete xs") (auto simp: start_obs_def split: list.splits)

lemma last_pcs_snoc:
  "(let h = last_pcs n xs @ [x] in if length h > n then tl h else h) = last_pcs n (xs @ [x])"
proof (cases "length xs < n")
  case False
  then have "length xs + 1 - n = Suc (length xs - n)" by simp
  then show ?thesis using False by (cases n) (auto simp: last_pcs_def Let_def tl_append drop_Suc drop_tl split: list.split)
qed (simp add: last_pcs_def)

lemma last_pcs_cases:
  "n < Suc (length (last_pcs n xs)) \<Longrightarrow> tl (last_pcs n xs @ [x]) = last_pcs n (xs @ [x])"
  "\<not> n < Suc (length (last_pcs n xs)) \<Longrightarrow> last_pcs n xs @ [x] = last_pcs n (xs @ [x])"
  using last_pcs_snoc [of n xs x] by (simp_all add: Let_def)

text \<open>How the state of the detector represents the past.\<close>

definition pc_state_of :: "hung_detector_config \<Rightarrow> u32 list \<Rightarrow> hung_detector \<Rightarrow> bool" where
  "pc_state_of c pcs d \<longleftrightarrow>
     hd_pc_history d = last_pcs (pc_history_size c) pcs \<and>
     hd_last_pc d = (if pcs = [] then None else Some (last pcs)) \<and>
     unat (hd_pc_stuck_count d) = tail_run pcs \<and>
     (tail_run pcs \<le> 1 \<or> tail_run pcs < unat (pc_stuck_threshold c))"

definition long_state_of :: "observation list \<Rightarrow> hung_detector \<Rightarrow> bool" where
  "long_state_of past d \<longleftrightarrow>
     hd_instr_pc d = (if past = [] then None else Some (ob_pc (start_obs past))) \<and>
     (past \<noteq> [] \<longrightarrow> hd_instr_word d = ob_instruction (start_obs past) \<and>
       hd_instr_start d = ob_cycle (start_obs past))"

definition detects :: "hung_detector_config \<Rightarrow> observation list \<Rightarrow> hung_detector \<Rightarrow> bool" where
  "detects c past d \<longleftrightarrow> hd_config d = c \<and>
     (enable_pc_loop_detection c \<longrightarrow> pc_state_of c (completed_pcs past) d) \<and>
     (enable_long_instruction_detection c \<longrightarrow> long_state_of past d)"

lemma check_pc_loop_step:
  assumes "pc_state_of c pcs d" "hd_config d = c"
  shows "\<exists>d'. check_pc_loop d pc i =
     Some (if 2 \<le> tail_run (pcs @ [pc]) \<and> unat (pc_stuck_threshold c) \<le> tail_run (pcs @ [pc])
       then Err (PcStuck pc i (word_of_nat (tail_run (pcs @ [pc]))) (last_pcs (pc_history_size c) (pcs @ [pc])))
       else Ok (), d') \<and>
     (\<not> (2 \<le> tail_run (pcs @ [pc]) \<and> unat (pc_stuck_threshold c) \<le> tail_run (pcs @ [pc])) \<longrightarrow>
        pc_state_of c (pcs @ [pc]) d') \<and>
     hd_config d' = c \<and> hd_instr_pc d' = hd_instr_pc d \<and> hd_instr_word d' = hd_instr_word d \<and>
     hd_instr_start d' = hd_instr_start d"
proof (cases "pcs \<noteq> [] \<and> last pcs = pc")
  case True
  let ?n = "hd_pc_stuck_count d"
  have run: "tail_run (pcs @ [pc]) = tail_run pcs + 1" using True by (simp add: tail_run_snoc)
  have cnt: "unat ?n = tail_run pcs" "tail_run pcs \<le> 1 \<or> tail_run pcs < unat (pc_stuck_threshold c)"
    using assms(1) by (simp_all add: pc_state_of_def)
  have pos: "1 \<le> tail_run pcs" using True by (cases pcs rule: rev_cases) (simp_all add: tail_run_snoc)
  have lt: "unat ?n + 1 < 2 ^ 32"
    using cnt u32_bound [of "pc_stuck_threshold c"] by auto
  then have add: "checked_add ?n 1 = Some (?n + 1)" "unat (?n + 1) = tail_run pcs + 1"
    using cnt(1) by (simp_all add: checked_add_nowrap unat_plus_nowrap)
  have eq: "word_of_nat (tail_run pcs) = ?n"
    unfolding cnt(1) [symmetric] by (simp only: of_nat_unat ucast_id)
  have le: "pc_stuck_threshold c \<le> ?n + 1 \<longleftrightarrow> unat (pc_stuck_threshold c) \<le> tail_run pcs + 1"
    using add(2) by (simp add: word_le_nat_alt)
  show ?thesis
    using assms True pos le unfolding run check_pc_loop_def pc_state_of_def
    by (simp add: last_pcs_cases Let_def add add(2) [unfolded add.commute [of ?n]] run eq add.commute)
next
  case False
  then have run: "tail_run (pcs @ [pc]) = 1" unfolding tail_run_snoc by (rule if_not_P)
  show ?thesis
    using assms unfolding run check_pc_loop_def pc_state_of_def
    by (cases "pcs = []") (use False in \<open>simp_all add: last_pcs_cases Let_def run\<close>)
qed

lemma check_long_step:
  assumes "hd_config d = c" "enable_long_instruction_detection c \<longrightarrow>
      hd_instr_pc d = (if past = [] \<or> ob_complete x then None else Some (ob_pc (start_obs past))) \<and>
      (past \<noteq> [] \<and> \<not> ob_complete x \<longrightarrow> hd_instr_word d = ob_instruction (start_obs past) \<and>
        hd_instr_start d = ob_cycle (start_obs past))"
  shows "\<exists>d'. check_long_instruction d (ob_cycle x) (ob_pc x) (ob_instruction x) (ob_fsm x) =
     ((if ob_complete x then Ok ()
       else case hang_at c past x of Some e \<Rightarrow> Err e | None \<Rightarrow> Ok ()), d') \<and>
     hd_config d' = c \<and> hd_pc_history d' = hd_pc_history d \<and> hd_last_pc d' = hd_last_pc d \<and>
     hd_pc_stuck_count d' = hd_pc_stuck_count d \<and>
     (enable_long_instruction_detection c \<longrightarrow> long_state_of (past @ [x]) d')"
  using assms
  by (auto simp: check_long_instruction_def hang_at_def long_state_of_def start_obs_snoc Let_def)

lemma check_observation_detects:
  assumes d: "detects c past d"
  shows "\<exists>d'. check_observation d x =
     Some (case hang_at c past x of Some e \<Rightarrow> Err e | None \<Rightarrow> Ok (), d') \<and>
     (hang_at c past x = None \<longrightarrow> detects c (past @ [x]) d')"
proof (cases "ob_complete x")
  case False
  have "enable_long_instruction_detection c \<longrightarrow>
      hd_instr_pc d = (if past = [] \<or> ob_complete x then None else Some (ob_pc (start_obs past))) \<and>
      (past \<noteq> [] \<and> \<not> ob_complete x \<longrightarrow> hd_instr_word d = ob_instruction (start_obs past) \<and>
        hd_instr_start d = ob_cycle (start_obs past))"
    using d False by (simp add: detects_def long_state_of_def)
  moreover have "hd_config d = c" using d by (simp add: detects_def)
  ultimately obtain d' where l: "check_long_instruction d (ob_cycle x) (ob_pc x) (ob_instruction x) (ob_fsm x) =
     ((if ob_complete x then Ok ()
       else case hang_at c past x of Some e \<Rightarrow> Err e | None \<Rightarrow> Ok ()), d')"
     "hd_config d' = c" "hd_pc_history d' = hd_pc_history d" "hd_last_pc d' = hd_last_pc d"
     "hd_pc_stuck_count d' = hd_pc_stuck_count d"
     "enable_long_instruction_detection c \<longrightarrow> long_state_of (past @ [x]) d'"
    using check_long_step [of d c past x] by blast
  show ?thesis
    using d False l by (auto simp: check_observation_def check_cycle_def detects_def pc_state_of_def)
next
  case True
  define d0 where "d0 = d\<lparr>hd_instr_pc := None, hd_instr_start := ob_cycle x\<rparr>"
  show ?thesis
  proof (cases "enable_pc_loop_detection c")
    case False
    have "enable_long_instruction_detection c \<longrightarrow>
      hd_instr_pc d0 = (if past = [] \<or> ob_complete x then None else Some (ob_pc (start_obs past))) \<and>
      (past \<noteq> [] \<and> \<not> ob_complete x \<longrightarrow> hd_instr_word d0 = ob_instruction (start_obs past) \<and>
        hd_instr_start d0 = ob_cycle (start_obs past))" "hd_config d0 = c"
      using d \<open>ob_complete x\<close> by (simp_all add: d0_def detects_def)
    then show ?thesis
      using check_long_step [of d0 c past x] False True d
      by (auto simp: check_observation_def check_cycle_def detects_def hang_at_def d0_def)
  next
    case pc: True
    let ?pcs = "completed_pcs past"
    have s0: "pc_state_of c ?pcs d0" "hd_config d0 = c"
      using d pc by (simp_all add: d0_def detects_def pc_state_of_def)
    from check_pc_loop_step [OF s0, of "ob_pc x" "ob_instruction x"] obtain d1 where
      d1: "check_pc_loop d0 (ob_pc x) (ob_instruction x) =
        Some (case hang_at c past x of Some e \<Rightarrow> Err e | None \<Rightarrow> Ok (), d1)"
      "hang_at c past x = None \<longrightarrow> pc_state_of c (?pcs @ [ob_pc x]) d1" "hd_config d1 = c"
      "hd_instr_pc d1 = None"
      using True pc by (fastforce simp: hang_at_def Let_def d0_def)
    have "enable_long_instruction_detection c \<longrightarrow>
      hd_instr_pc d1 = (if past = [] \<or> ob_complete x then None else Some (ob_pc (start_obs past))) \<and>
      (past \<noteq> [] \<and> \<not> ob_complete x \<longrightarrow> hd_instr_word d1 = ob_instruction (start_obs past) \<and>
        hd_instr_start d1 = ob_cycle (start_obs past))"
      using d1(4) True by simp
    from check_long_step [OF d1(3) this] obtain d2 where
      "check_long_instruction d1 (ob_cycle x) (ob_pc x) (ob_instruction x) (ob_fsm x) = (Ok (), d2)"
      "hd_config d2 = c" "hd_pc_history d2 = hd_pc_history d1" "hd_last_pc d2 = hd_last_pc d1"
      "hd_pc_stuck_count d2 = hd_pc_stuck_count d1"
      "enable_long_instruction_detection c \<longrightarrow> long_state_of (past @ [x]) d2"
      using True by auto
    then show ?thesis
      using d1(1,2) True pc d s0(2)
      by (cases "hang_at c past x")
        (simp_all add: check_observation_def check_cycle_def d0_def [symmetric] detects_def pc_state_of_def)
  qed
qed

lemma hd_run_detects:
  "detects c past d \<Longrightarrow> \<exists>d'. hd_run d xs =
     Some (case first_hang c past xs of Some e \<Rightarrow> Err e | None \<Rightarrow> Ok d')"
proof (induction xs arbitrary: past d)
  case (Cons x xs)
  from check_observation_detects [OF Cons.prems, of x] obtain d' where
    d': "check_observation d x = Some (case hang_at c past x of Some e \<Rightarrow> Err e | None \<Rightarrow> Ok (), d')"
    "hang_at c past x = None \<longrightarrow> detects c (past @ [x]) d'" by (elim exE conjE)
  show ?case
  proof (cases "hang_at c past x")
    case None
    with d'(2) have "detects c (past @ [x]) d'" by simp
    from Cons.IH [OF this] show ?thesis using d'(1) None by simp
  next
    case (Some e)
    then show ?thesis using d'(1) by simp
  qed
qed simp

lemma detects_new: "detects c [] (hung_detector_new c)"
  by (simp add: detects_def hung_detector_new_def pc_state_of_def long_state_of_def last_pcs_def)

text \<open>
  C19: the hang detector is exact.  Whatever the configuration and whatever is observed, a run of
  the detector stops with the error of the first observation that is a hang (the program counter
  of the last completed instructions repeated at least twice and as often as the threshold, or an
  instruction timed above the limit), with the repetition count, the recent program counters and
  the cycles of that hang; without one it reports nothing, and its counter never overflows.
\<close>

theorem hung_detector_exact:
  "\<exists>d. hd_run (hung_detector_new c) xs =
     Some (case first_hang c [] xs of Some e \<Rightarrow> Err e | None \<Rightarrow> Ok d)"
  by (rule hd_run_detects [OF detects_new])

lemma first_hang_None:
  "first_hang c past xs = None \<Longrightarrow> xs = ys @ y # zs \<Longrightarrow> hang_at c (past @ ys) y = None"
proof (induction ys arbitrary: past xs)
  case (Cons a ys)
  then have "first_hang c (past @ [a]) (ys @ y # zs) = None" by (simp split: option.splits)
  from Cons.IH [OF this refl] show ?case by simp
qed (auto split: option.splits)

lemma tail_run_same: "\<forall>x\<in>set ys. x = a \<Longrightarrow> ys \<noteq> [] \<Longrightarrow> length ys \<le> tail_run (xs @ ys)"
proof (induction ys rule: rev_induct)
  case (snoc y ys)
  show ?case
  proof (cases "ys = []")
    case False
    then have "length ys \<le> tail_run (xs @ ys)" "last (xs @ ys) = y"
      using snoc by (simp_all add: last_in_set)
    then show ?thesis
      using False tail_run_snoc [of "xs @ ys" y] by simp
  qed (use tail_run_snoc [of xs y] in simp)
qed simp

lemma first_hang_stuck:
  assumes "xs = past @ ys @ zs" "enable_pc_loop_detection c" "ys \<noteq> []" "2 \<le> length ys"
    "unat (pc_stuck_threshold c) \<le> length ys" "\<forall>y\<in>set ys. ob_complete y \<and> ob_pc y = pc"
  shows "first_hang c [] xs \<noteq> None"
proof
  assume n: "first_hang c [] xs = None"
  obtain us u where ys: "ys = us @ [u]" using assms(3) by (cases ys rule: rev_cases) auto
  have "hang_at c (past @ us) u = None"
    using first_hang_None [OF n, of "past @ us" u zs] assms(1) ys by simp
  moreover have "completed_pcs (past @ us) @ [ob_pc u] = completed_pcs past @ map ob_pc ys"
    using assms(6) unfolding ys completed_pcs_def by simp
  moreover have "length ys \<le> tail_run (completed_pcs past @ map ob_pc ys)"
    using tail_run_same [of "map ob_pc ys" pc "completed_pcs past"] assms(3,6) by simp
  moreover have "ob_complete u" using assms(6) ys by simp
  ultimately show False using assms(2,4,5) by (simp add: hang_at_def Let_def)
qed

lemma start_obs_idle:
  "past \<noteq> [] \<Longrightarrow> \<forall>y\<in>set ys. \<not> ob_complete y \<Longrightarrow> start_obs (past @ ys) = start_obs past"
proof (induction ys rule: rev_induct)
  case (snoc y ys)
  then show ?case using start_obs_snoc [of "past @ ys" y] by simp
qed simp

lemma first_hang_long:
  assumes "xs = past @ y # ys @ zs" "enable_long_instruction_detection c" "ys \<noteq> []"
    "ob_complete y \<or> past = []" "\<forall>z\<in>set ys. \<not> ob_complete z"
    "unat (ob_cycle y) + unat (max_cycles_per_instruction c) < unat (ob_cycle (last ys))"
  shows "first_hang c [] xs \<noteq> None"
proof
  assume n: "first_hang c [] xs = None"
  obtain us u where ys: "ys = us @ [u]" using assms(3) by (cases ys rule: rev_cases) auto
  have "hang_at c (past @ y # us) u = None"
    using first_hang_None [OF n, of "past @ y # us" u zs] assms(1) ys by simp
  moreover have "start_obs (past @ y # us) = y"
    using start_obs_idle [of "past @ [y]" us] start_obs_snoc [of past y] assms(4,5) ys by auto
  moreover have "saturating_sub (ob_cycle u) (ob_cycle y) > max_cycles_per_instruction c"
    using assms(6) ys by (simp add: word_less_nat_alt)
  ultimately show False using assms(2,5) ys by (simp add: hang_at_def Let_def)
qed

text \<open>
  No hang goes unnoticed.  A run in which as many consecutive instructions as the threshold
  (and at least two) complete at one program counter ends in an error, and so does a run in which
  no instruction completes for more cycles than the limit after a completed instruction or after
  the first observation.
\<close>

theorem hang_detected:
  assumes "(enable_pc_loop_detection c \<and> ys \<noteq> [] \<and> unat (pc_stuck_threshold c) \<le> length (y # ys) \<and>
      (\<forall>z\<in>set (y # ys). ob_complete z \<and> ob_pc z = pc)) \<or>
    (enable_long_instruction_detection c \<and> ys \<noteq> [] \<and> (ob_complete y \<or> past = []) \<and>
      (\<forall>z\<in>set ys. \<not> ob_complete z) \<and>
      unat (ob_cycle y) + unat (max_cycles_per_instruction c) < unat (ob_cycle (last ys)))"
  shows "\<exists>e. hd_run (hung_detector_new c) (past @ y # ys @ zs) = Some (Err e)"
proof -
  have "first_hang c [] (past @ y # ys @ zs) \<noteq> None"
    using assms
  proof
    assume a: "enable_pc_loop_detection c \<and> ys \<noteq> [] \<and> unat (pc_stuck_threshold c) \<le> length (y # ys) \<and>
      (\<forall>z\<in>set (y # ys). ob_complete z \<and> ob_pc z = pc)"
    then show ?thesis
      by (intro first_hang_stuck [of _ past "y # ys" zs c pc]) (auto simp: Suc_le_eq)
  qed (intro first_hang_long [of _ past y ys zs c]; auto)
  then obtain e where "first_hang c [] (past @ y # ys @ zs) = Some e" by blast
  with hd_run_detects [OF detects_new, of c "past @ y # ys @ zs"] show ?thesis by auto
qed

lemma hang_detected_witness:
  "\<exists>e. hd_run (hung_detector_new hung_detector_config_default)
     (\<lparr>ob_cycle = 0, ob_pc = 0, ob_instruction = 0x6F, ob_fsm = 2, ob_complete = True\<rparr> #
      replicate 49 \<lparr>ob_cycle = 1, ob_pc = 0, ob_instruction = 0x6F, ob_fsm = 2, ob_complete = True\<rparr>) =
     Some (Err e)"
  using hang_detected [of hung_detector_config_default
      "replicate 49 \<lparr>ob_cycle = 1, ob_pc = 0, ob_instruction = 0x6F, ob_fsm = 2, ob_complete = True\<rparr>"
      "\<lparr>ob_cycle = 0, ob_pc = 0, ob_instruction = 0x6F, ob_fsm = 2, ob_complete = True\<rparr>" 0 "[]" "[]"]
  by (simp add: hung_detector_config_default_def)

end
