(* ===== verification/Sim_Core.thy ===== *)
theory Sim_Core
  imports Runtime_Requests Host_Bus_Session Hung_Detector Insn_Disasm
begin

text \<open>
  The simulator core (\<open>device-runtime/src/sim/sim_core.rs\<close>).  The Verilated model of the CPU is
  generated from the RTL and is an argument: a state, what \<open>eval\<close> makes of it for given input
  signals, and its output signals.  The simulator drives its clocks, serves the bytes of the
  host bus, clocks the bus devices and watches for hangs.  \<^term>\<open>None\<close> is a panic.  Counters wrap as
  in a release build.  The wall clock is an argument of each cycle; output to the terminal,
  traces and the times of waveform dumps are logs.
\<close>

section \<open>Signals of the CPU model\<close>

record cpu_inputs =
  ci_clk :: u8
  ci_video_clk :: u8
  ci_audio_clk :: u8
  ci_sdram_clk :: u8
  ci_rst :: u8
  ci_host_tx_ready :: u8
  ci_host_rx_valid :: u8
  ci_host_rx_data :: u8
  ci_com_err :: u8

record cpu_outputs =
  co_host_tx_valid :: u8
  co_host_tx_data :: u8
  co_host_rx_ready :: u8
  co_rst_out :: u8
  co_cpu_booting :: u8
  co_halted :: u8
  co_instr_complete :: u8
  co_led_out :: u8
  co_debug_pc :: u32
  co_debug_instruction :: u32
  co_debug_rs1_data :: u32
  co_debug_rs2_data :: u32
  co_debug_rd_data :: u32
  co_debug_fsm_state :: u8
  co_debug_current_pc :: u32
  co_debug_current_instruction :: u32

record 'c cpu_model =
  cm_eval :: "cpu_inputs \<Rightarrow> 'c \<Rightarrow> 'c"
  cm_outputs :: "'c \<Rightarrow> cpu_outputs"

section \<open>The simulator\<close>

record pending_response =
  pr_response :: bus_response
  pr_accepted_cycle :: u64

record 'c simulator =
  si_cpu :: 'c
  si_inputs :: cpu_inputs
  si_vcd :: "u64 list option"
  si_bus :: system_bus
  si_cycle_count :: u64
  si_total_elapsed_time_us :: u64
  si_print_inst_trace :: bool
  si_print_fsm_state :: bool
  si_traces :: "instruction_trace list option"
  si_vcd_time :: u64
  si_mem_latency_cycles :: u32
  si_handler :: host_bus_handler
  si_direct_response :: "bus_response option"
  si_pending_response :: "pending_response option"
  si_hung_detector :: "hung_detector option"
  si_stdout :: "string list"

text \<open>The creation of the model by the library gives \<open>cpu\<close>; \<open>vcd\<close>: a path was given.\<close>

definition simulator_new ::
  "'c \<Rightarrow> cpu_inputs \<Rightarrow> bool \<Rightarrow> bool \<Rightarrow> bool \<Rightarrow> bool \<Rightarrow> u32 \<Rightarrow> 'c simulator" where
  "simulator_new cpu inputs print_inst print_fsm trace vcd latency =
    \<lparr>si_cpu = cpu, si_inputs = inputs, si_vcd = (if vcd then Some [] else None), si_bus = system_bus_new,
     si_cycle_count = 0, si_total_elapsed_time_us = 0, si_print_inst_trace = print_inst,
     si_print_fsm_state = print_fsm, si_traces = (if trace then Some [] else None), si_vcd_time = 0,
     si_mem_latency_cycles = latency, si_handler = handler_new, si_direct_response = None,
     si_pending_response = None,
     si_hung_detector = Some (hung_detector_new hung_detector_config_default), si_stdout = []\<rparr>"

definition simulator_new_with_options ::
  "'c \<Rightarrow> cpu_inputs \<Rightarrow> bool \<Rightarrow> bool \<Rightarrow> u32 \<Rightarrow> 'c simulator" where
  "simulator_new_with_options cpu inputs trace vcd latency =
    simulator_new cpu inputs False False trace vcd latency"

definition sim_register_device ::
  "'c simulator \<Rightarrow> u32 \<Rightarrow> ext_device \<Rightarrow> ((string, unit) result \<times> 'c simulator) option" where
  "sim_register_device s base d =
    map_option (\<lambda>(r, b). (map_sum registration_error_fmt id r, s\<lparr>si_bus := b\<rparr>))
      (register_device (si_bus s) base d)"

abbreviation cpu_signals :: "'c cpu_model \<Rightarrow> 'c simulator \<Rightarrow> cpu_outputs" where
  "cpu_signals M s \<equiv> cm_outputs M (si_cpu s)"

definition drive_clocks :: "u8 \<Rightarrow> 'c simulator \<Rightarrow> 'c simulator" where
  "drive_clocks level s = s\<lparr>si_inputs := (si_inputs s)\<lparr>ci_clk := level, ci_video_clk := level,
     ci_audio_clk := level, ci_sdram_clk := level\<rparr>\<rparr>"

definition cpu_eval :: "'c cpu_model \<Rightarrow> 'c simulator \<Rightarrow> 'c simulator" where
  "cpu_eval M s = s\<lparr>si_cpu := cm_eval M (si_inputs s) (si_cpu s)\<rparr>"

definition dump_vcd :: "'c simulator \<Rightarrow> 'c simulator" where
  "dump_vcd s =
    (case si_vcd s of
       None \<Rightarrow> s
     | Some dumps \<Rightarrow> s\<lparr>si_vcd := Some (dumps @ [si_vcd_time s]), si_vcd_time := si_vcd_time s + 1\<rparr>)"

definition sim_fsm_state_name :: "u8 \<Rightarrow> string" where
  "sim_fsm_state_name state =
    (if state = 0 then ''IDLE'' else if state = 1 then ''FETCH'' else if state = 2 then ''DECODE''
     else if state = 3 then ''EXECUTE'' else if state = 4 then ''MEM_ADDR''
     else if state = 5 then ''MEM_READ'' else if state = 6 then ''MEM_WRITE''
     else if state = 7 then ''WRITEBACK'' else if state = 8 then ''BRANCH''
     else if state = 9 then ''CSR'' else if state = 10 then ''HALT'' else ''UNKNOWN'')"

text \<open>\<open>{:6}\<close> of a number and \<open>{:10}\<close> of a string.\<close>

definition pad_left :: "nat \<Rightarrow> string \<Rightarrow> string" where
  "pad_left w s = replicate (w - length s) (CHR '' '') @ s"

definition pad_right :: "nat \<Rightarrow> string \<Rightarrow> string" where
  "pad_right w s = s @ replicate (w - length s) (CHR '' '')"

definition print_line :: "string \<Rightarrow> 'c simulator \<Rightarrow> 'c simulator" where
  "print_line l s = s\<lparr>si_stdout := si_stdout s @ [l]\<rparr>"

definition handle_instruction_complete :: "'c cpu_model \<Rightarrow> 'c simulator \<Rightarrow> 'c simulator" where
  "handle_instruction_complete M s =
    (if si_traces s \<noteq> None \<or> si_print_inst_trace s then
       (let o' = cpu_signals M s;
            trace = from_instruction (co_debug_pc o') (co_debug_instruction o') (co_debug_rs1_data o')
              (co_debug_rs2_data o') (co_debug_rd_data o');
            s = (if si_print_inst_trace s
                 then print_line (''Cycle '' @ pad_left 6 (fmt_dec_word (si_cycle_count s)) @ '' | PC: 0x'' @
                   fmt_08x (co_debug_pc o') @ '' | '' @ trace_display trace) s
                 else s)
        in s\<lparr>si_traces := map_option (\<lambda>ts. ts @ [trace]) (si_traces s)\<rparr>)
     else s)"

section \<open>The host bus\<close>

text \<open>Step 1 of \<open>handle_host_bus_interface\<close>: a byte from the target; a full handler panics.\<close>

definition host_bus_rx :: "'c cpu_model \<Rightarrow> 'c simulator \<Rightarrow> 'c simulator option" where
  "host_bus_rx M s =
    (if co_host_tx_valid (cpu_signals M s) \<noteq> 0 then
       (case transfer_rx_byte (si_handler s) (co_host_tx_data (cpu_signals M s)) of
          (Inr _, h) \<Rightarrow> Some (s\<lparr>si_handler := h\<rparr>)
        | (Inl e, h) \<Rightarrow> None)
     else Some s)"

text \<open>Step 2: a byte to the target.\<close>

definition host_bus_tx :: "'c cpu_model \<Rightarrow> 'c simulator \<Rightarrow> 'c simulator" where
  "host_bus_tx M s =
    (if co_host_rx_ready (cpu_signals M s) \<noteq> 0 then
       (case transfer_tx_byte (si_handler s) of
          (Some byte, h) \<Rightarrow> s\<lparr>si_handler := h,
            si_inputs := (si_inputs s)\<lparr>ci_host_rx_data := byte, ci_host_rx_valid := 1\<rparr>\<rparr>
        | (None, h) \<Rightarrow> s\<lparr>si_handler := h, si_inputs := (si_inputs s)\<lparr>ci_host_rx_valid := 0\<rparr>\<rparr>)
     else s\<lparr>si_inputs := (si_inputs s)\<lparr>ci_host_rx_valid := 0\<rparr>\<rparr>)"

definition sim_complete_request :: "bus_response \<Rightarrow> 'c simulator \<Rightarrow> 'c simulator option" where
  "sim_complete_request resp s =
    (case complete_request (si_handler s) resp of
       (Inr _, h) \<Rightarrow> Some (s\<lparr>si_handler := h\<rparr>)
     | (Inl e, h) \<Rightarrow> None)"

text \<open>Step 3: a response whose latency has passed.\<close>

definition host_bus_complete :: "'c simulator \<Rightarrow> 'c simulator option" where
  "host_bus_complete s =
    (case si_pending_response s of
       None \<Rightarrow> Some s
     | Some p \<Rightarrow>
       if si_cycle_count s \<ge> pr_accepted_cycle p + ucast (si_mem_latency_cycles s)
       then map_option (\<lambda>s. s\<lparr>si_pending_response := None\<rparr>) (sim_complete_request (pr_response p) s)
       else Some s)"

text \<open>The access of a request of the target and its response.\<close>

definition serve_request :: "bus_request \<Rightarrow> system_bus \<Rightarrow> (bus_response \<times> system_bus) option" where
  "serve_request r b =
    (if br_we r then
       map_option (\<lambda>b. (response_write_ack (br_size r), b)) (perform_write b (br_addr r) (br_wdata r) (br_size r))
     else
       map_option (\<lambda>(rdata, b). (response_read_data rdata (br_size r), b)) (perform_read b (br_addr r) (br_size r)))"

text \<open>Step 4: a new request of the target.\<close>

definition host_bus_accept :: "'c simulator \<Rightarrow> 'c simulator option" where
  "host_bus_accept s =
    (if si_pending_response s = None then
       (case accept_request (si_handler s) of
          (Inl e, h) \<Rightarrow> Some (s\<lparr>si_handler := h\<rparr>)
        | (Inr request, h) \<Rightarrow>
          (case serve_request request (si_bus s) of
             None \<Rightarrow> None
           | Some (response, b) \<Rightarrow>
             (let s = s\<lparr>si_handler := h, si_bus := b\<rparr>
              in if si_mem_latency_cycles s > 0
                 then Some (s\<lparr>si_pending_response :=
                   Some \<lparr>pr_response = response, pr_accepted_cycle = si_cycle_count s\<rparr>\<rparr>)
                 else sim_complete_request response s)))
     else Some s)"

definition handle_host_bus_interface :: "'c cpu_model \<Rightarrow> 'c simulator \<Rightarrow> 'c simulator option" where
  "handle_host_bus_interface M s =
    Option.bind (host_bus_rx M s) (\<lambda>s. Option.bind (host_bus_complete (host_bus_tx M s)) host_bus_accept)"

section \<open>Requests of the host\<close>

definition host_request_rejected :: "handler_error \<Rightarrow> string" where
  "host_request_rejected e = ''Host request rejected: '' @ handler_error_debug e"

definition send_bus_request ::
  "bus_request \<Rightarrow> 'c simulator \<Rightarrow> ((string, unit) result \<times> 'c simulator) option" where
  "send_bus_request r s =
    (if request_end_addr r = None then Some (Err (host_request_rejected InvalidAddressRange), s)
     else if has_pending_outgoing_request (si_handler s) \<or> si_direct_response s \<noteq> None
     then Some (Err (host_request_rejected RequestPending), s)
     else case classify_request_region r of
       RtlPeripheral \<Rightarrow>
         (case send_request (si_handler s) r of
            (q, h) \<Rightarrow> Some (map_sum host_request_rejected id q, s\<lparr>si_handler := h\<rparr>))
     | NonRtl \<Rightarrow>
         map_option (\<lambda>(resp, b). (Ok (), s\<lparr>si_bus := b, si_direct_response := Some resp\<rparr>))
           (sim_direct_response r (si_bus s))
     | SpansRtlBoundary \<Rightarrow> Some (Err (host_request_rejected InvalidAddressRange), s))"

definition receive_bus_response :: "'c simulator \<Rightarrow> bus_response option \<times> 'c simulator" where
  "receive_bus_response s =
    (case si_direct_response s of
       Some resp \<Rightarrow> (Some resp, s\<lparr>si_direct_response := None\<rparr>)
     | None \<Rightarrow>
       (case receive_response (si_handler s) of (resp, h) \<Rightarrow> (resp, s\<lparr>si_handler := h\<rparr>)))"

section \<open>Reset and boot\<close>

definition BOOT_TIMEOUT_CYCLES :: u32 where "BOOT_TIMEOUT_CYCLES = 10000"

datatype boot_error = BootTimeout string u32

fun boot_error_message :: "boot_error \<Rightarrow> string" where
  "boot_error_message (BootTimeout phase cycles) =
     ''Boot timeout in '' @ [CHR 0x27] @ phase @ [CHR 0x27] @ '' after '' @ fmt_dec_word cycles @ '' cycles''"

definition boot_clock_cycle :: "'c cpu_model \<Rightarrow> 'c simulator \<Rightarrow> 'c simulator option" where
  "boot_clock_cycle M s =
    map_option (\<lambda>s. dump_vcd (cpu_eval M (drive_clocks 1 s)))
      (handle_host_bus_interface M (cpu_eval M (drive_clocks 0 s)))"

text \<open>The loop over \<open>0..BOOT_TIMEOUT_CYCLES\<close>, with the cycles that are left.\<close>

fun wait_reset_done ::
  "'c cpu_model \<Rightarrow> nat \<Rightarrow> 'c simulator \<Rightarrow> ((boot_error, unit) result \<times> 'c simulator) option" where
  "wait_reset_done M 0 s = Some (Ok (), s)"
| "wait_reset_done M (Suc n) s =
    (case boot_clock_cycle M s of
       None \<Rightarrow> None
     | Some s \<Rightarrow>
       if co_rst_out (cpu_signals M s) = 0 then Some (Ok (), s)
       else if n = 0 then Some (Err (BootTimeout ''waiting for reset controller'' BOOT_TIMEOUT_CYCLES), s)
       else wait_reset_done M n s)"

definition cpu_edge :: "'c cpu_model \<Rightarrow> u8 \<Rightarrow> 'c simulator \<Rightarrow> 'c simulator" where
  "cpu_edge M level s = dump_vcd (cpu_eval M (drive_clocks level s))"

definition simulator_reset ::
  "'c cpu_model \<Rightarrow> 'c simulator \<Rightarrow> ((boot_error, unit) result \<times> 'c simulator) option" where
  "simulator_reset M s =
    (let s = s\<lparr>si_inputs := (si_inputs s)\<lparr>ci_host_tx_ready := 1, ci_host_rx_valid := 0,
           ci_host_rx_data := 0, ci_com_err := 0, ci_rst := 1\<rparr>\<rparr>;
         s = cpu_edge M 0 (cpu_edge M 1 (cpu_edge M 0 s));
         s = dump_vcd (cpu_eval M (s\<lparr>si_inputs := (si_inputs s)\<lparr>ci_rst := 0\<rparr>\<rparr>));
         s = s\<lparr>si_hung_detector := map_option hung_detector_reset (si_hung_detector s),
               si_bus := reset_all_devices (si_bus s), si_cycle_count := 0,
               si_total_elapsed_time_us := 0, si_handler := handler_reset (si_handler s),
               si_direct_response := None, si_pending_response := None\<rparr>
     in wait_reset_done M (unat BOOT_TIMEOUT_CYCLES) s)"

section \<open>One clock cycle\<close>

definition print_fsm :: "'c cpu_model \<Rightarrow> 'c simulator \<Rightarrow> 'c simulator" where
  "print_fsm M s =
    (if si_print_fsm_state s then
       (let o' = cpu_signals M s
        in print_line (''Cycle '' @ pad_left 6 (fmt_dec_word (si_cycle_count s)) @ '' | State: '' @
             pad_right 10 (sim_fsm_state_name (co_debug_fsm_state o')) @ '' | PC: 0x'' @
             fmt_08x (co_debug_current_pc o') @ '' | host_tx_valid='' @ fmt_dec_word (co_host_tx_valid o') @
             '' host_rx_ready='' @ fmt_dec_word (co_host_rx_ready o') @ '' | instr_complete='' @
             fmt_dec_word (co_instr_complete o')) s)
     else s)"

text \<open>The hang check: skipped while the CPU boots or has halted.\<close>

definition check_hung ::
  "'c cpu_model \<Rightarrow> 'c simulator \<Rightarrow> ((hung_state_error, unit) result \<times> 'c simulator) option" where
  "check_hung M s =
    (let o' = cpu_signals M s
     in if co_cpu_booting o' = 0 \<and> co_halted o' = 0 then
          (case si_hung_detector s of
             None \<Rightarrow> Some (Ok (), s)
           | Some d \<Rightarrow>
             map_option (\<lambda>(r, d). (r, s\<lparr>si_hung_detector := Some d\<rparr>))
               (check_cycle d (si_cycle_count s) (co_debug_current_pc o') (co_debug_current_instruction o')
                 (co_debug_fsm_state o') (co_instr_complete o' \<noteq> 0)))
        else Some (Ok (), s))"

text \<open>The clock edges of a cycle, up to the devices.\<close>

definition clock_edges :: "'c cpu_model \<Rightarrow> 'c simulator \<Rightarrow> 'c simulator option" where
  "clock_edges M s =
    map_option (\<lambda>s.
      (let s = cpu_eval M (drive_clocks 1 (print_fsm M s));
           s = dump_vcd (s\<lparr>si_cycle_count := si_cycle_count s + 1\<rparr>)
       in s\<lparr>si_bus := clock_cycle_all_devices (si_bus s)\<rparr>))
      (handle_host_bus_interface M (cpu_eval M (drive_clocks 0 s)))"

text \<open>The end of a cycle: traces, time and termination.\<close>

definition finish_cycle :: "'c cpu_model \<Rightarrow> u64 \<Rightarrow> 'c simulator \<Rightarrow> u32 option \<times> 'c simulator" where
  "finish_cycle M elapsed_us s =
    (let s = (if co_instr_complete (cpu_signals M s) \<noteq> 0 then handle_instruction_complete M s else s);
         s = s\<lparr>si_total_elapsed_time_us := saturating_add (si_total_elapsed_time_us s) elapsed_us\<rparr>;
         b = update_elapsed_time (si_bus s) (si_total_elapsed_time_us s);
         (v, c) = acknowledge_termination (sb_sim_control b)
     in (v, s\<lparr>si_bus := b\<lparr>sb_sim_control := c\<rparr>\<rparr>))"

definition step_cycle ::
  "'c cpu_model \<Rightarrow> u64 \<Rightarrow> 'c simulator \<Rightarrow> ((hung_state_error, u32 option) result \<times> 'c simulator) option" where
  "step_cycle M elapsed_us s =
    (case clock_edges M s of
       None \<Rightarrow> None
     | Some s \<Rightarrow>
       (case check_hung M s of
          None \<Rightarrow> None
        | Some (Inl e, s) \<Rightarrow> Some (Err e, s)
        | Some (Inr _, s) \<Rightarrow> (case finish_cycle M elapsed_us s of (v, s) \<Rightarrow> Some (Ok v, s))))"

end
