(* ===== verification/Runtime_Safety.thy ===== *)
theory Runtime_Safety
  imports Runtime_Requests Host_Bus_Session
begin

text \<open>
  The requests that both backends perform on the system bus return: no beat of a request that is
  routed there leaves the host half of the address space, and the bus keeps its invariant.
\<close>

section \<open>Requests on the system bus return\<close>

lemma perform_read_inv: "bus_inv b \<Longrightarrow> perform_read b a sz = Some (v, b') \<Longrightarrow> bus_inv b'"
  using bus_exec_inv [of b "OpReadByte a" b'] bus_exec_inv [of b "OpReadHalfword a" b']
    bus_exec_inv [of b "OpReadWord a" b']
  by (cases sz) auto

lemma system_bus_beat:
  assumes "classify_host_request_route r = RouteSystemBus" "i < beats r"
    and "fixed = (if br_we r then br_dst_fixed r else br_src_fixed r)"
  shows "\<exists>a. beat_addr fixed r (word_of_nat i) = Some a \<and> 0x80000000 \<le> unat a"
proof -
  obtain e where e: "request_end_addr r = Some e"
    using assms(1) by (cases "request_end_addr r") (auto simp: classify_host_request_route_def)
  then have a: "0x80000000 \<le> unat (br_addr r)"
    using assms(1) by (auto simp: classify_host_request_route_def classify_request_region_def
        split: bool.splits if_splits)
  show ?thesis
  proof (cases fixed)
    case True
    then show ?thesis using a by (simp add: beat_addr_def)
  next
    case False
    let ?c = "ucast (byte_count (br_size r)) :: u32"
    have bb: "unat ?c = beat_bytes r" "0 < beat_bytes r"
      using beat_bytes_cases [of r] by (auto simp: beat_bytes_def byte_count_u32)
    have tb: "touched_bytes r = unat (br_burst_len r) * beat_bytes r"
      using False assms(3) by (auto simp: touched_bytes_def beat_bytes_def mult.commute)
    have le: "touched_bytes r \<noteq> 0" "unat (br_addr r) + touched_bytes r \<le> 4294967296"
      using e request_end_addr_None [of r] by auto
    then have "br_burst_len r \<noteq> 0" using tb by auto
    then have i: "i < unat (br_burst_len r)"
      using assms(2) by (auto simp: beats_def max_def word_le_nat_alt word_less_nat_alt unat_gt_0 split: if_splits)
    have "(i + 1) * beat_bytes r \<le> touched_bytes r" unfolding tb using i by (intro mult_le_mono1) simp
    then have off: "unat (br_addr r) + i * beat_bytes r < 4294967296" using le bb(2) by simp
    have ui: "unat (word_of_nat i :: u32) = i" using i u32_bound [of "br_burst_len r"] by (simp add: unat_of_nat)
    have mul: "unat (word_of_nat i :: u32) * unat ?c < 2 ^ LENGTH(32)"
      unfolding ui bb(1) using off by simp
    have uo: "unat (word_of_nat i * ?c) = i * beat_bytes r"
      unfolding unat_mult_nowrap [OF mul] by (simp only: ui bb(1))
    have add: "unat (br_addr r) + unat (word_of_nat i * ?c) < 2 ^ LENGTH(32)"
      unfolding uo using off by simp
    show ?thesis
      using False a checked_mul_nowrap [OF mul] checked_add_nowrap [OF add] unat_plus_nowrap [OF add]
      by (simp add: beat_addr_def)
  qed
qed

lemma write_beats_total:
  assumes "classify_host_request_route r = RouteSystemBus" "br_we r"
  shows "bus_inv b \<Longrightarrow> i + n \<le> beats r \<Longrightarrow>
    \<exists>b'. write_beats r (word_of_nat i) n b = Some b' \<and> bus_inv b'"
proof (induction n arbitrary: i b)
  case (Suc n)
  obtain a where a: "beat_addr (br_dst_fixed r) r (word_of_nat i) = Some a" "0x80000000 \<le> unat a"
    using system_bus_beat [OF assms(1), of i "br_dst_fixed r"] Suc.prems(2) assms(2) by auto
  obtain b1 where b1: "perform_write b a (beat_wdata r (word_of_nat i)) (br_size r) = Some b1"
    using perform_total(2) [OF Suc.prems(1) a(2)] by blast
  have s: "word_of_nat i + 1 = (word_of_nat (Suc i) :: u32)" by simp
  show ?case
    using Suc.IH [OF perform_write_inv [OF Suc.prems(1) b1], of "Suc i"] Suc.prems(2)
    by (simp only: write_beats.simps a(1) b1 option.case s)
qed simp

lemma read_beats_total:
  assumes "classify_host_request_route r = RouteSystemBus" "\<not> br_we r"
  shows "bus_inv b \<Longrightarrow> i + n \<le> beats r \<Longrightarrow>
    \<exists>bs b'. read_beats r (word_of_nat i) n b = Some (bs, b') \<and> bus_inv b'"
proof (induction n arbitrary: i b)
  case (Suc n)
  obtain a where a: "beat_addr (br_src_fixed r) r (word_of_nat i) = Some a" "0x80000000 \<le> unat a"
    using system_bus_beat [OF assms(1), of i "br_src_fixed r"] Suc.prems(2) assms(2) by auto
  obtain v b1 where b1: "perform_read b a (br_size r) = Some (v, b1)"
    using perform_total(1) [OF Suc.prems(1) a(2)] by blast
  have s: "word_of_nat i + 1 = (word_of_nat (Suc i) :: u32)" by simp
  obtain bs b2 where "read_beats r (word_of_nat (Suc i)) n b1 = Some (bs, b2)" "bus_inv b2"
    using Suc.IH [OF perform_read_inv [OF Suc.prems(1) b1], of "Suc i"] Suc.prems(2) by auto
  then show ?case
    by (simp only: read_beats.simps a(1) b1 option.case prod.case s option.map map_prod_simp id_def) blast
qed simp

lemma system_bus_request_total:
  assumes "bus_inv b" "classify_host_request_route r = RouteSystemBus"
  shows "\<exists>ev b'. process_system_bus_request r b = Some (ev, b') \<and> bus_inv b'"
proof (cases "br_we r")
  case True
  with write_beats_total [OF assms(2) True assms(1), of 0 "beats r"] show ?thesis
    by (auto simp: process_system_bus_request_def)
next
  case False
  with read_beats_total [OF assms(2) False assms(1), of 0 "beats r"] show ?thesis
    by (auto simp: process_system_bus_request_def Let_def)
qed

lemma perform_None:
  assumes "bus_inv b" "perform_read b a sz = None \<or> perform_write b a v sz = None"
  shows "unat a < 0x80000000"
proof (rule ccontr)
  assume "\<not> unat a < 0x80000000"
  then have a: "0x80000000 \<le> unat a" by simp
  show False
    using assms(2) perform_total(1) [OF assms(1) a, of sz] perform_total(2) [OF assms(1) a, of v sz] by auto
qed


lemma bus_inv_sim_control [simp]: "bus_inv (b\<lparr>sb_sim_control := s\<rparr>) = bus_inv b"
  by (simp add: bus_inv_def)

lemma sim_direct_response_total:
  assumes "bus_inv b" "classify_host_request_route r = RouteSystemBus"
  shows "\<exists>resp b'. sim_direct_response r b = Some (resp, b') \<and> bus_inv b'"
proof (cases "br_we r")
  case True
  with write_beats_total [OF assms(2) True assms(1), of 0 "beats r"] show ?thesis
    by (auto simp: sim_direct_response_def)
next
  case False
  with read_beats_total [OF assms(2) False assms(1), of 0 "beats r"] show ?thesis
    by (auto simp: sim_direct_response_def)
qed

end
