(* ===== verification/Sim_Safety.thy ===== *)
theory Sim_Safety
  imports Sim_Core Runtime_Safety
begin

text \<open>
  What holds in every state of the simulator core, whatever the CPU model does: the invariants of
  bus, handler and hang detector, and that a request whose latency is running can still be
  completed.  A cycle panics only when the target breaks the protocol.  A request of the target is
  answered exactly as many cycles after its acceptance as the configured latency.
\<close>

section \<open>What the bytes of the host bus leave alone\<close>

lemma finish_packet_requests:
  "hb_accepted_request (snd (finish_packet h)) = hb_accepted_request h \<and>
    hb_pending_response (snd (finish_packet h)) = hb_pending_response h \<and>
    hb_outgoing_request (snd (finish_packet h)) = hb_outgoing_request h"
  by (simp add: finish_packet_def finalize_rx_packet_def Let_def)

lemma transfer_rx_byte_requests:
  "hb_accepted_request (snd (transfer_rx_byte h b)) = hb_accepted_request h \<and>
    hb_pending_response (snd (transfer_rx_byte h b)) = hb_pending_response h \<and>
    hb_outgoing_request (snd (transfer_rx_byte h b)) = hb_outgoing_request h"
  by (cases "hb_rx_state h") (simp_all add: transfer_rx_byte_def Let_def finish_packet_requests)

lemma take_tx_byte_requests:
  "hb_accepted_request (snd (take_tx_byte h)) = hb_accepted_request h \<and>
    hb_pending_response (snd (take_tx_byte h)) = hb_pending_response h \<and>
    hb_outgoing_request (snd (take_tx_byte h)) = hb_outgoing_request h \<and>
    hb_incoming_request (snd (take_tx_byte h)) = hb_incoming_request h"
  by (simp add: take_tx_byte_def Let_def)

lemma start_tx_packet_requests:
  "start_tx_packet h = Some h' \<Longrightarrow> hb_outgoing_request h' = hb_outgoing_request h \<and>
    hb_incoming_request h' = hb_incoming_request h \<and>
    (hb_pending_response h = None \<longrightarrow> hb_pending_response h' = None \<and> hb_accepted_request h' = hb_accepted_request h)"
  by (auto simp: start_tx_packet_def split: option.splits if_splits)

lemma transfer_tx_byte_requests:
  "hb_outgoing_request (snd (transfer_tx_byte h)) = hb_outgoing_request h \<and>
    hb_incoming_request (snd (transfer_tx_byte h)) = hb_incoming_request h \<and>
    (hb_pending_response h = None \<longrightarrow> hb_pending_response (snd (transfer_tx_byte h)) = None \<and>
      hb_accepted_request (snd (transfer_tx_byte h)) = hb_accepted_request h)"
proof (cases "hb_tx_index h \<ge> length (hb_tx_buffer h)")
  case True
  let ?h = "h\<lparr>hb_tx_buffer := [], hb_tx_index := 0\<rparr>"
  show ?thesis
    using True start_tx_packet_requests [of ?h] take_tx_byte_requests
    by (cases "start_tx_packet ?h") (simp_all add: transfer_tx_byte_def)
qed (simp add: transfer_tx_byte_def take_tx_byte_requests)

section \<open>Answers\<close>

text \<open>The response that the simulator makes for a request.\<close>

definition answers :: "bus_request \<Rightarrow> bus_response \<Rightarrow> bool" where
  "answers r resp \<longleftrightarrow> (if br_we r then resp = response_write_ack (br_size r)
     else \<exists>v. resp = response_read_data v (br_size r))"

text \<open>The requests that the simulator cannot serve.\<close>

definition unserved :: "bus_request \<Rightarrow> bool" where
  "unserved r \<longleftrightarrow> unat (br_addr r) < 0x80000000 \<or> (\<not> br_we r \<and> br_burst_len r \<noteq> 1)"

definition with_metadata :: "bus_request \<Rightarrow> bus_response \<Rightarrow> bus_response" where
  "with_metadata r resp = resp\<lparr>bp_addr := br_addr r, bp_burst_len := br_burst_len r,
     bp_src_fixed := br_src_fixed r, bp_dst_fixed := br_dst_fixed r\<rparr>"

lemma complete_request_answers:
  assumes "hb_accepted_request h = Some r" "answers r resp"
  shows "complete_request h resp =
    (if br_we r \<or> br_burst_len r = 1 then (Ok (), h\<lparr>hb_pending_response := Some (with_metadata r resp)\<rparr>)
     else (Err InvalidBurstConfig, h))"
proof (cases "br_we r")
  case True
  then show ?thesis
    using assms by (simp add: complete_request_def answers_def response_write_ack_def Let_def with_metadata_def)
next
  case False
  then obtain v where "resp = response_read_data v (br_size r)" using assms(2) by (auto simp: answers_def)
  moreover have "min 4 (unat (byte_count (br_size r))) = unat (byte_count (br_size r))"
    "unat (byte_count (br_size r)) \<noteq> 0"
    by (cases "br_size r"; simp)+
  moreover have "br_burst_len r = 1 \<longleftrightarrow> unat (br_burst_len r) = 1"
    by (simp add: word_unat_eq_iff)
  ultimately show ?thesis
    using assms(1) False
    by (auto simp: complete_request_def response_read_data_def Let_def with_metadata_def)
qed

lemma serve_request_answers:
  "serve_request r b = Some (resp, b') \<Longrightarrow> answers r resp"
  by (auto simp: serve_request_def answers_def split: if_splits)

lemma serve_request_inv:
  assumes "bus_inv b" "serve_request r b = Some (resp, b')"
  shows "bus_inv b'"
  using assms perform_write_inv [OF assms(1)] perform_read_inv [OF assms(1)]
  by (auto simp: serve_request_def split: if_splits)

lemma serve_request_None: "bus_inv b \<Longrightarrow> serve_request r b = None \<Longrightarrow> unat (br_addr r) < 0x80000000"
  using perform_None [of b "br_addr r" "br_size r" "br_wdata r"] by (auto simp: serve_request_def split: if_splits)

section \<open>Invariant of the simulator\<close>

definition latency_inv :: "host_bus_handler \<Rightarrow> pending_response option \<Rightarrow> bool" where
  "latency_inv h pr \<longleftrightarrow> (\<forall>p. pr = Some p \<longrightarrow> hb_pending_response h = None \<and>
     (\<exists>r. hb_accepted_request h = Some r \<and> answers r (pr_response p)))"

lemma latency_inv_None [simp]: "latency_inv h None"
  by (simp add: latency_inv_def)

definition hung_inv :: "hung_detector option \<Rightarrow> bool" where
  "hung_inv d \<longleftrightarrow> (\<forall>x. d = Some x \<longrightarrow> (\<exists>past. detects (hd_config x) past x))"

definition sim_inv :: "'c simulator \<Rightarrow> bool" where
  "sim_inv s \<longleftrightarrow> bus_inv (si_bus s) \<and> handler_reachable (si_handler s) \<and>
     latency_inv (si_handler s) (si_pending_response s) \<and> hung_inv (si_hung_detector s)"

lemma sim_inv_fields:
  "si_bus s' = si_bus s \<Longrightarrow> si_handler s' = si_handler s \<Longrightarrow>
    si_pending_response s' = si_pending_response s \<Longrightarrow> si_hung_detector s' = si_hung_detector s \<Longrightarrow>
    sim_inv s \<Longrightarrow> sim_inv s'"
  by (simp add: sim_inv_def)

text \<open>What the signals, the waveform and the terminal leave alone.\<close>

lemma dump_vcd_fields [simp]:
  "si_bus (dump_vcd s) = si_bus s" "si_handler (dump_vcd s) = si_handler s"
  "si_pending_response (dump_vcd s) = si_pending_response s" "si_hung_detector (dump_vcd s) = si_hung_detector s"
  "si_direct_response (dump_vcd s) = si_direct_response s" "si_cpu (dump_vcd s) = si_cpu s"
  "si_cycle_count (dump_vcd s) = si_cycle_count s" "si_mem_latency_cycles (dump_vcd s) = si_mem_latency_cycles s"
  "si_inputs (dump_vcd s) = si_inputs s"
  by (simp_all add: dump_vcd_def split: option.split)

lemma print_fsm_fields [simp]:
  "si_bus (print_fsm M s) = si_bus s" "si_handler (print_fsm M s) = si_handler s"
  "si_pending_response (print_fsm M s) = si_pending_response s"
  "si_hung_detector (print_fsm M s) = si_hung_detector s"
  "si_direct_response (print_fsm M s) = si_direct_response s" "si_cpu (print_fsm M s) = si_cpu s"
  "si_cycle_count (print_fsm M s) = si_cycle_count s"
  "si_mem_latency_cycles (print_fsm M s) = si_mem_latency_cycles s"
  "si_inputs (print_fsm M s) = si_inputs s"
  by (simp_all add: print_fsm_def print_line_def Let_def)

lemma handle_instruction_complete_fields [simp]:
  "si_bus (handle_instruction_complete M s) = si_bus s"
  "si_handler (handle_instruction_complete M s) = si_handler s"
  "si_pending_response (handle_instruction_complete M s) = si_pending_response s"
  "si_hung_detector (handle_instruction_complete M s) = si_hung_detector s"
  "si_direct_response (handle_instruction_complete M s) = si_direct_response s"
  "si_cpu (handle_instruction_complete M s) = si_cpu s"
  "si_cycle_count (handle_instruction_complete M s) = si_cycle_count s"
  "si_mem_latency_cycles (handle_instruction_complete M s) = si_mem_latency_cycles s"
  "si_inputs (handle_instruction_complete M s) = si_inputs s"
  by (simp_all add: handle_instruction_complete_def print_line_def Let_def)

lemma clocks_fields [simp]:
  "si_bus (drive_clocks l s) = si_bus s" "si_handler (drive_clocks l s) = si_handler s"
  "si_pending_response (drive_clocks l s) = si_pending_response s"
  "si_hung_detector (drive_clocks l s) = si_hung_detector s"
  "si_direct_response (drive_clocks l s) = si_direct_response s" "si_cpu (drive_clocks l s) = si_cpu s"
  "si_cycle_count (drive_clocks l s) = si_cycle_count s"
  "si_mem_latency_cycles (drive_clocks l s) = si_mem_latency_cycles s"
  "si_bus (cpu_eval M s) = si_bus s" "si_handler (cpu_eval M s) = si_handler s"
  "si_pending_response (cpu_eval M s) = si_pending_response s"
  "si_hung_detector (cpu_eval M s) = si_hung_detector s"
  "si_direct_response (cpu_eval M s) = si_direct_response s"
  "si_cycle_count (cpu_eval M s) = si_cycle_count s"
  "si_mem_latency_cycles (cpu_eval M s) = si_mem_latency_cycles s"
  "si_inputs (cpu_eval M s) = si_inputs s"
  by (simp_all add: drive_clocks_def cpu_eval_def)

text \<open>What the service of the host bus leaves alone.\<close>

abbreviation host_bus_frame :: "'c simulator \<Rightarrow> 'c simulator \<Rightarrow> bool" where
  "host_bus_frame s s' \<equiv> si_cycle_count s' = si_cycle_count s \<and>
     si_mem_latency_cycles s' = si_mem_latency_cycles s \<and> si_cpu s' = si_cpu s \<and>
     si_direct_response s' = si_direct_response s \<and> si_hung_detector s' = si_hung_detector s \<and>
     hb_outgoing_request (si_handler s') = hb_outgoing_request (si_handler s)"

lemma host_bus_rx_inv:
  assumes "sim_inv s" "host_bus_rx M s = Some s'"
  shows "sim_inv s' \<and> si_bus s' = si_bus s \<and> si_pending_response s' = si_pending_response s \<and>
    host_bus_frame s s' \<and>
    hb_pending_response (si_handler s') = hb_pending_response (si_handler s) \<and>
    hb_accepted_request (si_handler s') = hb_accepted_request (si_handler s)"
proof (cases "co_host_tx_valid (cpu_signals M s) = 0")
  case False
  let ?b = "co_host_tx_data (cpu_signals M s)"
  obtain q h where t: "transfer_rx_byte (si_handler s) ?b = (q, h)" by fastforce
  then have "s' = s\<lparr>si_handler := h\<rparr>" using assms(2) False by (cases q) (simp_all add: host_bus_rx_def)
  moreover have "handler_reachable h"
    using handler_reachable.reach_rx [of "si_handler s" ?b] assms(1) t by (simp add: sim_inv_def)
  ultimately show ?thesis
    using assms(1) transfer_rx_byte_requests [of "si_handler s" ?b] t by (simp add: sim_inv_def latency_inv_def)
qed (use assms in \<open>simp add: host_bus_rx_def\<close>)

lemma host_bus_tx_inv:
  assumes "sim_inv s"
  shows "sim_inv (host_bus_tx M s) \<and> si_bus (host_bus_tx M s) = si_bus s \<and>
    si_pending_response (host_bus_tx M s) = si_pending_response s \<and>
    host_bus_frame s (host_bus_tx M s) \<and>
    hb_incoming_request (si_handler (host_bus_tx M s)) = hb_incoming_request (si_handler s) \<and>
    (hb_pending_response (si_handler s) = None \<longrightarrow>
      hb_pending_response (si_handler (host_bus_tx M s)) = None \<and>
      hb_accepted_request (si_handler (host_bus_tx M s)) = hb_accepted_request (si_handler s))"
proof -
  obtain q h where t: "transfer_tx_byte (si_handler s) = (q, h)" by fastforce
  have "handler_reachable h"
    using handler_reachable.reach_tx [of "si_handler s"] assms t by (simp add: sim_inv_def)
  then show ?thesis
    using assms transfer_tx_byte_requests [of "si_handler s"] t
    by (cases q) (auto simp: host_bus_tx_def sim_inv_def latency_inv_def)
qed

text \<open>Completion panics only for a response to a read of more than one beat.\<close>

lemma sim_complete_answers:
  assumes "hb_accepted_request (si_handler s) = Some r" "answers r resp"
  shows "sim_complete_request resp s =
    (if br_we r \<or> br_burst_len r = 1
     then Some (s\<lparr>si_handler := (si_handler s)\<lparr>hb_pending_response := Some (with_metadata r resp)\<rparr>\<rparr>)
     else None)"
  by (simp add: sim_complete_request_def complete_request_answers [OF assms])

lemma handler_reachable_complete:
  assumes "handler_reachable h" "hb_accepted_request h = Some r" "answers r resp"
    and "br_we r \<or> br_burst_len r = 1"
  shows "handler_reachable (h\<lparr>hb_pending_response := Some (with_metadata r resp)\<rparr>)"
  using handler_reachable.reach_complete [OF assms(1), of resp] assms(4)
  by (simp add: complete_request_answers [OF assms(2,3)])

lemma host_bus_complete_inv:
  assumes "sim_inv s"
  shows "host_bus_complete s = None \<Longrightarrow>
      \<exists>p r. si_pending_response s = Some p \<and> hb_accepted_request (si_handler s) = Some r \<and> unserved r"
    and "host_bus_complete s = Some s' \<Longrightarrow> sim_inv s' \<and> si_bus s' = si_bus s \<and>
      host_bus_frame s s' \<and>
      hb_incoming_request (si_handler s') = hb_incoming_request (si_handler s)"
proof -
  have "(host_bus_complete s = None \<longrightarrow>
      (\<exists>p r. si_pending_response s = Some p \<and> hb_accepted_request (si_handler s) = Some r \<and> unserved r)) \<and>
    (host_bus_complete s = Some s' \<longrightarrow> sim_inv s' \<and> si_bus s' = si_bus s \<and>
      host_bus_frame s s' \<and>
      hb_incoming_request (si_handler s') = hb_incoming_request (si_handler s))"
  proof (cases "si_pending_response s")
    case None
    then show ?thesis using assms by (auto simp: host_bus_complete_def)
  next
    case (Some p)
    then obtain r where r: "hb_accepted_request (si_handler s) = Some r" "answers r (pr_response p)"
      using assms by (auto simp: sim_inv_def latency_inv_def)
    have h: "handler_reachable (si_handler s)" using assms by (simp add: sim_inv_def)
    show ?thesis
      using Some r assms handler_reachable_complete [OF h r]
      by (auto simp: host_bus_complete_def sim_complete_answers [OF r] unserved_def sim_inv_def latency_inv_def)
  qed
  then show "host_bus_complete s = None \<Longrightarrow>
      \<exists>p r. si_pending_response s = Some p \<and> hb_accepted_request (si_handler s) = Some r \<and> unserved r"
    "host_bus_complete s = Some s' \<Longrightarrow> sim_inv s' \<and> si_bus s' = si_bus s \<and>
      host_bus_frame s s' \<and>
      hb_incoming_request (si_handler s') = hb_incoming_request (si_handler s)"
    by blast+
qed

lemma host_bus_accept_inv:
  assumes "sim_inv s"
  shows "host_bus_accept s = None \<Longrightarrow>
      \<exists>r. ir_request (hb_incoming_request (si_handler s)) = Some r \<and> unserved r"
    and "host_bus_accept s = Some s' \<Longrightarrow> sim_inv s' \<and> host_bus_frame s s'"
proof -
  obtain q h where a: "accept_request (si_handler s) = (q, h)" by fastforce
  have h: "handler_reachable h"
    using handler_reachable.reach_accept [of "si_handler s"] assms a by (simp add: sim_inv_def)
  have o: "hb_outgoing_request h = hb_outgoing_request (si_handler s)"
    using a by (auto simp: accept_request_def split: if_splits option.splits)
  have "(host_bus_accept s = None \<longrightarrow>
      (\<exists>r. ir_request (hb_incoming_request (si_handler s)) = Some r \<and> unserved r)) \<and>
    (host_bus_accept s = Some s' \<longrightarrow> sim_inv s' \<and> host_bus_frame s s')"
  proof (cases "si_pending_response s = None")
    case False
    then show ?thesis using assms by (auto simp: host_bus_accept_def)
  next
    case True
    show ?thesis
    proof (cases q)
      case (Inl e)
      then show ?thesis
        using assms True a h o by (auto simp: host_bus_accept_def sim_inv_def latency_inv_def)
    next
      case (Inr r)
      then have r: "ir_request (hb_incoming_request (si_handler s)) = Some r" "hb_accepted_request h = Some r"
        "hb_accepted_request (si_handler s) = None" "hb_pending_response h = hb_pending_response (si_handler s)"
        using a by (auto simp: accept_request_def split: if_splits option.splits)
      have n: "hb_pending_response (si_handler s) = None"
        using r(3) assms handler_reachable_inv [of "si_handler s"] by (auto simp: sim_inv_def slots_inv_def)
      have b: "bus_inv (si_bus s)" using assms by (simp add: sim_inv_def)
      show ?thesis
      proof (cases "serve_request r (si_bus s)")
        case None
        then have "unserved r" using serve_request_None [OF b] by (simp add: unserved_def)
        then show ?thesis using True a Inr None r(1) by (simp add: host_bus_accept_def)
      next
        case (Some p)
        then obtain resp b' where p: "serve_request r (si_bus s) = Some (resp, b')" by (cases p) auto
        note ans = serve_request_answers [OF p]
        note b' = serve_request_inv [OF b p]
        let ?s = "s\<lparr>si_handler := h, si_bus := b'\<rparr>"
        have c: "sim_complete_request resp ?s =
            (if br_we r \<or> br_burst_len r = 1
             then Some (?s\<lparr>si_handler := h\<lparr>hb_pending_response := Some (with_metadata r resp)\<rparr>\<rparr>) else None)"
          using sim_complete_answers [of ?s r resp] r(2) ans by simp
        show ?thesis
          using True a Inr p assms h o r n ans b' c handler_reachable_complete [OF h r(2) ans]
          by (auto simp: host_bus_accept_def Let_def sim_inv_def latency_inv_def unserved_def)
      qed
    qed
  qed
  then show "host_bus_accept s = None \<Longrightarrow>
      \<exists>r. ir_request (hb_incoming_request (si_handler s)) = Some r \<and> unserved r"
    "host_bus_accept s = Some s' \<Longrightarrow> sim_inv s' \<and> host_bus_frame s s'"
    by blast+
qed

text \<open>The request of the target that a cycle finds complete or has accepted.\<close>

definition served_request :: "'c cpu_model \<Rightarrow> 'c simulator \<Rightarrow> bus_request \<Rightarrow> bool" where
  "served_request M s r \<longleftrightarrow> hb_accepted_request (si_handler s) = Some r \<or>
     (\<exists>s'. host_bus_rx M s = Some s' \<and> ir_request (hb_incoming_request (si_handler s')) = Some r)"

text \<open>The target sends a byte that the handler cannot take, or a request that cannot be served.\<close>

definition target_fault :: "'c cpu_model \<Rightarrow> 'c simulator \<Rightarrow> bool" where
  "target_fault M s \<longleftrightarrow>
     (co_host_tx_valid (cpu_signals M s) \<noteq> 0 \<and>
       fst (transfer_rx_byte (si_handler s) (co_host_tx_data (cpu_signals M s))) \<noteq> Ok ()) \<or>
     (\<exists>r. served_request M s r \<and> unserved r)"

lemma handle_host_bus_interface_inv:
  assumes "sim_inv s"
  shows "handle_host_bus_interface M s = None \<Longrightarrow> target_fault M s"
    and "handle_host_bus_interface M s = Some s' \<Longrightarrow> sim_inv s' \<and> host_bus_frame s s'"
proof -
  have "(handle_host_bus_interface M s = None \<longrightarrow> target_fault M s) \<and>
    (handle_host_bus_interface M s = Some s' \<longrightarrow> sim_inv s' \<and> host_bus_frame s s')"
  proof (cases "host_bus_rx M s")
    case None
    then show ?thesis
      by (auto simp: handle_host_bus_interface_def target_fault_def host_bus_rx_def
          split: if_splits prod.splits sum.splits)
  next
    case (Some s1)
    note i1 = host_bus_rx_inv [OF assms Some]
    define s2 where "s2 = host_bus_tx M s1"
    have i2: "sim_inv s2" "host_bus_frame s1 s2" "si_pending_response s2 = si_pending_response s1"
      "hb_incoming_request (si_handler s2) = hb_incoming_request (si_handler s1)"
      "hb_pending_response (si_handler s1) = None \<longrightarrow> hb_accepted_request (si_handler s2) = hb_accepted_request (si_handler s1)"
      using host_bus_tx_inv [of s1 M] i1 by (simp_all add: s2_def)
    have fault: "served_request M s r"
      if "ir_request (hb_incoming_request (si_handler s1)) = Some r" for r
      using that Some by (auto simp: served_request_def)
    show ?thesis
    proof (cases "host_bus_complete s2")
      case None
      from host_bus_complete_inv(1) [OF i2(1) None] obtain p r where
        p: "si_pending_response s2 = Some p" "hb_accepted_request (si_handler s2) = Some r" "unserved r" by blast
      then have "hb_pending_response (si_handler s) = None"
        using i1 i2(3) assms by (auto simp: sim_inv_def latency_inv_def)
      then have "hb_accepted_request (si_handler s) = Some r" using p(2) i1 i2(5) by simp
      then show ?thesis
        using None Some p(3) by (auto simp: handle_host_bus_interface_def target_fault_def served_request_def s2_def)
    next
      case some3: (Some s3)
      note i3 = host_bus_complete_inv(2) [OF i2(1) some3]
      show ?thesis
      proof (cases "host_bus_accept s3")
        case None
        with host_bus_accept_inv(1) [of s3] i3 obtain r where
          "ir_request (hb_incoming_request (si_handler s3)) = Some r" "unserved r" by blast
        then have "target_fault M s" using i3 i2(4) fault by (auto simp: target_fault_def)
        then show ?thesis using None Some some3 by (simp add: handle_host_bus_interface_def s2_def)
      next
        case some4: (Some s4)
        have "handle_host_bus_interface M s = Some s4"
          using Some some3 some4 by (simp add: handle_host_bus_interface_def s2_def)
        then show ?thesis using host_bus_accept_inv(2) [of s3 s4] some4 i3 i2 i1 by auto
      qed
    qed
  qed
  then show "handle_host_bus_interface M s = None \<Longrightarrow> target_fault M s"
    "handle_host_bus_interface M s = Some s' \<Longrightarrow> sim_inv s' \<and> host_bus_frame s s'" by blast+
qed

section \<open>Cycles, resets and requests\<close>

lemma check_cycle_inv:
  assumes "hung_inv (Some d)"
  shows "\<exists>r d'. check_cycle d cyc pc i fsm done' = Some (r, d') \<and> (r = Ok () \<longrightarrow> hung_inv (Some d'))"
proof -
  obtain past where p: "detects (hd_config d) past d" using assms by (auto simp: hung_inv_def)
  let ?x = "\<lparr>ob_cycle = cyc, ob_pc = pc, ob_instruction = i, ob_fsm = fsm, ob_complete = done'\<rparr>"
  obtain d' where d': "check_cycle d cyc pc i fsm done' =
      Some (case hang_at (hd_config d) past ?x of Some e \<Rightarrow> Err e | None \<Rightarrow> Ok (), d')"
    "hang_at (hd_config d) past ?x = None \<longrightarrow> detects (hd_config d) (past @ [?x]) d'"
    using check_observation_detects [OF p, of ?x] by (auto simp: check_observation_def)
  show ?thesis
  proof (cases "hang_at (hd_config d) past ?x")
    case None
    with d'(2) have n: "detects (hd_config d) (past @ [?x]) d'" by simp
    then have "hd_config d' = hd_config d" by (simp add: detects_def)
    with n have "hung_inv (Some d')" unfolding hung_inv_def by auto
    then show ?thesis using d'(1) None by simp
  next
    case (Some e)
    then show ?thesis using d'(1) by simp
  qed
qed

lemma check_hung_inv:
  assumes "sim_inv s"
  shows "\<exists>r s'. check_hung M s = Some (r, s') \<and> (r = Ok () \<longrightarrow> sim_inv s') \<and>
    si_bus s' = si_bus s \<and> si_handler s' = si_handler s \<and> si_cpu s' = si_cpu s \<and>
    si_pending_response s' = si_pending_response s \<and> si_direct_response s' = si_direct_response s \<and>
    si_cycle_count s' = si_cycle_count s \<and> si_mem_latency_cycles s' = si_mem_latency_cycles s"
proof (cases "co_cpu_booting (cpu_signals M s) = 0 \<and> co_halted (cpu_signals M s) = 0 \<and> si_hung_detector s \<noteq> None")
  case True
  then obtain d where d: "si_hung_detector s = Some d" by auto
  then have "hung_inv (Some d)" using assms by (simp add: sim_inv_def)
  from check_cycle_inv [OF this] obtain r d' where
    "check_cycle d (si_cycle_count s) (co_debug_current_pc (cpu_signals M s))
       (co_debug_current_instruction (cpu_signals M s)) (co_debug_fsm_state (cpu_signals M s))
       (co_instr_complete (cpu_signals M s) \<noteq> 0) = Some (r, d')" "r = Ok () \<longrightarrow> hung_inv (Some d')"
    by blast
  then show ?thesis using True d assms by (auto simp: check_hung_def Let_def sim_inv_def)
qed (use assms in \<open>auto simp: check_hung_def Let_def\<close>)

lemma clock_edges_inv:
  fixes M :: "'c cpu_model"
  assumes "sim_inv s"
  defines "s0 \<equiv> cpu_eval M (drive_clocks 0 s)"
  shows "clock_edges M s = None \<Longrightarrow> target_fault M s0"
    and "clock_edges M s = Some s' \<Longrightarrow> sim_inv s' \<and> si_cycle_count s' = si_cycle_count s + 1 \<and>
      si_mem_latency_cycles s' = si_mem_latency_cycles s \<and> si_direct_response s' = si_direct_response s \<and>
      hb_outgoing_request (si_handler s') = hb_outgoing_request (si_handler s) \<and>
      (\<exists>s1. handle_host_bus_interface M s0 = Some s1 \<and> si_handler s' = si_handler s1 \<and>
        si_pending_response s' = si_pending_response s1 \<and> si_bus s' = clock_cycle_all_devices (si_bus s1))"
proof -
  have s0: "sim_inv s0" using assms(1) by (simp add: s0_def sim_inv_def)
  show "clock_edges M s = None \<Longrightarrow> target_fault M s0"
    using handle_host_bus_interface_inv(1) [OF s0] by (simp add: clock_edges_def s0_def)
  assume c: "clock_edges M s = Some s'"
  then obtain s1 where s1: "handle_host_bus_interface M s0 = Some s1"
    by (auto simp: clock_edges_def s0_def)
  note i = handle_host_bus_interface_inv(2) [OF s0 s1]
  have "bus_inv (clock_cycle_all_devices (si_bus s1))"
    using i clock_cycle_all_devices_ok [of "si_bus s1"] by (simp add: sim_inv_def bus_step_ok_def)
  moreover have "s' = (dump_vcd ((cpu_eval M (drive_clocks 1 (print_fsm M s1)))\<lparr>si_cycle_count :=
      si_cycle_count s1 + 1\<rparr>))\<lparr>si_bus := clock_cycle_all_devices (si_bus s1)\<rparr>"
    using c s1 by (simp add: clock_edges_def s0_def Let_def)
  ultimately show "sim_inv s' \<and> si_cycle_count s' = si_cycle_count s + 1 \<and>
      si_mem_latency_cycles s' = si_mem_latency_cycles s \<and> si_direct_response s' = si_direct_response s \<and>
      hb_outgoing_request (si_handler s') = hb_outgoing_request (si_handler s) \<and>
      (\<exists>s1. handle_host_bus_interface M s0 = Some s1 \<and> si_handler s' = si_handler s1 \<and>
        si_pending_response s' = si_pending_response s1 \<and> si_bus s' = clock_cycle_all_devices (si_bus s1))"
    using i s1 assms(1) by (simp add: sim_inv_def s0_def)
qed

lemma finish_cycle_inv:
  assumes "sim_inv s" "finish_cycle M e s = (v, s')"
  shows "sim_inv s' \<and> si_cycle_count s' = si_cycle_count s \<and> si_handler s' = si_handler s \<and>
    si_mem_latency_cycles s' = si_mem_latency_cycles s \<and> si_direct_response s' = si_direct_response s \<and>
    si_pending_response s' = si_pending_response s \<and> sb_memory (si_bus s') = sb_memory (si_bus s) \<and>
    sb_external_devices (si_bus s') = sb_external_devices (si_bus s) \<and>
    v = tohost_value (sb_sim_control (si_bus s)) \<and> tohost_value (sb_sim_control (si_bus s')) = None \<and>
    si_cpu s' = si_cpu s"
proof -
  have "bus_inv (update_elapsed_time (si_bus s) t)" for t
    using assms(1) bus_exec_inv [of "si_bus s" "OpElapsed t"] by (simp add: sim_inv_def)
  then show ?thesis
    using assms by (auto simp: finish_cycle_def Let_def acknowledge_termination_def sim_inv_def
        update_elapsed_time_def)
qed

lemma step_cycle_inv:
  assumes "sim_inv s"
  shows "step_cycle M e s = None \<Longrightarrow> target_fault M (cpu_eval M (drive_clocks 0 s))"
    and "step_cycle M e s = Some (Ok v, s') \<Longrightarrow> sim_inv s' \<and>
      si_cycle_count s' = si_cycle_count s + 1 \<and> si_direct_response s' = si_direct_response s \<and>
      si_mem_latency_cycles s' = si_mem_latency_cycles s \<and>
      hb_outgoing_request (si_handler s') = hb_outgoing_request (si_handler s) \<and>
      (\<exists>s1. handle_host_bus_interface M (cpu_eval M (drive_clocks 0 s)) = Some s1 \<and>
        si_handler s' = si_handler s1 \<and> si_pending_response s' = si_pending_response s1)"
proof -
  have "(step_cycle M e s = None \<longrightarrow> target_fault M (cpu_eval M (drive_clocks 0 s))) \<and>
    (step_cycle M e s = Some (Ok v, s') \<longrightarrow> sim_inv s' \<and>
      si_cycle_count s' = si_cycle_count s + 1 \<and> si_direct_response s' = si_direct_response s \<and>
      si_mem_latency_cycles s' = si_mem_latency_cycles s \<and>
      hb_outgoing_request (si_handler s') = hb_outgoing_request (si_handler s) \<and>
      (\<exists>s1. handle_host_bus_interface M (cpu_eval M (drive_clocks 0 s)) = Some s1 \<and>
        si_handler s' = si_handler s1 \<and> si_pending_response s' = si_pending_response s1))"
  proof (cases "clock_edges M s")
    case None
    then show ?thesis using clock_edges_inv(1) [OF assms] by (simp add: step_cycle_def)
  next
    case (Some s1)
    note i1 = clock_edges_inv(2) [OF assms Some]
    then obtain r s2 where s2: "check_hung M s1 = Some (r, s2)" "r = Ok () \<longrightarrow> sim_inv s2"
      "si_handler s2 = si_handler s1" "si_pending_response s2 = si_pending_response s1"
      "si_direct_response s2 = si_direct_response s1" "si_cycle_count s2 = si_cycle_count s1"
      "si_mem_latency_cycles s2 = si_mem_latency_cycles s1"
      using check_hung_inv [of s1 M] by blast
    show ?thesis
    proof (cases r)
      case (Inr u)
      obtain w s3 where s3: "finish_cycle M e s2 = (w, s3)" by fastforce
      have "step_cycle M e s = Some (Ok w, s3)"
        using Some s2(1) Inr s3 by (simp add: step_cycle_def)
      then show ?thesis
        using finish_cycle_inv [OF _ s3] s2 i1 Inr by auto
    qed (use Some s2(1) in \<open>simp add: step_cycle_def\<close>)
  qed
  then show "step_cycle M e s = None \<Longrightarrow> target_fault M (cpu_eval M (drive_clocks 0 s))"
    "step_cycle M e s = Some (Ok v, s') \<Longrightarrow> sim_inv s' \<and>
      si_cycle_count s' = si_cycle_count s + 1 \<and> si_direct_response s' = si_direct_response s \<and>
      si_mem_latency_cycles s' = si_mem_latency_cycles s \<and>
      hb_outgoing_request (si_handler s') = hb_outgoing_request (si_handler s) \<and>
      (\<exists>s1. handle_host_bus_interface M (cpu_eval M (drive_clocks 0 s)) = Some s1 \<and>
        si_handler s' = si_handler s1 \<and> si_pending_response s' = si_pending_response s1)"
    by blast+
qed

lemma boot_clock_cycle_inv:
  assumes "sim_inv s" "boot_clock_cycle M s = Some s'"
  shows "sim_inv s'"
proof -
  have s0: "sim_inv (cpu_eval M (drive_clocks 0 s))" using assms(1) by (simp add: sim_inv_def)
  obtain s1 where "handle_host_bus_interface M (cpu_eval M (drive_clocks 0 s)) = Some s1"
    "s' = dump_vcd (cpu_eval M (drive_clocks 1 s1))"
    using assms(2) by (auto simp: boot_clock_cycle_def)
  with handle_host_bus_interface_inv(2) [OF s0 this(1)] assms(1) show ?thesis by (simp add: sim_inv_def)
qed

lemma wait_reset_done_inv:
  "sim_inv s \<Longrightarrow> wait_reset_done M n s = Some (r, s') \<Longrightarrow> sim_inv s'"
  by (induction M n s rule: wait_reset_done.induct)
    (auto split: option.splits if_splits dest: boot_clock_cycle_inv)

lemma hung_inv_reset: "hung_inv d \<Longrightarrow> hung_inv (map_option hung_detector_reset d)"
proof -
  have "detects (hd_config (hung_detector_reset x)) [] (hung_detector_reset x)" for x
    by (simp add: detects_def hung_detector_reset_def pc_state_of_def long_state_of_def last_pcs_def)
  then show "hung_inv (map_option hung_detector_reset d)" unfolding hung_inv_def by auto
qed

lemma cpu_edge_fields [simp]:
  "si_bus (cpu_edge M l s) = si_bus s" "si_handler (cpu_edge M l s) = si_handler s"
  "si_pending_response (cpu_edge M l s) = si_pending_response s"
  "si_hung_detector (cpu_edge M l s) = si_hung_detector s"
  by (simp_all add: cpu_edge_def)

lemma simulator_reset_inv:
  assumes "sim_inv s" "simulator_reset M s = Some (r, s')"
  shows "sim_inv s'"
proof -
  define s1 where "s1 = s\<lparr>si_inputs := (si_inputs s)\<lparr>ci_host_tx_ready := 1, ci_host_rx_valid := 0,
    ci_host_rx_data := 0, ci_com_err := 0, ci_rst := 1\<rparr>\<rparr>"
  define s2 where "s2 = cpu_edge M 0 (cpu_edge M 1 (cpu_edge M 0 s1))"
  define s3 where "s3 = dump_vcd (cpu_eval M (s2\<lparr>si_inputs := (si_inputs s2)\<lparr>ci_rst := 0\<rparr>\<rparr>))"
  define s4 where "s4 = s3\<lparr>si_hung_detector := map_option hung_detector_reset (si_hung_detector s3),
    si_bus := reset_all_devices (si_bus s3), si_cycle_count := 0,
    si_total_elapsed_time_us := 0, si_handler := handler_reset (si_handler s3),
    si_direct_response := None, si_pending_response := None\<rparr>"
  have "simulator_reset M s = wait_reset_done M (unat BOOT_TIMEOUT_CYCLES) s4"
    by (simp add: simulator_reset_def Let_def s4_def s3_def s2_def s1_def)
  moreover have "sim_inv s4"
    using assms(1) reset_all_devices_ok [of "si_bus s"] hung_inv_reset [of "si_hung_detector s"]
      handler_reachable.reach_reset [of "si_handler s"]
    by (simp add: s4_def s3_def s2_def s1_def sim_inv_def bus_step_ok_def latency_inv_def)
  ultimately show ?thesis using wait_reset_done_inv assms(2) by metis
qed

lemma send_bus_request_inv:
  assumes "sim_inv s"
  shows "\<exists>q s'. send_bus_request r s = Some (q, s') \<and> sim_inv s'"
proof (cases "request_end_addr r = None \<or> has_pending_outgoing_request (si_handler s) \<or> si_direct_response s \<noteq> None")
  case True
  then show ?thesis using assms by (auto simp: send_bus_request_def)
next
  case False
  show ?thesis
  proof (cases "classify_request_region r")
    case RtlPeripheral
    obtain q h where q: "send_request (si_handler s) r = (q, h)" by fastforce
    then have "handler_reachable h"
      using assms handler_reachable.reach_send [of "si_handler s" r] by (simp add: sim_inv_def)
    moreover have "hb_accepted_request h = hb_accepted_request (si_handler s)"
      "hb_pending_response h = hb_pending_response (si_handler s)"
      using q by (auto simp: send_request_def split: if_splits)
    ultimately show ?thesis
      using False RtlPeripheral q assms by (simp add: send_bus_request_def sim_inv_def latency_inv_def)
  next
    case NonRtl
    have "classify_host_request_route r = RouteSystemBus"
      using False NonRtl by (simp add: classify_host_request_route_def)
    moreover have "bus_inv (si_bus s)" using assms by (simp add: sim_inv_def)
    ultimately obtain resp b' where "sim_direct_response r (si_bus s) = Some (resp, b')" "bus_inv b'"
      using sim_direct_response_total by blast
    then show ?thesis using False NonRtl assms by (simp add: send_bus_request_def sim_inv_def)
  next
    case SpansRtlBoundary
    then show ?thesis using False assms by (simp add: send_bus_request_def)
  qed
qed

lemma receive_bus_response_inv:
  assumes "sim_inv s"
  shows "sim_inv (snd (receive_bus_response s))"
proof (cases "si_direct_response s")
  case None
  obtain resp h where q: "receive_response (si_handler s) = (resp, h)" by fastforce
  then have "handler_reachable h"
    using assms handler_reachable.reach_receive [of "si_handler s"] by (simp add: sim_inv_def)
  moreover have "hb_accepted_request h = hb_accepted_request (si_handler s)"
    "hb_pending_response h = hb_pending_response (si_handler s)"
    using q by (auto simp: receive_response_def split: if_splits)
  ultimately show ?thesis
    using None q assms by (simp add: receive_bus_response_def sim_inv_def latency_inv_def)
qed (use assms in \<open>simp add: receive_bus_response_def sim_inv_def\<close>)

lemma sim_register_device_inv:
  assumes "sim_inv s" "ext_inv d" "sim_register_device s base d = Some (r, s')"
  shows "sim_inv s'"
proof -
  obtain q b where q: "register_device (si_bus s) base d = Some (q, b)" "s' = s\<lparr>si_bus := b\<rparr>"
    using assms(3) by (auto simp: sim_register_device_def)
  then have "bus_inv b"
    using assms(1,2) bus_exec_inv [of "si_bus s" "OpRegister base d" b] by (simp add: sim_inv_def)
  then show ?thesis using assms(1) q(2) by (simp add: sim_inv_def)
qed

lemma simulator_new_inv: "sim_inv (simulator_new cpu inputs pi pf tr vcd latency)"
  using detects_new [of hung_detector_config_default] system_bus_new_inv handler_reachable.reach_new
  by (auto simp: simulator_new_def sim_inv_def latency_inv_def hung_inv_def hung_detector_new_def)

section \<open>Reachable simulators\<close>

inductive sim_reachable :: "'c cpu_model \<Rightarrow> 'c simulator \<Rightarrow> bool" for M where
  sim_start: "sim_reachable M (simulator_new cpu inputs pinst pfsm trace vcd latency)"
| sim_register: "sim_reachable M s \<Longrightarrow> ext_inv d \<Longrightarrow> sim_register_device s base d = Some (r, s') \<Longrightarrow>
    sim_reachable M s'"
| sim_send: "sim_reachable M s \<Longrightarrow> send_bus_request q s = Some (res, s') \<Longrightarrow> sim_reachable M s'"
| sim_receive: "sim_reachable M s \<Longrightarrow> sim_reachable M (snd (receive_bus_response s))"
| sim_cycle: "sim_reachable M s \<Longrightarrow> step_cycle M e s = Some (Ok v, s') \<Longrightarrow> sim_reachable M s'"
| sim_reset: "sim_reachable M s \<Longrightarrow> simulator_reset M s = Some (r, s') \<Longrightarrow> sim_reachable M s'"

lemma sim_reachable_inv: "sim_reachable M s \<Longrightarrow> sim_inv s"
proof (induction rule: sim_reachable.induct)
  case (sim_send s q res s')
  then show ?case using send_bus_request_inv [of s q] by auto
qed (auto intro: simulator_new_inv sim_register_device_inv receive_bus_response_inv simulator_reset_inv
    dest: step_cycle_inv(2))

text \<open>
  C15: the simulator core is safe for every CPU model.  In every state reached by registrations, host
  requests, cycles and resets, in any order, the invariants hold, a host request never panics, and
  a cycle panics only when the target sends a byte that the handler has no room for, or a request
  that lies below \<open>0x80000000\<close> or reads more than one beat.
\<close>

theorem sim_reachable_safe:
  assumes "sim_reachable M s"
  shows "sim_inv s \<and> send_bus_request r s \<noteq> None \<and>
    (step_cycle M e s = None \<longrightarrow> target_fault M (cpu_eval M (drive_clocks 0 s)))"
proof -
  note i = sim_reachable_inv [OF assms]
  show ?thesis using i send_bus_request_inv [OF i, of r] step_cycle_inv(1) [OF i] by auto
qed

text \<open>A CPU model that waits to be booted and sends nothing.\<close>

definition idle_outputs :: cpu_outputs where
  "idle_outputs = \<lparr>co_host_tx_valid = 0, co_host_tx_data = 0, co_host_rx_ready = 0, co_rst_out = 0,
     co_cpu_booting = 1, co_halted = 0, co_instr_complete = 0, co_led_out = 0, co_debug_pc = 0,
     co_debug_instruction = 0, co_debug_rs1_data = 0, co_debug_rs2_data = 0, co_debug_rd_data = 0,
     co_debug_fsm_state = 0, co_debug_current_pc = 0, co_debug_current_instruction = 0\<rparr>"

definition idle_cpu :: "unit cpu_model" where
  "idle_cpu = \<lparr>cm_eval = (\<lambda>i c. c), cm_outputs = (\<lambda>c. idle_outputs)\<rparr>"

definition idle_inputs :: cpu_inputs where
  "idle_inputs = \<lparr>ci_clk = 0, ci_video_clk = 0, ci_audio_clk = 0, ci_sdram_clk = 0, ci_rst = 0,
     ci_host_tx_ready = 1, ci_host_rx_valid = 0, ci_host_rx_data = 0, ci_com_err = 0\<rparr>"

definition idle_simulator :: "u32 \<Rightarrow> unit simulator" where
  "idle_simulator latency = simulator_new_with_options () idle_inputs False False latency"

lemma sim_reachable_safe_witness:
  "sim_inv (idle_simulator 2) \<and> send_bus_request (request_read 0x80000000 Word) (idle_simulator 2) \<noteq> None \<and>
    step_cycle idle_cpu 0 (idle_simulator 2) \<noteq> None"
proof -
  have r: "sim_reachable idle_cpu (idle_simulator 2)"
    by (simp add: idle_simulator_def simulator_new_with_options_def sim_reachable.sim_start)
  have "\<not> target_fault idle_cpu (cpu_eval idle_cpu (drive_clocks 0 (idle_simulator 2)))"
    by (simp add: target_fault_def served_request_def host_bus_rx_def idle_cpu_def idle_outputs_def
        idle_simulator_def simulator_new_with_options_def simulator_new_def handler_new_def)
  then show ?thesis
    using sim_reachable_safe [OF r, of "request_read 0x80000000 Word" 0] by blast
qed

lemma idle_step:
  assumes "sim_inv s" "\<not> target_fault idle_cpu (cpu_eval idle_cpu (drive_clocks 0 s))"
  shows "\<exists>v s'. step_cycle idle_cpu e s = Some (Ok v, s')"
proof -
  obtain s1 where s1: "clock_edges idle_cpu s = Some s1"
    using clock_edges_inv(1) [OF assms(1), of idle_cpu] assms(2) by (cases "clock_edges idle_cpu s") auto
  have "check_hung idle_cpu s1 = Some (Ok (), s1)"
    by (simp add: check_hung_def idle_cpu_def idle_outputs_def)
  then show ?thesis using s1 by (simp add: step_cycle_def split: prod.split)
qed

section \<open>Latency\<close>

lemma host_bus_accept_busy:
  assumes "hb_accepted_request (si_handler s) \<noteq> None"
  shows "host_bus_accept s = Some s"
  using assms by (auto simp: host_bus_accept_def accept_request_def)

lemma latency_step:
  assumes "sim_inv s" "si_pending_response s = Some p" "hb_accepted_request (si_handler s) = Some r"
    and "handle_host_bus_interface M s = Some s'"
  shows "if pr_accepted_cycle p + ucast (si_mem_latency_cycles s) \<le> si_cycle_count s
    then si_pending_response s' = None \<and>
      hb_pending_response (si_handler s') = Some (with_metadata r (pr_response p))
    else si_pending_response s' = Some p \<and> hb_pending_response (si_handler s') = None \<and>
      hb_accepted_request (si_handler s') = Some r"
proof -
  obtain s1 where s1: "host_bus_rx M s = Some s1"
    using assms(4) by (cases "host_bus_rx M s") (auto simp: handle_host_bus_interface_def)
  note i1 = host_bus_rx_inv [OF assms(1) s1]
  define s2 where "s2 = host_bus_tx M s1"
  have n: "hb_pending_response (si_handler s) = None" "answers r (pr_response p)"
    using assms(1-3) by (auto simp: sim_inv_def latency_inv_def)
  have i2: "si_pending_response s2 = Some p" "hb_pending_response (si_handler s2) = None"
    "hb_accepted_request (si_handler s2) = Some r" "si_cycle_count s2 = si_cycle_count s"
    "si_mem_latency_cycles s2 = si_mem_latency_cycles s"
    using host_bus_tx_inv [of s1 M] i1 n(1) assms(2,3) by (simp_all add: s2_def)
  obtain s3 where s3: "host_bus_complete s2 = Some s3" "host_bus_accept s3 = Some s'"
    using assms(4) s1 by (auto simp: handle_host_bus_interface_def s2_def bind_eq_Some_conv)
  have "hb_accepted_request (si_handler s3) = Some r"
    using s3(1) i2(1) sim_complete_answers [OF i2(3) n(2)] i2(3)
    by (auto simp: host_bus_complete_def split: if_splits)
  then have "s' = s3" using host_bus_accept_busy [of s3] s3(2) by simp
  then show ?thesis
    using s3(1) i2 sim_complete_answers [OF i2(3) n(2)]
    by (auto simp: host_bus_complete_def split: if_splits)
qed

text \<open>Cycles without a hang.\<close>

fun sim_cycles :: "'c cpu_model \<Rightarrow> u64 list \<Rightarrow> 'c simulator \<Rightarrow> 'c simulator option" where
  "sim_cycles M [] s = Some s"
| "sim_cycles M (e # es) s =
    (case step_cycle M e s of Some (Inr v, s) \<Rightarrow> sim_cycles M es s | _ \<Rightarrow> None)"

lemma sim_cycles_waiting:
  assumes "sim_cycles M es s = Some s'" "sim_inv s" "si_pending_response s = Some p"
    and "hb_accepted_request (si_handler s) = Some r"
    and "unat (si_cycle_count s) + length es \<le> unat (pr_accepted_cycle p) + unat (si_mem_latency_cycles s)"
    and "unat (pr_accepted_cycle p) + unat (si_mem_latency_cycles s) < 2 ^ 64"
  shows "sim_inv s' \<and> si_pending_response s' = Some p \<and> hb_pending_response (si_handler s') = None \<and>
    hb_accepted_request (si_handler s') = Some r \<and> si_mem_latency_cycles s' = si_mem_latency_cycles s \<and>
    unat (si_cycle_count s') = unat (si_cycle_count s) + length es"
  using assms
proof (induction es arbitrary: s)
  case Nil
  then show ?case by (auto simp: sim_inv_def latency_inv_def)
next
  case (Cons e es)
  obtain v s1 where s1: "step_cycle M e s = Some (Ok v, s1)" "sim_cycles M es s1 = Some s'"
    using Cons.prems(1) by (auto split: option.splits sum.splits)
  note i1 = step_cycle_inv(2) [OF Cons.prems(2) s1(1)]
  let ?s0 = "cpu_eval M (drive_clocks 0 s)"
  obtain s2 where s2: "handle_host_bus_interface M ?s0 = Some s2" "si_handler s1 = si_handler s2"
    "si_pending_response s1 = si_pending_response s2" using i1 by blast
  have l: "unat (ucast (si_mem_latency_cycles s) :: u64) = unat (si_mem_latency_cycles s)"
    by (rule unat_ucast_up) simp
  then have "unat (pr_accepted_cycle p + ucast (si_mem_latency_cycles s)) =
      unat (pr_accepted_cycle p) + unat (si_mem_latency_cycles s)"
    using Cons.prems(6) by (subst unat_plus_nowrap) (simp_all only: l, simp)
  then have "\<not> pr_accepted_cycle p + ucast (si_mem_latency_cycles s) \<le> si_cycle_count s"
    using Cons.prems(5) by (simp add: word_le_nat_alt)
  then have w: "si_pending_response s1 = Some p" "hb_accepted_request (si_handler s1) = Some r"
    using latency_step [of ?s0 p r M s2] Cons.prems(2-4) s2 by (simp_all add: sim_inv_def)
  have "unat (si_cycle_count s + 1) = unat (si_cycle_count s) + 1"
    using Cons.prems(5,6) by (subst unat_plus_nowrap) simp_all
  then have c: "unat (si_cycle_count s1) = unat (si_cycle_count s) + 1" using i1 by simp
  show ?case
    using Cons.IH [OF s1(2) _ w] i1 c Cons.prems(5,6) by simp
qed

lemma sim_cycles_snoc:
  "sim_cycles M (es @ [e]) s = Some s' \<Longrightarrow>
    \<exists>s1 v. sim_cycles M es s = Some s1 \<and> step_cycle M e s1 = Some (Ok v, s')"
  by (induction es arbitrary: s) (auto split: option.splits sum.splits)

lemma handle_accepts:
  assumes "si_pending_response s = None" "handle_host_bus_interface M s = Some s'"
    and "si_pending_response s' = Some p"
  shows "pr_accepted_cycle p = si_cycle_count s \<and> si_mem_latency_cycles s > 0"
proof -
  obtain s1 where s1: "host_bus_rx M s = Some s1"
    using assms(2) by (cases "host_bus_rx M s") (auto simp: handle_host_bus_interface_def)
  define s2 where "s2 = host_bus_tx M s1"
  have i1: "si_pending_response s1 = None" "si_cycle_count s1 = si_cycle_count s"
    "si_mem_latency_cycles s1 = si_mem_latency_cycles s"
    using s1 assms(1) by (auto simp: host_bus_rx_def split: if_splits prod.splits sum.splits)
  then have i2: "si_pending_response s2 = None" "si_cycle_count s2 = si_cycle_count s"
    "si_mem_latency_cycles s2 = si_mem_latency_cycles s"
    by (simp_all add: s2_def host_bus_tx_def split: prod.splits option.splits)
  then have "host_bus_accept s2 = Some s'"
    using assms(2) s1 by (simp add: handle_host_bus_interface_def s2_def host_bus_complete_def)
  then show ?thesis
    using i2 assms(3)
    by (auto simp: host_bus_accept_def sim_complete_request_def Let_def split: prod.splits sum.splits option.splits if_splits)
qed

text \<open>
  C16: the latency is exact.  When, in a state with the invariant of the reachable ones, a cycle accepts a request of the target and the latency is not
  zero, the response is not available before as many further cycles as the latency have passed, and
  it is in the last of them, with the metadata of the request.
\<close>

theorem sim_latency_exact:
  assumes "sim_inv s" "si_pending_response s = None"
    and "step_cycle M e s = Some (Ok v, s1)" "si_pending_response s1 = Some p"
    and "sim_cycles M es s1 = Some s2" "unat (si_cycle_count s) + unat (si_mem_latency_cycles s) < 2 ^ 64"
    and "length es \<le> unat (si_mem_latency_cycles s)"
  shows "if length es < unat (si_mem_latency_cycles s)
    then si_pending_response s2 = Some p \<and> hb_pending_response (si_handler s2) = None
    else si_pending_response s2 = None \<and> (\<exists>r. hb_accepted_request (si_handler s1) = Some r \<and>
      hb_pending_response (si_handler s2) = Some (with_metadata r (pr_response p)))"
proof -
  note i1 = step_cycle_inv(2) [OF assms(1,3)]
  let ?s0 = "cpu_eval M (drive_clocks 0 s)" and ?L = "unat (si_mem_latency_cycles s)"
  obtain h1 where h1: "handle_host_bus_interface M ?s0 = Some h1" "si_handler s1 = si_handler h1"
    "si_pending_response s1 = si_pending_response h1" using i1 by blast
  have a: "pr_accepted_cycle p = si_cycle_count s" "0 < si_mem_latency_cycles s"
    using handle_accepts [OF _ h1(1), of p] assms(2,4) h1(3) by simp_all
  then have L: "0 < ?L" by (simp add: word_less_nat_alt)
  have c1: "unat (si_cycle_count s1) = unat (si_cycle_count s) + 1"
    using i1 assms(6) L by (simp add: unat_plus_nowrap)
  obtain r where r: "hb_accepted_request (si_handler s1) = Some r"
    using i1 assms(4) by (auto simp: sim_inv_def latency_inv_def)
  have wait: "sim_cycles M fs s1 = Some t \<Longrightarrow> length fs < ?L \<Longrightarrow> sim_inv t \<and>
      si_pending_response t = Some p \<and> hb_pending_response (si_handler t) = None \<and>
      hb_accepted_request (si_handler t) = Some r \<and> si_mem_latency_cycles t = si_mem_latency_cycles s1 \<and>
      unat (si_cycle_count t) = unat (si_cycle_count s1) + length fs" for fs t
    by (rule sim_cycles_waiting [OF _ _ assms(4) r]) (use i1 c1 a(1) assms(6) in simp_all)
  show ?thesis
  proof (cases "length es < ?L")
    case True
    then show ?thesis using wait [OF assms(5)] by simp
  next
    case False
    then obtain fs f where es: "es = fs @ [f]" "length fs + 1 = ?L"
      using L assms(7) by (cases es rule: rev_cases) auto
    obtain t w where t: "sim_cycles M fs s1 = Some t" "step_cycle M f t = Some (Ok w, s2)"
      using sim_cycles_snoc assms(5) unfolding es(1) by blast
    have q: "sim_inv t" "si_pending_response t = Some p" "hb_accepted_request (si_handler t) = Some r"
      "si_mem_latency_cycles t = si_mem_latency_cycles s" "unat (si_cycle_count t) = unat (si_cycle_count s) + ?L"
      using wait [OF t(1)] es(2) i1 c1 by simp_all
    obtain h2 where h2: "handle_host_bus_interface M (cpu_eval M (drive_clocks 0 t)) = Some h2"
      "si_handler s2 = si_handler h2" "si_pending_response s2 = si_pending_response h2"
      using step_cycle_inv(2) [OF q(1) t(2)] by blast
    have "unat (ucast (si_mem_latency_cycles s) :: u64) = ?L" by (rule unat_ucast_up) simp
    then have "unat (si_cycle_count s + ucast (si_mem_latency_cycles s)) = unat (si_cycle_count s) + ?L"
      using assms(6) by (subst unat_plus_nowrap) simp_all
    then have "pr_accepted_cycle p + ucast (si_mem_latency_cycles t) \<le> si_cycle_count t"
      using q(4,5) a(1) by (simp add: word_le_nat_alt)
    then show ?thesis
      using latency_step [of "cpu_eval M (drive_clocks 0 t)" p r M h2] q h2 False r by (simp add: sim_inv_def)
  qed
qed

lemma sim_latency_exact_witness:
  "\<exists>s v s1 p s2 r. sim_inv s \<and> si_mem_latency_cycles s = 1 \<and>
    step_cycle idle_cpu 0 s = Some (Ok v, s1) \<and> si_pending_response s1 = Some p \<and>
    sim_cycles idle_cpu [0] s1 = Some s2 \<and>
    hb_pending_response (si_handler s2) = Some (with_metadata r (pr_response p))"
proof -
  let ?q = "request_write 0x80000000 5 Word"
  define h where "h = snd (rx_feed handler_new (request_packet 0 ?q))"
  define s where "s = (idle_simulator 1)\<lparr>si_handler := h\<rparr>"
  have ok: "request_ok ?q" by (simp add: request_ok_def request_write_def MAX_BURST_BEATS_def)
  have feed: "handler_reachable g \<Longrightarrow> handler_reachable (snd (rx_feed g bs))" for g bs
  proof (induction g bs rule: rx_feed.induct)
    case (2 g b bs)
    then show ?case using handler_reachable.reach_rx [of g b] by (auto split: prod.splits sum.splits)
  qed simp
  have hr: "handler_reachable h" unfolding h_def by (rule feed [OF handler_reachable.reach_new])
  have h: "hb_accepted_request h = None" "hb_pending_response h = None"
    "hb_incoming_request h = \<lparr>ir_valid = True, ir_request = Some (received_request ?q)\<rparr>"
    using rx_request_packet [of handler_new ?q 0] ok by (simp_all add: h_def del: rx_feed.simps)
  have new: "sim_inv (idle_simulator 1)"
    by (simp add: idle_simulator_def simulator_new_with_options_def simulator_new_inv)
  have s: "sim_inv s" "si_pending_response s = None" "si_cycle_count s = 0" "si_mem_latency_cycles s = 1"
    using new hr h(1,2) by (simp_all add: s_def sim_inv_def latency_inv_def idle_simulator_def
        simulator_new_with_options_def simulator_new_def)
  have nofault: "\<not> target_fault idle_cpu t"
    if q: "\<And>r. served_request idle_cpu t r \<Longrightarrow> r = received_request ?q" for t
  proof -
    have "co_host_tx_valid (cpu_signals idle_cpu t) = 0" by (simp add: idle_cpu_def idle_outputs_def)
    moreover have "\<not> unserved (received_request ?q)"
      by (simp add: unserved_def received_request_def request_write_def)
    ultimately show ?thesis using q by (auto simp: target_fault_def)
  qed
  have "served_request idle_cpu (cpu_eval idle_cpu (drive_clocks 0 s)) r \<Longrightarrow> r = received_request ?q" for r
    using h by (simp add: served_request_def host_bus_rx_def idle_cpu_def idle_outputs_def s_def)
  from idle_step [OF s(1) nofault [OF this], of 0] obtain v s1 where
    s1: "step_cycle idle_cpu 0 s = Some (Ok v, s1)" by blast
  let ?s0 = "cpu_eval idle_cpu (drive_clocks 0 s)"
  obtain h1 where h1: "handle_host_bus_interface idle_cpu ?s0 = Some h1"
    "si_handler s1 = si_handler h1" "si_pending_response s1 = si_pending_response h1"
    using step_cycle_inv(2) [OF s(1) s1] by blast
  define s00 where "s00 = ?s0\<lparr>si_inputs := (si_inputs ?s0)\<lparr>ci_host_rx_valid := 0\<rparr>\<rparr>"
  have acc: "host_bus_accept s00 = Some h1"
    using h1(1) s(2) by (simp add: handle_host_bus_interface_def host_bus_rx_def host_bus_tx_def
        host_bus_complete_def idle_cpu_def idle_outputs_def s00_def)
  have s00: "si_pending_response s00 = None" "si_handler s00 = h" "si_mem_latency_cycles s00 = 1"
    using s by (simp_all add: s00_def s_def)
  have ac: "accept_request h = (Ok (received_request ?q), h\<lparr>hb_accepted_request := Some (received_request ?q),
      hb_incoming_request := \<lparr>ir_valid = False, ir_request = None\<rparr>\<rparr>)"
    using h by (simp add: accept_request_def)
  obtain p where p: "si_pending_response s1 = Some p"
    and g: "si_handler s1 = h\<lparr>hb_accepted_request := Some (received_request ?q),
      hb_incoming_request := \<lparr>ir_valid = False, ir_request = None\<rparr>\<rparr>"
    using acc s00 h1(2,3) by (auto simp: host_bus_accept_def ac Let_def split: option.splits)
  have i1: "sim_inv s1" using step_cycle_inv(2) [OF s(1) s1] by simp
  have "served_request idle_cpu (cpu_eval idle_cpu (drive_clocks 0 s1)) r \<Longrightarrow> r = received_request ?q" for r
    by (simp add: served_request_def host_bus_rx_def idle_cpu_def idle_outputs_def g)
  from idle_step [OF i1 nofault [OF this], of 0] obtain w s2 where
    s2: "step_cycle idle_cpu 0 s1 = Some (Ok w, s2)" by blast
  then have c: "sim_cycles idle_cpu [0] s1 = Some s2" by simp
  have "\<exists>r. hb_pending_response (si_handler s2) = Some (with_metadata r (pr_response p))"
    using sim_latency_exact [OF s(1,2) s1 p c] s(3,4) by auto
  then show ?thesis using s(1,4) s1 p c by blast
qed

end
