(* ===== verification/Sim_Runtime.thy ===== *)
theory Sim_Runtime
  imports Sim_Safety Runtime_Client
begin

text \<open>
  The simulator runtime (\<open>device-runtime/src/sim.rs\<close>): a background thread that owns the simulator
  core, takes commands, steps one cycle per iteration, and reports events, responses and timeouts;
  the calls of the main thread; and the operations of \<open>Runtime_Client\<close> on it.  The clock and the
  moments at which the threads run are inputs.  A request that timed out is never withdrawn from
  the core; \<open>Sim_Client\<close> shows what follows.
\<close>

section \<open>The two threads\<close>

definition SIM_HOST_REQUEST_TIMEOUT :: nat where "SIM_HOST_REQUEST_TIMEOUT = 1000"

datatype sim_command = SimSendRequest bus_request | SimReset | SimShutdown

datatype sim_event = SimBus bus_event | SimFatalError string

record 'c sim_runtime =
  sr_simulator :: "'c simulator"
  sr_commands :: "sim_command list"
  sr_events :: "sim_event list"
  sr_pending :: "pending_host_request option"
  sr_running :: bool
  sr_reset_result :: "(string, unit) result option"

text \<open>
  The start of \<open>run_loop\<close>: the core, the devices, the initial reset.  \<open>cpu\<close> is what the creation of
  the CPU model returned.
\<close>

fun register_sim_devices ::
  "'c simulator \<Rightarrow> (u32 \<times> ext_device) list \<Rightarrow> ((string, unit) result \<times> 'c simulator) option" where
  "register_sim_devices s [] = Some (Ok (), s)"
| "register_sim_devices s ((base, d) # ds) =
    (case sim_register_device s base d of
       None \<Rightarrow> None
     | Some (Inl e, s) \<Rightarrow> Some (Err (''Failed to register device at 0x'' @ fmt_08x base @ '': '' @ e), s)
     | Some (Inr _, s) \<Rightarrow> register_sim_devices s ds)"

definition sim_runtime_new ::
  "'c cpu_model \<Rightarrow> (string, 'c) result \<Rightarrow> cpu_inputs \<Rightarrow> bool \<Rightarrow> bool \<Rightarrow> u32 \<Rightarrow> (u32 \<times> ext_device) list \<Rightarrow>
   (string, 'c sim_runtime) result option" where
  "sim_runtime_new M cpu inputs trace vcd latency devices =
    (case cpu of
       Inl e \<Rightarrow> Some (Err (''Failed to create simulator: '' @ e))
     | Inr c \<Rightarrow>
       (case register_sim_devices (simulator_new_with_options c inputs trace vcd latency) devices of
          None \<Rightarrow> None
        | Some (Inl e, s) \<Rightarrow> Some (Err e)
        | Some (Inr _, s) \<Rightarrow>
          (case simulator_reset M s of
             None \<Rightarrow> None
           | Some (Inl e, s) \<Rightarrow>
             Some (Err (''Failed to initialize simulator reset state: '' @ boot_error_message e))
           | Some (Inr _, s) \<Rightarrow>
             Some (Ok \<lparr>sr_simulator = s, sr_commands = [], sr_events = [], sr_pending = None,
               sr_running = True, sr_reset_result = None\<rparr>))))"

definition sr_emit :: "sim_event list \<Rightarrow> 'c sim_runtime \<Rightarrow> 'c sim_runtime" where
  "sr_emit es r = r\<lparr>sr_events := sr_events r @ es\<rparr>"

definition pending_timeout_event :: "pending_host_request \<Rightarrow> sim_event" where
  "pending_timeout_event p = SimBus (HostRequestTimeout (ph_addr p) (ph_timeout p))"

text \<open>One command; the flag says whether the loop goes on.\<close>

definition sr_handle_command ::
  "'c cpu_model \<Rightarrow> sim_command \<Rightarrow> 'c sim_runtime \<Rightarrow> (bool \<times> 'c sim_runtime) option" where
  "sr_handle_command M c r =
    (case c of
       SimShutdown \<Rightarrow> Some (False, r)
     | SimSendRequest q \<Rightarrow>
       (case send_bus_request q (sr_simulator r) of
          None \<Rightarrow> None
        | Some (Inr _, s) \<Rightarrow> Some (True, r\<lparr>sr_simulator := s\<rparr>)
        | Some (Inl e, s) \<Rightarrow>
          Some (True, (sr_emit (case sr_pending r of None \<Rightarrow> [] | Some p \<Rightarrow> [pending_timeout_event p]) r)
            \<lparr>sr_simulator := s, sr_pending := None\<rparr>))
     | SimReset \<Rightarrow>
       (case simulator_reset M (sr_simulator r) of
          None \<Rightarrow> None
        | Some (res, s) \<Rightarrow>
          Some (True, r\<lparr>sr_simulator := s,
            sr_reset_result := Some (map_sum (\<lambda>e. ''Reset failed: '' @ boot_error_message e) id res)\<rparr>)))"

text \<open>The timeout and the response of the pending request, checked after every cycle.\<close>

definition sr_check_timeout :: "nat \<Rightarrow> 'c sim_runtime \<Rightarrow> 'c sim_runtime" where
  "sr_check_timeout now r =
    (case sr_pending r of
       Some p \<Rightarrow> (if timed_out now p then (sr_emit [pending_timeout_event p] r)\<lparr>sr_pending := None\<rparr> else r)
     | None \<Rightarrow> r)"

definition sr_check_response :: "'c sim_runtime \<Rightarrow> 'c sim_runtime" where
  "sr_check_response r =
    (case sr_pending r of
       None \<Rightarrow> r
     | Some p \<Rightarrow>
       (case receive_bus_response (sr_simulator r) of
          (None, s) \<Rightarrow> r\<lparr>sr_simulator := s\<rparr>
        | (Some resp, s) \<Rightarrow>
          (sr_emit [SimBus (response_event p resp)] r)\<lparr>sr_simulator := s, sr_pending := None\<rparr>))"

text \<open>The rest of an iteration: one cycle and the two checks; a hang ends the loop.\<close>

definition sr_cycle :: "'c cpu_model \<Rightarrow> nat \<Rightarrow> u64 \<Rightarrow> 'c sim_runtime \<Rightarrow> 'c sim_runtime option" where
  "sr_cycle M now elapsed_us r =
    (case step_cycle M elapsed_us (sr_simulator r) of
       None \<Rightarrow> None
     | Some (Inl e, s) \<Rightarrow>
       Some ((sr_emit [SimFatalError (''Simulation error: '' @ hung_state_message e)] r)
         \<lparr>sr_simulator := s, sr_running := False\<rparr>)
     | Some (Inr v, s) \<Rightarrow>
       Some (sr_check_response (sr_check_timeout now
         ((sr_emit (case v of None \<Rightarrow> [] | Some x \<Rightarrow> [SimBus (TohostTermination x)]) r)\<lparr>sr_simulator := s\<rparr>))))"

definition sr_iteration :: "'c cpu_model \<Rightarrow> nat \<Rightarrow> u64 \<Rightarrow> 'c sim_runtime \<Rightarrow> 'c sim_runtime option" where
  "sr_iteration M now elapsed_us r =
    (if \<not> sr_running r then Some r
     else case sr_commands r of
       [] \<Rightarrow> sr_cycle M now elapsed_us r
     | c # cs \<Rightarrow>
       (case sr_handle_command M c (r\<lparr>sr_commands := cs\<rparr>) of
          None \<Rightarrow> None
        | Some (True, r) \<Rightarrow> sr_cycle M now elapsed_us r
        | Some (False, r) \<Rightarrow> Some (r\<lparr>sr_running := False\<rparr>)))"

text \<open>The calls of the main thread.\<close>

definition sr_has_pending :: "'c sim_runtime \<Rightarrow> bool" where
  "sr_has_pending r = (sr_pending r \<noteq> None)"

definition sr_disconnected :: "string \<Rightarrow> device_error" where
  "sr_disconnected s = IoError BrokenPipe (''Background thread disconnected: '' @ s)"

definition sr_send_host_request ::
  "nat \<Rightarrow> bus_request \<Rightarrow> 'c sim_runtime \<Rightarrow> (device_error, unit) result \<times> 'c sim_runtime" where
  "sr_send_host_request now q r =
    (if classify_host_request_route q = InvalidSpanningRegion
     then (Err (HandlerFailed InvalidAddressRange), r)
     else if sr_pending r \<noteq> None then (Err (HandlerFailed RequestPending), r)
     else if sr_running r then
       (Ok (), r\<lparr>sr_pending := Some \<lparr>ph_addr = br_addr q, ph_wdata = br_wdata q, ph_sent_at = now,
          ph_timeout = SIM_HOST_REQUEST_TIMEOUT\<rparr>, sr_commands := sr_commands r @ [SimSendRequest q]\<rparr>)
     else (Err (sr_disconnected ''sending on a closed channel''), r\<lparr>sr_pending := None\<rparr>))"

definition sr_poll :: "'c sim_runtime \<Rightarrow> (device_error, bus_event option) result \<times> 'c sim_runtime" where
  "sr_poll r =
    (case sr_events r of
       SimBus event # es \<Rightarrow> (Ok (Some event), r\<lparr>sr_events := es\<rparr>)
     | SimFatalError msg # es \<Rightarrow> (Err (IoError BrokenPipe msg), r\<lparr>sr_events := es\<rparr>)
     | [] \<Rightarrow>
       if sr_running r then (Ok None, r)
       else (Err (IoError BrokenPipe ''Background thread terminated''), r))"

text \<open>A system reset: the command and, once the thread has answered or the deadline is over, its result.\<close>

definition sr_reset_begin :: "'c sim_runtime \<Rightarrow> (device_error, unit) result \<times> 'c sim_runtime" where
  "sr_reset_begin r =
    (if sr_has_pending r then (Err (HandlerFailed RequestPending), r)
     else if sr_running r then (Ok (), r\<lparr>sr_commands := sr_commands r @ [SimReset]\<rparr>)
     else (Err (sr_disconnected ''sending on a closed channel''), r))"

definition sr_reset_end :: "'c sim_runtime \<Rightarrow> (device_error, unit) result \<times> 'c sim_runtime" where
  "sr_reset_end r =
    (case sr_reset_result r of
       Some (Inr _) \<Rightarrow> (Ok (), r\<lparr>sr_reset_result := None\<rparr>)
     | Some (Inl e) \<Rightarrow> (Err (IoError InvalidData e), r\<lparr>sr_reset_result := None\<rparr>)
     | None \<Rightarrow>
       (if sr_running r then (Err (IoError TimedOut ''Timed out waiting for system reset''), r)
        else (Err (IoError BrokenPipe ''Background thread terminated during system reset''), r)))"

text \<open>A CPU reset is a request of its own, whose loop does not look at the pending request.\<close>

fun accept_reset :: "bool \<Rightarrow> bus_event \<Rightarrow> unit option" where
  "accept_reset pending (HostWriteResponse a v s) = (if a = sysctrl_reset_addr then Some () else None)"
| "accept_reset pending _ = None"

definition sim_reset_cpu ::
  "'r device_runtime \<Rightarrow> 'r \<Rightarrow> ((device_error, unit) result \<times> 'r) option" where
  "sim_reset_cpu ops r =
    (if dr_has_pending_host_request ops r then Some (Err (HandlerFailed RequestPending), r)
     else map_option (\<lambda>(res, log, r). (res, r))
       (exchange ops (request_write sysctrl_reset_addr SYSCTRL_RESET_CPU Word) accept_reset
         (request_timeout sysctrl_reset_addr
           (''Timed out writing CPU reset to RESET register at 0x'' @ fmt_08x sysctrl_reset_addr)) r []))"

end
