(* ===== verification/Fpga_Runtime.thy ===== *)
theory Fpga_Runtime
  imports Runtime_Requests Host_Bus_Session
begin

text \<open>
  The FPGA runtime (\<open>device-runtime/src/fpga.rs\<close>).  The background thread owns the system bus, the
  host-bus handler and the two 64-byte buffers; the main thread talks to it through a command
  queue, an event queue and the shared pending request.  The serial port, the clock and the moments
  at which the threads run are inputs: one \<open>poll_input\<close> per iteration of the background loop, and an
  explicit sequence of steps of the two threads.  A buffer is the list of its first
  \<open>rx_buffer_len\<close> (\<open>tx_buffer_len\<close>) bytes, the only ones that are read.
\<close>

section \<open>Deadlines\<close>

definition BUFFER_SIZE :: nat where "BUFFER_SIZE = 64"
definition HOST_REQUEST_TIMEOUT :: nat where "HOST_REQUEST_TIMEOUT = 1000"
definition HOST_BUS_PACKET_HEADER_BYTES :: u64 where "HOST_BUS_PACKET_HEADER_BYTES = 8"
definition UART_BITS_PER_BYTE :: u64 where "UART_BITS_PER_BYTE = 10"
definition HOST_REQUEST_TIMEOUT_MARGIN :: nat where "HOST_REQUEST_TIMEOUT_MARGIN = 250"

definition saturating_mul :: "'a::len word \<Rightarrow> 'a word \<Rightarrow> 'a word" where
  "saturating_mul a b = (case checked_mul a b of Some c \<Rightarrow> c | None \<Rightarrow> - 1)"

definition div_ceil :: "'a::len word \<Rightarrow> 'a word \<Rightarrow> 'a word" where
  "div_ceil a b = (if a mod b = 0 then a div b else a div b + 1)"

text \<open>
  In milliseconds; \<^term>\<open>None\<close>: the division by a zero baud rate.  A duration has room for every
  sum of two 64-bit milliseconds, so its saturating addition is exact.
\<close>

definition host_request_timeout :: "bus_request \<Rightarrow> u32 \<Rightarrow> nat option" where
  "host_request_timeout r baud_rate =
    (if classify_host_request_route r \<noteq> RouteHostBusHandler then Some HOST_REQUEST_TIMEOUT
     else
       (let payload_bytes = word_of_nat (min (length (br_data r)) (2 ^ 64 - 1));
            request_bytes = saturating_add HOST_BUS_PACKET_HEADER_BYTES payload_bytes;
            response_payload_bytes = (if br_we r then 0
              else saturating_mul (ucast (br_burst_len r)) (ucast (byte_count (br_size r))));
            response_bytes = saturating_add HOST_BUS_PACKET_HEADER_BYTES response_payload_bytes;
            total_bits = saturating_mul (saturating_add request_bytes response_bytes) UART_BITS_PER_BYTE;
            baud = ucast baud_rate :: u64
        in if baud = 0 then None
           else Some (max HOST_REQUEST_TIMEOUT
             (unat (div_ceil (saturating_mul total_bits 1000) baud) + HOST_REQUEST_TIMEOUT_MARGIN))))"

section \<open>The background thread\<close>

record fpga_thread =
  ft_bus :: system_bus
  ft_handler :: host_bus_handler
  ft_rx_buffer :: "u8 list"
  ft_tx_buffer :: "u8 list"
  ft_pending :: "pending_host_request option"

type_synonym io_error = "io_error_kind \<times> string"

text \<open>
  What the port and the clock do in one iteration: the time of the timeout check, the bytes that
  wait in the port (\<open>read\<close> takes as many as there is room for) or the error of \<open>read\<close>, the number
  of bytes that \<open>write\<close> accepts or its error.
\<close>

record poll_input =
  pi_now :: nat
  pi_read :: "(io_error, u8 list) result"
  pi_write :: "(io_error, nat) result"

definition fill_rx_buffer ::
  "(io_error, u8 list) result \<Rightarrow> u8 list \<Rightarrow> (device_error, unit) result \<times> u8 list" where
  "fill_rx_buffer port rx =
    (let available_space = BUFFER_SIZE - length rx
     in if available_space = 0 then (Ok (), rx)
        else case port of
          Inr bytes \<Rightarrow> (Ok (), rx @ take available_space bytes)
        | Inl (k, s) \<Rightarrow> if k = TimedOut \<or> k = WouldBlock then (Ok (), rx) else (Err (IoError k s), rx))"

fun fill_tx_loop :: "nat \<Rightarrow> host_bus_handler \<Rightarrow> u8 list \<Rightarrow> host_bus_handler \<times> u8 list" where
  "fill_tx_loop 0 h tx = (h, tx)"
| "fill_tx_loop (Suc space) h tx =
    (case transfer_tx_byte h of
       (Some byte, h) \<Rightarrow> fill_tx_loop space h (tx @ [byte])
     | (None, h) \<Rightarrow> (h, tx))"

definition fill_tx_buffer ::
  "host_bus_handler \<Rightarrow> u8 list \<Rightarrow> host_bus_handler \<times> u8 list" where
  "fill_tx_buffer h tx = fill_tx_loop (BUFFER_SIZE - length tx) h tx"

text \<open>The bytes written to the port are returned with the rest of the buffer.\<close>

definition drain_tx_buffer ::
  "(io_error, nat) result \<Rightarrow> u8 list \<Rightarrow> (device_error, unit) result \<times> u8 list \<times> u8 list" where
  "drain_tx_buffer port tx =
    (if tx = [] then (Ok (), [], tx)
     else case port of
       Inr n \<Rightarrow> (Ok (), take n tx, drop n tx)
     | Inl (k, s) \<Rightarrow> if k = TimedOut \<or> k = WouldBlock then (Ok (), [], tx)
                    else (Err (IoError k s), [], tx))"

definition tick_bus :: "system_bus \<Rightarrow> u32 option \<times> system_bus" where
  "tick_bus b =
    (let b = clock_cycle_all_devices b;
         (v, s) = acknowledge_termination (sb_sim_control b)
     in (v, b\<lparr>sb_sim_control := s\<rparr>))"

text \<open>A request of the target, the devices, and the termination.\<close>

definition serve_target :: "host_bus_handler \<Rightarrow> fpga_thread \<Rightarrow> (bus_event option \<times> fpga_thread) option" where
  "serve_target h t =
    (case (if has_incoming_request h then accept_request h else (Err NoRequestAvailable, h)) of
             (Inr request, h) \<Rightarrow>
               (case process_cpu_request h request (ft_bus t) of
                  None \<Rightarrow> None
                | Some (event, h, b) \<Rightarrow>
                  (case tick_bus b of
                     (Some v, b) \<Rightarrow> Some (Some (TohostTermination v), t\<lparr>ft_handler := h, ft_bus := b\<rparr>)
                   | (None, b) \<Rightarrow> Some (Some event, t\<lparr>ft_handler := h, ft_bus := b\<rparr>)))
           | (Inl e, h) \<Rightarrow>
             (case tick_bus (ft_bus t) of
                (Some v, b) \<Rightarrow> Some (Some (TohostTermination v), t\<lparr>ft_handler := h, ft_bus := b\<rparr>)
              | (None, b) \<Rightarrow> Some (None, t\<lparr>ft_handler := h, ft_bus := b\<rparr>)))"

text \<open>After the transfers: the host response, or else the target.\<close>

definition poll_transactions ::
  "fpga_thread \<Rightarrow> (bus_event option \<times> fpga_thread) option" where
  "poll_transactions t =
    (let (resp, h) = (if ft_pending t \<noteq> None then receive_response (ft_handler t)
                      else (None, ft_handler t));
         t = t\<lparr>ft_handler := h\<rparr>
     in case (ft_pending t, resp) of
          (Some p, Some response) \<Rightarrow>
            Some (Some (response_event p response), t\<lparr>ft_pending := None\<rparr>)
        | _ \<Rightarrow> serve_target h t)"

definition poll_transfer ::
  "poll_input \<Rightarrow> fpga_thread \<Rightarrow>
   ((device_error, bus_event option) result \<times> u8 list \<times> fpga_thread) option" where
  "poll_transfer i t =
    (case fill_rx_buffer (pi_read i) (ft_rx_buffer t) of
       (Inl e, rx) \<Rightarrow> Some (Err e, [], t\<lparr>ft_rx_buffer := rx\<rparr>)
     | (Inr _, rx) \<Rightarrow>
       (let (h, rx) = drain_rx_buffer (ft_handler t) rx;
            (h, tx) = fill_tx_buffer h (ft_tx_buffer t);
            (w, out, tx) = drain_tx_buffer (pi_write i) tx;
            t = t\<lparr>ft_handler := h, ft_rx_buffer := rx, ft_tx_buffer := tx\<rparr>
        in case w of
             Inl e \<Rightarrow> Some (Err e, out, t)
           | Inr _ \<Rightarrow> map_option (\<lambda>(ev, t). (Ok ev, out, t)) (poll_transactions t)))"

text \<open>The result, the bytes written to the port and the new state; \<^term>\<open>None\<close>: a panic of the bus.\<close>

definition poll_once ::
  "poll_input \<Rightarrow> fpga_thread \<Rightarrow>
   ((device_error, bus_event option) result \<times> u8 list \<times> fpga_thread) option" where
  "poll_once i t =
    (case ft_pending t of
       Some p \<Rightarrow>
         if timed_out (pi_now i) p
         then Some (Ok (Some (HostRequestTimeout (ph_addr p) (ph_timeout p))), [],
           t\<lparr>ft_rx_buffer := [], ft_tx_buffer := [], ft_pending := None,
             ft_handler := handler_reset (ft_handler t)\<rparr>)
         else poll_transfer i t
     | None \<Rightarrow> poll_transfer i t)"

section \<open>Commands\<close>

datatype runtime_command = SendRequest bus_request | ResetCommand reset_kind | Shutdown

datatype runtime_event = BusEvent bus_event | FatalError string | NonFatalError string

definition handle_send_request ::
  "bus_request \<Rightarrow> fpga_thread \<Rightarrow> (runtime_event list \<times> fpga_thread) option" where
  "handle_send_request r t =
    (case classify_host_request_route r of
       RouteHostBusHandler \<Rightarrow>
         (case send_request (ft_handler t) r of
            (Inr _, h) \<Rightarrow> Some ([], t\<lparr>ft_handler := h\<rparr>)
          | (Inl e, h) \<Rightarrow> Some ([NonFatalError (''Handler error: '' @ handler_error_debug e)],
              t\<lparr>ft_handler := h, ft_pending := None\<rparr>))
     | RouteSystemBus \<Rightarrow>
         (case process_system_bus_request r (ft_bus t) of
            None \<Rightarrow> None
          | Some (event, b) \<Rightarrow>
            (if ft_pending t \<noteq> None
             then Some ([BusEvent event], t\<lparr>ft_bus := b, ft_pending := None\<rparr>)
             else Some ([], t\<lparr>ft_bus := b\<rparr>)))
     | InvalidSpanningRegion \<Rightarrow>
         Some ([NonFatalError ''Invalid host request spanning RTL and non-RTL regions''],
           t\<lparr>ft_pending := None\<rparr>))"

fun reset_value :: "reset_kind \<Rightarrow> u32" where
  "reset_value ResetCpu = SYSCTRL_RESET_CPU"
| "reset_value ResetSystem = SYSCTRL_RESET_SYSTEM"

definition reset_request :: "reset_kind \<Rightarrow> bus_request" where
  "reset_request kind = request_write sysctrl_reset_addr (reset_value kind) Word"

text \<open>
  The wait for the answer to a CPU reset, over the inputs of its iterations: the result, \<^term>\<open>None\<close>
  while it still waits when the inputs end.
\<close>

fun reset_wait ::
  "poll_input list \<Rightarrow> fpga_thread \<Rightarrow>
   ((device_error, unit) result option \<times> runtime_event list \<times> u8 list \<times> fpga_thread) option" where
  "reset_wait [] t = Some (None, [], [], t)"
| "reset_wait (i # is) t =
    (case poll_once i t of
       None \<Rightarrow> None
     | Some (Inl e, out, t) \<Rightarrow> Some (Some (Err e), [], out, t)
     | Some (Inr ev, out, t) \<Rightarrow>
       (let again = (\<lambda>evs. map_option (\<lambda>(r, evs', out', t). (r, evs @ evs', out @ out', t))
              (reset_wait is t))
        in case ev of
             Some (HostWriteResponse addr v sz) \<Rightarrow>
               (if addr = sysctrl_reset_addr then Some (Some (Ok ()), [], out, t)
                else again [BusEvent (HostWriteResponse addr v sz)])
           | Some (HostRequestTimeout addr d) \<Rightarrow>
               (if addr = sysctrl_reset_addr
                then Some (Some (Err (IoError TimedOut
                  (''Timed out writing reset value to RESET register at 0x'' @ fmt_08x sysctrl_reset_addr))),
                  [], out, t)
                else again [BusEvent (HostRequestTimeout addr d)])
           | Some event \<Rightarrow> again [BusEvent event]
           | None \<Rightarrow> again []))"

definition handle_reset_cpu ::
  "u32 \<Rightarrow> nat \<Rightarrow> poll_input list \<Rightarrow> fpga_thread \<Rightarrow>
   ((device_error, unit) result option \<times> runtime_event list \<times> u8 list \<times> fpga_thread) option" where
  "handle_reset_cpu baud_rate now inputs t =
    (let r = reset_request ResetCpu
     in case host_request_timeout r baud_rate of
          None \<Rightarrow> None
        | Some timeout \<Rightarrow>
          (let t = t\<lparr>ft_pending := Some \<lparr>ph_addr = br_addr r, ph_wdata = br_wdata r,
                 ph_sent_at = now, ph_timeout = timeout\<rparr>\<rparr>
           in case send_request (ft_handler t) r of
                (Inl e, h) \<Rightarrow> Some (Some (Err (HandlerFailed e)), [], [],
                  t\<lparr>ft_handler := h, ft_pending := None\<rparr>)
              | (Inr _, h) \<Rightarrow> reset_wait inputs (t\<lparr>ft_handler := h\<rparr>)))"

definition handle_reset_system ::
  "poll_input \<Rightarrow> fpga_thread \<Rightarrow>
   ((device_error, unit) result option \<times> runtime_event list \<times> u8 list \<times> fpga_thread) option" where
  "handle_reset_system i t =
    (case send_request (ft_handler t) (reset_request ResetSystem) of
       (Inl e, h) \<Rightarrow> Some (Some (Err (HandlerFailed e)), [], [], t\<lparr>ft_handler := h\<rparr>)
     | (Inr _, h) \<Rightarrow>
       (case poll_once i (t\<lparr>ft_handler := h\<rparr>) of
          None \<Rightarrow> None
        | Some (Inl e, out, t) \<Rightarrow> Some (Some (Err e), [], out, t)
        | Some (Inr ev, out, t) \<Rightarrow>
          Some (Some (Ok ()), (case ev of None \<Rightarrow> [] | Some event \<Rightarrow> [BusEvent event]), out,
            t\<lparr>ft_pending := None, ft_handler := handler_reset (ft_handler t),
              ft_bus := reset_all_devices (ft_bus t), ft_rx_buffer := [], ft_tx_buffer := []\<rparr>)))"

text \<open>
  The end of an iteration of the loop: one poll, whose result is sent as an event; a fatal error
  ends the loop.
\<close>

definition loop_poll ::
  "poll_input \<Rightarrow> fpga_thread \<Rightarrow> (bool \<times> runtime_event list \<times> u8 list \<times> fpga_thread) option" where
  "loop_poll i t =
    (case poll_once i t of
       None \<Rightarrow> None
     | Some (Inr (Some event), out, t) \<Rightarrow> Some (True, [BusEvent event], out, t)
     | Some (Inr None, out, t) \<Rightarrow> Some (True, [], out, t)
     | Some (Inl e, out, t) \<Rightarrow>
       (if is_fatal e then Some (False, [FatalError (device_error_message e)], out, t)
        else Some (True, [NonFatalError (device_error_message e)], out, t)))"

definition fpga_thread_new :: "system_bus \<Rightarrow> fpga_thread" where
  "fpga_thread_new b = \<lparr>ft_bus = reset_all_devices b, ft_handler = handler_new, ft_rx_buffer = [],
     ft_tx_buffer = [], ft_pending = None\<rparr>"

text \<open>Registrations are attempted in order; the first error stops with its message.\<close>

fun register_bus_devices ::
  "system_bus \<Rightarrow> (u32 \<times> ext_device) list \<Rightarrow> ((string, unit) result \<times> system_bus) option" where
  "register_bus_devices b [] = Some (Ok (), b)"
| "register_bus_devices b ((base, d) # ds) =
    (case register_device b base d of
       None \<Rightarrow> None
     | Some (Inl e, b) \<Rightarrow> Some (Err (''device at 0x'' @ fmt_08x base @ '' failed registration: '' @
         registration_error_fmt e), b)
     | Some (Inr _, b) \<Rightarrow> register_bus_devices b ds)"

section \<open>The two threads\<close>

record fpga_runtime =
  fr_thread :: fpga_thread
  fr_commands :: "runtime_command list"
  fr_events :: "runtime_event list"
  fr_running :: bool
  fr_baud :: u32
  fr_reset_result :: "(device_error, unit) result option"

definition closed_channel :: "string \<Rightarrow> device_error" where
  "closed_channel s = IoError BrokenPipe (''Background thread disconnected: '' @ s)"

definition fr_has_pending :: "fpga_runtime \<Rightarrow> bool" where
  "fr_has_pending f = (ft_pending (fr_thread f) \<noteq> None)"

definition fr_send_host_request ::
  "nat \<Rightarrow> bus_request \<Rightarrow> fpga_runtime \<Rightarrow> ((device_error, unit) result \<times> fpga_runtime) option" where
  "fr_send_host_request now r f =
    (if classify_host_request_route r = InvalidSpanningRegion
     then Some (Err (HandlerFailed InvalidAddressRange), f)
     else if fr_has_pending f then Some (Err (HandlerFailed RequestPending), f)
     else case host_request_timeout r (fr_baud f) of
       None \<Rightarrow> None
     | Some timeout \<Rightarrow>
       if fr_running f then
         Some (Ok (), f\<lparr>fr_thread := (fr_thread f)\<lparr>ft_pending := Some \<lparr>ph_addr = br_addr r,
             ph_wdata = br_wdata r, ph_sent_at = now, ph_timeout = timeout\<rparr>\<rparr>,
           fr_commands := fr_commands f @ [SendRequest r]\<rparr>)
       else Some (Err (closed_channel ''sending on a closed channel''),
         f\<lparr>fr_thread := (fr_thread f)\<lparr>ft_pending := None\<rparr>\<rparr>))"

definition fr_poll :: "fpga_runtime \<Rightarrow> (device_error, bus_event option) result \<times> fpga_runtime" where
  "fr_poll f =
    (case fr_events f of
       BusEvent event # es \<Rightarrow> (Ok (Some event), f\<lparr>fr_events := es\<rparr>)
     | FatalError msg # es \<Rightarrow> (Err (IoError BrokenPipe msg), f\<lparr>fr_events := es\<rparr>)
     | NonFatalError msg # es \<Rightarrow> (Err (IoError OtherKind msg), f\<lparr>fr_events := es\<rparr>)
     | [] \<Rightarrow>
       if fr_running f then (Ok None, f)
       else (Err (IoError BrokenPipe ''Background thread terminated''), f))"

text \<open>
  \<open>reset\<close> of the main thread: the command is queued, the thread waits for the result, and after a
  system reset the stale events are discarded until the queue is empty, an error, or the deadline
  (the number of polls it leaves time for).
\<close>

definition fr_reset_begin ::
  "reset_kind \<Rightarrow> fpga_runtime \<Rightarrow> (device_error, unit) result \<times> fpga_runtime" where
  "fr_reset_begin kind f =
    (if fr_has_pending f then (Err (HandlerFailed RequestPending), f)
     else if fr_running f then (Ok (), f\<lparr>fr_commands := fr_commands f @ [ResetCommand kind]\<rparr>)
     else (Err (closed_channel ''sending on a closed channel''), f))"

fun fr_drain_events :: "nat \<Rightarrow> fpga_runtime \<Rightarrow> fpga_runtime" where
  "fr_drain_events 0 f = f"
| "fr_drain_events (Suc n) f =
    (case fr_poll f of
       (Inr (Some ev), f) \<Rightarrow> fr_drain_events n f
     | (_, f) \<Rightarrow> f)"

definition fr_reset_end ::
  "reset_kind \<Rightarrow> nat \<Rightarrow> fpga_runtime \<Rightarrow> (device_error, unit) result \<times> fpga_runtime" where
  "fr_reset_end kind polls f =
    (case fr_reset_result f of
       Some (Inr _) \<Rightarrow>
         (let f = f\<lparr>fr_reset_result := None\<rparr>
          in (Ok (), if kind = ResetSystem then fr_drain_events polls f else f))
     | Some (Inl e) \<Rightarrow>
         (Err (IoError OtherKind (device_error_message e)), f\<lparr>fr_reset_result := None\<rparr>)
     | None \<Rightarrow>
         (if fr_running f then (Err (IoError TimedOut ''Timed out waiting for reset to complete''), f)
          else (Err (IoError BrokenPipe ''Background thread terminated during reset''), f)))"

text \<open>
  One iteration of the background loop, with the time and the inputs of a reset that it may have to
  serve (\<open>inputs\<close> of a CPU reset, \<open>j\<close> of a system reset) and the input \<open>i\<close> of its own poll; the
  bytes written to the port come first in the result.  A reset that still waits when its
  inputs end leaves the thread there.
\<close>

definition fr_events_add :: "runtime_event list \<Rightarrow> fpga_runtime \<Rightarrow> fpga_runtime" where
  "fr_events_add es f = f\<lparr>fr_events := fr_events f @ es\<rparr>"

definition fr_poll_step :: "poll_input \<Rightarrow> fpga_runtime \<Rightarrow> (u8 list \<times> fpga_runtime) option" where
  "fr_poll_step i f =
    (case loop_poll i (fr_thread f) of
       None \<Rightarrow> None
     | Some (go, es, out, t) \<Rightarrow> Some (out, fr_events_add es (f\<lparr>fr_thread := t, fr_running := go\<rparr>)))"

definition fr_thread_step ::
  "nat \<Rightarrow> poll_input list \<Rightarrow> poll_input \<Rightarrow> poll_input \<Rightarrow> fpga_runtime \<Rightarrow>
   (u8 list \<times> fpga_runtime) option" where
  "fr_thread_step now inputs j i f =
    (if \<not> fr_running f then Some ([], f)
     else case fr_commands f of
       [] \<Rightarrow> fr_poll_step i f
     | Shutdown # cs \<Rightarrow> Some ([], f\<lparr>fr_commands := cs, fr_running := False\<rparr>)
     | SendRequest r # cs \<Rightarrow>
       (case handle_send_request r (fr_thread f) of
          None \<Rightarrow> None
        | Some (es, t) \<Rightarrow>
          fr_poll_step i (fr_events_add es (f\<lparr>fr_commands := cs, fr_thread := t\<rparr>)))
     | ResetCommand kind # cs \<Rightarrow>
       (case (if kind = ResetCpu then handle_reset_cpu (fr_baud f) now inputs (fr_thread f)
              else handle_reset_system j (fr_thread f)) of
          None \<Rightarrow> None
        | Some (r, es, out, t) \<Rightarrow>
          (let f = fr_events_add es (f\<lparr>fr_commands := cs, fr_thread := t, fr_reset_result := r\<rparr>)
           in case r of
                None \<Rightarrow> Some (out, f)
              | Some _ \<Rightarrow> map_option (\<lambda>(out', f). (out @ out', f)) (fr_poll_step i f))))"

text \<open>
  \<open>connect\<close> and the start of the background loop: the bus devices, the initial reset of the bus, the
  startup reset.  Opening the port is left out; the deadline of the handshake is the end of the
  inputs of a CPU reset.
\<close>

fun startup_kind :: "startup_reset \<Rightarrow> reset_kind option" where
  "startup_kind StartupNone = None"
| "startup_kind StartupCpu = Some ResetCpu"
| "startup_kind StartupSystem = Some ResetSystem"

fun startup_debug :: "startup_reset \<Rightarrow> string" where
  "startup_debug StartupNone = ''None''"
| "startup_debug StartupCpu = ''Cpu''"
| "startup_debug StartupSystem = ''System''"

definition fpga_runtime_new :: "fpga_thread \<Rightarrow> runtime_event list \<Rightarrow> u32 \<Rightarrow> fpga_runtime" where
  "fpga_runtime_new t es baud = \<lparr>fr_thread = t, fr_commands = [], fr_events = es, fr_running = True,
     fr_baud = baud, fr_reset_result = None\<rparr>"

definition fpga_connect ::
  "(u32 \<times> ext_device) list \<Rightarrow> startup_reset \<Rightarrow> u32 \<Rightarrow> nat \<Rightarrow> poll_input list \<Rightarrow> poll_input \<Rightarrow>
   (device_error, fpga_runtime) result option" where
  "fpga_connect devices startup baud now inputs j =
    (if baud = 0 then Some (Err (IoError InvalidInput ''Baud rate must be greater than zero''))
     else case register_bus_devices system_bus_new devices of
       None \<Rightarrow> None
     | Some (Inl e, b) \<Rightarrow>
       Some (Err (IoError OtherKind (''Failed to register custom bus devices: '' @ e)))
     | Some (Inr _, b) \<Rightarrow>
       (let t = fpga_thread_new b
        in case startup_kind startup of
             None \<Rightarrow> Some (Ok (fpga_runtime_new t [] baud))
           | Some kind \<Rightarrow>
             (case (if kind = ResetCpu then handle_reset_cpu baud now inputs t
                    else handle_reset_system j t) of
                None \<Rightarrow> None
              | Some (None, es, out, t) \<Rightarrow>
                Some (Err (IoError TimedOut ''Timed out waiting for FPGA runtime initialization''))
              | Some (Some (Inl e), es, out, t) \<Rightarrow>
                Some (Err (IoError OtherKind (''Startup '' @ startup_debug startup @ '' reset failed: '' @
                  device_error_message e)))
              | Some (Some (Inr _), es, out, t) \<Rightarrow> Some (Ok (fpga_runtime_new t es baud)))))"

section \<open>Deadlines cover the wire time\<close>

text \<open>The bits of the request packet and of its response packet.\<close>

definition wire_bits :: "bus_request \<Rightarrow> nat" where
  "wire_bits r = 10 * (8 + length (br_data r) +
     (8 + (if br_we r then 0 else unat (br_burst_len r) * beat_bytes r)))"

lemma request_ok_bounds:
  assumes "request_ok r"
  shows "unat (br_burst_len r) * beat_bytes r \<le> 262144" "length (br_data r) \<le> 262144"
proof -
  have "unat (br_burst_len r) \<le> 65536"
    using assms by (simp add: request_ok_def MAX_BURST_BEATS_def word_le_nat_alt)
  moreover have "beat_bytes r \<le> 4" using beat_bytes_cases [of r] by auto
  ultimately have "unat (br_burst_len r) * beat_bytes r \<le> 65536 * 4" by (rule mult_le_mono)
  then show "unat (br_burst_len r) * beat_bytes r \<le> 262144" by simp
  then show "length (br_data r) \<le> 262144"
    using assms by (simp add: request_ok_def beat_bytes_def mult.commute)
qed

lemma unat_saturating_mul:
  "unat a * unat b < 2 ^ LENGTH('a) \<Longrightarrow> unat (saturating_mul a b) = unat a * unat b"
  for a b :: "'a::len word"
  by (simp add: saturating_mul_def checked_mul_nowrap unat_mult_nowrap)

lemma unat_sat_add: "unat a + unat b < 2 ^ LENGTH('a) \<Longrightarrow> unat (saturating_add a b) = unat a + unat b"
  for a b :: "'a::len word"
  by (simp add: unat_saturating_add)

lemma nat_div_ceil:
  assumes "0 < (b :: nat)"
  shows "(a + b - 1) div b = a div b + (if a mod b = 0 then 0 else 1)"
proof -
  define q m where "q = a div b" and "m = a mod b"
  have a: "a = b * q + m" "m < b" using assms by (simp_all add: q_def m_def)
  define x where "x = m + b - 1"
  have "a + b - 1 = x + b * q" using a assms by (simp add: x_def)
  moreover have "(x + b * q) div b = q + x div b" using assms by simp
  moreover have "x div b = (if m = 0 then 0 else 1)"
    using a(2) assms by (auto intro!: div_nat_eqI simp: x_def)
  ultimately show ?thesis by (simp only: q_def m_def)
qed

lemma unat_div_ceil:
  assumes "b \<noteq> (0 :: 'a::len word)"
  shows "unat (div_ceil a b) = (unat a + unat b - 1) div unat b"
proof -
  have p: "0 < unat b" using assms by (simp add: unat_gt_0)
  have m: "a mod b = 0 \<longleftrightarrow> unat a mod unat b = 0" by (metis unat_mod_distrib unat_eq_zero)
  have "unat (a div b + 1) = unat a div unat b + 1" if "unat a mod unat b \<noteq> 0"
  proof -
    have "unat b \<noteq> 1" using that by auto
    then have "2 \<le> unat b" using p by simp
    then have "unat a div unat b \<le> unat a div 2" by (intro div_le_mono2) simp_all
    moreover have "unat a \<noteq> 0" using that by (metis mod_0)
    ultimately have "unat a div unat b + 1 < 2 ^ LENGTH('a)" using unat_lt2p [of a] by linarith
    then show ?thesis by (simp add: unat_plus_nowrap unat_div_distrib)
  qed
  then show ?thesis unfolding nat_div_ceil [OF p] div_ceil_def m by (simp add: unat_div_distrib)
qed

text \<open>
  The deadline of a request that crosses the serial line covers the transfer.  For a
  well-formed request nothing saturates: the deadline is the time that the bits of the request and
  of its response take at the baud rate, rounded up, plus the margin, and at least one second.
\<close>

theorem timeout_covers_wire_time:
  assumes "request_ok r" "classify_host_request_route r = RouteHostBusHandler" "baud \<noteq> 0"
  shows "host_request_timeout r baud =
      Some (max 1000 ((wire_bits r * 1000 + unat baud - 1) div unat baud + 250)) \<and>
    wire_bits r * 1000 \<le> unat baud * (the (host_request_timeout r baud) - 250)"
proof -
  note b = request_ok_bounds [OF assms(1)]
  let ?req = "saturating_add HOST_BUS_PACKET_HEADER_BYTES (word_of_nat (min (length (br_data r)) (2 ^ 64 - 1)))"
  let ?pl = "if br_we r then 0 else saturating_mul (ucast (br_burst_len r)) (ucast (byte_count (br_size r))) :: u64"
  let ?resp = "saturating_add HOST_BUS_PACKET_HEADER_BYTES ?pl"
  let ?bits = "saturating_mul (saturating_add ?req ?resp) UART_BITS_PER_BYTE"
  have req: "unat ?req = 8 + length (br_data r)"
    using b(2) by (simp add: unat_saturating_add HOST_BUS_PACKET_HEADER_BYTES_def unat_of_nat min_def)
  have bc: "unat (ucast (byte_count (br_size r)) :: u64) = beat_bytes r"
    by (cases "br_size r") (simp_all add: beat_bytes_def)
  have bl: "unat (ucast (br_burst_len r) :: u64) = unat (br_burst_len r)"
    by (rule unat_ucast_up) simp
  have pl: "unat ?pl = (if br_we r then 0 else unat (br_burst_len r) * beat_bytes r)"
    using b(1) by (simp add: unat_saturating_mul bl bc)
  have resp: "unat ?resp = 8 + (if br_we r then 0 else unat (br_burst_len r) * beat_bytes r)"
    using b(1) unfolding unat_saturating_add pl by (simp add: HOST_BUS_PACKET_HEADER_BYTES_def)
  have sum: "unat (saturating_add ?req ?resp) * 10 = wire_bits r"
    using b by (subst unat_sat_add) (simp_all only: req resp, simp_all add: wire_bits_def)
  have small: "wire_bits r \<le> 10000000" using b by (simp add: wire_bits_def)
  have bits: "unat ?bits = wire_bits r"
    using sum small by (subst unat_saturating_mul) (simp_all add: UART_BITS_PER_BYTE_def)
  have mil: "unat (saturating_mul ?bits 1000) = wire_bits r * 1000"
    using small by (subst unat_saturating_mul) (simp_all only: bits, simp_all)
  have bd: "unat (ucast baud :: u64) = unat baud" "ucast baud \<noteq> (0 :: u64)"
    using assms(3) unat_ucast_up [of baud, where 'b = 64]
    by (simp_all add: word_unat_eq_iff)
  have eq: "host_request_timeout r baud =
      Some (max 1000 ((wire_bits r * 1000 + unat baud - 1) div unat baud + 250))"
    by (simp only: host_request_timeout_def Let_def assms(2) bd(2) not_False_eq_True if_False
        simp_thms unat_div_ceil [OF bd(2)] mil bd(1) HOST_REQUEST_TIMEOUT_def
        HOST_REQUEST_TIMEOUT_MARGIN_def)
  have "wire_bits r * 1000 \<le> unat baud * ((wire_bits r * 1000 + unat baud - 1) div unat baud)"
  proof -
    have "0 < unat baud" using assms(3) by (simp add: unat_gt_0)
    then have "wire_bits r * 1000 + unat baud - 1 < unat baud * ((wire_bits r * 1000 + unat baud - 1) div unat baud) + unat baud"
      by (metis dividend_less_times_div add.commute)
    then show ?thesis by linarith
  qed
  also have "\<dots> \<le> unat baud * (the (host_request_timeout r baud) - 250)"
    unfolding eq by (intro mult_le_mono2) simp
  finally show ?thesis using eq by simp
qed

lemma timeout_covers_wire_time_witness:
  "host_request_timeout (request_burst_write 0x70000000 Word 1 False False [1, 2, 3, 4]) 9600 = Some 1000"
  using timeout_covers_wire_time [of "request_burst_write 0x70000000 Word 1 False False [1, 2, 3, 4]" 9600]
  by (simp add: request_ok_def request_burst_write_def classify_host_request_route_def
      classify_request_region_def request_end_addr_def rust_int wire_bits_def beat_bytes_def MAX_BURST_BEATS_def)

end
