(* ===== verification/Fpga_Safety.thy ===== *)
theory Fpga_Safety
  imports Fpga_Runtime Runtime_Safety
begin

text \<open>
  What holds in every state of the FPGA runtime: the background thread keeps the invariants of its bus,
  handler and buffers through every poll, command and reset, and so do all interleavings of the
  two threads.
\<close>

section \<open>Invariant of the background thread\<close>

definition thread_inv :: "fpga_thread \<Rightarrow> bool" where
  "thread_inv t \<longleftrightarrow> bus_inv (ft_bus t) \<and> handler_reachable (ft_handler t) \<and>
     length (ft_rx_buffer t) \<le> BUFFER_SIZE \<and> length (ft_tx_buffer t) \<le> BUFFER_SIZE"

lemma tick_bus_inv: "bus_inv b \<Longrightarrow> bus_inv (snd (tick_bus b))"
  using clock_cycle_all_devices_ok [of b]
  by (simp add: tick_bus_def Let_def bus_step_ok_def split: prod.split)

lemma fill_rx_buffer_length:
  "length rx \<le> BUFFER_SIZE \<Longrightarrow> length (snd (fill_rx_buffer port rx)) \<le> BUFFER_SIZE"
  by (auto simp: fill_rx_buffer_def Let_def split: sum.split)

lemma drain_rx_buffer_inv:
  "handler_reachable h \<Longrightarrow> handler_reachable (fst (drain_rx_buffer h rx)) \<and>
    length (snd (drain_rx_buffer h rx)) \<le> length rx"
proof (induction rx arbitrary: h)
  case (Cons b bs)
  obtain r h' where t: "transfer_rx_byte h b = (r, h')" by fastforce
  with handler_reachable.reach_rx [OF Cons.prems, of b] have "handler_reachable h'" by simp
  with Cons.IH [of h'] Cons.prems t show ?case by (cases r) auto
qed simp

lemma fill_tx_loop_inv:
  "handler_reachable h \<Longrightarrow> handler_reachable (fst (fill_tx_loop n h tx)) \<and>
    length (snd (fill_tx_loop n h tx)) \<le> length tx + n"
proof (induction n arbitrary: h tx)
  case (Suc n)
  obtain r h' where t: "transfer_tx_byte h = (r, h')" by fastforce
  with handler_reachable.reach_tx [OF Suc.prems] have "handler_reachable h'" by simp
  then show ?case using Suc.IH [of h' "tx @ [the r]"] t by (cases r) auto
qed simp

lemma drain_tx_buffer_length: "length (snd (snd (drain_tx_buffer port tx))) \<le> length tx"
  by (auto simp: drain_tx_buffer_def split: sum.split)

lemma process_cpu_request_inv:
  assumes "process_cpu_request h r b = Some (ev, h', b')" "bus_inv b" "handler_reachable h"
  shows "bus_inv b' \<and> handler_reachable h'"
  using assms perform_write_inv [OF assms(2)] perform_read_inv [OF assms(2)]
    handler_reachable.reach_complete [OF assms(3)]
  by (auto simp: process_cpu_request_def Let_def split: if_splits option.splits)

lemma tick_bus_cases: "\<exists>r b'. tick_bus b = (r, b') \<and> (bus_inv b \<longrightarrow> bus_inv b')"
  using tick_bus_inv [of b] by (cases "tick_bus b") auto

lemma receive_response_incoming:
  "receive_response h = (r, h') \<Longrightarrow> hb_incoming_request h' = hb_incoming_request h"
  by (auto simp: receive_response_def split: if_splits)

lemma accept_request_incoming:
  "accept_request h = (Inr r, h') \<Longrightarrow> ir_request (hb_incoming_request h) = Some r"
  by (auto simp: accept_request_def split: if_splits option.splits)

lemma serve_target_inv:
  assumes "thread_inv t" "handler_reachable h"
  shows "serve_target h t = None \<Longrightarrow>
      \<exists>r. ir_request (hb_incoming_request h) = Some r \<and> unat (br_addr r) < 0x80000000"
    and "serve_target h t = Some (ev, t') \<Longrightarrow> thread_inv t'"
proof -
  obtain q h1 where q: "(if has_incoming_request h then accept_request h else (Err NoRequestAvailable, h)) = (q, h1)"
    by fastforce
  then have h1: "handler_reachable h1"
    using assms(2) handler_reachable.reach_accept [OF assms(2)] by (auto split: if_splits)
  have b: "bus_inv (ft_bus t)" using assms(1) by (simp add: thread_inv_def)
  have "(serve_target h t = None \<longrightarrow>
      (\<exists>r. ir_request (hb_incoming_request h) = Some r \<and> unat (br_addr r) < 0x80000000)) \<and>
    (serve_target h t = Some (ev, t') \<longrightarrow> thread_inv t')"
  proof (cases q)
    case (Inl e)
    obtain v b' where "tick_bus (ft_bus t) = (v, b')" "bus_inv b'" using tick_bus_cases [of "ft_bus t"] b by blast
    then show ?thesis using q Inl h1 assms(1) by (cases v) (auto simp: serve_target_def thread_inv_def)
  next
    case (Inr r)
    then have r: "ir_request (hb_incoming_request h) = Some r"
      using q accept_request_incoming [of h r h1] by (auto split: if_splits)
    show ?thesis
    proof (cases "process_cpu_request h1 r (ft_bus t)")
      case None
      then have "unat (br_addr r) < 0x80000000"
        using perform_None [OF b, of "br_addr r" "br_size r" "br_wdata r"]
        by (auto simp: process_cpu_request_def Let_def split: if_splits option.splits)
      then show ?thesis using q Inr None r by (simp add: serve_target_def)
    next
      case (Some p)
      then obtain e2 h2 b2 where p: "process_cpu_request h1 r (ft_bus t) = Some (e2, h2, b2)"
        by (cases p) auto
      from process_cpu_request_inv [OF p b h1] have i: "bus_inv b2" "handler_reachable h2" by auto
      obtain v b' where "tick_bus b2 = (v, b')" "bus_inv b'" using tick_bus_cases [of b2] i(1) by blast
      then show ?thesis using q Inr p i(2) assms(1) by (cases v) (auto simp: serve_target_def thread_inv_def)
    qed
  qed
  then show "serve_target h t = None \<Longrightarrow>
      \<exists>r. ir_request (hb_incoming_request h) = Some r \<and> unat (br_addr r) < 0x80000000"
    "serve_target h t = Some (ev, t') \<Longrightarrow> thread_inv t'" by blast+
qed

lemma poll_transactions_inv:
  assumes "thread_inv t"
  shows "poll_transactions t = None \<Longrightarrow>
      \<exists>r. ir_request (hb_incoming_request (ft_handler t)) = Some r \<and> unat (br_addr r) < 0x80000000"
    and "poll_transactions t = Some (ev, t') \<Longrightarrow> thread_inv t'"
proof -
  obtain resp h where h: "(if ft_pending t \<noteq> None then receive_response (ft_handler t)
      else (None, ft_handler t)) = (resp, h)" by fastforce
  have r: "handler_reachable h"
    using h assms handler_reachable.reach_receive [of "ft_handler t"]
    by (auto simp: thread_inv_def split: if_splits)
  have i: "hb_incoming_request h = hb_incoming_request (ft_handler t)"
    using h receive_response_incoming [of "ft_handler t" resp h] by (auto split: if_splits)
  have t: "thread_inv (t\<lparr>ft_handler := h\<rparr>)" using assms r by (simp add: thread_inv_def)
  show "poll_transactions t = None \<Longrightarrow>
      \<exists>r. ir_request (hb_incoming_request (ft_handler t)) = Some r \<and> unat (br_addr r) < 0x80000000"
    using serve_target_inv(1) [OF t r] unfolding poll_transactions_def h i Let_def
    by (auto simp: Let_def split: option.splits)
  show "poll_transactions t = Some (ev, t') \<Longrightarrow> thread_inv t'"
    using serve_target_inv(2) [OF t r] t unfolding poll_transactions_def h Let_def
    by (auto simp: thread_inv_def split: option.splits)
qed

text \<open>The request of the target that a poll finds complete.\<close>

definition target_request :: "poll_input \<Rightarrow> fpga_thread \<Rightarrow> bus_request option" where
  "target_request i t =
    ir_request (hb_incoming_request (fst (drain_rx_buffer (ft_handler t)
      (snd (fill_rx_buffer (pi_read i) (ft_rx_buffer t))))))"

lemma transfer_tx_byte_incoming:
  "transfer_tx_byte h = (r, h') \<Longrightarrow> hb_incoming_request h' = hb_incoming_request h"
  by (auto simp: transfer_tx_byte_def take_tx_byte_def start_tx_packet_def Let_def
      split: if_splits option.splits prod.splits)

lemma fill_tx_loop_incoming:
  "hb_incoming_request (fst (fill_tx_loop n h tx)) = hb_incoming_request h"
proof (induction n arbitrary: h tx)
  case (Suc n)
  obtain r h' where t: "transfer_tx_byte h = (r, h')" by fastforce
  then show ?case
    using Suc.IH [of h' "tx @ [the r]"] transfer_tx_byte_incoming [OF t] by (cases r) auto
qed simp

lemma poll_transfer_inv:
  assumes "thread_inv t"
  shows "poll_transfer i t = None \<Longrightarrow>
      \<exists>r. target_request i t = Some r \<and> unat (br_addr r) < 0x80000000"
    and "poll_transfer i t = Some (r, out, t') \<Longrightarrow> thread_inv t'"
proof -
  obtain f rx where f: "fill_rx_buffer (pi_read i) (ft_rx_buffer t) = (f, rx)" by fastforce
  obtain h1 rx1 where d: "drain_rx_buffer (ft_handler t) rx = (h1, rx1)" by fastforce
  obtain h2 tx where x: "fill_tx_buffer h1 (ft_tx_buffer t) = (h2, tx)" by fastforce
  obtain w out' tx1 where o: "drain_tx_buffer (pi_write i) tx = (w, out', tx1)" by (metis prod_cases3)
  have l: "length rx \<le> BUFFER_SIZE" "length (ft_tx_buffer t) \<le> BUFFER_SIZE"
    using fill_rx_buffer_length [of "ft_rx_buffer t" "pi_read i"] f assms by (simp_all add: thread_inv_def)
  have h1: "handler_reachable h1" "length rx1 \<le> BUFFER_SIZE"
    using drain_rx_buffer_inv [of "ft_handler t" rx] d assms l by (simp_all add: thread_inv_def)
  have h2: "handler_reachable h2" "length tx \<le> BUFFER_SIZE" "hb_incoming_request h2 = hb_incoming_request h1"
    using fill_tx_loop_inv [OF h1(1), of "BUFFER_SIZE - length (ft_tx_buffer t)" "ft_tx_buffer t"]
      fill_tx_loop_incoming [of "BUFFER_SIZE - length (ft_tx_buffer t)" h1 "ft_tx_buffer t"] x l
    by (simp_all add: fill_tx_buffer_def)
  let ?t = "t\<lparr>ft_handler := h2, ft_rx_buffer := rx1, ft_tx_buffer := tx1\<rparr>"
  have inv: "thread_inv ?t"
    using assms h1 h2 drain_tx_buffer_length [of "pi_write i" tx] o by (simp add: thread_inv_def)
  have eq: "poll_transfer i t = (case f of Inl e \<Rightarrow> Some (Err e, [], t\<lparr>ft_rx_buffer := rx\<rparr>)
      | Inr _ \<Rightarrow> (case w of Inl e \<Rightarrow> Some (Err e, out', ?t)
        | Inr _ \<Rightarrow> map_option (\<lambda>(ev, t). (Ok ev, out', t)) (poll_transactions ?t)))"
    using f d x o by (cases f) (simp_all add: poll_transfer_def Let_def)
  have inv0: "thread_inv (t\<lparr>ft_rx_buffer := rx\<rparr>)" using assms l by (simp add: thread_inv_def)
  have q: "target_request i t = ir_request (hb_incoming_request (ft_handler ?t))"
    using f d h2(3) by (simp add: target_request_def)
  show "poll_transfer i t = None \<Longrightarrow> \<exists>r. target_request i t = Some r \<and> unat (br_addr r) < 0x80000000"
    using poll_transactions_inv(1) [OF inv] unfolding eq q by (auto split: sum.splits)
  show "poll_transfer i t = Some (r, out, t') \<Longrightarrow> thread_inv t'"
    using poll_transactions_inv(2) [OF inv] inv inv0 unfolding eq by (auto split: sum.splits)
qed

lemma poll_once_inv:
  assumes "thread_inv t"
  shows "poll_once i t = None \<Longrightarrow> \<exists>r. target_request i t = Some r \<and> unat (br_addr r) < 0x80000000"
    and "poll_once i t = Some (r, out, t') \<Longrightarrow> thread_inv t'"
  using poll_transfer_inv [OF assms, of i] assms handler_reachable.reach_reset
  by (auto simp: poll_once_def thread_inv_def split: option.splits if_splits)

lemma handle_send_request_inv:
  assumes "thread_inv t"
  shows "\<exists>es t'. handle_send_request r t = Some (es, t') \<and> thread_inv t'"
proof (cases "classify_host_request_route r")
  case RouteHostBusHandler
  then show ?thesis
    using assms handler_reachable.reach_send [of "ft_handler t" r]
    by (cases "send_request (ft_handler t) r"; cases "fst (send_request (ft_handler t) r)")
      (auto simp: handle_send_request_def thread_inv_def)
next
  case RouteSystemBus
  have "bus_inv (ft_bus t)" using assms by (simp add: thread_inv_def)
  from system_bus_request_total [OF this RouteSystemBus] RouteSystemBus assms show ?thesis
    by (auto simp: handle_send_request_def thread_inv_def)
next
  case InvalidSpanningRegion
  then show ?thesis using assms by (simp add: handle_send_request_def thread_inv_def)
qed

lemma reset_wait_inv: "thread_inv t \<Longrightarrow> reset_wait is t = Some (r, es, out, t') \<Longrightarrow> thread_inv t'"
proof (induction "is" arbitrary: t r es out t')
  case (Cons i "is")
  from Cons.prems(2) obtain q out1 t1 where p: "poll_once i t = Some (q, out1, t1)"
    by (cases "poll_once i t") auto
  note inv1 = poll_once_inv(2) [OF Cons.prems(1) p]
  show ?case
  proof (cases q)
    case (Inl e)
    then show ?thesis using Cons.prems(2) p inv1 by simp
  next
    case (Inr ev)
    then have "t' = t1 \<or> (\<exists>r es out. reset_wait is t1 = Some (r, es, out, t'))"
      using Cons.prems(2) p by (auto simp: Let_def split: option.splits bus_event.splits if_splits)
    then show ?thesis using inv1 Cons.IH [OF inv1] by blast
  qed
qed simp

lemma handle_reset_cpu_inv:
  assumes "thread_inv t" "handle_reset_cpu baud now is t = Some (r, es, out, t')"
  shows "thread_inv t'"
proof -
  let ?r = "reset_request ResetCpu"
  obtain d where d: "host_request_timeout ?r baud = Some d"
    using assms(2) by (auto simp: handle_reset_cpu_def Let_def split: option.splits)
  let ?p = "\<lparr>ph_addr = br_addr ?r, ph_wdata = br_wdata ?r, ph_sent_at = now, ph_timeout = d\<rparr>"
  obtain q h where s: "send_request (ft_handler t) ?r = (q, h)" by fastforce
  then have h: "handler_reachable h"
    using assms(1) handler_reachable.reach_send [of "ft_handler t" ?r] by (simp add: thread_inv_def)
  let ?t = "\<lambda>p. t\<lparr>ft_pending := p, ft_handler := h\<rparr>"
  have i: "thread_inv (?t p)" for p using assms(1) h by (simp add: thread_inv_def)
  show ?thesis
    using assms(2) s d i reset_wait_inv [OF i [of "Some ?p"], of "is" r es out t']
    by (cases q) (auto simp: handle_reset_cpu_def Let_def thread_inv_def)
qed

lemma handle_reset_system_inv:
  assumes "thread_inv t" "handle_reset_system i t = Some (r, es, out, t')"
  shows "thread_inv t'"
proof -
  let ?r = "reset_request ResetSystem"
  obtain q h where s: "send_request (ft_handler t) ?r = (q, h)" by fastforce
  then have h: "handler_reachable h"
    using assms(1) handler_reachable.reach_send [of "ft_handler t" ?r] by (simp add: thread_inv_def)
  then have i: "thread_inv (t\<lparr>ft_handler := h\<rparr>)" using assms(1) by (simp add: thread_inv_def)
  have fin: "thread_inv (t2\<lparr>ft_pending := None, ft_handler := handler_reset (ft_handler t2),
      ft_bus := reset_all_devices (ft_bus t2), ft_rx_buffer := [], ft_tx_buffer := []\<rparr>)"
    if "thread_inv t2" for t2
    using that reset_all_devices_ok [of "ft_bus t2"] handler_reachable.reach_reset
    by (simp add: thread_inv_def bus_step_ok_def)
  show ?thesis
  proof (cases q)
    case (Inl e)
    then show ?thesis using assms(2) s i by (auto simp: handle_reset_system_def)
  next
    case (Inr u)
    then obtain q2 out2 t2 where p: "poll_once i (t\<lparr>ft_handler := h\<rparr>) = Some (q2, out2, t2)"
      using assms(2) s by (auto simp: handle_reset_system_def split: option.splits)
    note inv2 = poll_once_inv(2) [OF i p]
    show ?thesis
      using assms(2) s Inr p inv2 fin [OF inv2] by (cases q2) (auto simp: handle_reset_system_def)
  qed
qed

section \<open>Reachable runtimes\<close>

lemma loop_poll_inv:
  "thread_inv t \<Longrightarrow> loop_poll i t = Some (go, es, out, t') \<Longrightarrow> thread_inv t'"
  using poll_once_inv(2) [of t i]
  by (auto simp: loop_poll_def split: option.splits sum.splits if_splits)

lemma fr_poll_step_inv:
  "thread_inv (fr_thread f) \<Longrightarrow> fr_poll_step i f = Some (out, f') \<Longrightarrow>
    thread_inv (fr_thread f') \<and> fr_baud f' = fr_baud f"
  using loop_poll_inv [of "fr_thread f" i]
  by (auto simp: fr_poll_step_def fr_events_add_def split: option.splits)

lemma fr_thread_step_inv:
  assumes "thread_inv (fr_thread f)" "fr_thread_step now inputs j i f = Some (out, f')"
  shows "thread_inv (fr_thread f') \<and> fr_baud f' = fr_baud f"
proof (cases "fr_running f")
  case True
  show ?thesis
  proof (cases "fr_commands f")
    case Nil
    then show ?thesis using assms True fr_poll_step_inv [of f i] by (simp add: fr_thread_step_def)
  next
    case (Cons c cs)
    show ?thesis
    proof (cases c)
      case (SendRequest r)
      obtain es t where h: "handle_send_request r (fr_thread f) = Some (es, t)" "thread_inv t"
        using handle_send_request_inv [OF assms(1), of r] by blast
      then show ?thesis
        using assms True Cons SendRequest
          fr_poll_step_inv [of "fr_events_add es (f\<lparr>fr_commands := cs, fr_thread := t\<rparr>)" i]
        by (simp add: fr_thread_step_def fr_events_add_def)
    next
      case (ResetCommand kind)
      obtain r es o1 t where h: "(if kind = ResetCpu then handle_reset_cpu (fr_baud f) now inputs (fr_thread f)
          else handle_reset_system j (fr_thread f)) = Some (r, es, o1, t)"
        using assms(2) True Cons ResetCommand by (auto simp: fr_thread_step_def split: option.splits)
      then have t: "thread_inv t"
        using handle_reset_cpu_inv [OF assms(1)] handle_reset_system_inv [OF assms(1)]
        by (auto split: if_splits)
      define g where "g = fr_events_add es (f\<lparr>fr_commands := cs, fr_thread := t, fr_reset_result := r\<rparr>)"
      have f: "thread_inv (fr_thread g)" "fr_baud g = fr_baud f" using t by (simp_all add: g_def fr_events_add_def)
      have eq: "fr_thread_step now inputs j i f = (case r of None \<Rightarrow> Some (o1, g)
          | Some _ \<Rightarrow> map_option (\<lambda>(out', f). (o1 @ out', f)) (fr_poll_step i g))"
        using True Cons ResetCommand h by (cases r) (simp_all add: fr_thread_step_def Let_def g_def)
      show ?thesis
      proof (cases r)
        case None
        then show ?thesis using assms(2) eq f by simp
      next
        case (Some q)
        then obtain o2 where "fr_poll_step i g = Some (o2, f')"
          using assms(2) eq by (cases "fr_poll_step i g") auto
        from fr_poll_step_inv [OF f(1) this] f(2) show ?thesis by simp
      qed
    qed (use assms True Cons in \<open>auto simp: fr_thread_step_def\<close>)
  qed
qed (use assms in \<open>auto simp: fr_thread_step_def\<close>)

text \<open>
  A runtime is reached by \<open>connect\<close>, by the calls of the main thread and by iterations of the
  background loop, in any order and with any inputs.
\<close>

inductive fpga_reachable :: "fpga_runtime \<Rightarrow> bool" where
  fpga_start: "list_all (ext_inv \<circ> snd) devices \<Longrightarrow>
    fpga_connect devices startup baud now inputs j = Some (Ok f) \<Longrightarrow> fpga_reachable f"
| fpga_send: "fpga_reachable f \<Longrightarrow> fr_send_host_request now r f = Some (q, f') \<Longrightarrow> fpga_reachable f'"
| fpga_poll: "fpga_reachable f \<Longrightarrow> fpga_reachable (snd (fr_poll f))"
| fpga_reset_begin: "fpga_reachable f \<Longrightarrow> fpga_reachable (snd (fr_reset_begin kind f))"
| fpga_reset_end: "fpga_reachable f \<Longrightarrow> fpga_reachable (snd (fr_reset_end kind n f))"
| fpga_shutdown: "fpga_reachable f \<Longrightarrow> fpga_reachable (f\<lparr>fr_commands := fr_commands f @ [Shutdown]\<rparr>)"
| fpga_iterate: "fpga_reachable f \<Longrightarrow> fr_thread_step now inputs j i f = Some (out, f') \<Longrightarrow> fpga_reachable f'"

lemma register_bus_devices_inv:
  "bus_inv b \<Longrightarrow> list_all (ext_inv \<circ> snd) ds \<Longrightarrow>
    \<exists>r b'. register_bus_devices b ds = Some (r, b') \<and> bus_inv b'"
proof (induction b ds rule: register_bus_devices.induct)
  case (2 b base d ds)
  have "register_device b base d \<noteq> None"
    using bus_exec_None [OF "2.prems"(1), of "OpRegister base d"] by simp
  then obtain q b1 where q: "register_device b base d = Some (q, b1)" by auto
  have b1: "bus_inv b1"
    using bus_exec_inv [OF "2.prems"(1), of "OpRegister base d" b1] "2.prems"(2) q by simp
  show ?case
  proof (cases q)
    case (Inr u)
    then show ?thesis using "2.IH" [OF q refl Inr b1] "2.prems"(2) q by simp
  qed (use q b1 in simp)
qed simp

lemma fr_drain_events_thread: "fr_thread (fr_drain_events n f) = fr_thread f \<and> fr_baud (fr_drain_events n f) = fr_baud f"
proof (induction n arbitrary: f)
  case (Suc n)
  have "fr_thread (snd (fr_poll f)) = fr_thread f \<and> fr_baud (snd (fr_poll f)) = fr_baud f"
    by (simp add: fr_poll_def split: list.split runtime_event.split)
  moreover obtain r g where "fr_poll f = (r, g)" by fastforce
  ultimately show ?case using Suc.IH [of g] by (simp split: sum.split option.split)
qed simp

lemma fpga_connect_inv:
  assumes "list_all (ext_inv \<circ> snd) devices" "fpga_connect devices startup baud now inputs j = Some (Ok f)"
  shows "thread_inv (fr_thread f) \<and> fr_baud f \<noteq> 0"
proof -
  obtain r b where b: "register_bus_devices system_bus_new devices = Some (r, b)" "bus_inv b"
    using register_bus_devices_inv [OF system_bus_new_inv assms(1)] by blast
  then have t: "thread_inv (fpga_thread_new b)"
    using reset_all_devices_ok [of b] handler_reachable.reach_new
    by (simp add: thread_inv_def fpga_thread_new_def bus_step_ok_def)
  show ?thesis
    using assms(2) b(1) t handle_reset_cpu_inv [OF t] handle_reset_system_inv [OF t]
    by (auto simp: fpga_connect_def fpga_runtime_new_def Let_def
        split: if_splits sum.splits option.splits reset_kind.splits)
qed

lemma fpga_reachable_inv: "fpga_reachable f \<Longrightarrow> thread_inv (fr_thread f) \<and> fr_baud f \<noteq> 0"
proof (induction rule: fpga_reachable.induct)
  case (fpga_start devices startup baud now inputs j f)
  then show ?case by (rule fpga_connect_inv)
next
  case (fpga_iterate f now inputs j i out f')
  then show ?case using fr_thread_step_inv [of f now inputs j i out f'] by simp
next
  case (fpga_send f now r q f')
  then show ?case
    by (auto simp: fr_send_host_request_def thread_inv_def split: if_splits option.splits)
next
  case (fpga_reset_end f kind n)
  then show ?case
    by (auto simp: fr_reset_end_def Let_def fr_drain_events_thread split: option.splits sum.splits)
qed (auto simp: fr_poll_def fr_reset_begin_def split: list.split runtime_event.split)

text \<open>
  C11: what holds in every state of the FPGA runtime, whatever the port delivers and however the
  threads interleave: the bus and the handler satisfy their invariants, neither buffer exceeds its
  64 bytes, a request of the main thread is always served without a panic, and an iteration panics
  only when the target asks for an address below \<open>0x80000000\<close>, which no host device can serve.
\<close>

theorem fpga_reachable_safe:
  assumes "fpga_reachable f"
  shows "bus_inv (ft_bus (fr_thread f)) \<and> handler_reachable (ft_handler (fr_thread f)) \<and>
    length (ft_rx_buffer (fr_thread f)) \<le> 64 \<and> length (ft_tx_buffer (fr_thread f)) \<le> 64 \<and>
    (\<forall>now r. fr_send_host_request now r f \<noteq> None) \<and>
    (\<forall>r. handle_send_request r (fr_thread f) \<noteq> None) \<and>
    (\<forall>i. poll_once i (fr_thread f) = None \<longrightarrow>
      (\<exists>r. target_request i (fr_thread f) = Some r \<and> unat (br_addr r) < 0x80000000))"
proof -
  have inv: "thread_inv (fr_thread f)" "fr_baud f \<noteq> 0" using fpga_reachable_inv [OF assms] by simp_all
  have "(ucast (fr_baud f) :: u64) \<noteq> 0"
    using inv(2) unat_ucast_up [of "fr_baud f", where 'b = 64] by (simp add: word_unat_eq_iff)
  then have "fr_send_host_request now r f \<noteq> None" for now r
    by (simp add: fr_send_host_request_def host_request_timeout_def Let_def)
  moreover have "handle_send_request r (fr_thread f) \<noteq> None" for r
    using handle_send_request_inv [OF inv(1), of r] by auto
  ultimately show ?thesis
    using inv(1) poll_once_inv(1) [OF inv(1)] unfolding thread_inv_def BUFFER_SIZE_def by blast
qed

lemma fpga_reachable_safe_witness:
  "\<exists>f. fpga_connect [] StartupNone 9600 0 []
      \<lparr>pi_now = 0, pi_read = Ok [], pi_write = Ok 0\<rparr> = Some (Ok f) \<and> length (ft_rx_buffer (fr_thread f)) \<le> 64"
proof -
  have "fpga_connect [] StartupNone 9600 0 []
      \<lparr>pi_now = 0, pi_read = Ok [], pi_write = Ok 0\<rparr> =
      Some (Ok (fpga_runtime_new (fpga_thread_new system_bus_new) [] 9600))"
    by (simp add: fpga_connect_def)
  from this fpga_reachable_safe [OF fpga_start [OF _ this]] show ?thesis by simp
qed

end
