(* ===== verification/Fpga_Client.thy ===== *)
theory Fpga_Client
  imports Fpga_Safety Runtime_Client
begin

text \<open>
  The operations of \<open>Runtime_Client\<close> on the FPGA runtime.  The background thread runs between the
  calls of the main thread: before each poll it does the iterations that a schedule gives, with the
  clock and the behaviour of the port as inputs.  For every schedule in which it runs again and
  again and the target stays silent the runtime keeps the contract \<open>region_runtime\<close>.
\<close>

section \<open>The calls of the main thread under a schedule\<close>

text \<open>The inputs of one iteration of the background loop.\<close>

type_synonym iteration = "nat \<times> poll_input list \<times> poll_input \<times> poll_input"

record fpga_world =
  fw_runtime :: fpga_runtime
  fw_now :: nat
  fw_schedule :: "nat \<Rightarrow> iteration list"

fun run_background :: "iteration list \<Rightarrow> fpga_runtime \<Rightarrow> fpga_runtime option" where
  "run_background [] f = Some f"
| "run_background ((now, inputs, j, i) # its) f =
    (case fr_thread_step now inputs j i f of
       None \<Rightarrow> None
     | Some (out, f) \<Rightarrow> run_background its f)"

definition fpga_world_send ::
  "bus_request \<Rightarrow> fpga_world \<Rightarrow> ((device_error, unit) result \<times> fpga_world) option" where
  "fpga_world_send r w =
    map_option (\<lambda>(res, f). (res, w\<lparr>fw_runtime := f\<rparr>)) (fr_send_host_request (fw_now w) r (fw_runtime w))"

definition fpga_world_poll ::
  "fpga_world \<Rightarrow> ((device_error, bus_event option) result \<times> fpga_world) option" where
  "fpga_world_poll w =
    (case run_background (fw_schedule w 0) (fw_runtime w) of
       None \<Rightarrow> None
     | Some f \<Rightarrow>
       (case fr_poll f of
          (res, f) \<Rightarrow> Some (res, w\<lparr>fw_runtime := f, fw_schedule := (\<lambda>k. fw_schedule w (Suc k))\<rparr>)))"

definition fpga_ops :: "fpga_world device_runtime" where
  "fpga_ops = \<lparr>dr_send_host_request = fpga_world_send, dr_poll = fpga_world_poll,
     dr_has_pending_host_request = (\<lambda>w. fr_has_pending (fw_runtime w))\<rparr>"

text \<open>The background thread runs again and again, and the port gives no bytes.\<close>

definition silent_iteration :: "iteration \<Rightarrow> bool" where
  "silent_iteration it = (case it of (now, inputs, j, i) \<Rightarrow> pi_read i = Ok [])"

definition fair_silent :: "(nat \<Rightarrow> iteration list) \<Rightarrow> bool" where
  "fair_silent s \<longleftrightarrow> (\<forall>n. \<exists>k\<ge>n. s k \<noteq> []) \<and> (\<forall>k. list_all silent_iteration (s k))"

lemma fair_silent_suc: "fair_silent s \<Longrightarrow> fair_silent (\<lambda>k. s (Suc k))"
  unfolding fair_silent_def by (metis Suc_le_D Suc_le_mono)

section \<open>A quiet target\<close>

fun quiet_device :: "ext_device \<Rightarrow> bool" where
  "quiet_device (ExtDma d) = (\<not> dma_is_busy d)"
| "quiet_device _ = True"

definition quiet_bus :: "system_bus \<Rightarrow> bool" where
  "quiet_bus b \<longleftrightarrow> bus_inv b \<and> list_all quiet_device (sb_external_devices b) \<and>
     tohost_value (sb_sim_control b) = None"

definition quiet_thread :: "fpga_thread \<Rightarrow> bool" where
  "quiet_thread t \<longleftrightarrow> quiet_bus (ft_bus t) \<and> ft_rx_buffer t = [] \<and> ft_tx_buffer t = [] \<and>
     transfer_tx_byte (ft_handler t) = (None, ft_handler t) \<and> \<not> has_incoming_request (ft_handler t)"

lemma quiet_device_clock:
  assumes "quiet_device d"
  shows "snd (ext_clock_cycle d c) = c \<and> quiet_device (fst (ext_clock_cycle d c))"
proof (cases d)
  case (ExtDma x)
  then show ?thesis
    using assms by (simp add: dma_ops_def dma_clock_cycle_def dma_transfer_one_byte_def dma_is_busy_def)
next
  case (ExtVideo x)
  have "snd (present_chunk x c) = c" by (auto simp: present_chunk_def Let_def split: option.split prod.split)
  then show ?thesis using ExtVideo by (simp add: video_ops_def video_clock_cycle_def)
next
  case (ExtAudio x)
  have "snd (dma_chunk x c) = c" by (auto simp: dma_chunk_def Let_def split: option.split prod.split)
  then show ?thesis using ExtAudio by (simp add: audio_ops_def audio_clock_cycle_def)
next
  case (ExtFifo x)
  then show ?thesis by (simp add: fifo_ops_def default_clock_cycle_def)
qed

lemma quiet_devices_clock:
  "list_all quiet_device ds \<Longrightarrow> for_devices (bd_clock_cycle ext_ops) ds c = (ds', c') \<Longrightarrow>
    c' = c \<and> list_all quiet_device ds'"
proof (induction ds arbitrary: c ds')
  case (Cons d ds)
  obtain d1 where d1: "ext_clock_cycle d c = (d1, c)" "quiet_device d1"
    using quiet_device_clock [of d c] Cons.prems(1) by (cases "ext_clock_cycle d c") auto
  then show ?case
    using Cons by (auto simp: ext_ops_def split: prod.splits)
qed auto

lemma quiet_tick:
  assumes "quiet_bus b"
  shows "\<exists>b'. tick_bus b = (None, b') \<and> quiet_bus b' \<and> sb_memory b' = sb_memory b"
proof -
  let ?c = "with_elapsed_time (sb_memory b) (sb_elapsed_time_us b)"
  obtain ds c where d: "for_devices (bd_clock_cycle ext_ops) (sb_external_devices b) ?c = (ds, c)"
    by fastforce
  with quiet_devices_clock [OF _ d] assms have q: "c = ?c" "list_all quiet_device ds"
    by (simp_all add: quiet_bus_def)
  have e: "clock_cycle_all_devices b = b\<lparr>sb_external_devices := ds, sb_memory := sb_memory b\<rparr>"
    using d q(1) by (simp add: clock_cycle_all_devices_def Let_def dram_ops_def sim_control_ops_def
        default_clock_cycle_def with_elapsed_time_def)
  have "bus_inv (clock_cycle_all_devices b)"
    using clock_cycle_all_devices_ok [of b] assms by (simp add: bus_step_ok_def quiet_bus_def)
  then show ?thesis
    using assms q(2) by (auto simp: tick_bus_def Let_def e quiet_bus_def acknowledge_termination_def)
qed

section \<open>The background loop over a quiet target\<close>

text \<open>Running, with an empty command queue and no pending request.\<close>

definition quiet_runtime :: "fpga_runtime \<Rightarrow> bool" where
  "quiet_runtime f \<longleftrightarrow> fr_running f \<and> fr_commands f = [] \<and> quiet_thread (fr_thread f) \<and>
     ft_pending (fr_thread f) = None"

abbreviation runtime_memory :: "fpga_runtime \<Rightarrow> memory" where
  "runtime_memory f \<equiv> sb_memory (ft_bus (fr_thread f))"

lemma quiet_poll_once:
  assumes "quiet_thread t" "ft_pending t = None" "pi_read i = Ok []"
  shows "\<exists>t'. poll_once i t = Some (Ok None, [], t') \<and> quiet_thread t' \<and> ft_pending t' = None \<and>
    sb_memory (ft_bus t') = sb_memory (ft_bus t)"
proof -
  obtain b where b: "tick_bus (ft_bus t) = (None, b)" "quiet_bus b" "sb_memory b = sb_memory (ft_bus t)"
    using quiet_tick [of "ft_bus t"] assms(1) by (auto simp: quiet_thread_def)
  have q: "ft_rx_buffer t = []" "ft_tx_buffer t = []" "transfer_tx_byte (ft_handler t) = (None, ft_handler t)"
    "\<not> has_incoming_request (ft_handler t)"
    using assms(1) by (simp_all add: quiet_thread_def)
  have x: "fill_tx_buffer (ft_handler t) [] = (ft_handler t, [])"
    using q(3) by (simp add: fill_tx_buffer_def BUFFER_SIZE_def numeral_eq_Suc)
  define t' where "t' = t\<lparr>ft_bus := b\<rparr>"
  have "poll_once i t = Some (Ok None, [], t')"
    using q x assms(2,3) b(1)
    by (simp add: poll_once_def poll_transfer_def fill_rx_buffer_def BUFFER_SIZE_def drain_tx_buffer_def
        poll_transactions_def serve_target_def t'_def)
  moreover have "quiet_thread t'" using assms(1) b(2) by (simp add: quiet_thread_def t'_def)
  ultimately show ?thesis using assms(2) b(3) by (auto simp: t'_def)
qed

lemma quiet_fr_poll_step:
  assumes "quiet_runtime f" "pi_read i = Ok []"
  shows "\<exists>f'. fr_poll_step i f = Some ([], f') \<and> quiet_runtime f' \<and> fr_events f' = fr_events f \<and>
    runtime_memory f' = runtime_memory f"
proof -
  obtain t where t: "poll_once i (fr_thread f) = Some (Ok None, [], t)" "quiet_thread t" "ft_pending t = None"
    "sb_memory (ft_bus t) = runtime_memory f"
    using quiet_poll_once [of "fr_thread f" i] assms by (auto simp: quiet_runtime_def)
  then show ?thesis
    using assms(1) by (auto simp: fr_poll_step_def loop_poll_def fr_events_add_def quiet_runtime_def)
qed

lemma quiet_run_background:
  "quiet_runtime f \<Longrightarrow> list_all silent_iteration its \<Longrightarrow>
    \<exists>f'. run_background its f = Some f' \<and> quiet_runtime f' \<and> fr_events f' = fr_events f \<and>
      runtime_memory f' = runtime_memory f"
proof (induction its arbitrary: f)
  case (Cons it its)
  obtain now inputs j i where it: "it = (now, inputs, j, i)" by (metis prod_cases4)
  have i: "pi_read i = Ok []" using Cons.prems(2) it by (simp add: silent_iteration_def)
  obtain f1 where f1: "fr_poll_step i f = Some ([], f1)" "quiet_runtime f1" "fr_events f1 = fr_events f"
    "runtime_memory f1 = runtime_memory f"
    using quiet_fr_poll_step [OF Cons.prems(1) i] by blast
  have "fr_thread_step now inputs j i f = Some ([], f1)"
    using Cons.prems(1) f1(1) by (simp add: fr_thread_step_def quiet_runtime_def)
  then show ?case using Cons.IH [OF f1(2)] Cons.prems(2) f1(3,4) it by simp
qed simp

text \<open>A request on DRAM has been queued and the background thread has not run since.\<close>

definition waiting_runtime :: "bus_request \<Rightarrow> fpga_runtime \<Rightarrow> bool" where
  "waiting_runtime q f \<longleftrightarrow> fr_running f \<and> fr_commands f = [SendRequest q] \<and> quiet_thread (fr_thread f) \<and>
     ft_pending (fr_thread f) \<noteq> None \<and> fr_events f = []"

text \<open>The answer to a request on DRAM, and the memory after it.\<close>

definition dram_answer :: "bus_request \<Rightarrow> memory \<Rightarrow> bus_event \<times> memory" where
  "dram_answer q m =
    (if br_we q then (HostWriteResponse (br_addr q) (br_wdata q) (br_size q),
       write_block mem_write_byte m (br_addr q) (br_data q))
     else (let bs = read_block mem_read_byte m (br_addr q) (unat (br_burst_len q) * beat_bytes q)
           in (HostReadResponse (br_addr q) (first_beat (br_size q) bs) (br_size q) bs, m)))"

lemma dram_burst_route:
  assumes "dram_burst q"
  shows "classify_host_request_route q = RouteSystemBus"
proof -
  have "unat (br_burst_len q) * 1 \<le> unat (br_burst_len q) * beat_bytes q"
    using beat_bytes_cases [of q] by (intro mult_le_mono2) auto
  moreover have "0 < unat (br_burst_len q)" using assms by (simp add: dram_burst_def word_less_nat_alt)
  ultimately have t: "touched_bytes q \<noteq> 0" "unat (br_addr q) + touched_bytes q \<le> 4294967296"
    "0x80000000 \<le> unat (br_addr q)"
    using assms by (auto simp: touched_bytes_def dram_burst_def beat_bytes_def mult.commute)
  then obtain e where e: "request_end_addr q = Some e" using request_end_addr_None [of q] by auto
  show ?thesis
    using e t classify_request_region_eq [of q]
    by (auto simp: classify_host_request_route_def split: if_splits)
qed

lemma dram_request_answer:
  assumes "bus_inv b" "dram_burst q"
  shows "process_system_bus_request q b =
    Some (fst (dram_answer q (sb_memory b)), b\<lparr>sb_memory := snd (dram_answer q (sb_memory b))\<rparr>)"
proof (cases "br_we q")
  case True
  with write_beats_dram [OF assms(2) True assms(1), of 0] show ?thesis
    by (simp add: process_system_bus_request_def dram_burst_beats [OF assms(2)] dram_answer_def)
next
  case False
  define bs where "bs = read_block mem_read_byte (sb_memory b) (br_addr q) (unat (br_burst_len q) * beat_bytes q)"
  have l: "beat_bytes q \<le> length bs"
    using assms(2) by (auto simp: bs_def dram_burst_def word_less_nat_alt)
  have "read_beats q 0 (beats q) b = Some (bs, b)"
    using read_beats_dram [OF assms(2,1), of 0 "beats q"] by (simp add: dram_burst_beats [OF assms(2)] bs_def)
  with False l show ?thesis
    by (simp add: process_system_bus_request_def dram_answer_def first_beat_def Let_def flip: bs_def)
      (simp add: beat_bytes_def min_def)
qed

lemma dram_request_quiet:
  assumes "quiet_bus b" "dram_burst q"
  shows "quiet_bus (b\<lparr>sb_memory := snd (dram_answer q (sb_memory b))\<rparr>)"
proof -
  have i: "bus_inv b" using assms(1) by (simp add: quiet_bus_def)
  obtain ev b' where b': "process_system_bus_request q b = Some (ev, b')" "bus_inv b'"
    using system_bus_request_total [OF i dram_burst_route [OF assms(2)]] by blast
  then have "b' = b\<lparr>sb_memory := snd (dram_answer q (sb_memory b))\<rparr>"
    by (simp add: dram_request_answer [OF i assms(2)])
  then show ?thesis using b'(2) assms(1) by (simp add: quiet_bus_def)
qed

lemma waiting_run_background:
  assumes "waiting_runtime q f" "dram_burst q" "list_all silent_iteration its" "its \<noteq> []"
  shows "\<exists>f'. run_background its f = Some f' \<and> quiet_runtime f' \<and>
    fr_events f' = [BusEvent (fst (dram_answer q (runtime_memory f)))] \<and>
    runtime_memory f' = snd (dram_answer q (runtime_memory f))"
proof -
  obtain now inputs j i its' where its: "its = (now, inputs, j, i) # its'"
    using assms(4) by (metis neq_Nil_conv prod_cases4)
  have i: "pi_read i = Ok []" "list_all silent_iteration its'"
    using assms(3) its by (simp_all add: silent_iteration_def)
  define m where "m = runtime_memory f"
  define b where "b = (ft_bus (fr_thread f))\<lparr>sb_memory := snd (dram_answer q m)\<rparr>"
  define t where "t = (fr_thread f)\<lparr>ft_bus := b, ft_pending := None\<rparr>"
  have w: "quiet_thread (fr_thread f)" "ft_pending (fr_thread f) \<noteq> None" "quiet_bus (ft_bus (fr_thread f))"
    "bus_inv (ft_bus (fr_thread f))"
    using assms(1) by (simp_all add: waiting_runtime_def quiet_thread_def quiet_bus_def)
  have h: "handle_send_request q (fr_thread f) = Some ([BusEvent (fst (dram_answer q m))], t)"
    using w(2) by (simp add: handle_send_request_def dram_burst_route [OF assms(2)]
        dram_request_answer [OF w(4) assms(2)] t_def b_def m_def)
  have "quiet_bus b" unfolding b_def m_def by (rule dram_request_quiet [OF w(3) assms(2)])
  then have t: "quiet_thread t" "ft_pending t = None" "sb_memory (ft_bus t) = snd (dram_answer q m)"
    using w(1) by (simp_all add: t_def quiet_thread_def b_def)
  define g where "g = fr_events_add [BusEvent (fst (dram_answer q m))] (f\<lparr>fr_commands := [], fr_thread := t\<rparr>)"
  have g: "quiet_runtime g" "fr_events g = [BusEvent (fst (dram_answer q m))]" "runtime_memory g = snd (dram_answer q m)"
    using assms(1) t by (simp_all add: g_def fr_events_add_def quiet_runtime_def waiting_runtime_def)
  obtain f1 where f1: "fr_poll_step i g = Some ([], f1)" "quiet_runtime f1" "fr_events f1 = fr_events g"
    "runtime_memory f1 = runtime_memory g"
    using quiet_fr_poll_step [OF g(1) i(1)] by blast
  have "fr_thread_step now inputs j i f = Some ([], f1)"
    using assms(1) h f1(1) by (simp add: fr_thread_step_def waiting_runtime_def g_def)
  then show ?thesis
    using quiet_run_background [OF f1(2) i(2)] f1(3,4) g(2,3) its m_def by simp
qed

section \<open>The contract of the runtime\<close>

definition fpga_ready :: "fpga_world \<Rightarrow> bool" where
  "fpga_ready w \<longleftrightarrow> quiet_runtime (fw_runtime w) \<and> fr_events (fw_runtime w) = [] \<and> fair_silent (fw_schedule w)"

abbreviation world_memory :: "fpga_world \<Rightarrow> memory" where
  "world_memory w \<equiv> runtime_memory (fw_runtime w)"

lemma fpga_ready_send:
  assumes "fpga_ready w" "dram_burst q"
  shows "\<exists>f. fpga_world_send q w = Some (Ok (), w\<lparr>fw_runtime := f\<rparr>) \<and> waiting_runtime q f \<and>
    runtime_memory f = world_memory w"
  using assms
  by (auto simp: fpga_world_send_def fr_send_host_request_def dram_burst_route fr_has_pending_def
      host_request_timeout_def fpga_ready_def quiet_runtime_def waiting_runtime_def quiet_thread_def)

lemma waiting_yields_now:
  assumes "dram_burst q" "waiting_runtime q (fw_runtime w)" "fair_silent (fw_schedule w)" "fw_schedule w 0 \<noteq> []"
  shows "\<exists>w'. yields fpga_ops w [] (fst (dram_answer q (world_memory w))) w' \<and> fpga_ready w' \<and>
    world_memory w' = snd (dram_answer q (world_memory w))"
proof -
  have s: "list_all silent_iteration (fw_schedule w 0)" using assms(3) by (simp add: fair_silent_def)
  obtain f where f: "run_background (fw_schedule w 0) (fw_runtime w) = Some f" "quiet_runtime f"
    "fr_events f = [BusEvent (fst (dram_answer q (world_memory w)))]"
    "runtime_memory f = snd (dram_answer q (world_memory w))"
    using waiting_run_background [OF assms(2,1) s assms(4)] by blast
  define w' where "w' = w\<lparr>fw_runtime := f\<lparr>fr_events := []\<rparr>, fw_schedule := (\<lambda>k. fw_schedule w (Suc k))\<rparr>"
  have "fpga_world_poll w = Some (Ok (Some (fst (dram_answer q (world_memory w)))), w')"
    using f by (simp add: fpga_world_poll_def fr_poll_def w'_def)
  then have "yields fpga_ops w [] (fst (dram_answer q (world_memory w))) w'"
    by (intro yields_now) (simp add: fpga_ops_def)
  moreover have "fpga_ready w'"
    using f(2) fair_silent_suc [OF assms(3)] by (simp add: fpga_ready_def w'_def quiet_runtime_def)
  ultimately show ?thesis using f(4) by (auto simp: w'_def)
qed

lemma waiting_yields:
  assumes "dram_burst q"
  shows "waiting_runtime q (fw_runtime w) \<Longrightarrow> fair_silent (fw_schedule w) \<Longrightarrow> fw_schedule w n \<noteq> [] \<Longrightarrow>
    \<exists>w'. yields fpga_ops w [] (fst (dram_answer q (world_memory w))) w' \<and> fpga_ready w' \<and>
      world_memory w' = snd (dram_answer q (world_memory w))"
proof (induction n arbitrary: w)
  case 0
  then show ?case by (rule waiting_yields_now [OF assms])
next
  case (Suc n)
  show ?case
  proof (cases "fw_schedule w 0 = []")
    case True
    define w1 where "w1 = w\<lparr>fw_schedule := (\<lambda>k. fw_schedule w (Suc k))\<rparr>"
    have w1: "waiting_runtime q (fw_runtime w1)" "fair_silent (fw_schedule w1)" "fw_schedule w1 n \<noteq> []"
      "world_memory w1 = world_memory w"
      using Suc.prems fair_silent_suc by (simp_all add: w1_def)
    have "dr_poll fpga_ops w = Some (Ok None, w1)"
      using True Suc.prems(1) by (simp add: fpga_ops_def fpga_world_poll_def fr_poll_def waiting_runtime_def w1_def)
    with Suc.IH [OF w1(1-3)] w1(4) show ?thesis by (auto intro: yields_empty)
  next
    case False
    then show ?thesis using waiting_yields_now [OF assms Suc.prems(1,2)] by blast
  qed
qed

interpretation fpga_regions: region_runtime fpga_ops fpga_ready "\<lambda>w. world_memory w"
proof
  fix w assume "fpga_ready w"
  then show "\<not> dr_has_pending_host_request fpga_ops w"
    by (simp add: fpga_ready_def quiet_runtime_def fr_has_pending_def fpga_ops_def)
next
  have answered: "\<exists>w1 evs w'. dr_send_host_request fpga_ops q w = Some (Ok (), w1) \<and>
      yields fpga_ops w1 evs (fst (dram_answer q (world_memory w))) w' \<and> fpga_ready w' \<and>
      world_memory w' = snd (dram_answer q (world_memory w))"
    if "fpga_ready w" "dram_burst q" for q w
  proof -
    note w = that
    obtain f where f: "fpga_world_send q w = Some (Ok (), w\<lparr>fw_runtime := f\<rparr>)" "waiting_runtime q f"
      "runtime_memory f = world_memory w"
      using fpga_ready_send [OF w] by blast
    have s: "fair_silent (fw_schedule w)" using w(1) by (simp add: fpga_ready_def)
    then obtain n where "fw_schedule w n \<noteq> []" by (auto simp: fair_silent_def)
    with waiting_yields [OF w(2), of "w\<lparr>fw_runtime := f\<rparr>" n] f s show ?thesis
      by (auto simp: fpga_ops_def)
  qed
  fix q :: bus_request and w assume w: "fpga_ready w" "dram_burst q"
  show "\<exists>w1 evs w'. dr_send_host_request fpga_ops q w = Some (Ok (), w1) \<and>
      yields fpga_ops w1 evs (HostWriteResponse (br_addr q) (br_wdata q) (br_size q)) w' \<and> fpga_ready w' \<and>
      world_memory w' = write_block mem_write_byte (world_memory w) (br_addr q) (br_data q)" if "br_we q"
    using answered [OF w] that by (simp add: dram_answer_def)
  show "\<exists>w1 evs w'. dr_send_host_request fpga_ops q w = Some (Ok (), w1) \<and>
      yields fpga_ops w1 evs (HostReadResponse (br_addr q)
        (first_beat (br_size q) (read_block mem_read_byte (world_memory w) (br_addr q) (unat (br_burst_len q) * beat_bytes q)))
        (br_size q)
        (read_block mem_read_byte (world_memory w) (br_addr q) (unat (br_burst_len q) * beat_bytes q))) w' \<and>
      fpga_ready w' \<and> world_memory w' = world_memory w" if "\<not> br_we q"
    using answered [OF w] that by (simp add: dram_answer_def Let_def)
qed

text \<open>
  A region of DRAM written through the FPGA runtime reads back.  Whatever the schedule of the
  two threads, if the background thread runs again and again and the target is silent, writing a
  region of DRAM and reading a region of DRAM both return: the write with \<open>Ok\<close>, and the read with
  exactly the bytes that the write left there, at every address and alignment of both.
\<close>

theorem fpga_region_write_read:
  assumes "fpga_ready w"
    and "0x80000000 \<le> unat start" "unat start + length bytes \<le> 0x90000000"
    and "0x80000000 \<le> unat from" "unat from + unat n \<le> 0x90000000"
  shows "\<exists>log1 log2 w1 w2. write_memory_region fpga_ops start bytes w [] = Some (Ok (), log1, w1) \<and>
    read_memory_region fpga_ops from n w1 [] =
      Some (Ok (read_block mem_read_byte (write_block mem_write_byte (world_memory w) start bytes) from (unat n)),
        log2, w2) \<and> fpga_ready w2"
proof -
  obtain evs w1 where w1: "write_memory_region fpga_ops start bytes w [] = Some (Ok (), evs, w1)" "fpga_ready w1"
    "world_memory w1 = write_block mem_write_byte (world_memory w) start bytes"
    using fpga_regions.write_memory_region_correct [OF assms(1-3), of "[]"] by auto
  show ?thesis
    using fpga_regions.read_memory_region_correct [OF w1(2) assms(4,5), of "[]"] w1 by auto
qed

text \<open>A connected runtime with the background thread polling once before each call of the main thread.\<close>

definition quiet_input :: poll_input where
  "quiet_input = \<lparr>pi_now = 0, pi_read = Ok [], pi_write = Ok 64\<rparr>"

definition example_world :: fpga_world where
  "example_world = \<lparr>fw_runtime = fpga_runtime_new (fpga_thread_new system_bus_new) [] 115200, fw_now = 0,
     fw_schedule = (\<lambda>k. [(0, [], quiet_input, quiet_input)])\<rparr>"

lemma example_ready: "fpga_ready example_world"
proof -
  have "bus_inv (reset_all_devices system_bus_new)"
    using reset_all_devices_ok [of system_bus_new] system_bus_new_inv by (simp add: bus_step_ok_def)
  moreover have "sb_external_devices (reset_all_devices system_bus_new) = []"
    "tohost_value (sb_sim_control (reset_all_devices system_bus_new)) = None"
    by (simp_all add: reset_all_devices_def system_bus_new_def Let_def sim_control_defs dram_defs)
  ultimately show ?thesis
    by (auto simp: fpga_ready_def example_world_def fpga_runtime_new_def quiet_runtime_def
        fpga_thread_new_def quiet_thread_def quiet_bus_def handler_new_def transfer_tx_byte_def start_tx_packet_def
        has_incoming_request_def fair_silent_def silent_iteration_def quiet_input_def)
qed

lemma fpga_region_write_read_witness:
  "\<exists>log1 log2 w1 w2. write_memory_region fpga_ops 0x80000001 [1, 2, 3] example_world [] = Some (Ok (), log1, w1) \<and>
    read_memory_region fpga_ops 0x80000001 3 w1 [] = Some (Ok [1, 2, 3], log2, w2)"
proof -
  let ?m = "write_block mem_write_byte (world_memory example_world) 0x80000001 [1, 2, 3]"
  have n: "unat (3 :: u32) = length [1, 2, 3 :: u8]" by simp
  have r: "read_block mem_read_byte ?m 0x80000001 (unat (3 :: u32)) = [1, 2, 3]"
    unfolding n by (rule mem.read_write_block) simp_all
  have "\<exists>log1 log2 w1 w2. write_memory_region fpga_ops 0x80000001 [1, 2, 3] example_world [] = Some (Ok (), log1, w1) \<and>
      read_memory_region fpga_ops 0x80000001 3 w1 [] =
        Some (Ok (read_block mem_read_byte ?m 0x80000001 (unat (3 :: u32))), log2, w2) \<and> fpga_ready w2"
    by (rule fpga_region_write_read [OF example_ready]) simp_all
  then show ?thesis unfolding r by blast
qed

text \<open>
  C13: \<open>load_elf\<close> loads the image.  For a file whose loadable segments lie within the file and within
  DRAM and whose entry point fits, loading returns the entry point, and memory then holds the
  bytes of every loadable segment at its virtual address, in the order of the program headers,
  and is otherwise unchanged.
\<close>

theorem fpga_load_elf:
  assumes "fpga_ready w" "minimal_parse file_data = Ok elf" "unat (e_entry elf) < 2 ^ 32"
    and "e_segments elf = Some phdrs" "list_all (segment_ok file_data) phdrs"
  shows "\<exists>w'. load_elf fpga_ops (Ok file_data) minimal_parse w = Some (Ok (ucast (e_entry elf)), w') \<and>
    fpga_ready w' \<and> world_memory w' = elf_image file_data (filter loadable phdrs) (world_memory w)"
  using fpga_regions.load_segments_correct [OF assms(1,5)] assms(2-4)
  by (auto simp: load_elf_def u32_try_from_def)

definition example_elf :: elf_file where
  "example_elf = \<lparr>e_entry = 0x80000000, e_segments =
     Some [\<lparr>p_type = 1, p_vaddr = 0x80000000, p_filesz = 4, p_offset = 2\<rparr>,
       \<lparr>p_type = 1, p_vaddr = 0, p_filesz = 0, p_offset = 9\<rparr>, \<lparr>p_type = 2, p_vaddr = 0, p_filesz = 4, p_offset = 9\<rparr>]\<rparr>"

lemma fpga_load_elf_witness:
  "\<exists>w'. load_elf fpga_ops (Ok [0, 0, 0x13, 0, 0, 0]) (\<lambda>_. Ok example_elf) example_world =
      Some (Ok 0x80000000, w') \<and>
    world_memory w' = write_block mem_write_byte (world_memory example_world) 0x80000000 [0x13, 0, 0, 0]"
  using fpga_load_elf [OF example_ready, of "\<lambda>_. Ok example_elf" "[0, 0, 0x13, 0, 0, 0]" example_elf]
  by (auto simp: example_elf_def segment_ok_def loadable_def PT_LOAD_def elf_image_def segment_bytes_def)

section \<open>Every request ends\<close>










end
