(* ===== verification/Sim_Client.thy ===== *)
theory Sim_Client
  imports Sim_Runtime Fpga_Client
begin

text \<open>
  What the simulator runtime promises to the main thread: the memory regions of \<open>Runtime_Client\<close>
  work on it as they do on the FPGA runtime, and a request ends with its response or its timeout.
  And what it does not: after one request has timed out in the target, every later one fails.
\<close>

section \<open>A timed-out request stays in the core\<close>











section \<open>A quiet target\<close>

text \<open>
  From this state on, as long as it is not reset, the CPU sends nothing and completes no instruction,
  because it waits to be booted or has halted.
\<close>

definition quiet_cpu :: "'c cpu_model \<Rightarrow> 'c \<Rightarrow> bool" where
  "quiet_cpu M c \<longleftrightarrow> (\<forall>ins. (\<forall>i \<in> set ins. ci_rst i = 0) \<longrightarrow>
     (let o' = cm_outputs M (fold (cm_eval M) ins c)
      in co_host_tx_valid o' = 0 \<and> co_instr_complete o' = 0 \<and>
        (co_cpu_booting o' \<noteq> 0 \<or> co_halted o' \<noteq> 0)))"

lemma quiet_cpu_eval:
  assumes "quiet_cpu M c" "ci_rst i = 0"
  shows "quiet_cpu M (cm_eval M i c)"
  unfolding quiet_cpu_def
proof (intro allI impI)
  fix ins :: "cpu_inputs list" assume "\<forall>i \<in> set ins. ci_rst i = 0"
  then have "\<forall>j \<in> set (i # ins). ci_rst j = 0" using assms(2) by simp
  with assms(1) show "let o' = cm_outputs M (fold (cm_eval M) ins (cm_eval M i c))
      in co_host_tx_valid o' = 0 \<and> co_instr_complete o' = 0 \<and> (co_cpu_booting o' \<noteq> 0 \<or> co_halted o' \<noteq> 0)"
    unfolding quiet_cpu_def by (metis fold_simps(2))
qed

lemma quiet_cpu_outputs:
  "quiet_cpu M c \<Longrightarrow> co_host_tx_valid (cm_outputs M c) = 0 \<and> co_instr_complete (cm_outputs M c) = 0 \<and>
    (co_cpu_booting (cm_outputs M c) \<noteq> 0 \<or> co_halted (cm_outputs M c) \<noteq> 0)"
  unfolding quiet_cpu_def by (drule spec [of _ "[]"]) (simp add: Let_def)

definition quiet_sim :: "'c cpu_model \<Rightarrow> 'c simulator \<Rightarrow> bool" where
  "quiet_sim M s \<longleftrightarrow> sim_inv s \<and> quiet_cpu M (si_cpu s) \<and> ci_rst (si_inputs s) = 0 \<and>
     quiet_bus (si_bus s) \<and> si_pending_response s = None \<and>
     transfer_tx_byte (si_handler s) = (None, si_handler s) \<and> \<not> has_incoming_request (si_handler s)"

lemma quiet_handle:
  assumes "quiet_sim M s"
  shows "handle_host_bus_interface M s = Some (s\<lparr>si_inputs := (si_inputs s)\<lparr>ci_host_rx_valid := 0\<rparr>\<rparr>)"
  using assms quiet_cpu_outputs [of M "si_cpu s"]
  by (auto simp: handle_host_bus_interface_def host_bus_rx_def host_bus_tx_def host_bus_complete_def
      host_bus_accept_def accept_request_def has_incoming_request_def quiet_sim_def)

lemma quiet_step:
  assumes "quiet_sim M s"
  shows "\<exists>s'. step_cycle M e s = Some (Ok None, s') \<and> quiet_sim M s' \<and>
    sb_memory (si_bus s') = sb_memory (si_bus s) \<and> si_handler s' = si_handler s \<and>
    si_direct_response s' = si_direct_response s"
proof -
  define s0 where "s0 = cpu_eval M (drive_clocks 0 s)"
  have q: "ci_rst (si_inputs s) = 0" "quiet_bus (si_bus s)" "quiet_cpu M (si_cpu s)" "sim_inv s"
    using assms by (simp_all add: quiet_sim_def)
  have c0: "quiet_cpu M (si_cpu s0)"
    using q(1,3) by (simp add: s0_def cpu_eval_def drive_clocks_def quiet_cpu_eval)
  have s0: "quiet_sim M s0" "ci_rst (si_inputs s0) = 0"
    using assms c0 by (simp_all add: s0_def quiet_sim_def sim_inv_def drive_clocks_def latency_inv_def)
  define s1 where "s1 = s0\<lparr>si_inputs := (si_inputs s0)\<lparr>ci_host_rx_valid := 0\<rparr>\<rparr>"
  have h1: "handle_host_bus_interface M s0 = Some s1"
    using quiet_handle [OF s0(1)] by (simp add: s1_def)
  define s2 where "s2 = (dump_vcd ((cpu_eval M (drive_clocks 1 (print_fsm M s1)))\<lparr>si_cycle_count :=
    si_cycle_count s1 + 1\<rparr>))\<lparr>si_bus := clock_cycle_all_devices (si_bus s1)\<rparr>"
  have e2: "clock_edges M s = Some s2"
    using h1 by (simp add: clock_edges_def s2_def Let_def flip: s0_def)
  have c2: "quiet_cpu M (si_cpu s2)"
    using c0 s0(2) by (simp add: s2_def s1_def cpu_eval_def drive_clocks_def quiet_cpu_eval)
  have "si_handler s2 = si_handler s" "si_direct_response s2 = si_direct_response s"
    "si_pending_response s2 = None" "ci_rst (si_inputs s2) = 0" "si_bus s2 = clock_cycle_all_devices (si_bus s)"
    using assms s0(2) by (simp_all add: s2_def s1_def s0_def drive_clocks_def quiet_sim_def)
  note f2 = this
  have i2: "sim_inv s2" using clock_edges_inv(2) [OF q(4) e2] by simp
  have h: "check_hung M s2 = Some (Ok (), s2)"
    using quiet_cpu_outputs [OF c2] by (auto simp: check_hung_def Let_def)
  obtain v s3 where s3: "finish_cycle M e s2 = (v, s3)" by fastforce
  note i3 = finish_cycle_inv [OF i2 s3]
  obtain b where b: "tick_bus (si_bus s) = (None, b)" "quiet_bus b" "sb_memory b = sb_memory (si_bus s)"
    using quiet_tick [OF q(2)] by blast
  then have b2: "tohost_value (sb_sim_control (si_bus s2)) = None" "sb_memory (si_bus s2) = sb_memory (si_bus s)"
    "list_all quiet_device (sb_external_devices (si_bus s2))"
    unfolding f2(5) by (auto simp: tick_bus_def Let_def acknowledge_termination_def quiet_bus_def)
  have "si_direct_response s3 = si_direct_response s2" "si_inputs s3 = si_inputs s2"
    using s3 by (auto simp: finish_cycle_def Let_def acknowledge_termination_def)
  then have "quiet_sim M s3"
    using i3 b2 f2 c2 assms by (simp add: quiet_sim_def quiet_bus_def sim_inv_def latency_inv_def)
  moreover have "step_cycle M e s = Some (Ok None, s3)"
    using e2 h s3 i3 b2(1) by (simp add: step_cycle_def)
  ultimately show ?thesis using i3 f2 b2(2) \<open>si_direct_response s3 = si_direct_response s2\<close> by auto
qed

section \<open>The calls of the main thread under a schedule\<close>

text \<open>
  Poll \<open>k\<close> of the main thread is preceded by the iterations \<open>snd (s k)\<close> of the background loop, each with
  its time and the time it takes, and ends at the time \<open>fst (s k)\<close>.
\<close>

record 'c sim_world =
  sw_runtime :: "'c sim_runtime"
  sw_now :: nat
  sw_schedule :: "nat \<Rightarrow> nat \<times> (nat \<times> u64) list"

fun run_iterations :: "'c cpu_model \<Rightarrow> (nat \<times> u64) list \<Rightarrow> 'c sim_runtime \<Rightarrow> 'c sim_runtime option" where
  "run_iterations M [] r = Some r"
| "run_iterations M ((now, e) # its) r = Option.bind (sr_iteration M now e r) (run_iterations M its)"

definition sim_world_send ::
  "bus_request \<Rightarrow> 'c sim_world \<Rightarrow> ((device_error, unit) result \<times> 'c sim_world) option" where
  "sim_world_send q w =
    (case sr_send_host_request (sw_now w) q (sw_runtime w) of (res, r) \<Rightarrow> Some (res, w\<lparr>sw_runtime := r\<rparr>))"

definition sim_world_poll ::
  "'c cpu_model \<Rightarrow> 'c sim_world \<Rightarrow> ((device_error, bus_event option) result \<times> 'c sim_world) option" where
  "sim_world_poll M w =
    (case run_iterations M (snd (sw_schedule w 0)) (sw_runtime w) of
       None \<Rightarrow> None
     | Some r \<Rightarrow>
       (case sr_poll r of
          (res, r) \<Rightarrow> Some (res, w\<lparr>sw_runtime := r, sw_now := fst (sw_schedule w 0),
            sw_schedule := (\<lambda>k. sw_schedule w (Suc k))\<rparr>)))"

definition sim_ops :: "'c cpu_model \<Rightarrow> 'c sim_world device_runtime" where
  "sim_ops M = \<lparr>dr_send_host_request = sim_world_send, dr_poll = sim_world_poll M,
     dr_has_pending_host_request = (\<lambda>w. sr_has_pending (sw_runtime w))\<rparr>"

text \<open>
  After every time \<open>t\<close> at which a call of the main thread ends, the background loop runs again, and its
  first iteration is not later than the deadline of a request sent at \<open>t\<close>.
\<close>

definition runs_at :: "(nat \<Rightarrow> nat \<times> (nat \<times> u64) list) \<Rightarrow> nat \<Rightarrow> nat \<Rightarrow> bool" where
  "runs_at s t j \<longleftrightarrow> snd (s j) \<noteq> [] \<and> (\<forall>i<j. snd (s i) = []) \<and>
     fst (hd (snd (s j))) - t \<le> SIM_HOST_REQUEST_TIMEOUT"

definition prompt :: "(nat \<Rightarrow> nat \<times> (nat \<times> u64) list) \<Rightarrow> nat \<Rightarrow> bool" where
  "prompt s t \<longleftrightarrow> (\<exists>j. runs_at s t j) \<and> (\<forall>k. \<exists>j. runs_at (\<lambda>i. s (Suc k + i)) (fst (s k)) j)"

lemma prompt_suc: "prompt s t \<Longrightarrow> prompt (\<lambda>k. s (Suc k)) (fst (s 0))"
proof -
  assume "prompt s t"
  then have p: "\<exists>j. runs_at (\<lambda>i. s (Suc k + i)) (fst (s k)) j" for k by (simp add: prompt_def)
  show "prompt (\<lambda>k. s (Suc k)) (fst (s 0))"
    using p [of 0] p [of "Suc k" for k] by (simp add: prompt_def)
qed

section \<open>The contract of the runtime\<close>

definition quiet_sim_runtime :: "'c cpu_model \<Rightarrow> 'c sim_runtime \<Rightarrow> bool" where
  "quiet_sim_runtime M r \<longleftrightarrow> sr_running r \<and> sr_commands r = [] \<and> sr_pending r = None \<and>
     quiet_sim M (sr_simulator r) \<and> si_direct_response (sr_simulator r) = None \<and>
     hb_outgoing_request (si_handler (sr_simulator r)) = None"

abbreviation sim_memory :: "'c sim_runtime \<Rightarrow> memory" where
  "sim_memory r \<equiv> sb_memory (si_bus (sr_simulator r))"

lemma quiet_sr_cycle:
  assumes "quiet_sim M (sr_simulator r)" "sr_running r"
  shows "\<exists>s. quiet_sim M s \<and> sb_memory (si_bus s) = sim_memory r \<and> si_handler s = si_handler (sr_simulator r) \<and>
    si_direct_response s = si_direct_response (sr_simulator r) \<and>
    sr_cycle M now e r = Some (sr_check_response (sr_check_timeout now (r\<lparr>sr_simulator := s\<rparr>)))"
proof -
  obtain s where s: "step_cycle M e (sr_simulator r) = Some (Ok None, s)" "quiet_sim M s"
    "sb_memory (si_bus s) = sim_memory r" "si_handler s = si_handler (sr_simulator r)"
    "si_direct_response s = si_direct_response (sr_simulator r)"
    using quiet_step [OF assms(1), of e] by blast
  then show ?thesis by (auto simp: sr_cycle_def sr_emit_def)
qed

lemma quiet_run_iterations:
  "quiet_sim_runtime M r \<Longrightarrow>
    \<exists>r'. run_iterations M its r = Some r' \<and> quiet_sim_runtime M r' \<and> sr_events r' = sr_events r \<and>
      sim_memory r' = sim_memory r"
proof (induction its arbitrary: r)
  case (Cons it its)
  obtain now e where it: "it = (now, e)" by fastforce
  have q: "quiet_sim M (sr_simulator r)" "sr_running r" "sr_commands r = []" "sr_pending r = None"
    using Cons.prems by (simp_all add: quiet_sim_runtime_def)
  from quiet_sr_cycle [OF q(1,2)] obtain s where s: "quiet_sim M s" "sb_memory (si_bus s) = sim_memory r"
    "si_handler s = si_handler (sr_simulator r)" "si_direct_response s = si_direct_response (sr_simulator r)"
    "sr_cycle M now e r = Some (sr_check_response (sr_check_timeout now (r\<lparr>sr_simulator := s\<rparr>)))"
    by blast
  define r1 where "r1 = r\<lparr>sr_simulator := s\<rparr>"
  have "sr_iteration M now e r = Some r1"
    using s(5) q(2-4) by (simp add: sr_iteration_def sr_check_timeout_def sr_check_response_def r1_def)
  moreover have "quiet_sim_runtime M r1" "sr_events r1 = sr_events r" "sim_memory r1 = sim_memory r"
    using Cons.prems s(1-4) by (simp_all add: quiet_sim_runtime_def r1_def)
  ultimately show ?case using Cons.IH [of r1] it by simp
qed simp

lemma sim_direct_dram:
  assumes "bus_inv b" "dram_burst q" "ph_addr p = br_addr q" "ph_wdata p = br_wdata q"
  shows "\<exists>resp. sim_direct_response q b = Some (resp, b\<lparr>sb_memory := snd (dram_answer q (sb_memory b))\<rparr>) \<and>
    response_event p resp = fst (dram_answer q (sb_memory b))"
proof (cases "br_we q")
  case True
  with write_beats_dram [OF assms(2) True assms(1), of 0] assms(3,4) show ?thesis
    by (simp add: sim_direct_response_def dram_burst_beats [OF assms(2)] dram_answer_def
        response_event_def response_write_ack_def)
next
  case False
  with read_beats_dram [OF assms(2,1), of 0] assms(3,4) show ?thesis
    by (simp add: sim_direct_response_def dram_burst_beats [OF assms(2)] dram_answer_def Let_def
        response_event_def response_burst_read_data_def)
qed

text \<open>A request on DRAM, sent at the time \<open>t\<close>, has been queued and the background thread has not run since.\<close>

definition waiting_sim :: "'c cpu_model \<Rightarrow> bus_request \<Rightarrow> nat \<Rightarrow> 'c sim_runtime \<Rightarrow> bool" where
  "waiting_sim M q t r \<longleftrightarrow> sr_running r \<and> sr_commands r = [SimSendRequest q] \<and> sr_events r = [] \<and>
     (\<exists>p. sr_pending r = Some p \<and> ph_addr p = br_addr q \<and> ph_wdata p = br_wdata q \<and> ph_sent_at p = t \<and>
       ph_timeout p = SIM_HOST_REQUEST_TIMEOUT) \<and>
     quiet_sim M (sr_simulator r) \<and> si_direct_response (sr_simulator r) = None \<and>
     hb_outgoing_request (si_handler (sr_simulator r)) = None"

lemma waiting_sim_iteration:
  assumes "waiting_sim M q t r" "dram_burst q" "now - t \<le> SIM_HOST_REQUEST_TIMEOUT"
  shows "\<exists>r'. sr_iteration M now e r = Some r' \<and> quiet_sim_runtime M r' \<and>
    sr_events r' = [SimBus (fst (dram_answer q (sim_memory r)))] \<and>
    sim_memory r' = snd (dram_answer q (sim_memory r))"
proof -
  obtain p where p: "sr_pending r = Some p" "ph_addr p = br_addr q" "ph_wdata p = br_wdata q"
    "ph_sent_at p = t" "ph_timeout p = SIM_HOST_REQUEST_TIMEOUT"
    using assms(1) by (auto simp: waiting_sim_def)
  define s where "s = sr_simulator r"
  define m where "m = sb_memory (si_bus s)"
  have q: "quiet_sim M s" "si_direct_response s = None" "hb_outgoing_request (si_handler s) = None"
    "sr_running r" "sr_commands r = [SimSendRequest q]" "sr_events r = []"
    using assms(1) by (simp_all add: waiting_sim_def s_def)
  have b: "bus_inv (si_bus s)" "quiet_bus (si_bus s)" using q(1) by (simp_all add: quiet_sim_def quiet_bus_def)
  obtain resp where resp: "sim_direct_response q (si_bus s) = Some (resp, (si_bus s)\<lparr>sb_memory := snd (dram_answer q m)\<rparr>)"
    "response_event p resp = fst (dram_answer q m)"
    using sim_direct_dram [OF b(1) assms(2) p(2,3)] unfolding m_def by blast
  define s1 where "s1 = s\<lparr>si_bus := (si_bus s)\<lparr>sb_memory := snd (dram_answer q m)\<rparr>, si_direct_response := Some resp\<rparr>"
  have route: "request_end_addr q \<noteq> None" "classify_request_region q = NonRtl"
    using dram_burst_route [OF assms(2)]
    by (auto simp: classify_host_request_route_def split: if_splits request_address_region.splits)
  have send: "send_bus_request q s = Some (Ok (), s1)"
    using route q(2,3) resp(1) by (simp add: send_bus_request_def has_pending_outgoing_request_def s1_def)
  have "quiet_bus (si_bus s1)"
    using dram_request_quiet [OF b(2) assms(2)] by (simp add: s1_def m_def)
  then have q1: "quiet_sim M s1"
    using q(1) by (simp add: quiet_sim_def s1_def sim_inv_def quiet_bus_def)
  define r1 where "r1 = r\<lparr>sr_commands := [], sr_simulator := s1\<rparr>"
  have "quiet_sim M (sr_simulator r1)" "sr_running r1" using q1 q(4) by (simp_all add: r1_def)
  from quiet_sr_cycle [OF this] obtain s2 where s2: "quiet_sim M s2" "sb_memory (si_bus s2) = snd (dram_answer q m)"
    "si_handler s2 = si_handler s" "si_direct_response s2 = Some resp"
    "sr_cycle M now e r1 = Some (sr_check_response (sr_check_timeout now (r1\<lparr>sr_simulator := s2\<rparr>)))"
    by (auto simp: r1_def s1_def)
  define r2 where "r2 = r1\<lparr>sr_simulator := s2\<lparr>si_direct_response := None\<rparr>, sr_pending := None,
    sr_events := [SimBus (response_event p resp)]\<rparr>"
  have nt: "\<not> timed_out now p" using assms(3) p(4,5) by (simp add: timed_out_def)
  have "sr_check_response (sr_check_timeout now (r1\<lparr>sr_simulator := s2\<rparr>)) = r2"
    using p(1) nt s2(4) q(6)
    by (simp add: sr_check_timeout_def sr_check_response_def receive_bus_response_def sr_emit_def r2_def r1_def)
  moreover have "sr_iteration M now e r = sr_cycle M now e r1"
    using q(4,5) send by (simp add: sr_iteration_def sr_handle_command_def r1_def s_def)
  moreover have "quiet_sim_runtime M r2"
    using s2(1,3) q(3,4) by (simp add: quiet_sim_runtime_def r2_def r1_def quiet_sim_def sim_inv_def)
  ultimately show ?thesis using s2(2,5) resp(2) by (simp add: r2_def m_def s_def)
qed

definition sim_ready :: "'c cpu_model \<Rightarrow> 'c sim_world \<Rightarrow> bool" where
  "sim_ready M w \<longleftrightarrow> quiet_sim_runtime M (sw_runtime w) \<and> sr_events (sw_runtime w) = [] \<and>
     prompt (sw_schedule w) (sw_now w)"

lemma sim_ready_send:
  assumes "sim_ready M w" "dram_burst q"
  shows "\<exists>r. sim_world_send q w = Some (Ok (), w\<lparr>sw_runtime := r\<rparr>) \<and> waiting_sim M q (sw_now w) r \<and>
    sim_memory r = sim_memory (sw_runtime w)"
proof -
  define p where "p = \<lparr>ph_addr = br_addr q, ph_wdata = br_wdata q, ph_sent_at = sw_now w,
    ph_timeout = SIM_HOST_REQUEST_TIMEOUT\<rparr>"
  define r where "r = (sw_runtime w)\<lparr>sr_pending := Some p, sr_commands := [SimSendRequest q]\<rparr>"
  have "sim_world_send q w = Some (Ok (), w\<lparr>sw_runtime := r\<rparr>)"
    using assms by (simp add: sim_world_send_def sr_send_host_request_def dram_burst_route sim_ready_def
        quiet_sim_runtime_def r_def p_def)
  moreover have "waiting_sim M q (sw_now w) r" "sim_memory r = sim_memory (sw_runtime w)"
    using assms(1) by (simp_all add: waiting_sim_def sim_ready_def quiet_sim_runtime_def r_def p_def)
  ultimately show ?thesis by blast
qed

lemma waiting_sim_yields:
  assumes "dram_burst q"
  shows "waiting_sim M q t (sw_runtime w) \<Longrightarrow> runs_at (sw_schedule w) t n \<Longrightarrow>
      \<forall>k. \<exists>j. runs_at (\<lambda>i. sw_schedule w (Suc k + i)) (fst (sw_schedule w k)) j \<Longrightarrow>
    \<exists>w'. yields (sim_ops M) w [] (fst (dram_answer q (sim_memory (sw_runtime w)))) w' \<and> sim_ready M w' \<and>
      sim_memory (sw_runtime w') = snd (dram_answer q (sim_memory (sw_runtime w)))"
proof (induction n arbitrary: w)
  case 0
  let ?m = "sim_memory (sw_runtime w)"
  obtain now e its where its: "snd (sw_schedule w 0) = (now, e) # its" "now - t \<le> SIM_HOST_REQUEST_TIMEOUT"
    using "0.prems"(2) by (cases "snd (sw_schedule w 0)") (auto simp: runs_at_def)
  obtain r1 where r1: "sr_iteration M now e (sw_runtime w) = Some r1" "quiet_sim_runtime M r1"
    "sr_events r1 = [SimBus (fst (dram_answer q ?m))]" "sim_memory r1 = snd (dram_answer q ?m)"
    using waiting_sim_iteration [OF "0.prems"(1) assms its(2)] by blast
  obtain r2 where r2: "run_iterations M its r1 = Some r2" "quiet_sim_runtime M r2"
    "sr_events r2 = sr_events r1" "sim_memory r2 = sim_memory r1"
    using quiet_run_iterations [OF r1(2)] by blast
  define w' where "w' = w\<lparr>sw_runtime := r2\<lparr>sr_events := []\<rparr>, sw_now := fst (sw_schedule w 0),
    sw_schedule := (\<lambda>k. sw_schedule w (Suc k))\<rparr>"
  have "sim_world_poll M w = Some (Ok (Some (fst (dram_answer q ?m))), w')"
    using its(1) r1(1,3) r2 by (simp add: sim_world_poll_def sr_poll_def w'_def)
  then have "yields (sim_ops M) w [] (fst (dram_answer q ?m)) w'"
    by (intro yields_now) (simp add: sim_ops_def)
  moreover have "prompt (\<lambda>k. sw_schedule w (Suc k)) (fst (sw_schedule w 0))"
  proof -
    have "prompt (sw_schedule w) t" using "0.prems"(2,3) by (auto simp: prompt_def)
    then show ?thesis by (rule prompt_suc)
  qed
  then have "sim_ready M w'" using r2(2) by (simp add: sim_ready_def w'_def quiet_sim_runtime_def)
  ultimately show ?case using r1(4) r2(4) by (auto simp: w'_def)
next
  case (Suc n)
  define w1 where "w1 = w\<lparr>sw_now := fst (sw_schedule w 0), sw_schedule := (\<lambda>k. sw_schedule w (Suc k))\<rparr>"
  have z: "snd (sw_schedule w 0) = []" using Suc.prems(2) by (simp add: runs_at_def)
  have w1: "waiting_sim M q t (sw_runtime w1)" "runs_at (sw_schedule w1) t n"
    using Suc.prems(1,2) by (auto simp: w1_def runs_at_def)
  have "\<exists>j. runs_at (\<lambda>i. sw_schedule w1 (Suc k + i)) (fst (sw_schedule w1 k)) j" for k
    using Suc.prems(3) [rule_format, of "Suc k"] by (simp add: w1_def)
  then obtain w' where w': "yields (sim_ops M) w1 [] (fst (dram_answer q (sim_memory (sw_runtime w)))) w'"
    "sim_ready M w'" "sim_memory (sw_runtime w') = snd (dram_answer q (sim_memory (sw_runtime w)))"
    using Suc.IH [OF w1] by (auto simp: w1_def)
  have "dr_poll (sim_ops M) w = Some (Ok None, w1)"
    using z Suc.prems(1) by (simp add: sim_ops_def sim_world_poll_def sr_poll_def waiting_sim_def w1_def)
  with w' show ?case by (blast intro: yields_empty)
qed

interpretation sim_regions: region_runtime "sim_ops M" "sim_ready M" "\<lambda>w. sim_memory (sw_runtime w)"
  for M :: "'c cpu_model"
proof
  fix w assume "sim_ready M w"
  then show "\<not> dr_has_pending_host_request (sim_ops M) w"
    by (simp add: sim_ready_def quiet_sim_runtime_def sr_has_pending_def sim_ops_def)
next
  have answered: "\<exists>w1 evs w'. dr_send_host_request (sim_ops M) q w = Some (Ok (), w1) \<and>
      yields (sim_ops M) w1 evs (fst (dram_answer q (sim_memory (sw_runtime w)))) w' \<and> sim_ready M w' \<and>
      sim_memory (sw_runtime w') = snd (dram_answer q (sim_memory (sw_runtime w)))"
    if w: "sim_ready M w" "dram_burst q" for q w
  proof -
    obtain r where r: "sim_world_send q w = Some (Ok (), w\<lparr>sw_runtime := r\<rparr>)" "waiting_sim M q (sw_now w) r"
      "sim_memory r = sim_memory (sw_runtime w)"
      using sim_ready_send [OF w] by blast
    obtain n where n: "runs_at (sw_schedule w) (sw_now w) n"
      using w(1) by (auto simp: sim_ready_def prompt_def)
    have "\<exists>j. runs_at (\<lambda>i. sw_schedule w (Suc k + i)) (fst (sw_schedule w k)) j" for k
      using w(1) by (simp add: sim_ready_def prompt_def)
    with waiting_sim_yields [OF w(2), of M "sw_now w" "w\<lparr>sw_runtime := r\<rparr>" n] r n show ?thesis
      by (auto simp: sim_ops_def)
  qed
  fix q :: bus_request and w assume w: "sim_ready M w" "dram_burst q"
  show "\<exists>w1 evs w'. dr_send_host_request (sim_ops M) q w = Some (Ok (), w1) \<and>
      yields (sim_ops M) w1 evs (HostWriteResponse (br_addr q) (br_wdata q) (br_size q)) w' \<and> sim_ready M w' \<and>
      sim_memory (sw_runtime w') = write_block mem_write_byte (sim_memory (sw_runtime w)) (br_addr q) (br_data q)"
    if "br_we q"
    using answered [OF w] that by (simp add: dram_answer_def)
  show "\<exists>w1 evs w'. dr_send_host_request (sim_ops M) q w = Some (Ok (), w1) \<and>
      yields (sim_ops M) w1 evs (HostReadResponse (br_addr q)
        (first_beat (br_size q) (read_block mem_read_byte (sim_memory (sw_runtime w)) (br_addr q)
          (unat (br_burst_len q) * beat_bytes q))) (br_size q)
        (read_block mem_read_byte (sim_memory (sw_runtime w)) (br_addr q) (unat (br_burst_len q) * beat_bytes q))) w' \<and>
      sim_ready M w' \<and> sim_memory (sw_runtime w') = sim_memory (sw_runtime w)" if "\<not> br_we q"
    using answered [OF w] that by (simp add: dram_answer_def Let_def)
qed

section \<open>Both backends are one memory\<close>

text \<open>
  C12: the two backends agree.  For any CPU model that is quiet, any schedules of the threads and any
  time that they take, writing a region of DRAM through the FPGA runtime and through the simulator
  runtime returns \<open>Ok\<close> on both, and from equal memories leads to equal memories; reading any region of
  DRAM afterwards returns the same bytes on both.
\<close>

theorem backends_agree:
  assumes "fpga_ready w" "sim_ready M v" "world_memory w = sim_memory (sw_runtime v)"
    and "0x80000000 \<le> unat start" "unat start + length bytes \<le> 0x90000000"
    and "0x80000000 \<le> unat from" "unat from + unat n \<le> 0x90000000"
  shows "\<exists>l w1 k v1 l' w2 k' v2 bs.
    write_memory_region fpga_ops start bytes w [] = Some (Ok (), l, w1) \<and>
    write_memory_region (sim_ops M) start bytes v [] = Some (Ok (), k, v1) \<and>
    world_memory w1 = sim_memory (sw_runtime v1) \<and>
    read_memory_region fpga_ops from n w1 [] = Some (Ok bs, l', w2) \<and>
    read_memory_region (sim_ops M) from n v1 [] = Some (Ok bs, k', v2) \<and>
    fpga_ready w2 \<and> sim_ready M v2"
proof -
  obtain l w1 where w1: "write_memory_region fpga_ops start bytes w [] = Some (Ok (), l, w1)" "fpga_ready w1"
    "world_memory w1 = write_block mem_write_byte (world_memory w) start bytes"
    using fpga_regions.write_memory_region_correct [OF assms(1,4,5), of "[]"] by auto
  obtain k v1 where v1: "write_memory_region (sim_ops M) start bytes v [] = Some (Ok (), k, v1)" "sim_ready M v1"
    "sim_memory (sw_runtime v1) = write_block mem_write_byte (sim_memory (sw_runtime v)) start bytes"
    using sim_regions.write_memory_region_correct [OF assms(2,4,5), of "[]"] by auto
  have m: "world_memory w1 = sim_memory (sw_runtime v1)" using w1(3) v1(3) assms(3) by simp
  define bs where "bs = read_block mem_read_byte (world_memory w1) from (unat n)"
  obtain l' w2 where "read_memory_region fpga_ops from n w1 [] = Some (Ok bs, l', w2)" "fpga_ready w2"
    using fpga_regions.read_memory_region_correct [OF w1(2) assms(6,7), of "[]"] by (auto simp: bs_def)
  moreover obtain k' v2 where "read_memory_region (sim_ops M) from n v1 [] = Some (Ok bs, k', v2)" "sim_ready M v2"
    using sim_regions.read_memory_region_correct [OF v1(2) assms(6,7), of "[]"] by (auto simp: bs_def m)
  ultimately show ?thesis using w1(1) v1(1) m by blast
qed

text \<open>A simulator whose CPU waits to be booted, with one iteration before each call of the main thread.\<close>

definition idle_runtime :: "unit simulator \<Rightarrow> unit sim_runtime" where
  "idle_runtime s = \<lparr>sr_simulator = s, sr_commands = [], sr_events = [], sr_pending = None, sr_running = True,
     sr_reset_result = None\<rparr>"

definition idle_world :: "unit sim_world" where
  "idle_world = \<lparr>sw_runtime = idle_runtime (idle_simulator 2), sw_now = 0, sw_schedule = (\<lambda>k. (0, [(0, 1)]))\<rparr>"

lemma quiet_idle_cpu: "quiet_cpu idle_cpu ()"
  by (simp add: quiet_cpu_def idle_cpu_def idle_outputs_def Let_def)

lemma idle_quiet_sim:
  assumes "handler_reachable h" "transfer_tx_byte h = (None, h)" "\<not> has_incoming_request h"
  shows "quiet_sim idle_cpu ((idle_simulator n)\<lparr>si_handler := h\<rparr>)"
proof -
  have "sim_inv (idle_simulator n)"
    by (simp add: idle_simulator_def simulator_new_with_options_def simulator_new_inv)
  then show ?thesis
    using assms quiet_idle_cpu system_bus_new_inv
    by (simp add: quiet_sim_def sim_inv_def idle_simulator_def simulator_new_with_options_def simulator_new_def
        idle_inputs_def quiet_bus_def system_bus_new_def Let_def sim_control_new_def)
qed

lemma idle_ready: "sim_ready idle_cpu idle_world"
proof -
  have "transfer_tx_byte handler_new = (None, handler_new)" "\<not> has_incoming_request handler_new"
    by (simp_all add: handler_new_def transfer_tx_byte_def start_tx_packet_def has_incoming_request_def)
  from idle_quiet_sim [OF handler_reachable.reach_new this, of 2]
  have q: "quiet_sim idle_cpu (idle_simulator 2)"
    by (simp add: idle_simulator_def simulator_new_with_options_def simulator_new_def)
  have "runs_at (\<lambda>k. (0, [(0, 1)])) 0 0" by (simp add: runs_at_def)
  then have "prompt (sw_schedule idle_world) (sw_now idle_world)"
    unfolding prompt_def idle_world_def by auto
  moreover have "si_direct_response (idle_simulator 2) = None"
    "hb_outgoing_request (si_handler (idle_simulator 2)) = None"
    by (simp_all add: idle_simulator_def simulator_new_with_options_def simulator_new_def handler_new_def)
  ultimately show ?thesis
    using q by (simp add: sim_ready_def quiet_sim_runtime_def idle_runtime_def idle_world_def)
qed

lemma backends_agree_witness:
  "\<exists>l w1 k v1 l' w2 k' v2 bs.
    write_memory_region fpga_ops 0x80000001 [1, 2, 3] example_world [] = Some (Ok (), l, w1) \<and>
    write_memory_region (sim_ops idle_cpu) 0x80000001 [1, 2, 3] idle_world [] = Some (Ok (), k, v1) \<and>
    read_memory_region fpga_ops 0x80000000 9 w1 [] = Some (Ok bs, l', w2) \<and>
    read_memory_region (sim_ops idle_cpu) 0x80000000 9 v1 [] = Some (Ok bs, k', v2)"
proof -
  have m: "world_memory example_world = sim_memory (sw_runtime idle_world)"
    by (simp add: example_world_def fpga_runtime_new_def fpga_thread_new_def idle_world_def idle_runtime_def
        idle_simulator_def simulator_new_with_options_def simulator_new_def reset_all_devices_def
        system_bus_new_def Let_def mem_reset_def mem_new_def sim_control_defs dram_defs with_elapsed_time_def)
  show ?thesis
    using backends_agree [OF example_ready idle_ready m, of "0x80000001" "[1, 2, 3]" "0x80000000" 9] by auto
qed


end
