(* ===== verification/Host_Memtest.thy ===== *)
theory Host_Memtest
  imports Host_Numbers Sim_Client
begin

text \<open>
  The memory test of the shell (\<open>memtest\<close> in \<open>fpga-host/src/shell.rs\<close>) is sound and complete.  Its
  check accepts a read-back exactly when it is the pattern that was written; on a runtime whose
  memory is what \<open>region_runtime\<close> promises, both backends included, the test passes and leaves
  the pattern in memory.
\<close>

section \<open>The pattern\<close>

definition memtest_word :: "u32 \<Rightarrow> u32 \<Rightarrow> nat \<Rightarrow> u32" where
  "memtest_word start off i = start + 4 * word_of_nat i + off"

definition memtest_bytes :: "u32 \<Rightarrow> u32 \<Rightarrow> nat \<Rightarrow> nat \<Rightarrow> u8 list" where
  "memtest_bytes start off i k = concat (map (\<lambda>j. le_bytes32 (memtest_word start off j)) [i..<i + k])"

lemma memtest_bytes_simps [simp]:
  "memtest_bytes start off i 0 = []"
  "memtest_bytes start off i (Suc k) =
    le_bytes32 (memtest_word start off i) @ memtest_bytes start off (Suc i) k"
  by (simp_all add: memtest_bytes_def upt_conv_Cons del: upt_Suc)

lemma length_memtest_bytes [simp]: "length (memtest_bytes start off i k) = 4 * k"
  by (induction k arbitrary: i) (simp_all del: memtest_bytes_simps(2) add: memtest_bytes_simps(2))

lemma memtest_bytes_nth:
  "j < k \<Longrightarrow> take 4 (drop (4 * j) (memtest_bytes start off i k)) = le_bytes32 (memtest_word start off (i + j))"
proof (induction j arbitrary: i k)
  case 0
  then show ?case by (cases k) simp_all
next
  case (Suc j)
  then obtain k' where "k = Suc k'" by (cases k) auto
  with Suc show ?case by simp
qed

text \<open>The address of a word does not overflow within a valid range.\<close>

lemma memtest_addr:
  fixes start :: u32
  assumes "unat start + 4 * n \<le> 2 ^ 32" "i < n"
  shows "checked_mul (word_of_nat i) MEMTEST_WORD_BYTES = Some (4 * word_of_nat i)"
    and "checked_add start (4 * word_of_nat i) = Some (start + 4 * word_of_nat i)"
proof -
  have i: "4 * i < 4294967296" using assms by simp
  then have u: "unat (word_of_nat i :: u32) = i" by (simp add: unat_of_nat)
  then show "checked_mul (word_of_nat i) MEMTEST_WORD_BYTES = Some (4 * word_of_nat i)"
    using checked_mul_nowrap [of "word_of_nat i :: u32" MEMTEST_WORD_BYTES] i
    by (simp add: MEMTEST_WORD_BYTES_def mult.commute)
  have "unat (4 * word_of_nat i :: u32) = unat (4 :: u32) * unat (word_of_nat i :: u32)"
    by (rule unat_mult_nowrap) (use i u in simp)
  then have "unat (4 * word_of_nat i :: u32) = 4 * i" by (simp add: u)
  then show "checked_add start (4 * word_of_nat i) = Some (start + 4 * word_of_nat i)"
    by (intro checked_add_nowrap) (use assms in simp)
qed

lemma memtest_words_pattern:
  assumes "unat start + 4 * n \<le> 2 ^ 32" "i \<le> n"
  shows "memtest_words start sz off n i pat = Ok (pat @ memtest_bytes start off i (n - i))"
  using assms(2)
proof (induction "n - i" arbitrary: i pat)
  case 0
  then show ?case by (subst memtest_words.simps) simp
next
  case (Suc k)
  then have i: "i < n" by simp
  have "n - i = Suc (n - Suc i)" using i by simp
  moreover have "memtest_words start sz off n (Suc i) (pat @ le_bytes32 (memtest_word start off i)) =
      Ok ((pat @ le_bytes32 (memtest_word start off i)) @ memtest_bytes start off (Suc i) (n - Suc i))"
    using Suc by (intro Suc.hyps(1)) simp_all
  ultimately show ?case
    using i by (subst memtest_words.simps)
      (simp add: memtest_addr [OF assms(1) i] memtest_word_def)
qed

lemma memtest_check_pattern:
  assumes "unat start + 4 * n \<le> 2 ^ 32"
  shows "length bytes = 4 * (n - i) \<Longrightarrow> i \<le> n \<Longrightarrow>
    \<exists>m det'. memtest_check start off i bytes mis det = Ok (mis + m, det') \<and>
      (m = 0 \<longleftrightarrow> bytes = memtest_bytes start off i (n - i))"
proof (induction "n - i" arbitrary: i bytes mis det)
  case 0
  then show ?case by (cases bytes) auto
next
  case (Suc k)
  then have i: "i < n" "n - i = Suc (n - Suc i)" by simp_all
  then obtain b0 b1 b2 b3 rest where b: "bytes = b0 # b1 # b2 # b3 # rest" "length rest = 4 * (n - Suc i)"
  proof -
    have "length bytes = Suc (Suc (Suc (Suc (4 * (n - Suc i)))))" using Suc.prems(1) i(2) by simp
    then show ?thesis using that by (auto simp: length_Suc_conv)
  qed
  have big: "i < 2 ^ 32" using assms i(1) by linarith
  have step: "memtest_check start off i bytes mis det =
      (if of_le32 b0 b1 b2 b3 \<noteq> memtest_word start off i
       then memtest_check start off (i + 1) rest (mis + 1)
         (if length det < MEMTEST_MISMATCH_PREVIEW_LIMIT
          then det @ [''0x'' @ fmt_08x (start + 4 * word_of_nat i) @ '': expected 0x'' @
            fmt_08x (memtest_word start off i) @ '', got 0x'' @ fmt_08x (of_le32 b0 b1 b2 b3)]
          else det)
       else memtest_check start off (i + 1) rest mis det)"
    using big by (simp add: b(1) memtest_addr [OF assms i(1)] memtest_word_def decode_memtest_word_def)
  have eq: "of_le32 b0 b1 b2 b3 = memtest_word start off i \<longleftrightarrow>
      [b0, b1, b2, b3] = le_bytes32 (memtest_word start off i)"
    by (metis le_bytes32_of_le le_bytes32_inj)
  have IH: "\<exists>m det'. memtest_check start off (i + 1) rest mis' det'' = Ok (mis' + m, det') \<and>
      (m = 0 \<longleftrightarrow> rest = memtest_bytes start off (i + 1) (n - Suc i))" for mis' det''
    using Suc.hyps(1) [of "Suc i" rest mis' det''] Suc.hyps(2) b(2) i by simp
  show ?case
  proof (cases "of_le32 b0 b1 b2 b3 = memtest_word start off i")
    case True
    obtain m det' where m: "memtest_check start off (i + 1) rest mis det = Ok (mis + m, det')"
      "m = 0 \<longleftrightarrow> rest = memtest_bytes start off (i + 1) (n - Suc i)"
      using IH by blast
    have "memtest_check start off i bytes mis det = Ok (mis + m, det')" using True m(1)
      by (simp add: step del: memtest_check.simps)
    moreover have "bytes = memtest_bytes start off i (n - i) \<longleftrightarrow> rest = memtest_bytes start off (i + 1) (n - Suc i)"
    proof -
      have "le_bytes32 (memtest_word start off i) = [b0, b1, b2, b3]" using True eq by simp
      then show ?thesis by (simp add: i(2) b(1))
    qed
    ultimately show ?thesis using m(2) by blast
  next
    case False
    obtain m det' where "memtest_check start off i bytes mis det = Ok (mis + 1 + m, det')"
      using IH [of "mis + 1"] False by (metis step)
    moreover have "bytes \<noteq> memtest_bytes start off i (n - i)"
      using False eq by (auto simp: i(2) b(1) le_bytes32_def)
    ultimately show ?thesis by (intro exI [of _ "1 + m"] exI [of _ det']) simp
  qed
qed

section \<open>The range check\<close>

lemma memtest_range:
  assumes "validate_memtest_range a n = None"
  shows "0 < unat n" "4 * (unat n div 4) = unat n" "unat a + unat n \<le> 2 ^ 32"
    "unat (n div MEMTEST_WORD_BYTES) = unat n div 4"
proof -
  have n: "n \<noteq> 0" "n mod 4 = 0"
    using assms by (auto simp: validate_memtest_range_def is_multiple_of_def MEMTEST_WORD_BYTES_def
        split: option.splits if_splits)
  then have one: "1 \<le> n" by (simp add: word_le_nat_alt Suc_le_eq unat_gt_0)
  have c: "checked_add a (n - 1) \<noteq> None"
    using assms n one by (auto simp: validate_memtest_range_def is_multiple_of_def MEMTEST_WORD_BYTES_def
        checked_sub_def split: option.splits if_splits)
  show pos: "0 < unat n" using n(1) by (simp add: unat_gt_0)
  have "unat (n mod 4) = unat n mod 4" by (simp add: unat_mod)
  with n(2) have "unat n mod 4 = 0" by simp
  then show "4 * (unat n div 4) = unat n" by (metis mult_div_mod_eq add_0_right)
  have "unat a + unat (n - 1) < 2 ^ 32"
    using c by (simp add: checked_add_unat split: if_splits)
  moreover have "unat (n - 1) = unat n - 1" using n(1) by (rule unat_minus1)
  ultimately show "unat a + unat n \<le> 2 ^ 32" using pos by simp
  show "unat (n div MEMTEST_WORD_BYTES) = unat n div 4" by (simp add: unat_div MEMTEST_WORD_BYTES_def)
qed

lemma memtest_pattern:
  assumes "validate_memtest_range a n = None"
  shows "generate_memtest_pattern a n off = Ok (memtest_bytes a off 0 (unat n div 4))"
  using memtest_range [OF assms]
  by (simp add: generate_memtest_pattern_def memtest_words_pattern)

lemma validate_data_exact:
  assumes "validate_memtest_range a n = None" "length actual = unat n"
  shows "validate_memtest_data a off actual = Ok () \<longleftrightarrow> actual = memtest_bytes a off 0 (unat n div 4)"
proof -
  note r = memtest_range [OF assms(1)]
  have len: "length actual = 4 * (unat n div 4)" using assms(2) r(2) by simp
  obtain m det where c: "memtest_check a off 0 actual 0 [] = Ok (m, det)"
    "m = 0 \<longleftrightarrow> actual = memtest_bytes a off 0 (unat n div 4)"
    using memtest_check_pattern [of a "unat n div 4" actual 0 off 0 "[]"] r(2,3) len by auto
  have "length actual mod unat MEMTEST_WORD_BYTES = 0" by (simp add: len MEMTEST_WORD_BYTES_def)
  with c show ?thesis by (simp add: validate_memtest_data_def)
qed

section \<open>On a runtime\<close>

text \<open>Every test that passes has read back the pattern, whatever the backend does.\<close>

lemma memtest_passed_read:
  assumes "execute_memtest be env a n app = Some (memtest_passed a n off, app', files)"
    and "off = generate_memtest_offset (env_secs env) (env_nanos env)"
  shows "\<exists>r log log' r1 r2. device_runtime app = Some r \<and>
    write_memory_region (be_ops be) a (memtest_bytes a off 0 (unat n div 4)) r [] = Some (Ok (), log, r1) \<and>
    read_memory_region (be_ops be) a n r1 [] = Some (Ok (memtest_bytes a off 0 (unat n div 4)), log', r2)"
proof -
  let ?p = "memtest_bytes a off 0 (unat n div 4)"
  have err: "result_error e \<noteq> memtest_passed a n off" for e
    by (simp add: result_error_def memtest_passed_def result_ok_def)
  obtain r where r: "device_runtime app = Some r" "\<not> dr_has_pending_host_request (be_ops be) r"
    using assms(1) err
    by (auto simp: execute_memtest_def with_idle_runtime_def answer_def not_connected_def
        request_already_pending_def split: option.splits if_splits)
  then have v: "validate_memtest_range a n = None"
    using assms(1) err
    by (auto simp: execute_memtest_def with_idle_runtime_def answer_def split: option.splits)
  have len: "length ?p = unat n" using memtest_range(2) [OF v] by simp
  have out: "execute_memtest be env a n app =
      (case write_memory_region (be_ops be) a ?p r [] of
         None \<Rightarrow> None
       | Some (Inl e, _, r) \<Rightarrow>
           answer (result_error (''Memtest write pass failed: '' @ device_error_message e)) (set_runtime r app)
       | Some (Inr _, _, r) \<Rightarrow>
         (case read_memory_region (be_ops be) a n r [] of
            None \<Rightarrow> None
          | Some (Inl e, _, r) \<Rightarrow>
              answer (result_error (''Memtest read pass failed: '' @ device_error_message e)) (set_runtime r app)
          | Some (Inr read_back, _, r) \<Rightarrow>
              answer
                (if length read_back \<noteq> length ?p then
                   result_error (''Memtest read pass returned '' @ fmt_dec (length read_back) @
                     '' bytes, expected '' @ fmt_dec (length ?p) @ '' bytes.'')
                 else case validate_memtest_data a off read_back of
                   Inl err \<Rightarrow> result_error err
                 | Inr _ \<Rightarrow> memtest_passed a n off)
                (set_runtime r app)))"
    using r v memtest_pattern [OF v, of off]
    by (simp add: execute_memtest_def with_idle_runtime_def Let_def assms(2) [symmetric])
  obtain log r1 where w: "write_memory_region (be_ops be) a ?p r [] = Some (Ok (), log, r1)"
    using assms(1) err unfolding out answer_def by (auto split: option.splits sum.splits)
  obtain read_back log' r2 where rd: "read_memory_region (be_ops be) a n r1 [] = Some (Ok read_back, log', r2)"
    "length read_back = length ?p" "validate_memtest_data a off read_back = Ok ()"
    using assms(1) err unfolding out w answer_def by (auto split: option.splits sum.splits if_splits)
  then have "read_back = ?p" using validate_data_exact [OF v, of read_back off] len by simp
  with r(1) w rd(1) show ?thesis by blast
qed

context region_runtime begin

lemma memtest_passes:
  fixes env :: host_env
  assumes "ready r" "device_runtime app = Some r" "be_ops be = ops"
    and "validate_memtest_range a n = None" "0x80000000 \<le> unat a" "unat a + unat n \<le> 0x90000000"
  defines "off \<equiv> generate_memtest_offset (env_secs env) (env_nanos env)"
  shows "\<exists>r'. execute_memtest be env a n app = Some (memtest_passed a n off, set_runtime r' app, []) \<and>
    ready r' \<and> mem_of r' = write_block mem_write_byte (mem_of r) a (memtest_bytes a off 0 (unat n div 4))"
proof -
  let ?p = "memtest_bytes a off 0 (unat n div 4)"
  have len: "length ?p = unat n" using memtest_range(2) [OF assms(4)] by simp
  obtain log r1 where w: "write_memory_region ops a ?p r [] = Some (Ok (), log, r1)" "ready r1"
    "mem_of r1 = write_block mem_write_byte (mem_of r) a ?p"
    using write_memory_region_correct [OF assms(1,5), of ?p "[]"] len assms(6) by auto
  have "read_block mem_read_byte (mem_of r1) a (length ?p) = ?p"
    unfolding w(3) by (rule mem.read_write_block) (use len u32_bound [of n] in simp_all)
  then obtain log' r2 where rd: "read_memory_region ops a n r1 [] = Some (Ok ?p, log', r2)" "ready r2" "mem_of r2 = mem_of r1"
    using read_memory_region_correct [OF w(2) assms(5,6), of "[]"] len by auto
  have "validate_memtest_data a off ?p = Ok ()" using validate_data_exact [OF assms(4) len] by simp
  then have "execute_memtest be env a n app = Some (memtest_passed a n off, set_runtime r2 app, [])"
    using assms(2-4) idle [OF assms(1)] memtest_pattern [OF assms(4), of off] w(1) rd(1) len
    by (simp add: execute_memtest_def with_idle_runtime_def answer_def Let_def off_def)
  with rd w(3) show ?thesis by auto
qed

end

section \<open>The properties\<close>

text \<open>
  C21: The memory test detects every fault.  For a valid range the pattern has one distinct word per
  address and the check accepts a read-back if and only if it is the pattern, byte for byte; and on
  any backend the test reports success only if the write returned and the pattern was read back.
\<close>

theorem memtest_sound:
  assumes "validate_memtest_range a n = None" "length actual = unat n"
  shows "\<exists>p. generate_memtest_pattern a n off = Ok p \<and> length p = unat n \<and>
    (\<forall>i < unat n div 4. take 4 (drop (4 * i) p) = le_bytes32 (a + 4 * word_of_nat i + off)) \<and>
    (validate_memtest_data a off actual = Ok () \<longleftrightarrow> actual = p) \<and>
    (off = generate_memtest_offset (env_secs env) (env_nanos env) \<longrightarrow>
      execute_memtest be env a n app = Some (memtest_passed a n off, app', files) \<longrightarrow>
      (\<exists>r log log' r1 r2. device_runtime app = Some r \<and>
        write_memory_region (be_ops be) a p r [] = Some (Ok (), log, r1) \<and>
        read_memory_region (be_ops be) a n r1 [] = Some (Ok p, log', r2)))"
  using memtest_pattern [OF assms(1), of off] memtest_range(2) [OF assms(1)]
    validate_data_exact [OF assms, of off] memtest_passed_read [of be env a n app off app' files]
  by (intro exI [of _ "memtest_bytes a off 0 (unat n div 4)"])
    (simp add: memtest_bytes_nth memtest_word_def)

text \<open>
  C20: The memory test passes on both backends.  For every valid range of DRAM and every clock, the test
  on a ready FPGA runtime (whatever the schedule of its threads) and on a ready simulator runtime returns,
  reports success and leaves exactly the pattern in memory.
\<close>

theorem memtest_passes_on_backends:
  assumes "validate_memtest_range a n = None" "0x80000000 \<le> unat a" "unat a + unat n \<le> 0x90000000"
    and "fpga_ready w" "device_runtime app = Some w" "be_ops be = fpga_ops"
    and "sim_ready M v" "device_runtime app' = Some v" "be_ops be' = sim_ops M"
  shows "\<exists>p w' v'. let off = generate_memtest_offset (env_secs env) (env_nanos env) in
    generate_memtest_pattern a n off = Ok p \<and>
    execute_memtest be env a n app = Some (memtest_passed a n off, set_runtime w' app, []) \<and>
    world_memory w' = write_block mem_write_byte (world_memory w) a p \<and> fpga_ready w' \<and>
    execute_memtest be' env a n app' = Some (memtest_passed a n off, set_runtime v' app', []) \<and>
    sim_memory (sw_runtime v') = write_block mem_write_byte (sim_memory (sw_runtime v)) a p \<and> sim_ready M v'"
proof -
  define off where "off = generate_memtest_offset (env_secs env) (env_nanos env)"
  obtain w' where "execute_memtest be env a n app = Some (memtest_passed a n off, set_runtime w' app, [])" "fpga_ready w'"
    "world_memory w' = write_block mem_write_byte (world_memory w) a (memtest_bytes a off 0 (unat n div 4))"
    using fpga_regions.memtest_passes [OF assms(4,5,6,1,2,3), of env] by (auto simp: off_def)
  moreover obtain v' where "execute_memtest be' env a n app' = Some (memtest_passed a n off, set_runtime v' app', [])"
    "sim_ready M v'" "sim_memory (sw_runtime v') =
      write_block mem_write_byte (sim_memory (sw_runtime v)) a (memtest_bytes a off 0 (unat n div 4))"
    using sim_regions.memtest_passes [OF assms(7,8,9,1,2,3), of env] by (auto simp: off_def)
  ultimately show ?thesis using memtest_pattern [OF assms(1), of off] by (auto simp: Let_def off_def)
qed

definition example_fpga_backend :: "fpga_world backend" where
  "example_fpga_backend = \<lparr>be_ops = fpga_ops, be_reset = (\<lambda>_ _. None), be_describe = (\<lambda>_. ''FPGA''),
     be_create = (\<lambda>_. None)\<rparr>"

definition example_sim_backend :: "unit sim_world backend" where
  "example_sim_backend = \<lparr>be_ops = sim_ops idle_cpu, be_reset = (\<lambda>_ _. None), be_describe = (\<lambda>_. ''Simulator''),
     be_create = (\<lambda>_. None)\<rparr>"

lemma example_range: "validate_memtest_range 0x80000000 8 = None"
  by (simp add: validate_memtest_range_def check_alignment_def is_multiple_of_def MEMTEST_WORD_BYTES_def
      checked_sub_def checked_add_unat)

lemma memtest_sound_witness:
  "validate_memtest_data 0x80000000 1 [1, 0, 0, 0x80, 5, 0, 0, 0x80] = Ok () \<and>
   validate_memtest_data 0x80000000 1 [1, 0, 0, 0x80, 5, 0, 0, 0x81] \<noteq> Ok ()"
proof -
  have p: "memtest_bytes 0x80000000 1 0 2 = [1, 0, 0, 0x80, 5, 0, 0, 0x80]"
    by code_simp
  show ?thesis
    using memtest_sound [OF example_range, of "[1, 0, 0, 0x80, 5, 0, 0, 0x80]" 1 empty_env example_fpga_backend]
      memtest_sound [OF example_range, of "[1, 0, 0, 0x80, 5, 0, 0, 0x81]" 1 empty_env example_fpga_backend]
      memtest_pattern [OF example_range, of 1] p by auto
qed

lemma memtest_passes_on_backends_witness:
  "\<exists>w' v' off.
    execute_memtest example_fpga_backend empty_env 0x80000000 8 (app_new\<lparr>device_runtime := Some example_world\<rparr>) =
      Some (memtest_passed 0x80000000 8 off, w', []) \<and>
    execute_memtest example_sim_backend empty_env 0x80000000 8 (app_new\<lparr>device_runtime := Some idle_world\<rparr>) =
      Some (memtest_passed 0x80000000 8 off, v', [])"
  using memtest_passes_on_backends [OF example_range _ _ example_ready _ _ idle_ready,
      of "app_new\<lparr>device_runtime := Some example_world\<rparr>" example_fpga_backend
        "app_new\<lparr>device_runtime := Some idle_world\<rparr>" example_sim_backend empty_env]
  by (auto simp: example_fpga_backend_def example_sim_backend_def Let_def)

end
