(* ===== verification/Pixel_Path.thy ===== *)
theory Pixel_Path
  imports Video_Device Audio_Device
begin

text \<open>
  The routines with which programs on the device write pixels and samples and wait for the media
  devices (\<open>riscv_shared/src/video_helpers.rs\<close>, \<open>riscv_shared/src/audio_helpers.rs\<close>).  A
  volatile store is a write of DRAM through \<open>SystemContext\<close>, at any alignment, as the memory
  system performs it; a read of a status register is the parameter \<open>poll\<close>, which also moves the
  machine on.  Address arithmetic wraps, as in a release build.
\<close>

section \<open>Waiting for the devices\<close>

definition FRAME_READY :: u32 where "FRAME_READY = push_bit 0 1"
definition PRESENT_READY :: u32 where "PRESENT_READY = push_bit 1 1"
definition DMA_READY :: u32 where "DMA_READY = push_bit 0 1"
definition SAMPLE_BUFFER_READY :: u32 where "SAMPLE_BUFFER_READY = push_bit 1 1"

partial_function (option) wait_for_frame_ready :: "('m \<Rightarrow> u32 \<times> 'm) \<Rightarrow> 'm \<Rightarrow> 'm option" where
  "wait_for_frame_ready poll m =
    (case poll m of
       (status, m) \<Rightarrow> if status AND FRAME_READY \<noteq> 0 then Some m else wait_for_frame_ready poll m)"

partial_function (option) wait_for_present_ready :: "('m \<Rightarrow> u32 \<times> 'm) \<Rightarrow> 'm \<Rightarrow> 'm option" where
  "wait_for_present_ready poll m =
    (case poll m of
       (status, m) \<Rightarrow> if status AND PRESENT_READY \<noteq> 0 then Some m else wait_for_present_ready poll m)"

definition trigger_present :: "(u32 \<Rightarrow> u32 \<Rightarrow> 'm \<Rightarrow> 'm) \<Rightarrow> 'm \<Rightarrow> 'm" where
  "trigger_present store m = store VIDEO_PRESENT 0 m"

definition is_dma_ready :: "u32 \<Rightarrow> bool" where
  "is_dma_ready status = (status AND DMA_READY \<noteq> 0)"

definition sample_buffer_ready :: "u32 \<Rightarrow> bool" where
  "sample_buffer_ready status = (status AND SAMPLE_BUFFER_READY \<noteq> 0)"

definition trigger_dma :: "(u32 \<Rightarrow> u32 \<Rightarrow> 'm \<Rightarrow> 'm) \<Rightarrow> 'm \<Rightarrow> 'm" where
  "trigger_dma store m = store AUDIO_DMA 0 m"

section \<open>Writing pixels\<close>

definition write_pixel_rgba8 ::
  "u32 \<Rightarrow> u32 \<Rightarrow> u32 \<Rightarrow> u32 \<Rightarrow> u8 \<Rightarrow> u8 \<Rightarrow> u8 \<Rightarrow> u8 \<Rightarrow> system_context \<Rightarrow> system_context" where
  "write_pixel_rgba8 framebuffer_base width x y r g b a c =
    (let offset = (y * width + x) * 4;
         addr = framebuffer_base + offset;
         packed = ucast r OR push_bit 8 (ucast g) OR push_bit 16 (ucast b) OR push_bit 24 (ucast a)
     in ctx_write_word c addr packed)"

definition write_pixel_rgb8 ::
  "u32 \<Rightarrow> u32 \<Rightarrow> u32 \<Rightarrow> u32 \<Rightarrow> u8 \<Rightarrow> u8 \<Rightarrow> u8 \<Rightarrow> system_context \<Rightarrow> system_context" where
  "write_pixel_rgb8 framebuffer_base width x y r g b c =
    (let offset = (y * width + x) * 3;
         addr = framebuffer_base + offset;
         rg_packed = ucast r OR push_bit 8 (ucast g)
     in ctx_write_byte (ctx_write_halfword c addr rg_packed) (addr + 2) b)"

definition write_pixel_rgb565 ::
  "u32 \<Rightarrow> u32 \<Rightarrow> u32 \<Rightarrow> u32 \<Rightarrow> u8 \<Rightarrow> u8 \<Rightarrow> u8 \<Rightarrow> system_context \<Rightarrow> system_context" where
  "write_pixel_rgb565 framebuffer_base width x y r g b c =
    (let offset = (y * width + x) * 2;
         addr = framebuffer_base + offset;
         r5 = ucast (drop_bit 3 r); g6 = ucast (drop_bit 2 g); b5 = ucast (drop_bit 3 b);
         packed = push_bit 11 r5 OR push_bit 5 g6 OR b5
     in ctx_write_halfword c addr packed)"

definition write_pixel_r8 ::
  "u32 \<Rightarrow> u32 \<Rightarrow> u32 \<Rightarrow> u32 \<Rightarrow> u8 \<Rightarrow> system_context \<Rightarrow> system_context" where
  "write_pixel_r8 framebuffer_base width x y gray c =
    (let offset = y * width + x; addr = framebuffer_base + offset
     in ctx_write_byte c addr gray)"

fun write_pixel ::
  "u32 \<Rightarrow> u32 \<Rightarrow> u32 \<Rightarrow> u32 \<Rightarrow> video_format \<Rightarrow> u8 \<Rightarrow> u8 \<Rightarrow> u8 \<Rightarrow> u8 \<Rightarrow>
   system_context \<Rightarrow> system_context" where
  "write_pixel base width x y Rgba8 r g b a c = write_pixel_rgba8 base width x y r g b a c"
| "write_pixel base width x y Rgb8 r g b a c = write_pixel_rgb8 base width x y r g b c"
| "write_pixel base width x y Rgb565 r g b a c = write_pixel_rgb565 base width x y r g b c"
| "write_pixel base width x y R8 r g b a c = write_pixel_r8 base width x y r c"

section \<open>Writing samples\<close>

definition write_stereo_sample ::
  "u32 \<Rightarrow> u32 \<Rightarrow> i16 \<Rightarrow> i16 \<Rightarrow> system_context \<Rightarrow> system_context" where
  "write_stereo_sample buffer_base offset left right c =
    (let addr = buffer_base + offset; packed = ucast left OR push_bit 16 (ucast right)
     in ctx_write_word c addr packed)"

definition write_mono_sample :: "u32 \<Rightarrow> u32 \<Rightarrow> i16 \<Rightarrow> system_context \<Rightarrow> system_context" where
  "write_mono_sample buffer_base offset sample c =
    (let addr = buffer_base + offset in ctx_write_halfword c addr sample)"

section \<open>What a written pixel is in memory\<close>

fun pixel_bytes :: "video_format \<Rightarrow> u8 \<Rightarrow> u8 \<Rightarrow> u8 \<Rightarrow> u8 \<Rightarrow> u8 list" where
  "pixel_bytes Rgba8 r g b a = [r, g, b, a]"
| "pixel_bytes Rgb8 r g b a = [r, g, b]"
| "pixel_bytes Rgb565 r g b a =
     le_bytes16 (push_bit 11 (ucast (drop_bit 3 r)) OR push_bit 5 (ucast (drop_bit 2 g)) OR
       ucast (drop_bit 3 b))"
| "pixel_bytes R8 r g b a = [r]"

lemma length_pixel_bytes [simp]: "length (pixel_bytes f r g b a) = unat (bytes_per_pixel f)"
  by (cases f) simp_all

lemma ctx_write_block_dram:
  "(\<And>i. i < length bs \<Longrightarrow> in_dram (a + of_nat i)) \<Longrightarrow>
    write_block ctx_write_byte c a bs =
      c\<lparr>ctx_memory := write_block mem_write_byte (ctx_memory c) a bs\<rparr>"
proof (induction bs arbitrary: c a)
  case (Cons b bs)
  have "in_dram (a + 1 + of_nat i)" if "i < length bs" for i
    using Cons.prems [of "Suc i"] that by (simp add: add.assoc)
  moreover have "ctx_write_byte c a b = c\<lparr>ctx_memory := mem_write_byte (ctx_memory c) a b\<rparr>"
    using Cons.prems [of 0] by (simp add: ctx_write_byte_def in_dram_def)
  ultimately show ?case using Cons.IH by simp
qed simp

lemma ctx_writes_as_block:
  "is_valid_dram_range a 4 \<Longrightarrow> ctx_write_word c a w = write_block ctx_write_byte c a (le_bytes32 w)"
  "is_valid_dram_range a 2 \<Longrightarrow> ctx_write_halfword c a h = write_block ctx_write_byte c a (le_bytes16 h)"
  using ctx_write_block_dram [of "le_bytes32 w" a c] ctx_write_block_dram [of "le_bytes16 h" a c]
    valid_dram_offset(1) [of a 4] valid_dram_offset(1) [of a 2]
  by (simp_all add: ctx_write_word_def ctx_write_halfword_def
      mem_write_word_block mem_write_halfword_block)

lemma rgb_halfword: "le_bytes16 (ucast r OR push_bit 8 (ucast g)) = [r, g]"
  using le_bytes16_of_le [of r g] by (simp add: of_le16_def)

lemma rgba_word:
  "le_bytes32 (ucast r OR push_bit 8 (ucast g) OR push_bit 16 (ucast b) OR push_bit 24 (ucast a)) =
    [r, g, b, a]"
  using le_bytes32_of_le [of r g b a] by (simp add: of_le32_def)

text \<open>Every pixel routine writes the bytes of the pixel at its place in the frame.\<close>

lemma write_pixel_block:
  assumes "is_valid_dram_range (base + (y * width + x) * bytes_per_pixel f) (bytes_per_pixel f)"
  shows "write_pixel base width x y f r g b a c =
    write_block ctx_write_byte c (base + (y * width + x) * bytes_per_pixel f)
      (pixel_bytes f r g b a)"
proof (cases f)
  case Rgb8
  let ?a = "base + (y * width + x) * 3"
  have "is_valid_dram_range ?a 2" using assms Rgb8 by (simp add: valid_dram_range)
  then show ?thesis
    using Rgb8
    by (simp only: write_pixel.simps write_pixel_rgb8_def Let_def ctx_writes_as_block rgb_halfword
        bytes_per_pixel.simps pixel_bytes.simps write_block.simps) (simp add: ac_simps)
qed (use assms in \<open>simp_all add: write_pixel_rgba8_def write_pixel_rgb565_def write_pixel_r8_def
    ctx_writes_as_block rgba_word\<close>)


lemma unat_of_nat_u32: "k < 2 ^ 32 \<Longrightarrow> unat (of_nat k :: u32) = k"
  by (simp add: unat_of_nat)

text \<open>Writing a block inside a region of DRAM replaces that part of the region.\<close>

lemma read_block_splice:
  assumes "is_valid_dram_range base n" "k + length bs \<le> unat n"
  shows "read_block ctx_read_byte (write_block ctx_write_byte c (base + of_nat k) bs) base (unat n) =
    (let fr = read_block ctx_read_byte c base (unat n) in take k fr @ bs @ drop (k + length bs) fr)"
proof (rule nth_equalityI)
  fix j assume "j < length (read_block ctx_read_byte
    (write_block ctx_write_byte c (base + of_nat k) bs) base (unat n))"
  then have j: "j < unat n" by simp
  have n: "unat n < 4294967296" by (rule u32_bound)
  have d: "in_dram (base + of_nat j)" by (rule valid_dram_offset(1) [OF assms(1) j])
  have e: "(base + of_nat j) - (base + of_nat k) = (of_nat j - of_nat k :: u32)" by simp
  have u: "unat (of_nat j - of_nat k :: u32) = (if k \<le> j then j - k else 4294967296 - (k - j))"
    using j n assms(2) unat_of_nat_u32 [of j] unat_of_nat_u32 [of k]
    by (auto simp: unat_sub_if_size word_size)
  have "ctx_read_byte (write_block ctx_write_byte c (base + of_nat k) bs) (base + of_nat j) =
      (if k \<le> j \<and> j < k + length bs then bs ! (j - k) else ctx_read_byte c (base + of_nat j))"
    using ctx.rd_write_block [of bs c "base + of_nat k" "base + of_nat j"] assms(2) n j d
    by (auto simp: e u)
  then show "read_block ctx_read_byte (write_block ctx_write_byte c (base + of_nat k) bs) base
      (unat n) ! j =
    (let fr = read_block ctx_read_byte c base (unat n)
     in take k fr @ bs @ drop (k + length bs) fr) ! j"
    using j assms(2) by (auto simp: read_block_eq nth_append Let_def)
qed (use assms(2) in \<open>simp add: Let_def\<close>)

text \<open>The index of a pixel, and the effect of writing it on the bytes of the frame.\<close>

definition pixel_index :: "u32 \<Rightarrow> u32 \<Rightarrow> u32 \<Rightarrow> nat" where
  "pixel_index width x y = unat y * unat width + unat x"

lemma pixel_index_less:
  assumes "x < vc_width cfg" "y < vc_height cfg"
  shows "pixel_index (vc_width cfg) x y < unat (vc_width cfg) * unat (vc_height cfg)"
proof -
  have "unat x < unat (vc_width cfg)" "Suc (unat y) \<le> unat (vc_height cfg)"
    using assms by (auto simp: word_less_nat_alt)
  then have "pixel_index (vc_width cfg) x y < Suc (unat y) * unat (vc_width cfg)"
    by (simp add: pixel_index_def)
  also have "\<dots> \<le> unat (vc_height cfg) * unat (vc_width cfg)"
    using \<open>Suc (unat y) \<le> _\<close> by (rule mult_le_mono1)
  finally show ?thesis by (simp add: mult.commute)
qed

lemma write_pixel_frame:
  fixes cfg :: video_config and x y :: u32
  defines "B \<equiv> unat (bytes_per_pixel (vc_format cfg))"
  defines "i \<equiv> pixel_index (vc_width cfg) x y"
  assumes "is_valid_dram_range base (video_total_bytes cfg)"
    "video_config_ok cfg"
    "x < vc_width cfg" "y < vc_height cfg"
  shows "read_block ctx_read_byte (write_pixel base (vc_width cfg) x y (vc_format cfg) r g b a c)
      base (unat (video_total_bytes cfg)) =
    (let fr = read_block ctx_read_byte c base (unat (video_total_bytes cfg))
     in take (i * B) fr @ pixel_bytes (vc_format cfg) r g b a @ drop (i * B + B) fr)"
proof -
  let ?f = "vc_format cfg" and ?n = "video_total_bytes cfg"
  have n: "unat ?n = unat (vc_width cfg) * unat (vc_height cfg) * B"
    using video_total_bytes_nowrap(1) [OF assms(4)] by (simp add: B_def)
  have "Suc i \<le> unat (vc_width cfg) * unat (vc_height cfg)"
    using pixel_index_less [OF assms(5,6)] by (simp add: i_def)
  then have le: "i * B + B \<le> unat ?n" using mult_le_mono1 [of "Suc i" _ B]
    by (metis n mult_Suc add.commute)
  have at: "(y * vc_width cfg + x) * bytes_per_pixel ?f = of_nat (i * B)"
    by (simp add: i_def B_def pixel_index_def)
  have "0 < B" by (cases ?f) (simp_all add: B_def)
  have "is_valid_dram_range (base + of_nat (i * B)) (bytes_per_pixel ?f)"
    using valid_dram_offset(2) [OF assms(3), of "i * B"] assms(3) le \<open>0 < B\<close>
    by (auto simp: valid_dram_range B_def)
  then have "write_pixel base (vc_width cfg) x y ?f r g b a c =
      write_block ctx_write_byte c (base + of_nat (i * B)) (pixel_bytes ?f r g b a)"
    using write_pixel_block [of base y "vc_width cfg" x ?f] by (simp only: at)
  then show ?thesis
    using read_block_splice [OF assms(3), of "i * B" "pixel_bytes ?f r g b a" c] le
    by (simp add: B_def)
qed

end
