(* ===== verification/View_Window.thy ===== *)
theory View_Window
  imports Pixel_Path
begin

text \<open>
  The window of \<open>sim-view\<close> (\<open>video_window.rs\<close>): the frame buffer, its conversion from the four
  pixel formats, the presentation on the surface and the translation of window events.  The
  windowing libraries are the parameter \<open>window_system\<close> (which of their calls succeed) and the
  callbacks of one pump of the event loop are its argument.  The images handed to the screen are
  kept in \<open>vw_presented\<close>.  A result \<open>None\<close> is a panic (an index out of range).
\<close>

section \<open>State\<close>

datatype view_key = KeyEscape | KeyR

record key_modifiers =
  km_ctrl :: bool
  km_shift :: bool
  km_alt :: bool

datatype window_out_event = WindowKeyPressed view_key key_modifiers | WindowClose

text \<open>
  The surface has no size until its first successful resize; \<open>vw_window\<close> stands for the handle of
  the window.
\<close>

record view_window =
  vw_window :: bool
  vw_surface :: "(nat \<times> nat) option option"
  vw_width :: nat
  vw_height :: nat
  vw_framebuffer :: "u32 list"
  vw_event_queue :: "window_out_event list"
  vw_modifiers :: key_modifiers
  vw_pending_title :: string
  vw_closed :: bool
  vw_presented :: "u32 list list"

record window_system =
  ws_create_window :: bool
  ws_create_context :: bool
  ws_create_surface :: bool
  ws_resize :: "nat \<Rightarrow> nat \<Rightarrow> bool"
  ws_present :: bool

definition no_modifiers :: key_modifiers where
  "no_modifiers = \<lparr>km_ctrl = False, km_shift = False, km_alt = False\<rparr>"

definition view_window_app_new :: "nat \<Rightarrow> nat \<Rightarrow> view_window" where
  "view_window_app_new width height =
    \<lparr>vw_window = False, vw_surface = None, vw_width = width, vw_height = height,
     vw_framebuffer = replicate (width * height) 0, vw_event_queue = [],
     vw_modifiers = no_modifiers, vw_pending_title = ''sim-view - No program loaded'',
     vw_closed = False, vw_presented = []\<rparr>"

section \<open>The surface\<close>

definition nonzero_u32 :: "nat \<Rightarrow> nat option" where
  "nonzero_u32 n = (let v = n mod 2 ^ 32 in if v = 0 then None else Some v)"

definition surface_resize ::
  "window_system \<Rightarrow> nat \<Rightarrow> nat \<Rightarrow> (nat \<times> nat) option \<Rightarrow> (nat \<times> nat) option" where
  "surface_resize ws w h s = (if ws_resize ws w h then Some (w, h) else s)"

definition resize_surface :: "window_system \<Rightarrow> nat \<Rightarrow> nat \<Rightarrow> view_window \<Rightarrow> view_window" where
  "resize_surface ws new_width new_height app =
    (if new_width = 0 \<or> new_height = 0 then app
     else case vw_surface app of
       None \<Rightarrow> app
     | Some s \<Rightarrow>
       (case (nonzero_u32 new_width, nonzero_u32 new_height) of
          (Some w, Some h) \<Rightarrow> app\<lparr>vw_surface := Some (surface_resize ws w h s)\<rparr>
        | _ \<Rightarrow> app))"

definition present :: "window_system \<Rightarrow> view_window \<Rightarrow> (string, unit) result \<times> view_window" where
  "present ws app =
    (case vw_surface app of
       None \<Rightarrow> (Err ''Surface not initialized'', app)
     | Some None \<Rightarrow> (Err ''Failed to get buffer'', app)
     | Some (Some (surface_width, surface_height)) \<Rightarrow>
       (let surface_size = surface_width * surface_height;
            copy_len = min (length (vw_framebuffer app)) surface_size;
            buffer = take copy_len (vw_framebuffer app) @ replicate (surface_size - copy_len) 0
        in if ws_present ws then (Ok (), app\<lparr>vw_presented := vw_presented app @ [buffer]\<rparr>)
           else (Err ''Failed to present buffer'', app)))"

text \<open>The window is created when the event loop resumes, once.\<close>

definition resumed :: "window_system \<Rightarrow> view_window \<Rightarrow> view_window" where
  "resumed ws app =
    (if vw_window app then app
     else if \<not> ws_create_window ws \<or> \<not> ws_create_context ws \<or> \<not> ws_create_surface ws then app
     else app\<lparr>vw_window := True, vw_surface := Some
       (case (nonzero_u32 (vw_width app), nonzero_u32 (vw_height app)) of
          (Some w, Some h) \<Rightarrow> surface_resize ws w h None
        | _ \<Rightarrow> None)\<rparr>)"

section \<open>Events\<close>

datatype winit_key = NamedEscape | NamedOther | Character string

datatype winit_event =
    CloseRequested
  | Resized u32 u32
  | RedrawRequested
  | ModifiersChanged key_modifiers
  | KeyboardInput winit_key (key_pressed: bool) (key_repeat: bool)
  | OtherWindowEvent

definition queue_event :: "window_out_event \<Rightarrow> view_window \<Rightarrow> view_window" where
  "queue_event e app = app\<lparr>vw_event_queue := vw_event_queue app @ [e]\<rparr>"

fun window_event :: "window_system \<Rightarrow> winit_event \<Rightarrow> view_window \<Rightarrow> view_window" where
  "window_event ws CloseRequested app = queue_event WindowClose (app\<lparr>vw_closed := True\<rparr>)"
| "window_event ws (Resized w h) app =
    (let new_width = unat w; new_height = unat h
     in if 0 < new_width \<and> 0 < new_height then resize_surface ws new_width new_height app else app)"
| "window_event ws RedrawRequested app = snd (present ws app)"
| "window_event ws (ModifiersChanged m) app = app\<lparr>vw_modifiers := m\<rparr>"
| "window_event ws (KeyboardInput logical_key pressed repeat) app =
    (if pressed \<and> \<not> repeat then
       (case logical_key of
          NamedEscape \<Rightarrow> queue_event (WindowKeyPressed KeyEscape (vw_modifiers app)) app
        | Character c \<Rightarrow>
            (if c = ''r'' \<or> c = ''R'' then queue_event (WindowKeyPressed KeyR (vw_modifiers app)) app
             else app)
        | NamedOther \<Rightarrow> app)
     else app)"
| "window_event ws OtherWindowEvent app = app"

text \<open>One pump of the event loop: the callbacks it makes, and whether it reports an exit.\<close>

datatype pump_callback = LoopResumed | LoopWindowEvent winit_event

fun loop_callback :: "window_system \<Rightarrow> pump_callback \<Rightarrow> view_window \<Rightarrow> view_window" where
  "loop_callback ws LoopResumed app = resumed ws app"
| "loop_callback ws (LoopWindowEvent e) app = window_event ws e app"

definition handle_pump_status :: "bool \<Rightarrow> view_window \<Rightarrow> view_window" where
  "handle_pump_status exit app =
    (if exit \<and> \<not> vw_closed app then queue_event WindowClose (app\<lparr>vw_closed := True\<rparr>) else app)"

definition pump_events ::
  "window_system \<Rightarrow> pump_callback list \<times> bool \<Rightarrow> view_window \<Rightarrow> view_window" where
  "pump_events ws pump app =
    handle_pump_status (snd pump) (fold (loop_callback ws) (fst pump) app)"

definition view_window_new ::
  "window_system \<Rightarrow> pump_callback list \<times> bool \<Rightarrow> nat \<Rightarrow> nat \<Rightarrow> view_window" where
  "view_window_new ws pump width height = pump_events ws pump (view_window_app_new width height)"

definition window_get_events :: "view_window \<Rightarrow> window_out_event list \<times> view_window" where
  "window_get_events app = (vw_event_queue app, app\<lparr>vw_event_queue := []\<rparr>)"

definition window_set_title :: "string \<Rightarrow> view_window \<Rightarrow> view_window" where
  "window_set_title title app = app\<lparr>vw_pending_title := title\<rparr>"

section \<open>Converting a frame\<close>

text \<open>The loops over the pixels store into the frame buffer; an index beyond it panics.\<close>

primrec store_pixels :: "(nat \<Rightarrow> u32) \<Rightarrow> nat list \<Rightarrow> u32 list \<Rightarrow> u32 list option" where
  "store_pixels px [] fb = Some fb"
| "store_pixels px (i # is) fb =
    (if i < length fb then store_pixels px is (fb[i := px i]) else None)"

definition pack_rgb :: "u32 \<Rightarrow> u32 \<Rightarrow> u32 \<Rightarrow> u32" where
  "pack_rgb r g b = push_bit 16 r OR push_bit 8 g OR b"

definition convert_pixels ::
  "string \<Rightarrow> nat \<Rightarrow> (nat \<Rightarrow> u32) \<Rightarrow> u8 list \<Rightarrow> view_window \<Rightarrow>
   ((string, unit) result \<times> view_window) option" where
  "convert_pixels too_small bytes px data app =
    (let pixel_count = vw_width app * vw_height app
     in if length data < pixel_count * bytes then Some (Err too_small, app)
        else map_option (\<lambda>fb. (Ok (), app\<lparr>vw_framebuffer := fb\<rparr>))
          (store_pixels px [0..<pixel_count] (vw_framebuffer app)))"

definition rgba8_pixel :: "u8 list \<Rightarrow> nat \<Rightarrow> u32" where
  "rgba8_pixel data i =
    (let r = ucast (data ! (i * 4)); g = ucast (data ! (i * 4 + 1)); b = ucast (data ! (i * 4 + 2))
     in pack_rgb r g b)"

definition convert_rgba8 ::
  "u8 list \<Rightarrow> view_window \<Rightarrow> ((string, unit) result \<times> view_window) option" where
  "convert_rgba8 data =
    convert_pixels ''Frame data too small for RGBA8 format'' 4 (rgba8_pixel data) data"

definition rgb8_pixel :: "u8 list \<Rightarrow> nat \<Rightarrow> u32" where
  "rgb8_pixel data i =
    (let r = ucast (data ! (i * 3)); g = ucast (data ! (i * 3 + 1)); b = ucast (data ! (i * 3 + 2))
     in pack_rgb r g b)"

definition convert_rgb8 ::
  "u8 list \<Rightarrow> view_window \<Rightarrow> ((string, unit) result \<times> view_window) option" where
  "convert_rgb8 data =
    convert_pixels ''Frame data too small for RGB8 format'' 3 (rgb8_pixel data) data"

definition rgb565_expand :: "u16 \<Rightarrow> u8 \<times> u8 \<times> u8" where
  "rgb565_expand pixel =
    (let r5 = ucast (drop_bit 11 pixel AND 0x1F) :: u8;
         g6 = ucast (drop_bit 5 pixel AND 0x3F) :: u8;
         b5 = ucast (pixel AND 0x1F) :: u8
     in (push_bit 3 r5 OR drop_bit 2 r5, push_bit 2 g6 OR drop_bit 4 g6,
         push_bit 3 b5 OR drop_bit 2 b5))"

definition rgb565_pixel :: "u8 list \<Rightarrow> nat \<Rightarrow> u32" where
  "rgb565_pixel data i =
    (let (r8, g8, b8) = rgb565_expand (of_le16 (data ! (i * 2)) (data ! (i * 2 + 1)))
     in pack_rgb (ucast r8) (ucast g8) (ucast b8))"

definition convert_rgb565 ::
  "u8 list \<Rightarrow> view_window \<Rightarrow> ((string, unit) result \<times> view_window) option" where
  "convert_rgb565 data =
    convert_pixels ''Frame data too small for RGB565 format'' 2 (rgb565_pixel data) data"

text \<open>The grayscale conversion walks over the frame buffer and the data together.\<close>

fun r8_pixels :: "nat \<Rightarrow> u32 list \<Rightarrow> u8 list \<Rightarrow> u32 list" where
  "r8_pixels (Suc n) (p # fb) (gray # data) =
     (let gray32 = ucast gray in pack_rgb gray32 gray32 gray32) # r8_pixels n fb data"
| "r8_pixels n fb data = fb"

definition convert_r8 ::
  "u8 list \<Rightarrow> view_window \<Rightarrow> ((string, unit) result \<times> view_window) option" where
  "convert_r8 data app =
    (let pixel_count = vw_width app * vw_height app
     in if length data < pixel_count then Some (Err ''Frame data too small for R8 format'', app)
        else Some (Ok (), app\<lparr>vw_framebuffer := r8_pixels pixel_count (vw_framebuffer app) data\<rparr>))"

definition resize_framebuffer :: "nat \<Rightarrow> u32 list \<Rightarrow> u32 list" where
  "resize_framebuffer n fb = take n fb @ replicate (n - length fb) 0"

definition process_video_frame ::
  "window_system \<Rightarrow> u8 list \<Rightarrow> video_config \<Rightarrow> view_window \<Rightarrow>
   ((string, unit) result \<times> view_window) option" where
  "process_video_frame ws data config app =
    (let new_width = unat (vc_width config); new_height = unat (vc_height config);
         app = (if new_width \<noteq> vw_width app \<or> new_height \<noteq> vw_height app then
                  resize_surface ws new_width new_height
                    (app\<lparr>vw_width := new_width, vw_height := new_height, vw_framebuffer :=
                       resize_framebuffer (new_width * new_height) (vw_framebuffer app)\<rparr>)
                else app)
     in case vc_format config of
          Rgba8 \<Rightarrow> convert_rgba8 data app
        | Rgb8 \<Rightarrow> convert_rgb8 data app
        | Rgb565 \<Rightarrow> convert_rgb565 data app
        | R8 \<Rightarrow> convert_r8 data app)"

definition update_events ::
  "window_system \<Rightarrow> pump_callback list \<times> bool \<Rightarrow> view_window \<Rightarrow> view_window" where
  "update_events ws pump app = pump_events ws pump app"

definition update_display ::
  "window_system \<Rightarrow> pump_callback list \<times> bool \<Rightarrow> view_window \<Rightarrow> view_window" where
  "update_display ws pump app = pump_events ws pump app"


section \<open>Lemmas\<close>

definition window_inv :: "view_window \<Rightarrow> bool" where
  "window_inv app = (length (vw_framebuffer app) = vw_width app * vw_height app)"

lemma store_pixels_eq:
  "n \<le> length fb \<Longrightarrow> store_pixels px [0..<n] fb = Some (map px [0..<n] @ drop n fb)"
proof -
  have "k \<le> n \<Longrightarrow> n \<le> length fb \<Longrightarrow> length fb = m \<Longrightarrow> take k fb = map px [0..<k] \<Longrightarrow>
      store_pixels px [k..<n] fb = Some (map px [0..<n] @ drop n fb)" for k m fb
  proof (induction "n - k" arbitrary: k fb)
    case 0
    then show ?case using append_take_drop_id [of n fb] by simp
  next
    case (Suc j)
    then have k: "k < n" "[k..<n] = k # [Suc k..<n]" by (auto simp: upt_conv_Cons)
    have "take (Suc k) (fb[k := px k]) = map px [0..<Suc k]"
      using Suc.prems k(1) by (simp add: take_Suc_conv_app_nth)
    then show ?case
      using Suc.hyps(1) [of "Suc k" "fb[k := px k]"] Suc.hyps(2) Suc.prems k by simp
  qed
  then show "n \<le> length fb \<Longrightarrow> ?thesis" by simp
qed

lemma r8_pixels_eq:
  "n \<le> length fb \<Longrightarrow> n \<le> length data \<Longrightarrow>
    r8_pixels n fb data = map (\<lambda>g. let v = ucast g in pack_rgb v v v) (take n data) @ drop n fb"
  by (induction n fb data rule: r8_pixels.induct) auto

text \<open>The value of a pixel of a frame, for every format.\<close>

definition r8_pixel :: "u8 list \<Rightarrow> nat \<Rightarrow> u32" where
  "r8_pixel data i = (let v = ucast (data ! i) in pack_rgb v v v)"

fun pixel_value :: "video_format \<Rightarrow> u8 list \<Rightarrow> nat \<Rightarrow> u32" where
  "pixel_value Rgba8 = rgba8_pixel"
| "pixel_value Rgb8 = rgb8_pixel"
| "pixel_value Rgb565 = rgb565_pixel"
| "pixel_value R8 = r8_pixel"

definition frame_image :: "video_config \<Rightarrow> u8 list \<Rightarrow> u32 list" where
  "frame_image cfg data =
    map (pixel_value (vc_format cfg) data) [0..<unat (vc_width cfg) * unat (vc_height cfg)]"

definition frame_size :: "video_config \<Rightarrow> nat" where
  "frame_size cfg =
    unat (vc_width cfg) * unat (vc_height cfg) * unat (bytes_per_pixel (vc_format cfg))"

fun too_small :: "video_format \<Rightarrow> string" where
  "too_small Rgba8 = ''Frame data too small for RGBA8 format''"
| "too_small Rgb8 = ''Frame data too small for RGB8 format''"
| "too_small Rgb565 = ''Frame data too small for RGB565 format''"
| "too_small R8 = ''Frame data too small for R8 format''"

lemma resize_surface_frame [simp]:
  "vw_width (resize_surface ws w h app) = vw_width app"
  "vw_height (resize_surface ws w h app) = vw_height app"
  "vw_framebuffer (resize_surface ws w h app) = vw_framebuffer app"
  "vw_event_queue (resize_surface ws w h app) = vw_event_queue app"
  "vw_closed (resize_surface ws w h app) = vw_closed app"
  by (auto simp: resize_surface_def split: option.splits)

lemma convert_pixels_eq:
  "window_inv app \<Longrightarrow>
    convert_pixels msg k px data app =
      Some (if length data < vw_width app * vw_height app * k then (Err msg, app)
            else (Ok (), app\<lparr>vw_framebuffer := map px [0..<vw_width app * vw_height app]\<rparr>))"
  by (auto simp: convert_pixels_def window_inv_def store_pixels_eq Let_def)

lemma convert_r8_eq:
  "window_inv app \<Longrightarrow>
    convert_r8 data app =
      Some (if length data < vw_width app * vw_height app * 1 then (Err (too_small R8), app)
            else (Ok (), app\<lparr>vw_framebuffer := map (r8_pixel data) [0..<vw_width app * vw_height app]\<rparr>))"
proof -
  have "map (\<lambda>g. let v = ucast g in pack_rgb v v v) (take n data) = map (r8_pixel data) [0..<n]"
    if "n \<le> length data" for n
    using that by (intro nth_equalityI) (simp_all add: r8_pixel_def)
  then show "window_inv app \<Longrightarrow> ?thesis"
    by (simp add: convert_r8_def window_inv_def r8_pixels_eq Let_def)
qed

text \<open>
  The window after the resizing part of \<open>process_video_frame\<close>, and the whole operation in terms of
  the image of the frame.
\<close>

definition sized_for :: "window_system \<Rightarrow> video_config \<Rightarrow> view_window \<Rightarrow> view_window" where
  "sized_for ws config app =
    (let new_width = unat (vc_width config); new_height = unat (vc_height config)
     in if new_width \<noteq> vw_width app \<or> new_height \<noteq> vw_height app then
          resize_surface ws new_width new_height
            (app\<lparr>vw_width := new_width, vw_height := new_height, vw_framebuffer :=
               resize_framebuffer (new_width * new_height) (vw_framebuffer app)\<rparr>)
        else app)"

lemma sized_for_props:
  assumes "window_inv app"
  shows "window_inv (sized_for ws cfg app)" "vw_width (sized_for ws cfg app) = unat (vc_width cfg)"
    "vw_height (sized_for ws cfg app) = unat (vc_height cfg)"
    "vw_event_queue (sized_for ws cfg app) = vw_event_queue app"
    "vw_closed (sized_for ws cfg app) = vw_closed app"
  using assms by (auto simp: sized_for_def window_inv_def resize_framebuffer_def Let_def)

lemma process_video_frame_eq:
  assumes "window_inv app"
  shows "process_video_frame ws data cfg app =
    Some (if length data < frame_size cfg then (Err (too_small (vc_format cfg)), sized_for ws cfg app)
          else (Ok (), (sized_for ws cfg app)\<lparr>vw_framebuffer := frame_image cfg data\<rparr>))"
proof -
  note p = sized_for_props [OF assms, of ws cfg]
  have "process_video_frame ws data cfg app =
    (case vc_format cfg of
       Rgba8 \<Rightarrow> convert_rgba8 data (sized_for ws cfg app)
     | Rgb8 \<Rightarrow> convert_rgb8 data (sized_for ws cfg app)
     | Rgb565 \<Rightarrow> convert_rgb565 data (sized_for ws cfg app)
     | R8 \<Rightarrow> convert_r8 data (sized_for ws cfg app))"
    unfolding process_video_frame_def sized_for_def Let_def by (rule refl)
  then show ?thesis
    using convert_pixels_eq [OF p(1)] convert_r8_eq [OF p(1), of data] p(2,3)
    by (cases "vc_format cfg") (simp_all add: convert_rgba8_def convert_rgb8_def convert_rgb565_def
        frame_size_def frame_image_def)
qed


section \<open>The way of a pixel\<close>

text \<open>
  What the window shows of a colour: in \<open>Rgb565\<close> the high bits of a channel, repeated in its low
  bits; in \<open>R8\<close> the first channel as a gray.
\<close>

definition channel5 :: "u8 \<Rightarrow> u8" where "channel5 v = push_bit 3 (drop_bit 3 v) OR drop_bit 5 v"
definition channel6 :: "u8 \<Rightarrow> u8" where "channel6 v = push_bit 2 (drop_bit 2 v) OR drop_bit 6 v"

fun shown_colour :: "video_format \<Rightarrow> u8 \<Rightarrow> u8 \<Rightarrow> u8 \<Rightarrow> u32" where
  "shown_colour Rgba8 r g b = pack_rgb (ucast r) (ucast g) (ucast b)"
| "shown_colour Rgb8 r g b = pack_rgb (ucast r) (ucast g) (ucast b)"
| "shown_colour Rgb565 r g b =
     pack_rgb (ucast (channel5 r)) (ucast (channel6 g)) (ucast (channel5 b))"
| "shown_colour R8 r g b = pack_rgb (ucast r) (ucast r) (ucast r)"

lemma rgb565_unpack:
  fixes r g b :: u8
  defines "w \<equiv> push_bit 11 (ucast (drop_bit 3 r)) OR push_bit 5 (ucast (drop_bit 2 g)) OR
      ucast (drop_bit 3 b) :: u16"
  shows "(ucast (drop_bit 11 w AND 0x1F) :: u8) = drop_bit 3 r"
    "(ucast (drop_bit 5 w AND 0x3F) :: u8) = drop_bit 2 g" "(ucast (w AND 0x1F) :: u8) = drop_bit 3 b"
  unfolding w_def and_mask_take_bit
  by (rule bit_word_eqI; auto simp: bit_simps dest: bit_imp_le_length)+

lemma rgb565_expand_packed:
  "rgb565_expand (push_bit 11 (ucast (drop_bit 3 r)) OR push_bit 5 (ucast (drop_bit 2 g)) OR
      ucast (drop_bit 3 b)) = (channel5 r, channel6 g, channel5 b)"
  by (simp only: rgb565_expand_def Let_def rgb565_unpack channel5_def channel6_def drop_bit_drop_bit)
    simp

lemma same_div_close:
  "a div 8 = b div 8 \<Longrightarrow> \<bar>a - b\<bar> < 8" "a div 4 = b div 4 \<Longrightarrow> \<bar>a - b\<bar> < 4" for a b :: int
  by linarith+

lemma channel_error:
  "\<bar>uint (channel5 v) - uint v\<bar> < 8" "\<bar>uint (channel6 v) - uint v\<bar> < 4"
proof -
  have "drop_bit 3 (channel5 v) = drop_bit 3 v" "drop_bit 2 (channel6 v) = drop_bit 2 v"
    unfolding channel5_def channel6_def
    by (rule bit_word_eqI; auto simp: bit_simps dest: bit_imp_le_length)+
  then have "uint (channel5 v div 8) = uint (v div 8)" "uint (channel6 v div 4) = uint (v div 4)"
    by (simp_all add: drop_bit_eq_div)
  then have "uint (channel5 v) div 8 = uint v div 8" "uint (channel6 v) div 4 = uint v div 4"
    by (simp_all add: uint_div)
  then show "\<bar>uint (channel5 v) - uint v\<bar> < 8" "\<bar>uint (channel6 v) - uint v\<bar> < 4"
    by (auto intro: same_div_close)
qed

text \<open>A pixel depends on its own bytes; writing a pixel changes this pixel only.\<close>

lemma pixel_value_cong:
  assumes "\<And>t. t < unat (bytes_per_pixel f) \<Longrightarrow>
    d ! (i * unat (bytes_per_pixel f) + t) = e ! (i * unat (bytes_per_pixel f) + t)"
  shows "pixel_value f d i = pixel_value f e i"
  using assms [of 0] assms [of 1] assms [of 2]
  by (cases f) (simp_all add: rgba8_pixel_def rgb8_pixel_def rgb565_pixel_def r8_pixel_def)

lemma pixel_value_written:
  assumes "\<And>t. t < unat (bytes_per_pixel f) \<Longrightarrow>
    d ! (i * unat (bytes_per_pixel f) + t) = pixel_bytes f r g b a ! t"
  shows "pixel_value f d i = shown_colour f r g b"
proof (cases f)
  case Rgb565
  define w :: u16 where "w = push_bit 11 (ucast (drop_bit 3 r)) OR
      push_bit 5 (ucast (drop_bit 2 g)) OR ucast (drop_bit 3 b)"
  then have "pixel_bytes f r g b a = [ucast w, ucast (drop_bit 8 w)]"
    using Rgb565 by (simp only: pixel_bytes.simps le_bytes16_def)
  then have "of_le16 (d ! (i * 2)) (d ! (i * 2 + 1)) = w"
    using Rgb565 assms [of 0] assms [of 1] by simp
  then show ?thesis
    using Rgb565 rgb565_expand_packed [of r g b] by (simp add: rgb565_pixel_def w_def)
qed (use assms [of 0] assms [of 1] assms [of 2] in
    \<open>simp_all add: rgba8_pixel_def rgb8_pixel_def r8_pixel_def Let_def\<close>)

lemma nth_splice:
  assumes "i * B + B \<le> length fr" "j * B + B \<le> length fr" "t < B" "length bs = B"
  shows "(take (i * B) fr @ bs @ drop (i * B + B) fr) ! (j * B + t) =
    (if j = i then bs ! t else fr ! (j * B + t))"
proof -
  consider "j = i" | "Suc j \<le> i" | "Suc i \<le> j" by linarith
  then show ?thesis
  proof cases
    case 2
    then have "j * B + B \<le> i * B" using mult_le_mono1 [of "Suc j" i B] by simp
    then show ?thesis using assms 2 by (simp add: nth_append)
  next
    case 3
    then have "i * B + B \<le> j * B" using mult_le_mono1 [of "Suc i" j B] by simp
    then have "\<not> j * B + t < i * B" "\<not> j * B + t - i * B < B" by linarith+
    then show ?thesis using assms 3 by (simp add: nth_append)
  qed (use assms in \<open>simp add: nth_append\<close>)
qed

lemma frame_image_splice:
  fixes cfg :: video_config
  defines "B \<equiv> unat (bytes_per_pixel (vc_format cfg))"
    and "n \<equiv> unat (vc_width cfg) * unat (vc_height cfg)"
  assumes "i < n" "length fr = frame_size cfg"
  shows "frame_image cfg (take (i * B) fr @ pixel_bytes (vc_format cfg) r g b a @ drop (i * B + B) fr) =
    (frame_image cfg fr)[i := shown_colour (vc_format cfg) r g b]"
proof (rule nth_equalityI)
  let ?d = "take (i * B) fr @ pixel_bytes (vc_format cfg) r g b a @ drop (i * B + B) fr"
  have sz: "length fr = n * B" using assms by (simp add: frame_size_def)
  have room: "j * B + B \<le> length fr" if "j < n" for j
    using mult_le_mono1 [of "Suc j" n B] that by (simp add: sz)
  have at: "?d ! (j * B + t) = (if j = i then pixel_bytes (vc_format cfg) r g b a ! t
      else fr ! (j * B + t))" if "j < n" "t < B" for j t
    by (rule nth_splice) (use assms(3) that room in \<open>simp_all add: B_def\<close>)
  fix j assume "j < length (frame_image cfg ?d)"
  then have j: "j < n" by (simp add: frame_image_def n_def)
  have "pixel_value (vc_format cfg) ?d j =
      (if j = i then shown_colour (vc_format cfg) r g b else pixel_value (vc_format cfg) fr j)"
  proof (cases "j = i")
    case True
    then have "pixel_value (vc_format cfg) ?d i = shown_colour (vc_format cfg) r g b"
      using at [OF j] by (intro pixel_value_written) (simp add: B_def)
    with True show ?thesis by simp
  next
    case False
    then have "pixel_value (vc_format cfg) ?d j = pixel_value (vc_format cfg) fr j"
      using at [OF j] by (intro pixel_value_cong) (simp add: B_def)
    with False show ?thesis by simp
  qed
  then show "frame_image cfg ?d ! j = (frame_image cfg fr)[i := shown_colour (vc_format cfg) r g b] ! j"
    using j by (simp add: frame_image_def n_def nth_list_update)
qed (simp add: frame_image_def)


section \<open>Properties\<close>

text \<open>
  C34: the frame conversion is exact and never panics.  A window that satisfies its invariant
  answers every frame: data shorter than \<open>width * height * bytes_per_pixel\<close> is refused with the
  message of the format, anything longer fills the whole frame buffer, pixel by pixel, with the
  colours of the frame; either way the window has the size of the frame afterwards, keeps its
  invariant and its pending events.  On a surface of that size, a redraw shows exactly the frame
  buffer; on a larger or smaller one it is padded with black or cut.
\<close>

theorem window_frame_exact:
  assumes "window_inv app"
  shows "case process_video_frame ws data cfg app of
      None \<Rightarrow> False
    | Some (r, app') \<Rightarrow>
        window_inv app' \<and> vw_width app' = unat (vc_width cfg) \<and>
        vw_height app' = unat (vc_height cfg) \<and> vw_event_queue app' = vw_event_queue app \<and>
        (if length data < frame_size cfg then r = Err (too_small (vc_format cfg))
         else r = Ok () \<and> vw_framebuffer app' = frame_image cfg data) \<and>
        (\<forall>w h. vw_surface app' = Some (Some (w, h)) \<and> ws_present ws \<longrightarrow>
          vw_presented (window_event ws RedrawRequested app') = vw_presented app' @
            [take (w * h) (vw_framebuffer app') @
             replicate (w * h - vw_width app' * vw_height app') 0])"
proof -
  note p = sized_for_props [OF assms, of ws cfg]
  have "window_inv ((sized_for ws cfg app)\<lparr>vw_framebuffer := frame_image cfg data\<rparr>)"
    using p(2,3) by (simp add: window_inv_def frame_image_def)
  moreover have "vw_presented (window_event ws RedrawRequested u) = vw_presented u @
      [take (w * h) (vw_framebuffer u) @ replicate (w * h - vw_width u * vw_height u) 0]"
    if "window_inv u" "vw_surface u = Some (Some (w, h))" "ws_present ws" for u w h
    using that by (cases "length (vw_framebuffer u) \<le> w * h")
      (simp_all add: present_def window_inv_def Let_def min_def)
  ultimately show ?thesis using p by (simp add: process_video_frame_eq [OF assms])
qed

text \<open>A window system all of whose calls succeed.\<close>

definition working_system :: window_system where
  "working_system = \<lparr>ws_create_window = True, ws_create_context = True,
     ws_create_surface = True, ws_resize = \<lambda>_ _. True, ws_present = True\<rparr>"

lemma window_frame_exact_witness:
  "case process_video_frame working_system [1, 2, 3]
      \<lparr>vc_width = 1, vc_height = 1, vc_format = Rgb8\<rparr> (view_window_app_new 2 2) of
     None \<Rightarrow> False
   | Some (r, app') \<Rightarrow> r = Ok () \<and> vw_framebuffer app' = [0x010203]"
  using window_frame_exact [where app = "view_window_app_new 2 2" and ws = working_system and
      data = "[1, 2, 3]" and cfg = "\<lparr>vc_width = 1, vc_height = 1, vc_format = Rgb8\<rparr>"]
  by (simp add: window_inv_def view_window_app_new_def frame_size_def frame_image_def
      rgb8_pixel_def pack_rgb_def split: option.splits prod.splits)

text \<open>
  C29: a pixel written by a program reaches the window.  When the program writes a pixel inside the
  frame with \<open>write_pixel\<close> and the video device, idle and configured for this frame in DRAM, is
  triggered, then within as many cycles as the frame has bytes the present callback gets a
  frame; the window accepts it, and its frame buffer is the image of the memory before the write
  with exactly this pixel set to the colour, to within 7 (green: 3) in \<open>Rgb565\<close> and exactly
  otherwise.
\<close>

theorem pixel_reaches_window:
  assumes "\<not> is_present_active v" "video_has_callback v"
    and "video_config_from_register (video_config_reg v) = Some cfg"
    and "is_valid_dram_range (video_addr v) (video_total_bytes cfg)"
    and "x < vc_width cfg" "y < vc_height cfg" "window_inv app"
  shows "\<exists>k v' data app'. k \<le> unat (video_total_bytes cfg) \<and>
    (let c' = write_pixel (video_addr v) (vc_width cfg) x y (vc_format cfg) r g b a c
     in video_cycles k (start_present v, c') = (v', c')) \<and>
    video_presented v' = video_presented v @ [(data, cfg)] \<and>
    process_video_frame ws data cfg app = Some (Ok (), app') \<and> window_inv app' \<and>
    vw_framebuffer app' =
      (frame_image cfg (read_block ctx_read_byte c (video_addr v) (unat (video_total_bytes cfg))))
        [pixel_index (vc_width cfg) x y := shown_colour (vc_format cfg) r g b] \<and>
    \<bar>uint (channel5 r) - uint r\<bar> < 8 \<and> \<bar>uint (channel6 g) - uint g\<bar> < 4 \<and>
    \<bar>uint (channel5 b) - uint b\<bar> < 8"
proof -
  define c' where "c' = write_pixel (video_addr v) (vc_width cfg) x y (vc_format cfg) r g b a c"
  let ?n = "unat (video_total_bytes cfg)" and ?i = "pixel_index (vc_width cfg) x y"
  let ?fr = "read_block ctx_read_byte c (video_addr v) ?n"
  let ?data = "read_block ctx_read_byte c' (video_addr v) ?n"
  have ok: "video_config_ok cfg" by (rule video_from_register_ok [OF assms(3)])
  have sz: "?n = frame_size cfg" using video_total_bytes_nowrap(1) [OF ok] by (simp add: frame_size_def)
  obtain k v' where k: "k \<le> ?n" "video_cycles k (start_present v, c') = (v', c')"
      "video_presented v' = video_presented v @ [(?data, cfg)]"
    using present_completes [OF assms(1-3), of c'] by blast
  have d: "?data = (let fr = ?fr in take (?i * unat (bytes_per_pixel (vc_format cfg))) fr @
      pixel_bytes (vc_format cfg) r g b a @ drop (?i * unat (bytes_per_pixel (vc_format cfg)) +
      unat (bytes_per_pixel (vc_format cfg))) fr)"
    unfolding c'_def by (rule write_pixel_frame [OF assms(4) ok assms(5,6)])
  have "?i < unat (vc_width cfg) * unat (vc_height cfg)" by (rule pixel_index_less [OF assms(5,6)])
  then have im: "frame_image cfg ?data = (frame_image cfg ?fr)[?i := shown_colour (vc_format cfg) r g b]"
    unfolding d Let_def by (intro frame_image_splice) (simp_all add: sz)
  define app' where "app' = (sized_for ws cfg app)\<lparr>vw_framebuffer := frame_image cfg ?data\<rparr>"
  have "process_video_frame ws ?data cfg app = Some (Ok (), app')"
    by (simp add: process_video_frame_eq [OF assms(7)] app'_def sz)
  moreover have "window_inv app'"
    using sized_for_props [OF assms(7), of ws cfg] by (simp add: app'_def window_inv_def frame_image_def)
  moreover have "vw_framebuffer app' = (frame_image cfg ?fr)[?i := shown_colour (vc_format cfg) r g b]"
    by (simp add: app'_def im)
  ultimately show ?thesis
    using k channel_error unfolding Let_def c'_def [symmetric] by blast
qed


lemma pixel_reaches_window_witness:
  "\<exists>k v' data app'. k \<le> 16 \<and>
    (let c' = write_pixel 0x80000000 4 2 1 Rgb565 255 0 8 0 (context_new mem_new)
     in video_cycles k (start_present video_example, c') = (v', c')) \<and>
    video_presented v' = [(data, \<lparr>vc_width = 4, vc_height = 2, vc_format = Rgb565\<rparr>)] \<and>
    process_video_frame working_system data \<lparr>vc_width = 4, vc_height = 2, vc_format = Rgb565\<rparr>
      (view_window_app_new 320 240) = Some (Ok (), app') \<and>
    vw_framebuffer app' ! 6 = 0xFF0008"
proof -
  define cfg where "cfg = \<lparr>vc_width = 4, vc_height = 2, vc_format = Rgb565\<rparr>"
  have cfg: "video_config_from_register (video_config_reg video_example) = Some cfg"
    by (simp add: video_example_def video_new_def video_with_fps_def cfg_def
        video_config_from_register_def Let_def video_format_from_u8_def)
  have s: "vc_width cfg = 4" "vc_height cfg = 2" "vc_format cfg = Rgb565" by (simp_all add: cfg_def)
  have n: "video_total_bytes cfg = 16" by (simp add: video_total_bytes_def s)
  have v: "video_addr video_example = 0x80000000" "video_presented video_example = []"
    "\<not> is_present_active video_example" "video_has_callback video_example"
    by (simp_all add: video_example_def video_new_def video_with_fps_def is_present_active_def)
  have d: "is_valid_dram_range (video_addr video_example) (video_total_bytes cfg)"
    by (simp add: v n valid_dram_range)
  have xy: "(2 :: u32) < vc_width cfg" "(1 :: u32) < vc_height cfg" by (simp_all add: s)
  have w: "window_inv (view_window_app_new 320 240)"
    by (simp add: window_inv_def view_window_app_new_def)
  have img: "((frame_image cfg d)[6 := e]) ! 6 = e" for d e by (simp add: frame_image_def s)
  have i: "pixel_index (vc_width cfg) 2 1 = 6" by (simp add: pixel_index_def s)
  have col: "shown_colour (vc_format cfg) 255 0 8 = 0xFF0008"
    by (simp add: s pack_rgb_def channel5_def channel6_def)
  obtain k v' data app' where r: "k \<le> unat (video_total_bytes cfg)"
    "let c' = write_pixel (video_addr video_example) (vc_width cfg) 2 1 (vc_format cfg) 255 0 8 0
        (context_new mem_new)
     in video_cycles k (start_present video_example, c') = (v', c')"
    "video_presented v' = video_presented video_example @ [(data, cfg)]"
    "process_video_frame working_system data cfg (view_window_app_new 320 240) = Some (Ok (), app')"
    "vw_framebuffer app' = (frame_image cfg (read_block ctx_read_byte (context_new mem_new)
        (video_addr video_example) (unat (video_total_bytes cfg))))
        [pixel_index (vc_width cfg) 2 1 := shown_colour (vc_format cfg) 255 0 8]"
    using pixel_reaches_window [OF v(3,4) cfg d xy w, of 255 0 8 0 "context_new mem_new"
      working_system] by blast
  have "vw_framebuffer app' ! 6 = 0xFF0008" using r(5) img by (simp only: i col)
  with r(1-4) show ?thesis
    unfolding cfg_def [symmetric] by (intro exI [of _ k] exI [of _ v'] exI [of _ data] exI [of _ app'])
      (simp add: n v s)
qed

end
