(* ===== verification/View_Buffers.thy ===== *)
theory View_Buffers
  imports Complex_Main Media_Config "HOL-Library.Sublist"
begin

text \<open>
  The buffers between the simulated devices and the outputs of \<open>sim-view\<close>
  (\<open>shared_buffers.rs\<close>), the headless outputs that capture everything
  (\<open>headless_backends.rs\<close>) and the filling of an audio device buffer
  (\<open>audio_stream.rs\<close>).  A shared buffer is one state that its owners pass on: every method locks
  it, so the operations of the threads are a sequence.  Readings of the clock (\<open>Instant\<close>) are
  naturals given by the caller.  The abstract buffer of audio samples is the plain queue
  \<open>buffered\<close>; the lemmas show that pushing and pulling refine appending and taking, with whole
  chunks dropped at the front only when the limit is reached.
\<close>

section \<open>The video buffer\<close>

definition MAX_VIDEO_FRAMES :: nat where "MAX_VIDEO_FRAMES = 10"
definition MAX_AUDIO_CHUNKS :: nat where "MAX_AUDIO_CHUNKS = 100"

record video_frame =
  vf_data :: "u8 list"
  vf_config :: video_config
  vf_timestamp :: nat

record video_buffer =
  vb_frames :: "video_frame list"

definition video_buffer_new :: video_buffer where
  "video_buffer_new = \<lparr>vb_frames = []\<rparr>"

definition push_frame :: "nat \<Rightarrow> u8 list \<Rightarrow> video_config \<Rightarrow> video_buffer \<Rightarrow> video_buffer" where
  "push_frame now data config b =
    (let frames = (if MAX_VIDEO_FRAMES \<le> length (vb_frames b) then tl (vb_frames b)
                   else vb_frames b)
     in b\<lparr>vb_frames := frames @ [\<lparr>vf_data = data, vf_config = config, vf_timestamp = now\<rparr>]\<rparr>)"

definition pull_frame :: "video_buffer \<Rightarrow> video_frame option \<times> video_buffer" where
  "pull_frame b =
    (case vb_frames b of [] \<Rightarrow> (None, b) | frame # rest \<Rightarrow> (Some frame, b\<lparr>vb_frames := rest\<rparr>))"

definition has_frames :: "video_buffer \<Rightarrow> bool" where
  "has_frames b = (vb_frames b \<noteq> [])"

definition frame_count :: "video_buffer \<Rightarrow> nat" where
  "frame_count b = length (vb_frames b)"

section \<open>The audio buffer\<close>

record audio_chunk =
  ak_samples :: "i16 list"
  ak_config :: "audio_config option"
  ak_timestamp :: nat

record audio_buffer =
  ab_chunks :: "audio_chunk list"
  ab_current_config :: "audio_config option"

definition audio_buffer_new :: audio_buffer where
  "audio_buffer_new = \<lparr>ab_chunks = [], ab_current_config = None\<rparr>"

definition push_samples :: "nat \<Rightarrow> i16 list \<Rightarrow> audio_buffer \<Rightarrow> audio_buffer" where
  "push_samples now samples b =
    (if samples = [] then b
     else let chunks = (if MAX_AUDIO_CHUNKS \<le> length (ab_chunks b) then tl (ab_chunks b)
                        else ab_chunks b)
          in b\<lparr>ab_chunks := chunks @
               [\<lparr>ak_samples = samples, ak_config = ab_current_config b, ak_timestamp = now\<rparr>]\<rparr>)"

definition buffer_set_config :: "audio_config \<Rightarrow> audio_buffer \<Rightarrow> audio_buffer" where
  "buffer_set_config config b = b\<lparr>ab_current_config := Some config\<rparr>"

text \<open>The loop of \<open>pull_samples\<close>: whole chunks while they fit, then the front of the next one.\<close>

fun pull_loop :: "nat \<Rightarrow> i16 list \<Rightarrow> audio_chunk list \<Rightarrow> i16 list \<times> audio_chunk list" where
  "pull_loop max_samples result [] = (result, [])"
| "pull_loop max_samples result (chunk # chunks) =
    (if length result < max_samples then
       (let remaining_space = max_samples - length result
        in if length (ak_samples chunk) \<le> remaining_space
           then pull_loop max_samples (result @ ak_samples chunk) chunks
           else (result @ take remaining_space (ak_samples chunk),
                 chunk\<lparr>ak_samples := drop remaining_space (ak_samples chunk)\<rparr> # chunks))
     else (result, chunk # chunks))"

definition pull_samples :: "nat \<Rightarrow> audio_buffer \<Rightarrow> i16 list \<times> audio_buffer" where
  "pull_samples max_samples b =
    (let (result, chunks) = pull_loop max_samples [] (ab_chunks b)
     in (result, b\<lparr>ab_chunks := chunks\<rparr>))"

definition get_config :: "audio_buffer \<Rightarrow> audio_config option" where
  "get_config b = ab_current_config b"

definition has_samples :: "audio_buffer \<Rightarrow> bool" where
  "has_samples b = (ab_chunks b \<noteq> [])"

definition sample_count :: "audio_buffer \<Rightarrow> nat" where
  "sample_count b = sum_list (map (length \<circ> ak_samples) (ab_chunks b))"

text \<open>The abstract buffer, and the invariant: a bounded number of chunks, none of them empty.\<close>

definition samples_of :: "audio_chunk list \<Rightarrow> i16 list" where
  "samples_of chunks = concat (map ak_samples chunks)"

definition buffered :: "audio_buffer \<Rightarrow> i16 list" where
  "buffered b = samples_of (ab_chunks b)"

definition audio_buffer_inv :: "audio_buffer \<Rightarrow> bool" where
  "audio_buffer_inv b =
    (length (ab_chunks b) \<le> MAX_AUDIO_CHUNKS \<and> (\<forall>c \<in> set (ab_chunks b). ak_samples c \<noteq> []))"

lemma samples_of_simps [simp]:
  "samples_of [] = []" "samples_of (c # cs) = ak_samples c @ samples_of cs"
  "samples_of (xs @ ys) = samples_of xs @ samples_of ys"
  by (simp_all add: samples_of_def)

lemma sample_count_buffered: "sample_count b = length (buffered b)"
  by (simp add: sample_count_def buffered_def samples_of_def length_concat o_def)

lemma pull_loop_refines:
  "pull_loop n xs cs = (ys, cs') \<Longrightarrow> length xs \<le> n \<Longrightarrow>
    ys = take n (xs @ samples_of cs) \<and> samples_of cs' = drop n (xs @ samples_of cs)"
proof (induction n xs cs rule: pull_loop.induct)
  case (2 n xs c cs)
  then show ?case
    by (cases "length xs < n"; cases "length (ak_samples c) \<le> n - length xs") (auto simp: Let_def)
qed auto

lemma pull_loop_chunks:
  "pull_loop n xs cs = (ys, cs') \<Longrightarrow> \<forall>c \<in> set cs. ak_samples c \<noteq> [] \<Longrightarrow>
    length cs' \<le> length cs \<and> (\<forall>c \<in> set cs'. ak_samples c \<noteq> [])"
  by (induction n xs cs rule: pull_loop.induct)
    (fastforce simp: Let_def split: if_splits)+

lemma pull_samples_refines:
  "fst (pull_samples n b) = take n (buffered b)"
  "buffered (snd (pull_samples n b)) = drop n (buffered b)"
  using pull_loop_refines [of n "[]" "ab_chunks b"]
  by (simp_all add: pull_samples_def buffered_def split: prod.splits)

lemma pull_samples_inv: "audio_buffer_inv b \<Longrightarrow> audio_buffer_inv (snd (pull_samples n b))"
  using pull_loop_chunks [of n "[]" "ab_chunks b"]
  by (fastforce simp: pull_samples_def audio_buffer_inv_def split: prod.splits)

lemma push_samples_inv: "audio_buffer_inv b \<Longrightarrow> audio_buffer_inv (push_samples now xs b)"
  by (cases "ab_chunks b")
    (auto simp: push_samples_def audio_buffer_inv_def MAX_AUDIO_CHUNKS_def Let_def)

lemma set_config_inv [simp]:
  "audio_buffer_inv (buffer_set_config c b) = audio_buffer_inv b"
  "buffered (buffer_set_config c b) = buffered b"
  by (simp_all add: audio_buffer_inv_def buffer_set_config_def buffered_def)

lemma audio_buffer_new_inv [simp]: "audio_buffer_inv audio_buffer_new" "buffered audio_buffer_new = []"
  by (simp_all add: audio_buffer_inv_def audio_buffer_new_def buffered_def)

lemma push_samples_room:
  "length (ab_chunks b) < MAX_AUDIO_CHUNKS \<or> xs = [] \<Longrightarrow>
    buffered (push_samples now xs b) = buffered b @ xs"
  by (auto simp: push_samples_def buffered_def Let_def)

lemma push_samples_subseq: "subseq (buffered (push_samples now xs b)) (buffered b @ xs)"
proof -
  have "subseq (samples_of (tl cs)) (samples_of cs)" for cs by (cases cs) auto
  then show ?thesis by (auto simp: push_samples_def buffered_def Let_def intro: subseq_append')
qed


section \<open>Filling a device buffer\<close>

text \<open>
  The conversions of a sample, or of a missing one, for the three sample formats.  A sample
  divided by 32768 is exact in \<open>f32\<close>, so that format is a rational here.
\<close>

definition conv_i16 :: "i16 option \<Rightarrow> i16" where
  "conv_i16 opt = (case opt of Some s \<Rightarrow> s | None \<Rightarrow> 0)"

definition conv_f32 :: "i16 option \<Rightarrow> rat" where
  "conv_f32 opt = (case opt of Some s \<Rightarrow> of_int (sint s) / 32768 | None \<Rightarrow> 0)"

definition conv_u16 :: "i16 option \<Rightarrow> u16" where
  "conv_u16 opt =
    (let center = word_of_int (32767 + 1)
     in case opt of
          Some s \<Rightarrow> (let shifted = sint s + 32767 + 1 in word_of_int (max 0 (min 65535 shifted)))
        | None \<Rightarrow> center)"

primrec fill_slots :: "(i16 option \<Rightarrow> 'a) \<Rightarrow> nat \<Rightarrow> i16 list \<Rightarrow> 'a list" where
  "fill_slots conv 0 samples = []"
| "fill_slots conv (Suc n) samples =
    (case samples of [] \<Rightarrow> conv None # fill_slots conv n []
     | v # vs \<Rightarrow> conv (Some v) # fill_slots conv n vs)"

text \<open>The filled slots, the source afterwards, and the number of silent samples if it is logged.\<close>

definition fill_from_shared_buffer ::
  "(i16 option \<Rightarrow> 'a) \<Rightarrow> nat \<Rightarrow> bool \<Rightarrow> audio_buffer option \<Rightarrow>
   'a list \<times> audio_buffer option \<times> nat option" where
  "fill_from_shared_buffer conv slots log_underrun source =
    (let (samples, source) =
           (case source of
              Some b \<Rightarrow> (let (samples, b) = pull_samples slots b in (samples, Some b))
            | None \<Rightarrow> ([], None));
         available = length samples
     in (fill_slots conv slots samples, source,
         if log_underrun \<and> available < slots then Some (slots - available) else None))"

lemma fill_slots_eq:
  "length xs \<le> n \<Longrightarrow>
    fill_slots conv n xs = map (conv \<circ> Some) xs @ replicate (n - length xs) (conv None)"
  by (induction n arbitrary: xs) (auto split: list.split)

lemma fill_refines:
  "fill_from_shared_buffer conv n log_underrun (Some b) =
    (map (conv \<circ> Some) (take n (buffered b)) @ replicate (n - sample_count b) (conv None),
     Some (snd (pull_samples n b)),
     if log_underrun \<and> sample_count b < n then Some (n - sample_count b) else None)"
proof -
  obtain xs b' where p: "pull_samples n b = (xs, b')" by fastforce
  then have xs: "xs = take n (buffered b)" using pull_samples_refines(1) [of n b] by simp
  have "fill_slots conv n xs = map (conv \<circ> Some) xs @ replicate (n - length xs) (conv None)"
    by (rule fill_slots_eq) (simp add: xs)
  then show ?thesis
    by (auto simp: fill_from_shared_buffer_def Let_def p xs sample_count_buffered min_def)
qed

lemma sint16_range: "- 32768 \<le> sint (s :: i16)" "sint (s :: i16) < 32768"
  using sint_range_size [of s] by (simp_all add: word_size)

lemma conv_u16_order: "uint (conv_u16 (Some s)) = sint s + 32768"
proof -
  let ?n = "sint s + 32767 + 1"
  have n: "0 \<le> ?n" "?n < 2 ^ LENGTH(16)" using sint16_range [of s] by simp_all
  then have "conv_u16 (Some s) = word_of_int ?n" by (simp only: conv_u16_def) (simp add: Let_def)
  moreover have "uint (word_of_int ?n :: u16) = ?n"
    using n by (simp only: uint_word_of_int mod_pos_pos_trivial)
  ultimately show ?thesis by simp
qed

section \<open>The headless outputs\<close>

record captured_frame =
  cf_data :: "u8 list"
  cf_config :: video_config
  cf_timestamp :: nat
  cf_sequence :: u64

record headless_video =
  hv_captured_frames :: "captured_frame list"
  hv_frame_count :: u64

definition headless_video_new :: headless_video where
  "headless_video_new = \<lparr>hv_captured_frames = [], hv_frame_count = 0\<rparr>"

text \<open>
  The loop of \<open>update\<close> with the source that \<open>set_video_source\<close> connected; without a source there
  is nothing to pull.
\<close>

function capture_frames ::
  "video_buffer \<Rightarrow> headless_video \<Rightarrow> headless_video \<times> video_buffer" where
  "capture_frames b v =
    (case pull_frame b of
       (None, b) \<Rightarrow> (v, b)
     | (Some frame, b) \<Rightarrow>
         capture_frames b
           (v\<lparr>hv_captured_frames := hv_captured_frames v @
                [\<lparr>cf_data = vf_data frame, cf_config = vf_config frame,
                  cf_timestamp = vf_timestamp frame, cf_sequence = hv_frame_count v\<rparr>],
              hv_frame_count := hv_frame_count v + 1\<rparr>))"
  by pat_completeness auto
termination
  by (relation "measure (frame_count \<circ> fst)")
    (auto simp: pull_frame_def frame_count_def split: list.splits)

definition headless_video_update ::
  "video_buffer option \<Rightarrow> headless_video \<Rightarrow> headless_video \<times> video_buffer option" where
  "headless_video_update source v =
    (case source of
       None \<Rightarrow> (v, None)
     | Some b \<Rightarrow> (let (v, b) = capture_frames b v in (v, Some b)))"

lemma capture_progress:
  assumes "(samples, b') = pull_samples n b" "samples \<noteq> []"
  shows "sample_count b' < sample_count b"
proof -
  have "samples = take n (buffered b)" "buffered b' = drop n (buffered b)"
    using pull_samples_refines [of n b] unfolding assms(1) [symmetric] by simp_all
  with assms(2) show ?thesis by (cases n; cases "buffered b") (simp_all add: sample_count_buffered)
qed

record captured_audio_chunk =
  cc_samples :: "i16 list"
  cc_timestamp :: nat
  cc_sample_offset :: u64
  cc_config :: "audio_config option"

record headless_audio =
  ha_captured_chunks :: "captured_audio_chunk list"
  ha_sample_count :: u64
  ha_current_config :: "audio_config option"

definition headless_audio_new :: headless_audio where
  "headless_audio_new =
    \<lparr>ha_captured_chunks = [], ha_sample_count = 0, ha_current_config = None\<rparr>"

definition CHUNK_SIZE :: nat where "CHUNK_SIZE = 1024"

text \<open>
  The loop of \<open>update\<close>; \<open>clock k\<close> is what \<open>Instant::now\<close> returns when the \<open>k\<close>-th chunk is captured.
\<close>

function capture_samples ::
  "(nat \<Rightarrow> nat) \<Rightarrow> audio_buffer \<Rightarrow> headless_audio \<Rightarrow> headless_audio \<times> audio_buffer" where
  "capture_samples clock b a =
    (if has_samples b then
       (case pull_samples CHUNK_SIZE b of
          (samples, b) \<Rightarrow>
            (if samples = [] then (a, b)
             else capture_samples clock b
               (a\<lparr>ha_captured_chunks := ha_captured_chunks a @
                    [\<lparr>cc_samples = samples, cc_timestamp = clock (length (ha_captured_chunks a)),
                      cc_sample_offset = ha_sample_count a, cc_config = ha_current_config a\<rparr>],
                  ha_sample_count := ha_sample_count a + of_nat (length samples)\<rparr>)))
     else (a, b))"
  by pat_completeness auto
termination
  by (relation "measure (\<lambda>(clock, b, a). sample_count b)") (auto intro!: capture_progress)

definition headless_audio_update ::
  "(nat \<Rightarrow> nat) \<Rightarrow> audio_buffer option \<Rightarrow> headless_audio \<Rightarrow>
   headless_audio \<times> audio_buffer option" where
  "headless_audio_update clock source a =
    (case source of
       None \<Rightarrow> (a, None)
     | Some b \<Rightarrow> (let (a, b) = capture_samples clock b a in (a, Some b)))"

definition headless_audio_set_config ::
  "audio_config \<Rightarrow> audio_buffer option \<Rightarrow> headless_audio \<Rightarrow>
   headless_audio \<times> audio_buffer option" where
  "headless_audio_set_config config source a =
    (a\<lparr>ha_current_config := Some config\<rparr>, map_option (buffer_set_config config) source)"

declare capture_frames.simps [simp del] capture_samples.simps [simp del]


section \<open>Capturing\<close>

text \<open>The frames of a buffer as captured from number \<open>k\<close> on.\<close>

definition numbered :: "u64 \<Rightarrow> video_frame list \<Rightarrow> captured_frame list" where
  "numbered k frames =
    map2 (\<lambda>i frame. \<lparr>cf_data = vf_data frame, cf_config = vf_config frame,
      cf_timestamp = vf_timestamp frame, cf_sequence = k + of_nat i\<rparr>) [0..<length frames] frames"

lemma numbered_simps [simp]:
  "numbered k [] = []"
  "numbered k (f # fs) = \<lparr>cf_data = vf_data f, cf_config = vf_config f,
     cf_timestamp = vf_timestamp f, cf_sequence = k\<rparr> # numbered (k + 1) fs"
  unfolding numbered_def
  by (simp_all add: upt_conv_Cons zip_map1 map_Suc_upt [symmetric] del: upt_Suc map_Suc_upt)
    (simp add: case_prod_unfold add.assoc)

lemma length_numbered [simp]: "length (numbered k fs) = length fs"
  by (simp add: numbered_def)

lemma capture_frames_eq:
  "capture_frames b v =
    (v\<lparr>hv_captured_frames := hv_captured_frames v @ numbered (hv_frame_count v) (vb_frames b),
       hv_frame_count := hv_frame_count v + of_nat (length (vb_frames b))\<rparr>, b\<lparr>vb_frames := []\<rparr>)"
proof (induction "vb_frames b" arbitrary: b v)
  case Nil
  then show ?case
    by (subst capture_frames.simps) (simp add: pull_frame_def flip: Nil)
next
  case (Cons f fs)
  show ?case
    by (subst capture_frames.simps, simp add: pull_frame_def flip: Cons(2))
      (simp add: Cons(1) add.assoc)
qed

text \<open>
  What holds of the captured audio at any time: every chunk carries the number of samples captured
  before it.
\<close>

fun offsets_ok :: "u64 \<Rightarrow> captured_audio_chunk list \<Rightarrow> bool" where
  "offsets_ok k [] = True"
| "offsets_ok k (c # cs) =
    (cc_sample_offset c = k \<and> offsets_ok (k + of_nat (length (cc_samples c))) cs)"

definition captured_samples :: "headless_audio \<Rightarrow> i16 list" where
  "captured_samples a = concat (map cc_samples (ha_captured_chunks a))"

definition headless_audio_inv :: "headless_audio \<Rightarrow> bool" where
  "headless_audio_inv a =
    (offsets_ok 0 (ha_captured_chunks a) \<and>
     ha_sample_count a = of_nat (length (captured_samples a)))"

lemma offsets_ok_snoc:
  "offsets_ok k (cs @ [c]) \<longleftrightarrow>
    offsets_ok k cs \<and> cc_sample_offset c = k + of_nat (length (concat (map cc_samples cs)))"
  by (induction cs arbitrary: k) (auto simp: add.assoc)

lemma capture_samples_correct:
  assumes "headless_audio_inv a" "audio_buffer_inv b" "capture_samples clock b a = (a', b')"
  shows "headless_audio_inv a' \<and> captured_samples a' = captured_samples a @ buffered b \<and>
    ab_chunks b' = []"
  using assms
proof (induction clock b a rule: capture_samples.induct)
  case (1 clock b a)
  obtain xs c where p: "pull_samples CHUNK_SIZE b = (xs, c)" by fastforce
  then have xs: "xs = take CHUNK_SIZE (buffered b)" "buffered c = drop CHUNK_SIZE (buffered b)"
    using pull_samples_refines [of CHUNK_SIZE b] by simp_all
  let ?a = "a\<lparr>ha_captured_chunks := ha_captured_chunks a @
      [\<lparr>cc_samples = xs, cc_timestamp = clock (length (ha_captured_chunks a)),
        cc_sample_offset = ha_sample_count a, cc_config = ha_current_config a\<rparr>],
      ha_sample_count := ha_sample_count a + of_nat (length xs)\<rparr>"
  show ?case
  proof (cases "has_samples b")
    case True
    then have "buffered b \<noteq> []"
      using "1.prems"(2) by (cases "ab_chunks b") (auto simp: has_samples_def buffered_def audio_buffer_inv_def)
    then have ne: "xs \<noteq> []" by (simp add: xs CHUNK_SIZE_def)
    have inv: "headless_audio_inv ?a" "captured_samples ?a = captured_samples a @ xs"
      using "1.prems"(1) by (auto simp: headless_audio_inv_def captured_samples_def offsets_ok_snoc)
    moreover have "audio_buffer_inv c" using pull_samples_inv [OF "1.prems"(2), of CHUNK_SIZE] p by simp
    moreover have "capture_samples clock c ?a = (a', b')"
      using "1.prems"(3) True ne p by (subst (asm) capture_samples.simps) simp
    ultimately show ?thesis using "1.IH" [OF True p [symmetric] ne] xs by auto
  next
    case False
    then have "(a', b') = (a, b)" "ab_chunks b = []"
      using "1.prems"(3) by (subst (asm) capture_samples.simps; simp add: has_samples_def)+
    then show ?thesis using "1.prems"(1) by (simp add: buffered_def)
  qed
qed

section \<open>Properties\<close>

text \<open>
  Any sequence of operations of the two sides of the audio buffer: the device callbacks push
  and change the configuration, the output pulls.
\<close>

datatype stream_op = PushOp nat "i16 list" | PullOp nat | ConfigOp audio_config

fun stream_step :: "stream_op \<Rightarrow> audio_buffer \<Rightarrow> i16 list \<times> audio_buffer" where
  "stream_step (PushOp now samples) b = ([], push_samples now samples b)"
| "stream_step (PullOp n) b = pull_samples n b"
| "stream_step (ConfigOp config) b = ([], buffer_set_config config b)"

fun stream_run :: "stream_op list \<Rightarrow> audio_buffer \<Rightarrow> i16 list \<times> audio_buffer" where
  "stream_run [] b = ([], b)"
| "stream_run (op # ops) b =
    (let (out, b) = stream_step op b; (outs, b) = stream_run ops b in (out @ outs, b))"

fun pushed :: "stream_op list \<Rightarrow> i16 list" where
  "pushed [] = []"
| "pushed (PushOp now samples # ops) = samples @ pushed ops"
| "pushed (PullOp n # ops) = pushed ops"
| "pushed (ConfigOp config # ops) = pushed ops"

text \<open>No push finds the buffer full.\<close>

fun never_full :: "stream_op list \<Rightarrow> audio_buffer \<Rightarrow> bool" where
  "never_full [] b = True"
| "never_full (op # ops) b =
    ((case op of PushOp now samples \<Rightarrow> length (ab_chunks b) < MAX_AUDIO_CHUNKS \<or> samples = []
      | _ \<Rightarrow> True) \<and> never_full ops (snd (stream_step op b)))"

lemma stream_step_inv: "audio_buffer_inv b \<Longrightarrow> audio_buffer_inv (snd (stream_step op b))"
  by (cases op) (simp_all add: push_samples_inv pull_samples_inv)

lemma stream_run_correct:
  "audio_buffer_inv b \<Longrightarrow> stream_run ops b = (out, b') \<Longrightarrow>
    audio_buffer_inv b' \<and> subseq (out @ buffered b') (buffered b @ pushed ops) \<and>
    (never_full ops b \<longrightarrow> out @ buffered b' = buffered b @ pushed ops)"
proof (induction ops arbitrary: b out)
  case (Cons op ops)
  obtain o1 b1 where s: "stream_step op b = (o1, b1)" by fastforce
  obtain os where r: "stream_run ops b1 = (os, b')" "out = o1 @ os"
    using Cons.prems(2) s by (auto split: prod.splits)
  have inv: "audio_buffer_inv b1" using stream_step_inv [OF Cons.prems(1), of op] s by simp
  note IH = Cons.IH [OF inv r(1)]
  have step: "subseq (o1 @ buffered b1 @ pushed ops) (buffered b @ pushed (op # ops)) \<and>
    (never_full (op # ops) b \<longrightarrow> o1 @ buffered b1 @ pushed ops = buffered b @ pushed (op # ops))"
  proof (cases op)
    case (PushOp now xs)
    with s have o: "o1 = []" "b1 = push_samples now xs b" by simp_all
    have "subseq (buffered b1 @ pushed ops) ((buffered b @ xs) @ pushed ops)"
      unfolding o subseq_append by (rule push_samples_subseq)
    moreover have "buffered b1 @ pushed ops = (buffered b @ xs) @ pushed ops"
      if "never_full (op # ops) b"
      using that push_samples_room [of b xs now] by (simp add: PushOp o)
    ultimately show ?thesis by (simp add: PushOp o(1))
  next
    case (PullOp n)
    then show ?thesis using s pull_samples_refines [of n b] by (simp flip: append.assoc)
  qed (use s in auto)
  have "subseq (out @ buffered b') (o1 @ buffered b1 @ pushed ops)"
    using IH r(2) by (simp add: subseq_append')
  then show ?case using step IH r(2) s by (auto intro: subseq_order.trans)
qed auto


text \<open>
  C32: the audio stream is a queue.  After any sequence of pushes, pulls and configuration changes,
  the samples pulled so far followed by the buffered ones are a subsequence of the samples
  pushed, and exactly these when no push found the buffer full; at most 100 chunks are held.
  Filling a device buffer from there yields exactly the next samples in order and then silence,
  consumes no more than it uses, and reports exactly the missing ones; the unsigned format keeps
  the order of the samples.
\<close>

theorem audio_stream_in_order:
  assumes "stream_run ops audio_buffer_new = (out, b)"
  shows "audio_buffer_inv b \<and> subseq (out @ buffered b) (pushed ops) \<and>
    (never_full ops audio_buffer_new \<longrightarrow> out @ buffered b = pushed ops) \<and>
    (case fill_from_shared_buffer conv n log_underrun (Some b) of
       (data, source, underrun) \<Rightarrow>
         data = map (conv \<circ> Some) (take n (buffered b)) @
           replicate (n - sample_count b) (conv None) \<and>
         map_option buffered source = Some (drop n (buffered b)) \<and>
         underrun = (if log_underrun \<and> sample_count b < n then Some (n - sample_count b) else None)) \<and>
    uint (conv_u16 (Some s)) = sint s + 32768"
proof -
  have "case fill_from_shared_buffer conv n log_underrun (Some b) of
       (data, source, underrun) \<Rightarrow>
         data = map (conv \<circ> Some) (take n (buffered b)) @
           replicate (n - sample_count b) (conv None) \<and>
         map_option buffered source = Some (drop n (buffered b)) \<and>
         underrun = (if log_underrun \<and> sample_count b < n then Some (n - sample_count b) else None)"
    by (simp add: fill_refines pull_samples_refines)
  then show ?thesis
    using stream_run_correct [OF audio_buffer_new_inv(1) assms] conv_u16_order by simp
qed

lemma audio_stream_in_order_witness:
  "[1, 2] @ [3, 4] = pushed [PushOp 0 [1, 2, 3], PullOp 2, PushOp 1 [], PushOp 2 [4]] \<and>
   (case fill_from_shared_buffer conv_i16 3 True
       (Some (snd (stream_run [PushOp 0 [1, 2, 3], PullOp 2, PushOp 1 [], PushOp 2 [4]]
         audio_buffer_new))) of
     (data, source, underrun) \<Rightarrow> data = [3, 4, 0] \<and> underrun = Some 1)"
proof -
  define b where "b = snd (stream_run [PushOp 0 [1, 2, 3], PullOp 2, PushOp 1 [], PushOp 2 [4]]
    audio_buffer_new)"
  have r: "stream_run [PushOp 0 [1, 2, 3], PullOp 2, PushOp 1 [], PushOp 2 [4]] audio_buffer_new =
      ([1, 2], b)"
    by (simp add: b_def pull_samples_def push_samples_def audio_buffer_new_def MAX_AUDIO_CHUNKS_def)
  have b: "buffered b = [3, 4]"
    by (simp add: b_def pull_samples_def push_samples_def audio_buffer_new_def MAX_AUDIO_CHUNKS_def
        buffered_def)
  show ?thesis
    unfolding b_def [symmetric]
    using audio_stream_in_order [OF r, where conv = conv_i16 and n = 3 and log_underrun = True
        and s = 0]
    by (simp add: b sample_count_buffered conv_i16_def split: prod.splits)
qed

end
