(* ===== verification/View_Viewer.thy ===== *)
theory View_Viewer
  imports View_Window View_Buffers Host_Shell
begin

text \<open>
  The viewer of \<open>sim-view\<close> (\<open>viewer.rs\<close>): it polls a runtime whose video and audio devices call
  back into the shared buffers, and drives a video, an audio and an event backend
  (\<open>backend_traits.rs\<close>).  The backends share one state, because those of the window do.  The
  callbacks made during a call of the runtime are what \<open>take_signals\<close> collects after it; they
  run against the buffers before the result of the call is looked at.  The field
  \<open>sv_delivered\<close> is the history of all callbacks and is not in the code.  Clock readings are
  nanoseconds, counters wrap as in a release build, and \<open>fmt_ms\<close> prints an average of
  milliseconds.
\<close>

section \<open>Events, backends and state\<close>

datatype test_command = TestLoadElf string | TestTerminate

datatype viewer_event =
    KeyPressed view_key key_modifiers
  | CloseEvent
  | TestCommand test_command

record 'b viewer_backends =
  vo_update :: "video_buffer \<Rightarrow> 'b \<Rightarrow> ((string, unit) result \<times> 'b \<times> video_buffer) option"
  vo_set_title :: "string \<Rightarrow> 'b \<Rightarrow> 'b"
  vo_is_active :: "'b \<Rightarrow> bool"
  ao_set_config :: "audio_config \<Rightarrow> audio_buffer \<Rightarrow> 'b \<Rightarrow> 'b \<times> audio_buffer"
  eo_get_events :: "'b \<Rightarrow> viewer_event list \<times> 'b"

datatype view_signal =
    FrameSignal nat "u8 list" video_config
  | SamplesSignal nat "i16 list"
  | ConfigSignal audio_config

datatype viewer_state = ViewerIdle | ViewerRunning | ViewerHalted

record frame_timing =
  ft_frames_presented :: u64
  ft_total_frame_time_ns :: u64
  ft_last_frame_time :: "nat option"

record perf_metrics =
  pm_last_log_time :: nat
  pm_frames_since_last_log :: u64
  pm_total_frame_time_ns_since_last_log :: u64
  pm_last_frames :: u64
  pm_last_frame_time_ns :: u64
  pm_current_perf_string :: string

record ('r, 'b) sim_viewer =
  sv_runtime :: 'r
  sv_backends :: 'b
  sv_video_buffer :: video_buffer
  sv_audio_buffer :: audio_buffer
  sv_audio_config_rx :: "audio_config list"
  sv_state :: viewer_state
  sv_last_elf_path :: "string option"
  sv_frame_count :: u64
  sv_exit_requested :: bool
  sv_frame_presented_this_step :: bool
  sv_frame_timing :: frame_timing
  sv_perf_metrics :: perf_metrics
  sv_delivered :: "view_signal list"

definition frame_timing_default :: frame_timing where
  "frame_timing_default =
    \<lparr>ft_frames_presented = 0, ft_total_frame_time_ns = 0, ft_last_frame_time = None\<rparr>"

section \<open>Callbacks of the devices\<close>

definition count_frame :: "nat \<Rightarrow> frame_timing \<Rightarrow> frame_timing" where
  "count_frame now m =
    (let total = (case ft_last_frame_time m of
           Some last_time \<Rightarrow>
             ft_total_frame_time_ns m + of_nat (min (now - last_time) 18446744073709551615)
         | None \<Rightarrow> ft_total_frame_time_ns m)
     in m\<lparr>ft_total_frame_time_ns := total, ft_last_frame_time := Some now,
          ft_frames_presented := ft_frames_presented m + 1\<rparr>)"

fun deliver :: "view_signal \<Rightarrow> ('r, 'b) sim_viewer \<Rightarrow> ('r, 'b) sim_viewer" where
  "deliver (FrameSignal now data config) v =
     v\<lparr>sv_video_buffer := push_frame now data config (sv_video_buffer v),
       sv_frame_presented_this_step := True,
       sv_frame_timing := count_frame now (sv_frame_timing v)\<rparr>"
| "deliver (SamplesSignal now samples) v =
     v\<lparr>sv_audio_buffer := push_samples now samples (sv_audio_buffer v)\<rparr>"
| "deliver (ConfigSignal config) v =
     v\<lparr>sv_audio_buffer := buffer_set_config config (sv_audio_buffer v),
       sv_audio_config_rx := sv_audio_config_rx v @ [config]\<rparr>"

definition deliver_all :: "view_signal list \<Rightarrow> ('r, 'b) sim_viewer \<Rightarrow> ('r, 'b) sim_viewer" where
  "deliver_all sigs v = (fold deliver sigs v)\<lparr>sv_delivered := sv_delivered v @ sigs\<rparr>"

text \<open>A call of the runtime together with the callbacks it makes.\<close>

definition with_runtime ::
  "('r \<Rightarrow> view_signal list \<times> 'r) \<Rightarrow> ('r \<Rightarrow> ('x \<times> 'r) option) \<Rightarrow>
   ('r, 'b) sim_viewer \<Rightarrow> ('x \<times> ('r, 'b) sim_viewer) option" where
  "with_runtime take_signals call v =
    (case call (sv_runtime v) of
       None \<Rightarrow> None
     | Some (res, r) \<Rightarrow>
       (case take_signals r of (sigs, r) \<Rightarrow> Some (res, deliver_all sigs (v\<lparr>sv_runtime := r\<rparr>))))"

section \<open>Operations\<close>

definition base_title :: "string option \<Rightarrow> viewer_state \<Rightarrow> string" where
  "base_title path state =
    (case (path, state) of
       (Some path, ViewerRunning) \<Rightarrow> ''sim-view - '' @ path @ '' [RUNNING]''
     | (Some path, ViewerHalted) \<Rightarrow> ''sim-view - '' @ path @ '' [HALTED]''
     | (Some path, ViewerIdle) \<Rightarrow> ''sim-view - '' @ path @ '' [IDLE]''
     | (None, _) \<Rightarrow> ''sim-view - No program loaded'')"

definition update_window_title ::
  "'b viewer_backends \<Rightarrow> ('r, 'b) sim_viewer \<Rightarrow> ('r, 'b) sim_viewer" where
  "update_window_title bo v =
    (let base = base_title (sv_last_elf_path v) (sv_state v);
         perf = pm_current_perf_string (sv_perf_metrics v);
         title = (if perf \<noteq> [] then base @ '' - '' @ perf else base)
     in v\<lparr>sv_backends := vo_set_title bo title (sv_backends v)\<rparr>)"

definition sim_viewer_new ::
  "'b viewer_backends \<Rightarrow> nat \<Rightarrow> (string, 'r) result \<Rightarrow> 'b \<Rightarrow> (string, ('r, 'b) sim_viewer) result" where
  "sim_viewer_new bo now runtime b =
    (case runtime of
       Inl e \<Rightarrow> Err (''Failed to create device runtime: '' @ e)
     | Inr r \<Rightarrow> Ok (update_window_title bo
         \<lparr>sv_runtime = r, sv_backends = b, sv_video_buffer = video_buffer_new,
          sv_audio_buffer = audio_buffer_new, sv_audio_config_rx = [], sv_state = ViewerIdle,
          sv_last_elf_path = None, sv_frame_count = 0, sv_exit_requested = False,
          sv_frame_presented_this_step = False, sv_frame_timing = frame_timing_default,
          sv_perf_metrics = \<lparr>pm_last_log_time = now, pm_frames_since_last_log = 0,
            pm_total_frame_time_ns_since_last_log = 0, pm_last_frames = 0,
            pm_last_frame_time_ns = 0, pm_current_perf_string = []\<rparr>,
          sv_delivered = []\<rparr>))"

type_synonym ('r, 'b, 'x) view_step =
  "('r, 'b) sim_viewer \<Rightarrow> ((string, 'x) result \<times> ('r, 'b) sim_viewer) option"

text \<open>Sequencing with the early return of an error.\<close>

definition and_then :: "('r, 'b, 'x) view_step \<Rightarrow> ('x \<Rightarrow> ('r, 'b, 'y) view_step) \<Rightarrow> ('r, 'b, 'y) view_step" where
  "and_then f g v =
    (case f v of
       None \<Rightarrow> None
     | Some (Inl e, v) \<Rightarrow> Some (Err e, v)
     | Some (Inr x, v) \<Rightarrow> g x v)"

text \<open>A runtime call whose error is reported with a message.\<close>

definition runtime_call ::
  "('r \<Rightarrow> view_signal list \<times> 'r) \<Rightarrow> ('r \<Rightarrow> ((device_error, 'x) result \<times> 'r) option) \<Rightarrow> string \<Rightarrow>
   ('r, 'b, 'x) view_step" where
  "runtime_call take_signals call msg v =
    map_option (\<lambda>(res, v). (case res of Inl e \<Rightarrow> Err (msg @ device_error_message e) | Inr x \<Rightarrow> Ok x, v))
      (with_runtime take_signals call v)"

definition viewer_load_elf ::
  "'r backend \<Rightarrow> ('r \<Rightarrow> view_signal list \<times> 'r) \<Rightarrow> 'b viewer_backends \<Rightarrow> host_env \<Rightarrow> string \<Rightarrow>
   ('r, 'b, unit) view_step" where
  "viewer_load_elf be take_signals bo env path =
    and_then (runtime_call take_signals (be_reset be ResetCpu)
        ''Failed to reset runtime before ELF load: '') (\<lambda>_.
    and_then (runtime_call take_signals (load_elf (be_ops be) (env_read env path) (env_parse_elf env))
        ''Failed to load ELF: '') (\<lambda>entry.
    and_then (runtime_call take_signals (boot_cpu (be_ops be) entry)
        (''Failed to boot CPU at entry point 0x'' @ fmt_08x entry @ '': '')) (\<lambda>_ v.
      Some (Ok (), update_window_title bo
        (v\<lparr>sv_frame_timing := frame_timing_default, sv_state := ViewerRunning,
           sv_last_elf_path := Some path\<rparr>)))))"

definition reload_last_elf ::
  "'r backend \<Rightarrow> ('r \<Rightarrow> view_signal list \<times> 'r) \<Rightarrow> 'b viewer_backends \<Rightarrow> host_env \<Rightarrow>
   ('r, 'b, unit) view_step" where
  "reload_last_elf be take_signals bo env v =
    (case sv_last_elf_path v of
       Some path \<Rightarrow> viewer_load_elf be take_signals bo env path v
     | None \<Rightarrow> Some (Ok (), v))"

definition handle_key_press ::
  "'r backend \<Rightarrow> ('r \<Rightarrow> view_signal list \<times> 'r) \<Rightarrow> 'b viewer_backends \<Rightarrow> host_env \<Rightarrow>
   view_key \<Rightarrow> key_modifiers \<Rightarrow> ('r, 'b, unit) view_step" where
  "handle_key_press be take_signals bo env key modifiers v =
    (case key of
       KeyEscape \<Rightarrow> Some (Ok (), v\<lparr>sv_exit_requested := True\<rparr>)
     | KeyR \<Rightarrow> (if km_ctrl modifiers then reload_last_elf be take_signals bo env v
               else Some (Ok (), v)))"

definition handle_test_command ::
  "'r backend \<Rightarrow> ('r \<Rightarrow> view_signal list \<times> 'r) \<Rightarrow> 'b viewer_backends \<Rightarrow> host_env \<Rightarrow>
   test_command \<Rightarrow> ('r, 'b, unit) view_step" where
  "handle_test_command be take_signals bo env cmd v =
    (case cmd of
       TestLoadElf path \<Rightarrow> viewer_load_elf be take_signals bo env path v
     | TestTerminate \<Rightarrow> Some (Ok (), v\<lparr>sv_exit_requested := True\<rparr>))"

definition handle_viewer_event ::
  "'r backend \<Rightarrow> ('r \<Rightarrow> view_signal list \<times> 'r) \<Rightarrow> 'b viewer_backends \<Rightarrow> host_env \<Rightarrow>
   viewer_event \<Rightarrow> ('r, 'b, unit) view_step" where
  "handle_viewer_event be take_signals bo env event v =
    (case event of
       KeyPressed key modifiers \<Rightarrow> handle_key_press be take_signals bo env key modifiers v
     | CloseEvent \<Rightarrow> Some (Ok (), v\<lparr>sv_exit_requested := True\<rparr>)
     | TestCommand cmd \<Rightarrow> handle_test_command be take_signals bo env cmd v)"

primrec event_loop ::
  "'r backend \<Rightarrow> ('r \<Rightarrow> view_signal list \<times> 'r) \<Rightarrow> 'b viewer_backends \<Rightarrow> host_env \<Rightarrow>
   viewer_event list \<Rightarrow> ('r, 'b, unit) view_step" where
  "event_loop be take_signals bo env [] v = Some (Ok (), v)"
| "event_loop be take_signals bo env (e # es) v =
     and_then (handle_viewer_event be take_signals bo env e)
       (\<lambda>_. event_loop be take_signals bo env es) v"

definition handle_events ::
  "'r backend \<Rightarrow> ('r \<Rightarrow> view_signal list \<times> 'r) \<Rightarrow> 'b viewer_backends \<Rightarrow> host_env \<Rightarrow>
   ('r, 'b, unit) view_step" where
  "handle_events be take_signals bo env v =
    (let (events, b) = eo_get_events bo (sv_backends v)
     in event_loop be take_signals bo env events (v\<lparr>sv_backends := b\<rparr>))"

primrec apply_configs ::
  "'b viewer_backends \<Rightarrow> audio_config list \<Rightarrow> ('r, 'b) sim_viewer \<Rightarrow> ('r, 'b) sim_viewer" where
  "apply_configs bo [] v = v"
| "apply_configs bo (c # cs) v =
     (let (b, buf) = ao_set_config bo c (sv_audio_buffer v) (sv_backends v)
      in apply_configs bo cs (v\<lparr>sv_backends := b, sv_audio_buffer := buf\<rparr>))"

definition apply_pending_audio_config_updates ::
  "'b viewer_backends \<Rightarrow> ('r, 'b) sim_viewer \<Rightarrow> ('r, 'b) sim_viewer" where
  "apply_pending_audio_config_updates bo v =
    apply_configs bo (sv_audio_config_rx v) (v\<lparr>sv_audio_config_rx := []\<rparr>)"

definition update_performance_metrics ::
  "'b viewer_backends \<Rightarrow> (u64 \<Rightarrow> u64 \<Rightarrow> string) \<Rightarrow> nat \<Rightarrow> ('r, 'b) sim_viewer \<Rightarrow> ('r, 'b) sim_viewer" where
  "update_performance_metrics bo fmt_ms now v =
    (let frames_presented = ft_frames_presented (sv_frame_timing v);
         total_frame_time_ns = ft_total_frame_time_ns (sv_frame_timing v);
         m = sv_perf_metrics v;
         frames_delta = saturating_sub frames_presented (pm_last_frames m);
         frame_time_ns_delta = saturating_sub total_frame_time_ns (pm_last_frame_time_ns m);
         m = m\<lparr>pm_frames_since_last_log := pm_frames_since_last_log m + frames_delta,
               pm_total_frame_time_ns_since_last_log :=
                 pm_total_frame_time_ns_since_last_log m + frame_time_ns_delta,
               pm_last_frames := frames_presented, pm_last_frame_time_ns := total_frame_time_ns\<rparr>;
         elapsed = now - pm_last_log_time m
     in if 1000000000 \<le> elapsed then
          (let perf_string = (if 0 < pm_frames_since_last_log m
                 then fmt_ms (pm_total_frame_time_ns_since_last_log m) (pm_frames_since_last_log m) @
                   '' ms/frame''
                 else ''No frames'');
               v = update_window_title bo
                 (v\<lparr>sv_perf_metrics := m\<lparr>pm_current_perf_string := perf_string\<rparr>\<rparr>);
               m = sv_perf_metrics v
           in v\<lparr>sv_perf_metrics := m\<lparr>pm_last_log_time := pm_last_log_time m + 1000000000,
                  pm_frames_since_last_log := 0, pm_total_frame_time_ns_since_last_log := 0\<rparr>\<rparr>)
        else v\<lparr>sv_perf_metrics := m\<rparr>)"

definition on_runtime_event ::
  "'b viewer_backends \<Rightarrow> bus_event \<Rightarrow> ('r, 'b) sim_viewer \<Rightarrow> ('r, 'b) sim_viewer" where
  "on_runtime_event bo event v =
    (case event of
       TohostTermination value \<Rightarrow> update_window_title bo (v\<lparr>sv_state := ViewerHalted\<rparr>)
     | _ \<Rightarrow> v)"

text \<open>The loop ends with the first poll without an event; it may not end.\<close>

partial_function (option) poll_runtime_events ::
  "'r backend \<Rightarrow> ('r \<Rightarrow> view_signal list \<times> 'r) \<Rightarrow> 'b viewer_backends \<Rightarrow>
   ('r, 'b) sim_viewer \<Rightarrow> ((string, unit) result \<times> ('r, 'b) sim_viewer) option" where
  "poll_runtime_events be take_signals bo v =
    (case runtime_call take_signals (dr_poll (be_ops be)) ''Runtime poll failed: '' v of
       None \<Rightarrow> None
     | Some (Inl e, v) \<Rightarrow> Some (Err e, v)
     | Some (Inr None, v) \<Rightarrow> Some (Ok (), v)
     | Some (Inr (Some event), v) \<Rightarrow>
         poll_runtime_events be take_signals bo (on_runtime_event bo event v))"

definition video_update :: "'b viewer_backends \<Rightarrow> ('r, 'b, unit) view_step" where
  "video_update bo v =
    (case vo_update bo (sv_video_buffer v) (sv_backends v) of
       None \<Rightarrow> None
     | Some (res, b, buf) \<Rightarrow> Some (res, v\<lparr>sv_backends := b, sv_video_buffer := buf\<rparr>))"

text \<open>One iteration: \<open>Ok True\<close> asks for another one.\<close>

definition viewer_step ::
  "'r backend \<Rightarrow> ('r \<Rightarrow> view_signal list \<times> 'r) \<Rightarrow> 'b viewer_backends \<Rightarrow> host_env \<Rightarrow>
   (u64 \<Rightarrow> u64 \<Rightarrow> string) \<Rightarrow> nat \<Rightarrow> ('r, 'b, bool) view_step" where
  "viewer_step be take_signals bo env fmt_ms now =
    and_then (handle_events be take_signals bo env) (\<lambda>_ v.
      if sv_exit_requested v then Some (Ok False, v)
      else if \<not> vo_is_active bo (sv_backends v) then Some (Ok False, v)
      else
        and_then (poll_runtime_events be take_signals bo) (\<lambda>_.
        and_then (video_update bo) (\<lambda>_ v.
          let v = (if sv_frame_presented_this_step v
                   then v\<lparr>sv_frame_count := sv_frame_count v + 1\<rparr> else v);
              v = update_performance_metrics bo fmt_ms now v
          in Some (Ok (sv_state v \<noteq> ViewerHalted), v)))
        ((apply_pending_audio_config_updates bo v)\<lparr>sv_frame_presented_this_step := False\<rparr>))"

text \<open>The part of an iteration before the update of the video backend, and the bookkeeping after it.\<close>

definition polled ::
  "'r backend \<Rightarrow> ('r \<Rightarrow> view_signal list \<times> 'r) \<Rightarrow> 'b viewer_backends \<Rightarrow> host_env \<Rightarrow>
   ('r, 'b, bool) view_step" where
  "polled be take_signals bo env =
    and_then (handle_events be take_signals bo env) (\<lambda>_ v.
      if sv_exit_requested v \<or> \<not> vo_is_active bo (sv_backends v) then Some (Ok False, v)
      else and_then (poll_runtime_events be take_signals bo) (\<lambda>_ v. Some (Ok True, v))
        ((apply_pending_audio_config_updates bo v)\<lparr>sv_frame_presented_this_step := False\<rparr>))"

definition bookkeeping ::
  "'b viewer_backends \<Rightarrow> (u64 \<Rightarrow> u64 \<Rightarrow> string) \<Rightarrow> nat \<Rightarrow> ('r, 'b) sim_viewer \<Rightarrow> ('r, 'b) sim_viewer" where
  "bookkeeping bo fmt_ms now v = update_performance_metrics bo fmt_ms now
    (if sv_frame_presented_this_step v then v\<lparr>sv_frame_count := sv_frame_count v + 1\<rparr> else v)"

lemma viewer_step_split:
  "viewer_step be take_signals bo env fmt_ms now v =
    and_then (polled be take_signals bo env) (\<lambda>go.
      if go then and_then (video_update bo) (\<lambda>_ v.
        Some (Ok (sv_state (bookkeeping bo fmt_ms now v) \<noteq> ViewerHalted), bookkeeping bo fmt_ms now v))
      else (\<lambda>v. Some (Ok False, v))) v"
proof (cases "handle_events be take_signals bo env v")
  case (Some p)
  obtain r u where p: "p = (r, u)" by fastforce
  let ?u = "(apply_pending_audio_config_updates bo u)\<lparr>sv_frame_presented_this_step := False\<rparr>"
  show ?thesis
  proof (cases r)
    case (Inr x)
    show ?thesis
    proof (cases "sv_exit_requested u \<or> \<not> vo_is_active bo (sv_backends u)")
      case True
      then show ?thesis
        using Some p Inr by (auto simp: viewer_step_def polled_def and_then_def)
    next
      case False
      then show ?thesis
        using Some p Inr
        by (cases "poll_runtime_events be take_signals bo ?u")
          (auto simp: viewer_step_def polled_def and_then_def bookkeeping_def Let_def
            split: sum.splits)
    qed
  qed (use Some p in \<open>simp add: viewer_step_def polled_def and_then_def\<close>)
qed (simp add: viewer_step_def polled_def and_then_def)

text \<open>
  The main loop; \<open>inputs n\<close> are what the surroundings provide in the \<open>n\<close>-th iteration: the
  backends' calls, the files and the clock.
\<close>

partial_function (option) viewer_loop ::
  "'r backend \<Rightarrow> ('r \<Rightarrow> view_signal list \<times> 'r) \<Rightarrow> (nat \<Rightarrow> 'b viewer_backends \<times> host_env \<times> nat) \<Rightarrow>
   (u64 \<Rightarrow> u64 \<Rightarrow> string) \<Rightarrow> nat \<Rightarrow> ('r, 'b) sim_viewer \<Rightarrow>
   ((string, unit) result \<times> ('r, 'b) sim_viewer) option" where
  "viewer_loop be take_signals inputs fmt_ms n v =
    (case inputs n of (bo, env, now) \<Rightarrow>
      (case viewer_step be take_signals bo env fmt_ms now v of
         None \<Rightarrow> None
       | Some (Inl e, v) \<Rightarrow> Some (Err e, v)
       | Some (Inr continue, v) \<Rightarrow>
           if continue then viewer_loop be take_signals inputs fmt_ms (Suc n) v else Some (Ok (), v)))"

definition viewer_run ::
  "'r backend \<Rightarrow> ('r \<Rightarrow> view_signal list \<times> 'r) \<Rightarrow> (nat \<Rightarrow> 'b viewer_backends \<times> host_env \<times> nat) \<Rightarrow>
   (u64 \<Rightarrow> u64 \<Rightarrow> string) \<Rightarrow> ('r, 'b) sim_viewer \<Rightarrow>
   ((string, unit) result \<times> ('r, 'b) sim_viewer) option" where
  "viewer_run be take_signals inputs fmt_ms v =
    (let v = (if sv_state v = ViewerIdle then update_window_title (fst (inputs 0)) v else v)
     in viewer_loop be take_signals inputs fmt_ms 0 v)"


text \<open>The run after an optional load, for any backends.\<close>

definition load_and_run ::
  "'r backend \<Rightarrow> ('r \<Rightarrow> view_signal list \<times> 'r) \<Rightarrow> (nat \<Rightarrow> 'b viewer_backends \<times> host_env \<times> nat) \<Rightarrow>
   (u64 \<Rightarrow> u64 \<Rightarrow> string) \<Rightarrow> string option \<Rightarrow> ('r, 'b, unit) view_step" where
  "load_and_run be take_signals inputs fmt_ms elf =
    and_then (case elf of
        Some path \<Rightarrow> viewer_load_elf be take_signals (fst (inputs 0)) (fst (snd (inputs 0))) path
      | None \<Rightarrow> (\<lambda>v. Some (Ok (), v)))
      (\<lambda>_. viewer_run be take_signals inputs fmt_ms)"

section \<open>Delivering callbacks one by one\<close>

lemma deliver_history:
  "sv_delivered (deliver s v) = sv_delivered v"
  "deliver s (v\<lparr>sv_delivered := d\<rparr>) = (deliver s v)\<lparr>sv_delivered := d\<rparr>"
  by (cases s; simp)+

lemma fold_deliver_history:
  "fold deliver sigs (v\<lparr>sv_delivered := d\<rparr>) = (fold deliver sigs v)\<lparr>sv_delivered := d\<rparr>"
  by (induction sigs arbitrary: v) (simp_all add: deliver_history(2))

lemma deliver_all_simps:
  "deliver_all [] v = v"
  "deliver_all (s # sigs) v = deliver_all sigs (deliver_all [s] v)"
  by (simp_all add: deliver_all_def deliver_history(1) fold_deliver_history)

end
