(* ===== verification/View_Headless.thy ===== *)
theory View_Headless
  imports View_Viewer
begin

text \<open>
  The viewer as a whole.  The locale \<open>viewer_calls\<close> is the contract under which a predicate on
  the history of callbacks, the shared buffers and the backends survives everything the viewer
  does before it updates the video backend; \<open>viewer_invariant\<close> adds that update, and with it
  the whole main loop.  The headless backends (\<open>headless_backends.rs\<close>) interpret both: once for
  what a run captures altogether and once for what a single iteration adds.
\<close>

section \<open>Predicates the viewer preserves\<close>

locale viewer_calls =
  fixes Q :: "view_signal list \<Rightarrow> video_buffer \<Rightarrow> audio_buffer \<Rightarrow> 'b \<Rightarrow> bool"
    and ok :: "'b viewer_backends \<Rightarrow> bool"
  assumes Q_frame: "Q ds vb ab b \<Longrightarrow> Q (ds @ [FrameSignal now data cfg]) (push_frame now data cfg vb) ab b"
    and Q_samples: "Q ds vb ab b \<Longrightarrow> Q (ds @ [SamplesSignal now xs]) vb (push_samples now xs ab) b"
    and Q_config: "Q ds vb ab b \<Longrightarrow> Q (ds @ [ConfigSignal c]) vb (buffer_set_config c ab) b"
    and Q_title: "ok bo \<Longrightarrow> Q ds vb ab b \<Longrightarrow> Q ds vb ab (vo_set_title bo t b)"
    and Q_events: "ok bo \<Longrightarrow> Q ds vb ab b \<Longrightarrow> eo_get_events bo b = (es, b') \<Longrightarrow> Q ds vb ab b'"
    and Q_set_config: "ok bo \<Longrightarrow> Q ds vb ab b \<Longrightarrow> ao_set_config bo c ab b = (b', ab') \<Longrightarrow> Q ds vb ab' b'"
begin

definition holds :: "('r, 'b) sim_viewer \<Rightarrow> bool" where
  "holds v = Q (sv_delivered v) (sv_video_buffer v) (sv_audio_buffer v) (sv_backends v)"

definition keeps :: "('r, 'b, 'x) view_step \<Rightarrow> bool" where
  "keeps f = (\<forall>v r v'. holds v \<longrightarrow> f v = Some (r, v') \<longrightarrow> holds v')"

lemma keepsD: "keeps f \<Longrightarrow> f v = Some (r, v') \<Longrightarrow> holds v \<Longrightarrow> holds v'"
  by (auto simp: keeps_def)

lemma keepsI: "(\<And>v r v'. holds v \<Longrightarrow> f v = Some (r, v') \<Longrightarrow> holds v') \<Longrightarrow> keeps f"
  by (auto simp: keeps_def)

lemma holds_fields [simp]:
  "holds (v\<lparr>sv_runtime := r\<rparr>) = holds v" "holds (v\<lparr>sv_audio_config_rx := cs\<rparr>) = holds v"
  "holds (v\<lparr>sv_state := s\<rparr>) = holds v" "holds (v\<lparr>sv_last_elf_path := p\<rparr>) = holds v"
  "holds (v\<lparr>sv_frame_count := n\<rparr>) = holds v" "holds (v\<lparr>sv_exit_requested := e\<rparr>) = holds v"
  "holds (v\<lparr>sv_frame_presented_this_step := f\<rparr>) = holds v"
  "holds (v\<lparr>sv_frame_timing := t\<rparr>) = holds v" "holds (v\<lparr>sv_perf_metrics := m\<rparr>) = holds v"
  by (simp_all add: holds_def)

lemma deliver_all_holds: "holds v \<Longrightarrow> holds (deliver_all sigs v)"
proof (induction sigs arbitrary: v)
  case (Cons s sigs)
  have "holds (deliver_all [s] v)"
    using Cons.prems Q_frame Q_samples Q_config
    by (cases s) (simp_all add: deliver_all_def holds_def)
  then show ?case using Cons.IH deliver_all_simps(2) [of s sigs v] by simp
qed (simp add: deliver_all_simps)

lemma keeps_and_then: "keeps f \<Longrightarrow> (\<And>x. keeps (g x)) \<Longrightarrow> keeps (and_then f g)"
  by (rule keepsI) (auto simp: and_then_def split: option.splits prod.splits sum.splits dest: keepsD)

lemma keeps_runtime_call: "keeps (runtime_call take_signals call msg)"
  by (rule keepsI)
    (auto simp: runtime_call_def with_runtime_def deliver_all_holds split: option.splits prod.splits)

lemma title_holds: "ok bo \<Longrightarrow> holds v \<Longrightarrow> holds (update_window_title bo v)"
  using Q_title by (simp add: update_window_title_def holds_def Let_def)

lemma keeps_load_elf: "ok bo \<Longrightarrow> keeps (viewer_load_elf be take_signals bo env path)"
  unfolding viewer_load_elf_def
  by (intro keeps_and_then keeps_runtime_call; rule keepsI) (auto intro: title_holds)

lemma keeps_viewer_event: "ok bo \<Longrightarrow> keeps (handle_viewer_event be take_signals bo env e)"
  using keeps_load_elf [of bo be take_signals env]
  by (intro keepsI)
    (auto simp: handle_viewer_event_def handle_key_press_def handle_test_command_def
      reload_last_elf_def split: viewer_event.splits view_key.splits test_command.splits if_splits
      option.splits dest: keepsD)

lemma keeps_event_loop: "ok bo \<Longrightarrow> keeps (event_loop be take_signals bo env es)"
proof (induction es)
  case Nil
  show ?case by (rule keepsI) simp
next
  case (Cons e es)
  have "event_loop be take_signals bo env (e # es) =
      and_then (handle_viewer_event be take_signals bo env e)
        (\<lambda>_. event_loop be take_signals bo env es)" by (simp add: fun_eq_iff)
  then show ?case
    using keeps_and_then [OF keeps_viewer_event [OF Cons.prems] Cons.IH [OF Cons.prems]] by simp
qed

lemma keeps_handle_events:
  "ok bo \<Longrightarrow> keeps (handle_events be take_signals bo env)" for be :: "'r backend"
proof (rule keepsI)
  fix v v' :: "('r, 'b) sim_viewer" and r
  assume bo: "ok bo" and v: "holds v" and s: "handle_events be take_signals bo env v = Some (r, v')"
  obtain es b where e: "eo_get_events bo (sv_backends v) = (es, b)" by fastforce
  with v bo have "holds (v\<lparr>sv_backends := b\<rparr>)" using Q_events by (simp add: holds_def)
  with s e show "holds v'"
    using keepsD [OF keeps_event_loop [OF bo, of be take_signals env es]] by (simp add: handle_events_def)
qed

lemma apply_configs_holds: "ok bo \<Longrightarrow> holds v \<Longrightarrow> holds (apply_configs bo cs v)"
proof (induction cs arbitrary: v)
  case (Cons c cs)
  obtain b buf where c: "ao_set_config bo c (sv_audio_buffer v) (sv_backends v) = (b, buf)"
    by fastforce
  then have "holds (v\<lparr>sv_backends := b, sv_audio_buffer := buf\<rparr>)"
    using Q_set_config [OF Cons.prems(1) _ c] Cons.prems(2) by (simp add: holds_def)
  then show ?case using Cons.IH Cons.prems(1) c by simp
qed simp

lemma keeps_poll:
  "ok bo \<Longrightarrow> keeps (poll_runtime_events be take_signals bo)" for be :: "'r backend"
proof -
  have ev: "ok bo \<Longrightarrow> holds u \<Longrightarrow> holds (on_runtime_event bo event u)"
    for u :: "('r, 'b) sim_viewer" and event bo
    by (auto simp: on_runtime_event_def intro!: title_holds split: bus_event.splits)
  have "ok bo \<longrightarrow> holds v \<longrightarrow> holds (snd res)"
    if "poll_runtime_events be take_signals bo v = Some res" for v :: "('r, 'b) sim_viewer" and res
    using that
  proof (induction rule: poll_runtime_events.raw_induct [rotated, consumes 1, case_names step])
    case (step loop be take_signals bo u res)
    show ?case
    proof (intro impI)
      assume bo: "ok bo" and u: "holds u"
      from step(2) obtain x w where
        c: "runtime_call take_signals (dr_poll (be_ops be)) ''Runtime poll failed: '' u = Some (x, w)"
        by (cases "runtime_call take_signals (dr_poll (be_ops be)) ''Runtime poll failed: '' u") auto
      have w: "holds w" by (rule keepsD [OF keeps_runtime_call c u])
      show "holds (snd res)"
      proof (cases x)
        case (Inl e)
        with step(2) c w show ?thesis by auto
      next
        case (Inr event)
        show ?thesis
        proof (cases event)
          case None
          with Inr step(2) c w show ?thesis by auto
        next
          case (Some e)
          with Inr step(2) c have "loop be take_signals bo (on_runtime_event bo e w) = Some res" by simp
          from step(1) [OF this] show ?thesis using bo ev [OF bo w] by blast
        qed
      qed
    qed
  qed
  then show "ok bo \<Longrightarrow> ?thesis" by (intro keepsI) fastforce
qed

lemma keeps_polled: "ok bo \<Longrightarrow> keeps (polled be take_signals bo env)" for be :: "'r backend"
proof -
  assume bo: "ok bo"
  have "keeps (and_then (poll_runtime_events be take_signals bo) (\<lambda>_ v. Some (Ok True, v)))"
    by (rule keeps_and_then [OF keeps_poll [OF bo]]) (auto intro: keepsI)
  from keepsD [OF this] have "keeps (\<lambda>v. if sv_exit_requested v \<or> \<not> vo_is_active bo (sv_backends v)
      then Some (Ok False, v)
      else and_then (poll_runtime_events be take_signals bo) (\<lambda>_ v. Some (Ok True, v))
        ((apply_pending_audio_config_updates bo v)\<lparr>sv_frame_presented_this_step := False\<rparr>))"
    using apply_configs_holds [OF bo]
    by (intro keepsI) (fastforce simp: apply_pending_audio_config_updates_def split: if_splits)
  then show ?thesis
    unfolding polled_def by (rule keeps_and_then [OF keeps_handle_events [OF bo]])
qed

end


locale viewer_invariant = viewer_calls +
  assumes Q_update: "ok bo \<Longrightarrow> Q ds vb ab b \<Longrightarrow> vo_update bo vb b = Some (res, b', vb') \<Longrightarrow>
    Q ds vb' ab b'"
begin

lemma keeps_update: "ok bo \<Longrightarrow> keeps (video_update bo)"
proof (rule keepsI)
  fix v r v' assume "ok bo" "holds v" "video_update bo v = Some (r, v')"
  then show "holds v'"
    using Q_update [of bo "sv_delivered v" "sv_video_buffer v" "sv_audio_buffer v" "sv_backends v"]
    by (auto simp: video_update_def holds_def split: option.splits)
qed

lemma bookkeeping_holds: "ok bo \<Longrightarrow> holds v \<Longrightarrow> holds (bookkeeping bo fmt_ms now v)"
  by (simp add: bookkeeping_def update_performance_metrics_def Let_def title_holds)

lemma keeps_step: "ok bo \<Longrightarrow> keeps (viewer_step be take_signals bo env fmt_ms now)"
  for be :: "'r backend"
proof -
  assume bo: "ok bo"
  have k: "keeps (\<lambda>v. Some (Ok (sv_state (bookkeeping bo fmt_ms now v) \<noteq> ViewerHalted),
      bookkeeping bo fmt_ms now v))"
    by (rule keepsI) (auto intro: bookkeeping_holds [OF bo])
  have u: "keeps (and_then (video_update bo) (\<lambda>_ v.
      Some (Ok (sv_state (bookkeeping bo fmt_ms now v) \<noteq> ViewerHalted), bookkeeping bo fmt_ms now v)))"
    by (rule keeps_and_then [OF keeps_update [OF bo] k])
  have e: "viewer_step be take_signals bo env fmt_ms now =
      and_then (polled be take_signals bo env) (\<lambda>go.
        if go then and_then (video_update bo) (\<lambda>_ v.
          Some (Ok (sv_state (bookkeeping bo fmt_ms now v) \<noteq> ViewerHalted), bookkeeping bo fmt_ms now v))
        else (\<lambda>v. Some (Ok False, v)))"
    by (rule ext) (rule viewer_step_split)
  have d: "keeps (\<lambda>v. Some (Ok False, v))" by (rule keepsI) simp
  show ?thesis
    unfolding e by (rule keeps_and_then [OF keeps_polled [OF bo]]) (simp add: u d)
qed

lemma loop_holds:
  assumes "viewer_loop be take_signals inputs fmt_ms n v = Some res" "holds v"
    "\<And>n. ok (fst (inputs n))"
  shows "holds (snd res)"
proof -
  have "(\<forall>n. ok (fst (inputs n))) \<longrightarrow> holds v \<longrightarrow> holds (snd res)"
    using assms(1)
  proof (induction rule: viewer_loop.raw_induct [rotated, consumes 1, case_names step])
    case (step loop be take_signals inputs fmt_ms n v res)
    obtain bo env now where i: "inputs n = (bo, env, now)" by (metis prod_cases3)
    show ?case
    proof (intro impI)
      assume ok: "\<forall>n. ok (fst (inputs n))" and v: "holds v"
      then have bo: "ok bo" using i by (metis fst_conv)
      from step(2) obtain x w where
        c: "viewer_step be take_signals bo env fmt_ms now v = Some (x, w)"
        by (cases "viewer_step be take_signals bo env fmt_ms now v") (auto simp: i)
      have w: "holds w" by (rule keepsD [OF keeps_step [OF bo] c v])
      show "holds (snd res)"
      proof (cases x)
        case (Inr go)
        show ?thesis
        proof (cases go)
          case True
          with Inr step(2) c i have "loop be take_signals inputs fmt_ms (Suc n) w = Some res" by simp
          from step(1) [OF this] show ?thesis using ok w by blast
        qed (use Inr step(2) c i w in auto)
      qed (use step(2) c i w in auto)
    qed
  qed
  with assms(2,3) show ?thesis by blast
qed

lemma run_holds:
  assumes "viewer_run be take_signals inputs fmt_ms v = Some (r, v')" "holds v"
    "\<And>n. ok (fst (inputs n))"
  shows "holds v'"
  using loop_holds [of be take_signals inputs fmt_ms 0 _ "(r, v')"] assms title_holds [OF assms(3)]
  by (auto simp: viewer_run_def Let_def split: if_splits)

lemma load_and_run_holds:
  assumes "load_and_run be take_signals inputs fmt_ms elf v = Some (r, v')" "holds v"
    "\<And>n. ok (fst (inputs n))"
  shows "holds v'"
proof -
  have "keeps (case elf of
      Some path \<Rightarrow> viewer_load_elf be take_signals (fst (inputs 0)) (fst (snd (inputs 0))) path
    | None \<Rightarrow> (\<lambda>v. Some (Ok (), v)))"
    using keeps_load_elf [OF assms(3)] by (auto intro: keepsI split: option.split)
  moreover have "keeps (viewer_run be take_signals inputs fmt_ms)"
    by (rule keepsI) (rule run_holds [OF _ _ assms(3)])
  ultimately show ?thesis
    using keepsD [OF keeps_and_then assms(1) [unfolded load_and_run_def] assms(2)] by blast
qed

end


section \<open>The headless backends\<close>

record headless_backends =
  hb_video :: headless_video
  hb_audio :: headless_audio
  hb_event_queue :: "viewer_event list"

definition headless_backends_new :: headless_backends where
  "headless_backends_new =
    \<lparr>hb_video = headless_video_new, hb_audio = headless_audio_new, hb_event_queue = []\<rparr>"

text \<open>
  The three backends over their common state; the viewer has connected their sources.  Titles are
  ignored and the video backend is always active.
\<close>

definition headless_ops :: "headless_backends viewer_backends" where
  "headless_ops = \<lparr>
     vo_update = (\<lambda>buf b.
       case headless_video_update (Some buf) (hb_video b) of
         (v, Some buf') \<Rightarrow> Some (Ok (), b\<lparr>hb_video := v\<rparr>, buf')
       | (v, None) \<Rightarrow> Some (Ok (), b\<lparr>hb_video := v\<rparr>, buf)),
     vo_set_title = (\<lambda>title b. b),
     vo_is_active = (\<lambda>b. True),
     ao_set_config = (\<lambda>config buf b.
       case headless_audio_set_config config (Some buf) (hb_audio b) of
         (a, Some buf') \<Rightarrow> (b\<lparr>hb_audio := a\<rparr>, buf')
       | (a, None) \<Rightarrow> (b\<lparr>hb_audio := a\<rparr>, buf)),
     eo_get_events = (\<lambda>b. (hb_event_queue b, b\<lparr>hb_event_queue := []\<rparr>))\<rparr>"

type_synonym 'r headless_viewer = "('r, headless_backends) sim_viewer"

definition push_event :: "viewer_event \<Rightarrow> 'r headless_viewer \<Rightarrow> 'r headless_viewer" where
  "push_event e v = v\<lparr>sv_backends := (sv_backends v)
     \<lparr>hb_event_queue := hb_event_queue (sv_backends v) @ [e]\<rparr>\<rparr>"

definition update_audio_capture :: "(nat \<Rightarrow> nat) \<Rightarrow> 'r headless_viewer \<Rightarrow> 'r headless_viewer" where
  "update_audio_capture clock v =
    (case headless_audio_update clock (Some (sv_audio_buffer v)) (hb_audio (sv_backends v)) of
       (a, Some buf) \<Rightarrow> v\<lparr>sv_backends := (sv_backends v)\<lparr>hb_audio := a\<rparr>, sv_audio_buffer := buf\<rparr>
     | (a, None) \<Rightarrow> v\<lparr>sv_backends := (sv_backends v)\<lparr>hb_audio := a\<rparr>\<rparr>)"

definition get_video_frames :: "'r headless_viewer \<Rightarrow> captured_frame list" where
  "get_video_frames v = hv_captured_frames (hb_video (sv_backends v))"

definition get_audio_chunks :: "'r headless_viewer \<Rightarrow> captured_audio_chunk list" where
  "get_audio_chunks v = ha_captured_chunks (hb_audio (sv_backends v))"

definition get_audio_config :: "'r headless_viewer \<Rightarrow> audio_config option" where
  "get_audio_config v = ha_current_config (hb_audio (sv_backends v))"

lemma headless_ops_simps [simp]:
  "vo_update headless_ops vb b =
    Some (Ok (), b\<lparr>hb_video := fst (capture_frames vb (hb_video b))\<rparr>, vb\<lparr>vb_frames := []\<rparr>)"
  "vo_set_title headless_ops t b = b" "vo_is_active headless_ops b"
  "ao_set_config headless_ops c ab b =
    (b\<lparr>hb_audio := (hb_audio b)\<lparr>ha_current_config := Some c\<rparr>\<rparr>, buffer_set_config c ab)"
  "eo_get_events headless_ops b = (hb_event_queue b, b\<lparr>hb_event_queue := []\<rparr>)"
  by (simp_all add: headless_ops_def headless_video_update_def headless_audio_set_config_def
      capture_frames_eq)

section \<open>What is captured\<close>

text \<open>The frames and samples among the callbacks, and a frame without its number.\<close>

type_synonym frame_key = "nat \<times> u8 list \<times> video_config"

fun frames_of :: "view_signal list \<Rightarrow> frame_key list" where
  "frames_of [] = []"
| "frames_of (FrameSignal now data cfg # ds) = (now, data, cfg) # frames_of ds"
| "frames_of (_ # ds) = frames_of ds"

fun samples_among :: "view_signal list \<Rightarrow> i16 list" where
  "samples_among [] = []"
| "samples_among (SamplesSignal now xs # ds) = xs @ samples_among ds"
| "samples_among (_ # ds) = samples_among ds"

lemma frames_of_append [simp]: "frames_of (xs @ ys) = frames_of xs @ frames_of ys"
  by (induction xs rule: frames_of.induct) simp_all

lemma samples_among_append [simp]: "samples_among (xs @ ys) = samples_among xs @ samples_among ys"
  by (induction xs rule: samples_among.induct) simp_all

definition buffer_key :: "video_frame \<Rightarrow> frame_key" where
  "buffer_key f = (vf_timestamp f, vf_data f, vf_config f)"

definition capture_key :: "captured_frame \<Rightarrow> frame_key" where
  "capture_key f = (cf_timestamp f, cf_data f, cf_config f)"

lemma numbered_keys: "map capture_key (numbered k fs) = map buffer_key fs"
  by (induction fs arbitrary: k) (simp_all add: capture_key_def buffer_key_def)

lemma numbered_sequence: "map cf_sequence (numbered k fs) = map (\<lambda>i. k + of_nat i) [0..<length fs]"
  by (rule nth_equalityI) (simp_all add: numbered_def)

text \<open>What a run captures: the frames are numbered in order and none is made up.\<close>

definition captured_inv ::
  "view_signal list \<Rightarrow> video_buffer \<Rightarrow> audio_buffer \<Rightarrow> headless_backends \<Rightarrow> bool" where
  "captured_inv ds vb ab b =
    (let cap = hv_captured_frames (hb_video b) in
       length (vb_frames vb) \<le> MAX_VIDEO_FRAMES \<and>
       subseq (map capture_key cap @ map buffer_key (vb_frames vb)) (frames_of ds) \<and>
       map cf_sequence cap = map of_nat [0..<length cap] \<and>
       hv_frame_count (hb_video b) = of_nat (length cap) \<and>
       audio_buffer_inv ab \<and> headless_audio_inv (hb_audio b) \<and>
       subseq (captured_samples (hb_audio b) @ buffered ab) (samples_among ds))"

lemma push_frame_keys:
  "map buffer_key (vb_frames (push_frame now data cfg vb)) =
    (if MAX_VIDEO_FRAMES \<le> length (vb_frames vb) then tl (map buffer_key (vb_frames vb))
     else map buffer_key (vb_frames vb)) @ [(now, data, cfg)]"
  "length (vb_frames vb) \<le> MAX_VIDEO_FRAMES \<Longrightarrow>
    length (vb_frames (push_frame now data cfg vb)) \<le> MAX_VIDEO_FRAMES"
  by (cases "vb_frames vb"; simp add: push_frame_def buffer_key_def MAX_VIDEO_FRAMES_def)+

lemma subseq_prefix: "subseq (xs @ ys) zs \<Longrightarrow> subseq xs zs"
proof -
  have "subseq (xs @ []) (xs @ ys)" by (simp only: subseq_append') simp
  then show "subseq (xs @ ys) zs \<Longrightarrow> ?thesis" by (auto intro: subseq_order.trans)
qed

lemma subseq_tl: "subseq (tl xs) xs"
  by (cases xs) auto

lemma subseq_snoc_drop:
  assumes "subseq (xs @ ys) zs" "subseq ys' ys"
  shows "subseq (xs @ ys' @ [z]) (zs @ [z])"
proof -
  have "subseq (xs @ ys') (xs @ ys)" using assms(2) by (simp add: subseq_append')
  then have "subseq (xs @ ys') zs" using assms(1) by (rule subseq_order.trans)
  then have "subseq ((xs @ ys') @ [z]) (zs @ [z])" by (simp only: subseq_append)
  then show ?thesis by simp
qed

lemma subseq_push:
  assumes "subseq (xs @ ys) zs" "subseq ys' (ys @ ws)"
  shows "subseq (xs @ ys') (zs @ ws)"
proof -
  have "subseq (xs @ ys') ((xs @ ys) @ ws)" using assms(2) by (simp add: subseq_append')
  moreover have "subseq ((xs @ ys) @ ws) (zs @ ws)" using assms(1) by (simp only: subseq_append)
  ultimately show ?thesis by (rule subseq_order.trans)
qed

lemma map_of_nat_add:
  "map of_nat [0..<n] @ map (\<lambda>i. of_nat n + of_nat i) [0..<m] = (map of_nat [0..<n + m] :: u64 list)"
  by (induction m) (simp_all flip: append_assoc)

lemma capture_numbering:
  "map of_nat [0..<n] @ map cf_sequence (numbered (of_nat n) fs) = map of_nat [0..<n + length fs]"
  unfolding numbered_sequence by (rule map_of_nat_add)

interpretation capture: viewer_invariant captured_inv "\<lambda>bo. bo = headless_ops"
proof unfold_locales
  fix ds vb ab b and now :: nat and data cfg
  assume "captured_inv ds vb ab b"
  then show "captured_inv (ds @ [FrameSignal now data cfg]) (push_frame now data cfg vb) ab b"
    using push_frame_keys(2) [of vb]
    by (auto simp: captured_inv_def Let_def push_frame_keys(1) intro!: subseq_snoc_drop subseq_tl)
next
  fix ds vb ab b and now :: nat and xs
  assume "captured_inv ds vb ab b"
  then show "captured_inv (ds @ [SamplesSignal now xs]) vb (push_samples now xs ab) b"
    by (auto simp: captured_inv_def Let_def push_samples_inv
        intro: subseq_push [OF _ push_samples_subseq])
next
  fix ds :: "view_signal list" and vb vb' ab b b' and bo :: "headless_backends viewer_backends" and res
  assume "captured_inv ds vb ab b" "bo = headless_ops" "vo_update bo vb b = Some (res, b', vb')"
  then show "captured_inv ds vb' ab b'"
    by (auto simp: captured_inv_def Let_def capture_frames_eq numbered_keys capture_numbering
        simp del: upt_Suc)
qed (auto simp: captured_inv_def Let_def headless_audio_inv_def captured_samples_def)








section \<open>Properties\<close>



text \<open>A runtime that plays a script: for every poll the event it returns and the callbacks it makes.\<close>

type_synonym scripted = "(bus_event option \<times> view_signal list) list \<times> view_signal list"

fun scripted_poll :: "scripted \<Rightarrow> ((device_error, bus_event option) result \<times> scripted) option" where
  "scripted_poll ([], pending) = Some (Ok None, [], pending)"
| "scripted_poll ((event, sigs) # rest, pending) = Some (Ok event, rest, pending @ sigs)"

definition scripted_take :: "scripted \<Rightarrow> view_signal list \<times> scripted" where
  "scripted_take r = (snd r, fst r, [])"

definition scripted_backend :: "scripted backend" where
  "scripted_backend = \<lparr>
     be_ops = \<lparr>dr_send_host_request = (\<lambda>_ r. Some (Ok (), r)), dr_poll = scripted_poll,
       dr_has_pending_host_request = (\<lambda>_. False)\<rparr>,
     be_reset = (\<lambda>_ r. Some (Ok (), r)), be_describe = (\<lambda>_. ''script''), be_create = (\<lambda>_. None)\<rparr>"

definition example_config :: video_config where
  "example_config = \<lparr>vc_width = 1, vc_height = 1, vc_format = R8\<rparr>"

definition example_viewer :: "scripted headless_viewer" where
  "example_viewer =
    (case sim_viewer_new headless_ops 0 (Ok ([(None, [FrameSignal 5 [1] example_config]),
         (Some (TohostTermination 1), [SamplesSignal 7 [3, 4], FrameSignal 9 [2] example_config])], []))
       headless_backends_new of Inr v \<Rightarrow> v)"

lemmas example_simps = example_viewer_def sim_viewer_new_def headless_backends_new_def
  update_window_title_def base_title_def video_buffer_new_def audio_buffer_new_def
  headless_video_new_def headless_audio_new_def

lemmas step_simps = viewer_step_def and_then_def handle_events_def
  apply_pending_audio_config_updates_def runtime_call_def with_runtime_def scripted_backend_def
  scripted_take_def deliver_all_def video_update_def update_performance_metrics_def
  poll_runtime_events.simps



text \<open>
  C33: what a headless run captures is what the devices presented.  From a new viewer with empty
  headless backends, after an optional load of a program and any run of the main loop, however it ends, the captured frames are a
  subsequence of the frames presented, numbered 0, 1, 2, and so on (modulo \<open>2 ^ 64\<close>); and after
  \<open>update_audio_capture\<close> the audio buffer is empty, every captured chunk carries the number of
  samples before it, and the captured samples are a subsequence of the samples delivered.
\<close>

theorem headless_run_captures:
  assumes "sim_viewer_new headless_ops now (Ok r\<^sub>0) headless_backends_new = Ok v\<^sub>0"
    and "load_and_run be take_signals inputs fmt_ms elf v\<^sub>0 = Some (r, v)"
    and "\<And>n. fst (inputs n) = headless_ops"
  shows "subseq (map capture_key (get_video_frames v)) (frames_of (sv_delivered v)) \<and>
    map cf_sequence (get_video_frames v) = map of_nat [0..<length (get_video_frames v)] \<and>
    (let w = update_audio_capture clock v
     in ab_chunks (sv_audio_buffer w) = [] \<and> offsets_ok 0 (get_audio_chunks w) \<and>
        subseq (concat (map cc_samples (get_audio_chunks w))) (samples_among (sv_delivered v)))"
proof -
  have "capture.holds v\<^sub>0"
    using assms(1)
    by (auto simp: example_simps capture.holds_def captured_inv_def headless_audio_inv_def
        captured_samples_def audio_buffer_new_inv [unfolded audio_buffer_new_def] Let_def)
  then have "capture.holds v" by (rule capture.load_and_run_holds [OF assms(2)]) (rule assms(3))
  then have i: "captured_inv (sv_delivered v) (sv_video_buffer v) (sv_audio_buffer v) (sv_backends v)"
    by (simp add: capture.holds_def)
  obtain a buf where c: "capture_samples clock (sv_audio_buffer v) (hb_audio (sv_backends v)) = (a, buf)"
    by fastforce
  then have a: "headless_audio_inv a" "ab_chunks buf = []"
    "captured_samples a = captured_samples (hb_audio (sv_backends v)) @ buffered (sv_audio_buffer v)"
    using capture_samples_correct [OF _ _ c] i by (auto simp: captured_inv_def Let_def)
  have "subseq (map capture_key (get_video_frames v)) (frames_of (sv_delivered v))"
    using i by (auto simp: captured_inv_def Let_def get_video_frames_def dest: subseq_prefix)
  then show ?thesis
    using i a c by (simp add: captured_inv_def Let_def get_video_frames_def get_audio_chunks_def
        update_audio_capture_def headless_audio_update_def headless_audio_inv_def captured_samples_def)
qed


lemma example_run:
  "\<exists>v. load_and_run scripted_backend scripted_take (\<lambda>_. (headless_ops, empty_env, 0)) (\<lambda>_ _. []) None
      example_viewer = Some (Ok (), v) \<and>
    sv_delivered v = [FrameSignal 5 [1] example_config, SamplesSignal 7 [3, 4],
      FrameSignal 9 [2] example_config] \<and> length (get_video_frames v) = 2"
  by (simp add: example_simps step_simps load_and_run_def viewer_run_def viewer_loop.simps on_runtime_event_def
      capture_frames_eq push_frame_def MAX_VIDEO_FRAMES_def get_video_frames_def Let_def)


lemma headless_run_captures_witness:
  "\<exists>v. load_and_run scripted_backend scripted_take (\<lambda>_. (headless_ops, empty_env, 0)) (\<lambda>_ _. []) None
      example_viewer = Some (Ok (), v) \<and>
    map cf_sequence (get_video_frames v) = [0, 1] \<and>
    subseq (map capture_key (get_video_frames v)) [(5, [1], example_config), (9, [2], example_config)]"
proof -
  obtain v where v: "load_and_run scripted_backend scripted_take (\<lambda>_. (headless_ops, empty_env, 0))
      (\<lambda>_ _. []) None example_viewer = Some (Ok (), v)"
    "sv_delivered v = [FrameSignal 5 [1] example_config, SamplesSignal 7 [3, 4],
      FrameSignal 9 [2] example_config]" "length (get_video_frames v) = 2"
    using example_run by blast
  have n: "sim_viewer_new headless_ops 0 (Ok ([(None, [FrameSignal 5 [1] example_config]),
      (Some (TohostTermination 1), [SamplesSignal 7 [3, 4], FrameSignal 9 [2] example_config])], []))
      headless_backends_new = Ok example_viewer"
    by (simp add: example_viewer_def sim_viewer_new_def)
  have "[0..<2] = [0, 1 :: nat]" by (simp add: upt_rec)
  then show ?thesis
    using headless_run_captures [OF n v(1), where clock = "\<lambda>_. 0"] v by auto
qed

end
