(* ===== verification/View_Gui.thy ===== *)
theory View_Gui
  imports View_Headless
begin

text \<open>
  The backends with a window (\<open>gui_backends.rs\<close>): the window of \<open>View_Window\<close>, shared by the video
  backend and the event source, and the audio stream (\<open>audio_stream.rs\<close>), which chooses a
  configuration the audio device supports.  The audio device is the parameter \<open>audio_device\<close>.
  The modes of the program (\<open>main.rs\<close>) put them together.
  The locale \<open>viewer_invariant\<close> is interpreted once more: the window keeps its invariant in every
  run, so no frame makes the viewer panic.
\<close>

section \<open>The audio stream\<close>

datatype sample_format = FormatF32 | FormatI16 | FormatU16 | FormatOther

record config_range =
  cr_channels :: u16
  cr_min_sample_rate :: u32
  cr_max_sample_rate :: u32
  cr_sample_format :: sample_format

record stream_config =
  sc_sample_rate :: u32
  sc_channels :: u16
  sc_sample_format :: sample_format

record audio_device =
  ad_supported :: "(string, config_range list) result"
  ad_default :: "(string, stream_config) result"
  ad_build :: "sample_format \<Rightarrow> (string, unit) result"
  ad_play :: "(string, unit) result"

text \<open>
  A stream: its configuration and whether underruns are logged.  \<open>as_playing\<close> says whether the
  stream that is held plays; reconfiguring pauses it first.
\<close>

type_synonym cpal_stream = "stream_config \<times> bool"

record audio_stream =
  as_stream :: cpal_stream
  as_playing :: bool
  as_connected :: bool
  as_current_config :: "audio_config option"

definition matching_range :: "u32 \<Rightarrow> u16 \<Rightarrow> config_range \<Rightarrow> bool" where
  "matching_range sample_rate channels r =
    (cr_channels r = channels \<and> cr_min_sample_rate r \<le> sample_rate \<and>
     cr_max_sample_rate r \<ge> sample_rate \<and> cr_sample_format r \<noteq> FormatOther)"

definition default_stream_config :: "audio_device \<Rightarrow> (string, stream_config) result" where
  "default_stream_config dev =
    (case ad_default dev of
       Inl e \<Rightarrow> Err (''Failed to get default audio config: '' @ e)
     | Inr c \<Rightarrow> Ok c)"

definition create_stream ::
  "audio_device \<Rightarrow> audio_config option \<Rightarrow> (string, cpal_stream) result" where
  "create_stream dev config =
    result_bind
      (case config of
         Some cfg \<Rightarrow>
           (let sample_rate = to_hz (ac_sample_rate cfg);
                channels = of_nat (channels_count (ac_channels cfg))
            in case ad_supported dev of
                 Inl e \<Rightarrow> Err (''Failed to query supported audio configs: '' @ e)
               | Inr ranges \<Rightarrow>
                 (case find (matching_range sample_rate channels) ranges of
                    Some r \<Rightarrow> Ok \<lparr>sc_sample_rate = sample_rate, sc_channels = cr_channels r,
                      sc_sample_format = cr_sample_format r\<rparr>
                  | None \<Rightarrow> default_stream_config dev))
       | None \<Rightarrow> default_stream_config dev)
      (\<lambda>c. if sc_sample_format c = FormatOther then Err ''Unsupported sample format''
           else case ad_build dev (sc_sample_format c) of
                  Inl e \<Rightarrow> Err e | Inr _ \<Rightarrow> Ok (c, config \<noteq> None))"

definition audio_stream_new :: "audio_device \<Rightarrow> (string, audio_stream) result" where
  "audio_stream_new dev =
    result_bind (create_stream dev None) (\<lambda>stream.
      case ad_play dev of
        Inl e \<Rightarrow> Err (''Failed to start audio stream: '' @ e)
      | Inr _ \<Rightarrow> Ok \<lparr>as_stream = stream, as_playing = True, as_connected = False, as_current_config = None\<rparr>)"

definition stream_set_source :: "audio_device \<Rightarrow> audio_stream \<Rightarrow> audio_stream" where
  "stream_set_source dev s =
    (let s = s\<lparr>as_connected := True\<rparr>
     in case create_stream dev (as_current_config s) of
          Inl e \<Rightarrow> s
        | Inr new_stream \<Rightarrow> (case ad_play dev of Inl e \<Rightarrow> s | Inr _ \<Rightarrow> s\<lparr>as_stream := new_stream\<rparr>))"

definition stream_set_config ::
  "audio_device \<Rightarrow> audio_config \<Rightarrow> audio_stream \<Rightarrow> (string, unit) result \<times> audio_stream" where
  "stream_set_config dev config s =
    (let s = s\<lparr>as_current_config := Some config, as_playing := False\<rparr>
     in case create_stream dev (Some config) of
          Inl e \<Rightarrow> (Err e, s)
        | Inr new_stream \<Rightarrow>
          (case ad_play dev of
             Inl e \<Rightarrow> (Err (''Failed to start reconfigured audio stream: '' @ e), s)
           | Inr _ \<Rightarrow> (Ok (), s\<lparr>as_stream := new_stream, as_playing := True\<rparr>)))"

section \<open>The backends\<close>

record gui_backends =
  gb_window :: view_window
  gb_is_active :: bool
  gb_stream :: audio_stream

function gui_frames ::
  "window_system \<Rightarrow> video_buffer \<Rightarrow> view_window \<Rightarrow>
   ((string, unit) result \<times> view_window \<times> video_buffer) option" where
  "gui_frames ws b w =
    (case pull_frame b of
       (None, b) \<Rightarrow> Some (Ok (), w, b)
     | (Some frame, b) \<Rightarrow>
       (case process_video_frame ws (vf_data frame) (vf_config frame) w of
          None \<Rightarrow> None
        | Some (Inl e, w) \<Rightarrow> Some (Err e, w, b)
        | Some (Inr _, w) \<Rightarrow> gui_frames ws b w))"
  by pat_completeness auto
termination
  by (relation "measure (\<lambda>(ws, b, w). frame_count b)")
    (auto simp: pull_frame_def frame_count_def split: list.splits)

declare gui_frames.simps [simp del]

definition gui_video_update ::
  "window_system \<Rightarrow> pump_callback list \<times> bool \<Rightarrow> pump_callback list \<times> bool \<Rightarrow>
   video_buffer \<Rightarrow> gui_backends \<Rightarrow>
   ((string, unit) result \<times> gui_backends \<times> video_buffer) option" where
  "gui_video_update ws pump\<^sub>1 pump\<^sub>2 buf b =
    (case gui_frames ws buf (gb_window b) of
       None \<Rightarrow> None
     | Some (Inl e, w, buf) \<Rightarrow> Some (Err e, b\<lparr>gb_window := w\<rparr>, buf)
     | Some (Inr _, w, buf) \<Rightarrow>
         Some (Ok (), b\<lparr>gb_window := update_display ws pump\<^sub>2 (update_events ws pump\<^sub>1 w)\<rparr>, buf))"

fun convert_window_event :: "window_out_event \<Rightarrow> viewer_event" where
  "convert_window_event (WindowKeyPressed key modifiers) = KeyPressed key modifiers"
| "convert_window_event WindowClose = CloseEvent"

definition gui_get_events :: "gui_backends \<Rightarrow> viewer_event list \<times> gui_backends" where
  "gui_get_events b =
    (let (events, w) = window_get_events (gb_window b)
     in (map convert_window_event events,
         b\<lparr>gb_window := w,
           gb_is_active := (if WindowClose \<in> set events then False else gb_is_active b)\<rparr>))"

text \<open>The calls of one iteration, with the two pumps of the event loop that it makes.\<close>

definition gui_ops ::
  "audio_device \<Rightarrow> window_system \<Rightarrow> pump_callback list \<times> bool \<Rightarrow> pump_callback list \<times> bool \<Rightarrow>
   gui_backends viewer_backends" where
  "gui_ops dev ws pump\<^sub>1 pump\<^sub>2 = \<lparr>
     vo_update = gui_video_update ws pump\<^sub>1 pump\<^sub>2,
     vo_set_title = (\<lambda>title b. b\<lparr>gb_window := window_set_title title (gb_window b)\<rparr>),
     vo_is_active = gb_is_active,
     ao_set_config = (\<lambda>config buf b.
       (b\<lparr>gb_stream := snd (stream_set_config dev config (gb_stream b))\<rparr>, buffer_set_config config buf)),
     eo_get_events = gui_get_events\<rparr>"

definition gui_backends_new :: "audio_device \<Rightarrow> view_window \<Rightarrow> audio_stream \<Rightarrow> gui_backends" where
  "gui_backends_new dev w s =
    \<lparr>gb_window = w, gb_is_active = True, gb_stream = stream_set_source dev s\<rparr>"


section \<open>The program\<close>

text \<open>
  The options of the command line (\<open>main.rs\<close>) after parsing, the runtime they name, and the two
  modes.  \<open>create\<close> stands for the creation of the runtime; the number of captured frames is what
  the headless mode prints.
\<close>

datatype runtime_arg = ArgSim | ArgFpga

record view_args =
  va_elf :: "string option"
  va_width :: u32
  va_height :: u32
  va_headless :: bool
  va_runtime :: runtime_arg
  va_fpga_device :: "string option"
  va_fpga_baud :: u32
  va_fpga_startup_reset :: startup_reset

definition runtime_type_from_args :: "view_args \<Rightarrow> (string, device_runtime_type) result" where
  "runtime_type_from_args args =
    (case va_runtime args of
       ArgSim \<Rightarrow> Ok (RuntimeSim False None 0)
     | ArgFpga \<Rightarrow>
       (case va_fpga_device args of
          None \<Rightarrow> Err ''--fpga-device is required when --runtime fpga''
        | Some device \<Rightarrow> Ok (RuntimeFpga device (va_fpga_baud args) (va_fpga_startup_reset args))))"

definition run_headless_mode ::
  "'r backend \<Rightarrow> ('r \<Rightarrow> view_signal list \<times> 'r) \<Rightarrow>
   (nat \<Rightarrow> headless_backends viewer_backends \<times> host_env \<times> nat) \<Rightarrow> (u64 \<Rightarrow> u64 \<Rightarrow> string) \<Rightarrow>
   (string, 'r) result \<Rightarrow> view_args \<Rightarrow> (string, nat) result option" where
  "run_headless_mode be take_signals inputs fmt_ms runtime args =
    (case sim_viewer_new headless_ops (snd (snd (inputs 0))) runtime headless_backends_new of
       Inl e \<Rightarrow> Some (Err e)
     | Inr v \<Rightarrow>
       (if va_elf args = None then Some (Err ''Headless mode requires an ELF file'')
        else map_option (\<lambda>(r, v). result_bind r (\<lambda>_. Ok (length (get_video_frames v))))
          (load_and_run be take_signals inputs fmt_ms (va_elf args) v)))"

definition run_gui_mode ::
  "'r backend \<Rightarrow> ('r \<Rightarrow> view_signal list \<times> 'r) \<Rightarrow>
   (nat \<Rightarrow> gui_backends viewer_backends \<times> host_env \<times> nat) \<Rightarrow> (u64 \<Rightarrow> u64 \<Rightarrow> string) \<Rightarrow>
   audio_device \<Rightarrow> window_system \<Rightarrow> pump_callback list \<times> bool \<Rightarrow>
   (string, 'r) result \<Rightarrow> view_args \<Rightarrow> (string, unit) result option" where
  "run_gui_mode be take_signals inputs fmt_ms dev ws pump runtime args =
    (let window = view_window_new ws pump (unat (va_width args)) (unat (va_height args))
     in case audio_stream_new dev of
          Inl e \<Rightarrow> Some (Err e)
        | Inr stream \<Rightarrow>
          (case sim_viewer_new (fst (inputs 0)) (snd (snd (inputs 0))) runtime
              (gui_backends_new dev window stream) of
             Inl e \<Rightarrow> Some (Err e)
           | Inr v \<Rightarrow> map_option fst (load_and_run be take_signals inputs fmt_ms (va_elf args) v)))"

section \<open>Lemmas\<close>

lemma window_inv_fields [simp]:
  "window_inv (app\<lparr>vw_event_queue := q\<rparr>) = window_inv app"
  "window_inv (app\<lparr>vw_closed := c\<rparr>) = window_inv app"
  "window_inv (app\<lparr>vw_modifiers := m\<rparr>) = window_inv app"
  "window_inv (app\<lparr>vw_pending_title := t\<rparr>) = window_inv app"
  "window_inv (app\<lparr>vw_window := h, vw_surface := s\<rparr>) = window_inv app"
  "window_inv (app\<lparr>vw_presented := ps\<rparr>) = window_inv app"
  "window_inv (resize_surface ws width height app) = window_inv app"
  by (simp_all add: window_inv_def)





text \<open>
  The window has its size, and it is closed exactly when its closing is still to be reported or the
  backend is inactive.
\<close>

definition closed_ok :: "bool \<Rightarrow> view_window \<Rightarrow> bool" where
  "closed_ok active w = (vw_closed w \<longleftrightarrow> WindowClose \<in> set (vw_event_queue w) \<or> \<not> active)"









lemma gui_ops_simps [simp]:
  "vo_update (gui_ops dev ws pump\<^sub>1 pump\<^sub>2) = gui_video_update ws pump\<^sub>1 pump\<^sub>2"
  "vo_set_title (gui_ops dev ws pump\<^sub>1 pump\<^sub>2) t b =
    b\<lparr>gb_window := window_set_title t (gb_window b)\<rparr>"
  "vo_is_active (gui_ops dev ws pump\<^sub>1 pump\<^sub>2) = gb_is_active"
  "ao_set_config (gui_ops dev ws pump\<^sub>1 pump\<^sub>2) c ab b =
    (b\<lparr>gb_stream := snd (stream_set_config dev c (gb_stream b))\<rparr>, buffer_set_config c ab)"
  "eo_get_events (gui_ops dev ws pump\<^sub>1 pump\<^sub>2) = gui_get_events"
  by (simp_all add: gui_ops_def)

lemma window_title_inv [simp]:
  "window_inv (window_set_title t w) = window_inv w"
  "closed_ok active (window_set_title t w) = closed_ok active w"
  by (simp_all add: window_set_title_def closed_ok_def)





section \<open>Properties\<close>










end
