(* ===== verification/Core_Package.thy ===== *)
theory Core_Package
  imports Text_Format "HOL-Library.AList" "HOL-Library.Char_ord" "HOL-Library.List_Lexorder"
begin

text \<open>
  The packager of the Analogue Pocket core (\<open>pkt/src/lib.rs\<close>): it checks the core definition,
  stages the files, reverses the bits of every byte of the bit stream and writes an archive.  What
  the file system holds, the parsed \<open>core.json\<close> and the chunks in which the bit stream is read are
  the parameter \<open>package_source\<close>.  Paths are lists of components; the staging directory is an
  association list from paths to file contents (\<open>None\<close> for a directory), and the archive is the
  list of its entries.
\<close>

section \<open>Errors\<close>

datatype package_error =
    PackageIo string
  | PackageJson string
  | MissingCoreDefinition string
  | MissingBitstreamDefinition
  | MultipleBitstreamDefinitions "string list"
  | InvalidBitstreamFilename string
  | InvalidMetadataField string string
  | InvalidOutputPath string

fun join_with :: "string \<Rightarrow> string list \<Rightarrow> string" where
  "join_with sep [] = []"
| "join_with sep [s] = s"
| "join_with sep (s # t # ts) = s @ sep @ join_with sep (t # ts)"

fun package_error_message :: "package_error \<Rightarrow> string" where
  "package_error_message (PackageIo e) = ''I/O error: '' @ e"
| "package_error_message (PackageJson e) = ''JSON parse error: '' @ e"
| "package_error_message (MissingCoreDefinition path) = ''core definition file not found: '' @ path"
| "package_error_message MissingBitstreamDefinition =
     ''core.json does not define any output bitstream filename''"
| "package_error_message (MultipleBitstreamDefinitions filenames) =
     ''core.json defines multiple unique bitstream filenames, but pkt only accepts one input bitstream: ''
       @ join_with '', '' filenames"
| "package_error_message (InvalidBitstreamFilename filename) =
     ''bitstream filename must be a plain filename ending with .rbf_r for Pocket packaging: '' @ filename"
| "package_error_message (InvalidMetadataField field v) =
     ''core.json metadata field '' @ field @ '' contains an invalid value for packaging paths: '' @ v"
| "package_error_message (InvalidOutputPath path) = ''output path must be a directory: '' @ path"

section \<open>The core definition\<close>









section \<open>Files\<close>

type_synonym path = "string list"









type_synonym staging = "(path \<times> u8 list option) list"


definition add_file :: "path \<Rightarrow> u8 list \<Rightarrow> staging \<Rightarrow> staging" where
  "add_file p content st = AList.update p (Some content) st"















section \<open>Lemmas\<close>




lemma map_of_add_file [simp]:
  "map_of (add_file p c st) = (map_of st)(p \<mapsto> Some c)"
  by (simp add: add_file_def update_conv')










section \<open>Properties\<close>





end
