(* ===== verification/Spec2Isabelle.thy ===== *)
theory Spec2Isabelle
  imports Bus_Dma Host_Bus_Session Insn_Disasm Insn_Compressed Vcd_Handlers Host_Console Host_Memtest View_Gui Core_Package
begin

text \<open>
  Verification of the software around a RISC-V system on an FPGA (\<open>ai-rust-hw-dev\<close>).

  The program.  A RISC-V core with RTL peripherals runs on an FPGA board or, Verilated, in a
  simulator.  The lower half of its address space belongs to the RTL peripherals; the upper half
  (DRAM, simulation control, DMA, video, audio, FIFO) is served by the host, in Rust, on a simulated
  system bus.  Target and host exchange requests and responses as packets on a byte stream, the host
  bus: the serial line of the board, or two byte-wide ports of the simulated top module.  A
  \<open>DeviceRuntime\<close> hides which of the two is used: a background thread owns the bus and the protocol
  handler, the main thread sends requests and polls for events.  On top of it an interactive shell
  (\<open>fpga-host\<close>) and a viewer with video and audio output (\<open>sim-view\<close>) run programs on the target.
  Beside them there are the instruction encoders, the trace decoder and the disassembler
  (\<open>riscv_core\<close>), a server that answers questions about waveform files (\<open>vcd-mcp\<close>), a packager for
  the core's bit stream (\<open>pkt\<close>), and a library for programs on the target (\<open>riscv_shared\<close>).

  How the code is modelled.  A struct is a record, an enum a datatype, a function or method a HOL
  function that returns the changed state; the names are those of the code, with a prefix or suffix
  where two would clash.  Machine integers are words of their width, \<open>usize\<close> values are naturals
  where nothing can overflow, and arithmetic wraps where a release build wraps.  A \<open>Result\<close> is a sum
  with the error on the left; a panic is \<^term>\<open>None\<close> of an outer option; a loop that may wait forever is a
  partial function into an option, where \<^term>\<open>None\<close> means that it does not return, and the claims
  that such a loop returns are proved as such, under a schedule that lets the other thread run.  No
  definition uses fuel: loops that end have a measure.  Threads are explicit sequences of steps,
  callbacks are logs of what they received.  Characters are bytes.
  What is not in the repository is an argument of the definitions: the Verilated CPU model, the
  serial port, the clock, the scheduling of the threads, files, the event stream of the \<open>vcd\<close> crate,
  the word splitting and matching of the command line, the decoding of UTF-8, the printing of
  floating-point numbers, the window and audio libraries.  The theorems hold for all of their
  behaviours, or for those that a named hypothesis describes.

  The system bus (\<open>bus-shared\<close>, \<open>riscv_shared\<close>).
  \<open>Address_Map\<close> holds the memory map (\<open>riscv_shared/src/bus.rs\<close>), \<open>Media_Config\<close> the register encodings
  of video and audio, \<open>Memory_Model\<close> the sparse memory and the locale \<open>byte_memory\<close>, \<open>Bus_Device\<close> the
  device trait, the \<open>SystemContext\<close> and the locale \<open>bus_device\<close>, the contract every device keeps.
  \<open>Simple_Devices\<close> (DRAM, SimControl, FIFO), \<open>Dma_Engine\<close>, \<open>Video_Device\<close> and \<open>Audio_Device\<close> are the
  devices; the latter two share the locale \<open>chunk_engine\<close> of \<open>Chunk_Engine\<close>.  \<open>System_Bus\<close> is the bus
  (\<open>bus.rs\<close>): every reachable bus has disjoint windows, routing is unique and total, every operation
  returns except for an unmapped RTL address, and DRAM is one byte memory.  \<open>Bus_Dma\<close> runs the driver
  (\<open>riscv_shared/src/dma.rs\<close>) on the bus: a transfer copies its block in exactly as many cycles as
  bytes.

  The host bus (\<open>bus-shared/src/host_bus_handler.rs\<close>).
  \<open>Host_Bus\<close> is the handler with its receive and transmit state machines, \<open>Host_Bus_Framing\<close> shows that
  a packet is received as it was encoded, after any noise, \<open>Host_Bus_Session\<close> that two handlers
  exchange a request and its response unchanged, what is refused and why, and what every reachable
  state satisfies.

  The runtimes (\<open>device-runtime\<close>).
  \<open>Runtime_Requests\<close> has errors, events, routing and the processing of one request on the bus;
  \<open>Runtime_Client\<close> the operations derived from the three calls of a backend (memory regions, programs,
  ELF files, booting), with the locale \<open>region_runtime\<close> that says what they rely on.
  \<open>Fpga_Runtime\<close> is \<open>fpga.rs\<close>, \<open>Fpga_Safety\<close> its invariant under all interleavings, \<open>Fpga_Client\<close> the
  interpretation of \<open>region_runtime\<close> on it and the end of every request by its deadline.
  \<open>Hung_Detector\<close> (\<open>hung_detector.rs\<close>), \<open>Sim_Core\<close> (\<open>sim_core.rs\<close>) and \<open>Sim_Runtime\<close> (\<open>sim.rs\<close>) are the
  simulator; \<open>Sim_Safety\<close> has its invariants and exact latencies for every CPU model, \<open>Sim_Client\<close> the
  second interpretation of \<open>region_runtime\<close>, the agreement of both backends, and the failure of every
  request after one that timed out.  \<open>Runtime_Safety\<close> holds what both share.

  The shell (\<open>fpga-host\<close>).
  \<open>Host_App\<close> is the state of \<open>app.rs\<close>, \<open>Host_Shell\<close> the commands of \<open>shell.rs\<close>, the keys and one turn of
  the main loop, for any backend.  \<open>Host_Console\<close> shows the bounds of log, history and line channel in
  every reachable state and the order of the printed lines, \<open>Host_Numbers\<close> that printed numbers read
  back, \<open>Host_Memtest\<close> that the memory test is sound and passes on both backends.

  The viewer (\<open>sim-view\<close>) and the media routines of programs.
  \<open>Pixel_Path\<close> has the pixel and sample routines of \<open>riscv_shared\<close>, \<open>View_Window\<close> the window with its
  pixel formats: a pixel written by a program arrives in the window after one present operation of
  the video device.  \<open>View_Buffers\<close> has the shared buffers, the headless outputs and the filling of an
  audio buffer, \<open>View_Viewer\<close> the viewer over any runtime and any backends.  \<open>View_Headless\<close> states
  which predicates the main loop preserves (locales \<open>viewer_calls\<close> and \<open>viewer_invariant\<close>) and
  interprets them on the headless backends, for what a run and what an iteration captures;
  \<open>View_Gui\<close> interprets them on the window backends, adds the audio stream and the two modes of
  \<open>main.rs\<close>.

  Instructions (\<open>riscv_core\<close>, \<open>rtl/common/cpu/decompress.sv\<close>).
  \<open>Insn_Encode\<close> has every encoder, \<open>Insn_Fields\<close> the fields of what they build, \<open>Insn_Decode\<close> the trace
  decoder, which recovers the operands of every encoder, \<open>Insn_Disasm\<close> the disassembler and its
  agreement with the decoder, \<open>Insn_Compressed\<close> the hardware decompressor, which expands every
  compressed encoding to its base instruction.

  Waveforms (\<open>vcd-mcp\<close>).
  \<open>Vcd_Analysis\<close> parses and queries (\<open>domain.rs\<close>), \<open>Vcd_Queries\<close> relates the answers to the changes in
  the file, \<open>Vcd_Cache\<close> is the cache of parsed files under concurrent tasks, \<open>Vcd_Handlers\<close> the tools.

  The packager (\<open>pkt\<close>) is \<open>Core_Package\<close>.  \<open>Hw_Prelude\<close> and \<open>Text_Format\<close> hold the shared vocabulary:
  integer operations, bytes, results, printing of numbers, and the lemma collections.

  Bounds.  The theorems about the host bus hold for bursts of up to the code's limit of 65536 beats,
  those about regions for any region of DRAM, those about video for all sizes the register can
  hold; counters of cycles, requests and frames wrap at their width.

  Not modelled.  The RTL apart from the decompressor (the CPU is a parameter), the declarations that
  bind Verilog modules (\<open>riscv_core/src/lib.rs\<close>), drawing (\<open>ui.rs\<close>), the registration of the waveform
  tools and their JSON (\<open>vcd-mcp/src/main.rs\<close>), argument parsing and logging, the creation of a
  runtime from its type (\<open>create_device_runtime\<close>), the allocation failures of \<open>audio.rs\<close>, and the test
  programs and test benches, which are clients of the code modelled here.
\<close>

end
